(* ===== verification/Rust_Prelude.thy ===== *)
theory Rust_Prelude
  imports Main "HOL-Library.Word" "HOL-Library.Monad_Syntax"
begin

unbundle bit_operations_syntax

text \<open>
  What the components share: the machine integers of Rust as fixed-width words, panics as
  the failure of the option monad, the arithmetic operators with Rust's overflow checks, and
  lemmas on words and sorted lists.

  A Rust function that may panic returns a value of type \<open>'a rust\<close>: \<open>ret x\<close> when it
  returns \<open>x\<close>, \<open>panic\<close> when it panics. Arithmetic that overflows panics (the behaviour of
  a build with overflow checks); a theorem that an operation returns therefore also says
  that none of its additions, subtractions and multiplications wraps around, so that the
  result is the same in a build without the checks. Rust's own \<open>Option\<close> is \<open>option\<close> and its
  \<open>Result<T, E>\<close> is the sum \<open>'e + 'a\<close> with \<open>Inl\<close> for \<open>Err\<close>.
\<close>

section \<open>Types\<close>

type_synonym u8 = "8 word"
type_synonym u16 = "16 word"
type_synonym u32 = "32 word"
type_synonym u64 = "64 word"

type_synonym 'a rust = "'a option"

abbreviation (input) ret :: "'a \<Rightarrow> 'a rust" where "ret \<equiv> Some"
abbreviation (input) panic :: "'a rust" where "panic \<equiv> None"

abbreviation u64_MAX :: u64 where "u64_MAX \<equiv> - 1"

named_theorems word_nat \<open>order and exact arithmetic of words, read as natural numbers\<close>

section \<open>Integer operators\<close>

definition checked_add :: "'a::len word \<Rightarrow> 'a word \<Rightarrow> 'a word option" where
  "checked_add a b = (if unat a + unat b < 2 ^ LENGTH('a) then Some (a + b) else None)"

definition checked_sub :: "'a::len word \<Rightarrow> 'a word \<Rightarrow> 'a word option" where
  "checked_sub a b = (if b \<le> a then Some (a - b) else None)"

definition checked_mul :: "'a::len word \<Rightarrow> 'a word \<Rightarrow> 'a word option" where
  "checked_mul a b = (if unat a * unat b < 2 ^ LENGTH('a) then Some (a * b) else None)"

text \<open>The operators \<open>+\<close>, \<open>-\<close> and \<open>*\<close> of the source: they panic where the checked ones give
  \<open>None\<close>.\<close>

abbreviation uadd :: "'a::len word \<Rightarrow> 'a word \<Rightarrow> 'a word rust" where
  "uadd a b \<equiv> checked_add a b"

abbreviation usub :: "'a::len word \<Rightarrow> 'a word \<Rightarrow> 'a word rust" where
  "usub a b \<equiv> checked_sub a b"

abbreviation umul :: "'a::len word \<Rightarrow> 'a word \<Rightarrow> 'a word rust" where
  "umul a b \<equiv> checked_mul a b"

lemmas word_order_nat [word_nat] = word_le_nat_alt word_less_nat_alt unat_sub_if'

lemma unat_less_exp [simp]: "unat (a :: 'a::len word) < 2 ^ LENGTH('a)"
  by (rule unsigned_less)

lemma unat_u64_MAX [simp]: "unat u64_MAX = 18446744073709551615"
  by (simp add: unsigned_minus_1_eq_mask mask_eq_exp_minus_1)

lemma u64_le_MAX [simp]: "(a :: u64) \<le> u64_MAX"
  by simp

lemma u64_less_MAX_iff [simp]: "(a :: u64) < u64_MAX \<longleftrightarrow> a \<noteq> u64_MAX"
  using word_order.not_eq_extremum by auto

lemma u64_MAX_le_iff [simp]: "u64_MAX \<le> (a :: u64) \<longleftrightarrow> a = u64_MAX"
  using word_order.extremum_unique by auto

lemma unat_u64_bound [simp]: "unat (a :: u64) \<le> 18446744073709551615"
  using unat_less_exp [of a] by simp

lemma checked_add_Some:
  "checked_add a b = Some (c :: 'a::len word) \<longleftrightarrow>
     unat a + unat b < 2 ^ LENGTH('a) \<and> c = a + b"
  by (auto simp: checked_add_def)

lemma checked_add_Some_unat: "checked_add a b = Some c \<Longrightarrow> unat c = unat a + unat b"
  by (auto simp: checked_add_Some unat_word_ariths)

lemma checked_sub_Some:
  "checked_sub a b = Some (c :: 'a::len word) \<longleftrightarrow> b \<le> a \<and> c = a - b"
  by (auto simp: checked_sub_def)

lemma checked_sub_Some_unat: "checked_sub a b = Some c \<Longrightarrow> unat c = unat a - unat b"
  by (auto simp: checked_sub_Some unat_sub)

lemma checked_mul_Some_unat: "checked_mul a b = Some c \<Longrightarrow> unat c = unat a * unat b"
  by (auto simp: checked_mul_def unat_word_ariths split: if_splits)

text \<open>Operations that do not overflow.\<close>

lemma checked_ok:
  fixes a b :: "'a::len word"
  shows "unat a + unat b < 2 ^ LENGTH('a) \<Longrightarrow> \<exists>c. checked_add a b = Some c \<and> unat c = unat a + unat b"
    "unat b \<le> unat a \<Longrightarrow> \<exists>c. checked_sub a b = Some c \<and> unat c = unat a - unat b"
    "unat a * unat b < 2 ^ LENGTH('a) \<Longrightarrow> \<exists>c. checked_mul a b = Some c \<and> unat c = unat a * unat b"
proof -
  show "\<exists>c. checked_add a b = Some c \<and> unat c = unat a + unat b" if "unat a + unat b < 2 ^ LENGTH('a)"
    using that by (intro exI [of _ "a + b"]) (simp add: checked_add_def unat_word_ariths)
  show "\<exists>c. checked_sub a b = Some c \<and> unat c = unat a - unat b" if "unat b \<le> unat a"
    using that by (intro exI [of _ "a - b"]) (simp add: checked_sub_def word_le_nat_alt unat_sub)
  show "\<exists>c. checked_mul a b = Some c \<and> unat c = unat a * unat b" if "unat a * unat b < 2 ^ LENGTH('a)"
    using that by (intro exI [of _ "a * b"]) (simp add: checked_mul_def unat_word_ariths)
qed

text \<open>Casts between widths.\<close>

lemma ucast_down_up:
  fixes x :: "'b::len word"
  assumes "unat x < 2 ^ LENGTH('a::len)"
  shows "ucast (ucast x :: 'a word) = x"
  using assms
  by (simp add: word_unat_eq_iff unsigned_ucast_eq unsigned_take_bit_eq take_bit_nat_eq_self)

lemma unat_up: "LENGTH('a::len) \<le> LENGTH('b::len) \<Longrightarrow> unat (ucast (x :: 'a word) :: 'b word) = unat x"
  by (simp add: unsigned_ucast_eq take_bit_nat_eq_self_iff order_less_le_trans [OF unat_less_exp])

lemma ucast_up_down:
  fixes x :: "'a::len word"
  assumes "LENGTH('a) \<le> LENGTH('b::len)"
  shows "ucast (ucast x :: 'b word) = x"
proof (rule word_unat_eq_iff [THEN iffD2])
  have "unat (ucast (ucast x :: 'b word) :: 'a word) = take_bit LENGTH('a) (unat (ucast x :: 'b word))"
    by (rule unsigned_ucast_eq)
  also have "\<dots> = unat x" using unat_up [OF assms, of x] by (simp add: take_bit_nat_eq_self)
  finally show "unat (ucast (ucast x :: 'b word) :: 'a word) = unat x" .
qed

text \<open>Neighbours of a word.\<close>

lemma unat_pred: "0 < v \<Longrightarrow> unat (v - 1) = unat (v :: 'a::len word) - 1"
  by (rule unat_minus_one) auto

lemma word_pos_unat: "0 < (v :: 'a::len word) \<longleftrightarrow> 0 < unat v"
  by (simp add: word_less_nat_alt)

lemma unat_u64_succ: "w \<noteq> u64_MAX \<Longrightarrow> unat (w + 1) = unat w + 1"
  using unatSuc [of w] by (metis add.commute add_eq_0_iff Suc_eq_plus1)

lemma word_le_pred_iff: "0 < v \<Longrightarrow> a \<le> v - 1 \<longleftrightarrow> a < (v :: 'a::len word)"
  using word_pos_unat [of v] by (auto simp: word_le_nat_alt word_less_nat_alt unat_pred)

lemma u64_succ_le_iff: "w \<noteq> u64_MAX \<Longrightarrow> w + 1 \<le> a \<longleftrightarrow> w < (a :: u64)"
  by (auto simp: word_le_nat_alt word_less_nat_alt unat_u64_succ)

lemma u64_less_succ: "w \<noteq> u64_MAX \<Longrightarrow> w < w + (1 :: u64)"
  using u64_succ_le_iff [of w "w + 1"] by simp

lemma u64_succ_eqI: "w \<noteq> u64_MAX \<Longrightarrow> w < b \<Longrightarrow> b \<le> w + 1 \<Longrightarrow> b = w + (1 :: u64)"
  by (simp add: u64_succ_le_iff order_antisym)

lemma usub_1 [simp]: "0 < v \<Longrightarrow> usub v 1 = Some (v - (1 :: 'a::len word))"
  by (auto simp: checked_sub_def word_le_nat_alt word_pos_unat)

lemma uadd_1 [simp]: "w \<noteq> u64_MAX \<Longrightarrow> uadd w 1 = Some (w + 1)"
  using unat_u64_succ [of w] unat_u64_bound [of "w + 1"] by (auto simp: checked_add_def)

section \<open>Lists\<close>

lemma find_Some_in: "find P xs = Some x \<Longrightarrow> x \<in> set xs \<and> P x"
  by (auto simp: find_Some_iff)

lemma find_append:
  "find P (xs @ ys) = (case find P xs of None \<Rightarrow> find P ys | Some x \<Rightarrow> Some x)"
  by (induction xs) auto

section \<open>Powers of two and alignment\<close>

text \<open>\<open>a & (a - 1) == 0\<close> holds exactly for the powers of two, and masking the low bits off
  rounds down to the alignment.\<close>

lemma word_and_minus_one_exp:
  assumes "a AND (a - 1) = (0 :: 'a::len word)" "a \<noteq> 0"
  shows "\<exists>n < LENGTH('a). a = 2 ^ n"
proof -
  obtain n where n: "bit a n" "n < LENGTH('a)" and least: "\<And>m. m < n \<Longrightarrow> \<not> bit a m"
  proof -
    have ex: "\<exists>n. bit a n"
      using assms(2) by (auto simp: bit_eq_iff)
    let ?n = "LEAST n. bit a n"
    have b: "bit a ?n"
      using ex by (rule LeastI_ex)
    moreover have "?n < LENGTH('a)"
      using b by (rule bit_imp_le_length)
    moreover have "\<And>m. m < ?n \<Longrightarrow> \<not> bit a m"
      by (rule not_less_Least)
    ultimately show ?thesis by (rule that)
  qed
  let ?h = "a AND NOT (mask (Suc n))"
  have split: "a = ?h OR 2 ^ n"
  proof (rule bit_word_eqI)
    fix m assume "m < LENGTH('a)"
    then show "bit a m = bit (?h OR 2 ^ n) m"
      using n least [of m] by (cases "m < n") (auto simp: bit_simps not_less less_Suc_eq)
  qed
  have low: "?h AND (2 ^ n) = 0" "?h AND mask n = 0"
    by (auto intro!: bit_word_eqI simp: bit_simps)
  have "a = ?h + 2 ^ n"
    using split low(1) by (simp add: disjunctive_add_eq_or)
  then have "a - 1 = ?h + mask n"
    by (simp add: mask_eq_exp_minus_1 algebra_simps)
  then have m1: "a - 1 = ?h OR mask n"
    using low(2) by (simp add: disjunctive_add_eq_or)
  have "a AND (a - 1) = ?h"
    unfolding m1 by (intro bit_word_eqI) (auto simp: bit_simps dest: least)
  with assms(1) split have "a = 2 ^ n" by simp
  with n show ?thesis by blast
qed

lemma unat_and_not_mask:
  fixes v :: "'a::len word"
  shows "unat (v AND NOT (mask n)) = unat v - unat v mod 2 ^ n"
proof -
  have "v = (v AND NOT (mask n)) + take_bit n v"
    by (subst disjunctive_add_eq_or) (auto simp: bit_eq_iff bit_simps)
  then have eq: "v AND NOT (mask n) = v - take_bit n v"
    by (simp add: algebra_simps)
  have t: "unat (take_bit n v) = unat v mod 2 ^ n"
    by (simp add: unsigned_take_bit_eq flip: take_bit_eq_mod)
  then have "take_bit n v \<le> v"
    by (simp add: word_le_nat_alt)
  then show ?thesis
    by (simp add: eq unat_sub t)
qed

lemma unat_exp: "n < LENGTH('a) \<Longrightarrow> unat (2 ^ n :: 'a::len word) = 2 ^ n"
  using unat_of_nat [of "2 ^ n", where 'a = 'a] by simp

text \<open>Rounding up to a power of two: the result is a multiple of it, is not below the
  argument and lies less than one unit above it.\<close>

lemma align_up:
  fixes v a :: "'a::len word"
  assumes pow: "a AND (a - 1) = 0" "a \<noteq> 0" and add: "checked_add v (a - 1) = Some w"
  shows "unat (w AND NOT (a - 1)) mod unat a = 0"
    and "unat v \<le> unat (w AND NOT (a - 1))"
    and "unat (w AND NOT (a - 1)) < unat v + unat a"
proof -
  obtain n where n: "n < LENGTH('a)" "a = 2 ^ n"
    using word_and_minus_one_exp [OF pow] by blast
  have ua: "unat a = 2 ^ n"
    using n unat_exp [of n, where 'a = 'a] by simp
  have "a - 1 = mask n"
    by (simp add: n mask_eq_exp_minus_1)
  then have r: "unat (w AND NOT (a - 1)) = unat w - unat w mod 2 ^ n"
    by (simp add: unat_and_not_mask)
  have w: "unat w = unat v + (2 ^ n - 1)"
    using checked_add_Some_unat [OF add] pow(2) ua by (simp add: unat_minus_one)
  have lt: "unat w mod 2 ^ n < 2 ^ n" by simp
  show "unat (w AND NOT (a - 1)) mod unat a = 0"
    by (simp add: r ua minus_mod_eq_mult_div)
  show "unat v \<le> unat (w AND NOT (a - 1))"
    using lt unfolding r w by linarith
  show "unat (w AND NOT (a - 1)) < unat v + unat a"
    unfolding r w ua using zero_less_power [of "2::nat" n] by linarith
qed

section \<open>Bytes\<close>

text \<open>The little-endian bytes of a word, and the word of some bytes.\<close>

definition le_bytes :: "nat \<Rightarrow> 'a::len word \<Rightarrow> u8 list" where
  "le_bytes n w = map (\<lambda>i. ucast (drop_bit (8 * i) w)) [0..<n]"

fun le_word :: "u8 list \<Rightarrow> 'a::len word" where
  "le_word [] = 0"
| "le_word (b # bs) = ucast b OR push_bit 8 (le_word bs)"

lemma length_le_bytes [simp]: "length (le_bytes n w) = n"
  by (simp add: le_bytes_def)

lemma le_bytes_Suc: "le_bytes (Suc n) w = ucast w # le_bytes n (drop_bit 8 w)"
  by (simp add: le_bytes_def map_upt_Suc add.commute del: upt_Suc)

lemma le_word_le_bytes: "le_word (le_bytes n w) = take_bit (8 * n) (w :: 'a::len word)"
proof (induction n arbitrary: w)
  case (Suc n)
  have "ucast (ucast w :: u8) OR push_bit 8 (take_bit (8 * n) (drop_bit 8 w)) = take_bit (8 * Suc n) w"
    by (rule bit_word_eqI) (auto simp: bit_simps)
  with Suc show ?case by (simp add: le_bytes_Suc)
qed (simp add: le_bytes_def)

lemma le_word_bytes: "LENGTH('a) \<le> 8 * n \<Longrightarrow> le_word (le_bytes n (w :: 'a::len word)) = w"
  by (simp add: le_word_le_bytes take_bit_word_eq_self)

end
