(* ===== verification/Alloc_Range.thy ===== *)
theory Alloc_Range
  imports Rust_Prelude
begin

text \<open>
  The allocation constraints of \<open>dbs_allocator/src/lib.rs\<close> and the closed ranges \<open>[min, max]\<close>
  of \<open>dbs_allocator/src/interval_tree.rs\<close>, with every panic of their constructors.
\<close>

section \<open>Allocation constraints\<close>

datatype alloc_error = InvalidBoundary u64 u64

datatype AllocPolicy = Default | FirstMatch

record Constraint =
  c_size :: u64
  c_min :: u64
  c_max :: u64
  c_align :: u64
  c_policy :: AllocPolicy

definition Constraint_new :: "u64 \<Rightarrow> Constraint" where
  "Constraint_new sz =
     \<lparr>c_size = sz, c_min = 0, c_max = u64_MAX, c_align = 1, c_policy = Default\<rparr>"

definition Constraint_min :: "Constraint \<Rightarrow> u64 \<Rightarrow> Constraint" where
  "Constraint_min self mn = self\<lparr>c_min := mn\<rparr>"

definition Constraint_max :: "Constraint \<Rightarrow> u64 \<Rightarrow> Constraint" where
  "Constraint_max self mx = self\<lparr>c_max := mx\<rparr>"

definition Constraint_align :: "Constraint \<Rightarrow> u64 \<Rightarrow> Constraint" where
  "Constraint_align self align = self\<lparr>c_align := align\<rparr>"

definition Constraint_policy :: "Constraint \<Rightarrow> AllocPolicy \<Rightarrow> Constraint" where
  "Constraint_policy self policy = self\<lparr>c_policy := policy\<rparr>"

definition Constraint_validate :: "Constraint \<Rightarrow> alloc_error + unit" where
  "Constraint_validate self =
     (if c_max self < c_min self then Inl (InvalidBoundary (c_min self) (c_max self))
      else Inr ())"

lemmas Constraint_defs =
  Constraint_new_def Constraint_min_def Constraint_max_def Constraint_align_def
  Constraint_policy_def

section \<open>Ranges\<close>

record Range =
  rmin :: u64
  rmax :: u64

text \<open>\<open>std::cmp::Ordering\<close>.\<close>

datatype Ordering = Less | Equal | Greater

definition u64_cmp :: "u64 \<Rightarrow> u64 \<Rightarrow> Ordering" where
  "u64_cmp a b = (if a < b then Less else if a = b then Equal else Greater)"

definition Range_new :: "u64 \<Rightarrow> u64 \<Rightarrow> Range rust" where
  "Range_new umin umax =
     (if umin > umax \<or> (umin = 0 \<and> umax = u64_MAX) then panic
      else ret \<lparr>rmin = umin, rmax = umax\<rparr>)"

definition Range_with_size :: "u64 \<Rightarrow> u64 \<Rightarrow> Range rust" where
  "Range_with_size base sz = do {
     umax \<leftarrow> checked_add sz base;
     if base > umax \<or> (base = 0 \<and> umax = u64_MAX) then panic
     else ret \<lparr>rmin = base, rmax = umax\<rparr>
   }"

definition Range_new_point :: "u64 \<Rightarrow> Range" where
  "Range_new_point val = \<lparr>rmin = val, rmax = val\<rparr>"

definition Range_len :: "Range \<Rightarrow> u64 rust" where
  "Range_len self = do { d \<leftarrow> usub (rmax self) (rmin self); uadd d 1 }"

definition Range_is_empty :: "Range \<Rightarrow> bool" where
  "Range_is_empty self = False"

definition Range_intersect :: "Range \<Rightarrow> Range \<Rightarrow> bool" where
  "Range_intersect self other \<longleftrightarrow>
     max (rmin self) (rmin other) \<le> min (rmax self) (rmax other)"

definition Range_contain :: "Range \<Rightarrow> Range \<Rightarrow> bool" where
  "Range_contain self other \<longleftrightarrow> rmin self \<le> rmin other \<and> rmax self \<ge> rmax other"

definition Range_align_to :: "Range \<Rightarrow> u64 \<Rightarrow> Range option rust" where
  "Range_align_to self align =
     (if align = 0 \<or> align = 1 then ret (Some self)
      else if align AND (align - 1) \<noteq> 0 then ret None
      else case map_option (\<lambda>v. v AND NOT (align - 1)) (checked_add (rmin self) (align - 1)) of
             Some mn \<Rightarrow>
               if mn \<le> rmax self then map_option Some (Range_new mn (rmax self))
               else ret None
           | None \<Rightarrow> ret None)"

definition Range_cmp :: "Range \<Rightarrow> Range \<Rightarrow> Ordering" where
  "Range_cmp self other =
     (case u64_cmp (rmin self) (rmin other) of
        Equal \<Rightarrow> u64_cmp (rmax self) (rmax other)
      | res \<Rightarrow> res)"

definition Range_partial_cmp :: "Range \<Rightarrow> Range \<Rightarrow> Ordering option" where
  "Range_partial_cmp self other =
     (case u64_cmp (rmin self) (rmin other) of
        Equal \<Rightarrow> Some (u64_cmp (rmax self) (rmax other))
      | res \<Rightarrow> Some res)"

section \<open>Well-formed ranges\<close>

text \<open>What \<open>Range::new\<close> accepts. \<open>addrs\<close> is the set of integers a range stands for.\<close>

definition valid_range :: "Range \<Rightarrow> bool" where
  "valid_range r \<longleftrightarrow> rmin r \<le> rmax r \<and> \<not> (rmin r = 0 \<and> rmax r = u64_MAX)"

definition addrs :: "Range \<Rightarrow> u64 set" where
  "addrs r = {rmin r..rmax r}"

definition before :: "Range \<Rightarrow> Range \<Rightarrow> bool" where
  "before r s \<longleftrightarrow> rmax r < rmin s"

text \<open>The alignments \<open>align_to\<close> accepts, and the addresses they admit.\<close>

definition align_ok :: "u64 \<Rightarrow> bool" where
  "align_ok a \<longleftrightarrow> a AND (a - 1) = 0"

definition aligned :: "u64 \<Rightarrow> u64 \<Rightarrow> bool" where
  "aligned v a \<longleftrightarrow> a = 0 \<or> unat v mod unat a = 0"

lemma Range_new_ret_iff:
  "Range_new a b = Some r \<longleftrightarrow> r = \<lparr>rmin = a, rmax = b\<rparr> \<and> valid_range r"
  by (auto simp: Range_new_def valid_range_def)

lemma Range_new_valid [simp]:
  "a \<le> b \<Longrightarrow> 0 < a \<or> b \<noteq> u64_MAX \<Longrightarrow> Range_new a b = Some \<lparr>rmin = a, rmax = b\<rparr>"
  by (auto simp: Range_new_def)

lemma Range_new_same [simp]: "Range_new v v = Some \<lparr>rmin = v, rmax = v\<rparr>"
  by (auto simp: Range_new_def)

lemma addrs_nonempty: "valid_range r \<Longrightarrow> rmin r \<in> addrs r" "valid_range r \<Longrightarrow> rmax r \<in> addrs r"
  by (auto simp: valid_range_def addrs_def)

lemma Range_intersect_iff:
  assumes "valid_range r" "valid_range s"
  shows "Range_intersect r s \<longleftrightarrow> addrs r \<inter> addrs s \<noteq> {}"
proof -
  have "addrs r \<inter> addrs s = {max (rmin r) (rmin s)..min (rmax r) (rmax s)}"
    by (simp add: addrs_def)
  then show ?thesis
    by (simp add: Range_intersect_def del: min.bounded_iff max.bounded_iff)
qed

lemma Range_contain_iff:
  "valid_range s \<Longrightarrow> Range_contain r s \<longleftrightarrow> addrs s \<subseteq> addrs r"
  by (auto simp: valid_range_def Range_contain_def addrs_def)

lemma Range_intersect_mono:
  assumes "Range_intersect r s" "lo \<le> rmin s" "rmax s \<le> hi"
  shows "Range_intersect r \<lparr>rmin = lo, rmax = hi\<rparr>"
proof -
  have "rmin r \<le> rmax r" "rmin r \<le> rmax s" "rmin s \<le> rmax r" "rmin s \<le> rmax s"
    using assms(1) by (simp_all add: Range_intersect_def)
  with assms(2,3) show ?thesis by (simp add: Range_intersect_def) (meson order_trans)
qed

lemma not_intersect_before:
  assumes "valid_range r" "valid_range s"
  shows "\<not> Range_intersect r s \<longleftrightarrow> before r s \<or> before s r"
  using assms by (auto simp: valid_range_def Range_intersect_def before_def)

lemma before_trans: "before r s \<Longrightarrow> valid_range s \<Longrightarrow> before s t \<Longrightarrow> before r t"
  by (auto simp: before_def valid_range_def)

lemma before_asym: "before r s \<Longrightarrow> valid_range r \<Longrightarrow> valid_range s \<Longrightarrow> \<not> before s r"
  by (auto simp: before_def valid_range_def)

lemma before_irrefl [simp]: "valid_range r \<Longrightarrow> \<not> before r r"
  by (auto simp: before_def valid_range_def)

lemma Range_cmp_Equal [simp]: "Range_cmp r s = Equal \<longleftrightarrow> r = s"
  by (cases r; cases s) (auto simp: Range_cmp_def u64_cmp_def)

lemma Range_cmp_refl [simp]: "Range_cmp r r = Equal"
  by simp

lemma Range_cmp_before:
  assumes "valid_range r" "valid_range s"
  shows "before r s \<Longrightarrow> Range_cmp r s = Less" and "before s r \<Longrightarrow> Range_cmp r s = Greater"
  using assms by (auto simp: valid_range_def before_def Range_cmp_def u64_cmp_def)

lemma Range_cmp_Less:
  assumes "Range_cmp r s = Less" "valid_range r" "valid_range s"
  shows "Range_intersect r s \<or> before r s"
  using assms Range_cmp_before(2) [of r s] not_intersect_before [of r s] by auto

lemma Range_cmp_Greater:
  assumes "Range_cmp r s = Greater" "valid_range r" "valid_range s"
  shows "Range_intersect r s \<or> before s r"
  using assms Range_cmp_before(1) [of r s] not_intersect_before [of r s] by auto

lemma Range_len_valid:
  assumes "valid_range r"
  obtains n where "Range_len r = Some n" "unat n = unat (rmax r) - unat (rmin r) + 1"
proof -
  have le: "rmin r \<le> rmax r" using assms by (simp add: valid_range_def)
  have "unat (rmax r) - unat (rmin r) < 18446744073709551615"
  proof (cases "rmin r = 0")
    case True
    then have "rmax r < u64_MAX" using assms by (simp add: valid_range_def)
    then have "unat (rmax r) < 18446744073709551615" by (simp only: word_less_nat_alt unat_u64_MAX)
    then show ?thesis by simp
  next
    case False
    then have "0 < unat (rmin r)" by (simp add: unat_gt_0)
    then show ?thesis using unat_u64_bound [of "rmax r"] by linarith
  qed
  then have lt: "unat (rmax r - rmin r) + unat (1 :: u64) < 2 ^ LENGTH(64)"
    using le by (simp add: unat_sub)
  then have "Range_len r = Some (rmax r - rmin r + 1)"
    using le by (simp add: Range_len_def checked_sub_def checked_add_def)
  moreover have "unat (rmax r - rmin r + 1) = unat (rmax r) - unat (rmin r) + 1"
    using lt le by (simp add: unat_word_ariths unat_sub)
  ultimately show ?thesis by (rule that)
qed

lemma before_contain:
  "Range_contain k q \<Longrightarrow> before e k \<Longrightarrow> before e q"
  "Range_contain k q \<Longrightarrow> before k e \<Longrightarrow> before q e"
  by (auto simp: Range_contain_def before_def)

lemma before_not_intersect: "before r s \<Longrightarrow> \<not> Range_intersect r s" "before r s \<Longrightarrow> \<not> Range_intersect s r"
  by (auto simp: before_def Range_intersect_def)

section \<open>Alignment\<close>

lemma align_ok_trivial: "align_ok 0" "align_ok 1" "aligned v 0" "aligned v 1"
  by (simp_all add: align_ok_def aligned_def)

text \<open>Two multiples of the same unit that lie less than one unit apart are ordered the way the
  lower bounds they come from are.\<close>

lemma multiple_le:
  fixes m k v :: nat
  assumes "k mod u = 0" "m mod u = 0" "v \<le> m" "k < v + u"
  shows "k \<le> m"
proof (rule ccontr)
  assume "\<not> k \<le> m"
  then have lt: "m < k" by simp
  have "u dvd k - m"
    using assms(1,2) by (simp add: mod_eq_0_iff_dvd)
  with lt have "u \<le> k - m" by (simp add: dvd_imp_le)
  with lt assms(3,4) show False by linarith
qed

lemma aligned_round_up:
  fixes a v w x :: u64
  assumes "align_ok a" "a \<noteq> 0" "checked_add v (a - 1) = Some w"
  shows "aligned (w AND NOT (a - 1)) a" "v \<le> w AND NOT (a - 1)"
    and "aligned x a \<Longrightarrow> v \<le> x \<Longrightarrow> w AND NOT (a - 1) \<le> x"
proof -
  note up = align_up [OF assms(1) [unfolded align_ok_def] assms(2,3)]
  show "aligned (w AND NOT (a - 1)) a" "v \<le> w AND NOT (a - 1)"
    using up(1,2) by (auto simp: aligned_def word_le_nat_alt)
  show "w AND NOT (a - 1) \<le> x" if "aligned x a" "v \<le> x"
    using multiple_le [of "unat (w AND NOT (a - 1))" "unat a" "unat x" "unat v"] up that assms(2)
    by (auto simp: aligned_def word_le_nat_alt)
qed

lemma no_aligned_above:
  fixes a v x :: u64
  assumes "align_ok a" "a \<noteq> 0" "checked_add v (a - 1) = None" "v \<le> x"
  shows "\<not> aligned x a"
proof
  assume al: "aligned x a"
  obtain n where n: "n < 64" "a = 2 ^ n"
    using word_and_minus_one_exp [of a] assms(1,2) by (auto simp: align_ok_def)
  have ua: "unat a = 2 ^ n"
    using n by (simp add: unat_exp)
  have "(2::nat) ^ 64 mod unat a = 0"
    unfolding ua mod_eq_0_iff_dvd using n by (simp only: le_imp_power_dvd less_imp_le)
  moreover have "unat x mod unat a = 0"
    using al assms(2) by (simp add: aligned_def)
  moreover have "2 ^ 64 < unat x + unat a"
  proof -
    have "2 ^ 64 \<le> unat v + unat (a - 1)"
      using assms(3) by (simp add: checked_add_def split: if_splits)
    moreover have "unat (a - 1) = unat a - 1" "0 < unat a"
      using assms(2) by (simp_all add: unat_minus_one unat_gt_0)
    moreover have "unat v \<le> unat x"
      using assms(4) by (simp add: word_le_nat_alt)
    ultimately show ?thesis by linarith
  qed
  ultimately have "2 ^ 64 \<le> unat x"
    using multiple_le [of "2 ^ 64" "unat a" "unat x" "unat x"] by simp
  then show False
    using unat_u64_bound [of x] by simp
qed

lemma align_to_cases:
  assumes "valid_range r" "align_ok a" "a \<noteq> 0" "a \<noteq> 1"
  shows "(\<exists>w. checked_add (rmin r) (a - 1) = Some w \<and>
            (if w AND NOT (a - 1) \<le> rmax r
             then Range_align_to r a = Some (Some \<lparr>rmin = w AND NOT (a - 1), rmax = rmax r\<rparr>)
             else Range_align_to r a = Some None)) \<or>
         checked_add (rmin r) (a - 1) = None \<and> Range_align_to r a = Some None"
proof (cases "checked_add (rmin r) (a - 1)")
  case None
  then show ?thesis using assms by (simp add: Range_align_to_def)
next
  case (Some w)
  have "rmin r \<le> w AND NOT (a - 1)"
    by (rule aligned_round_up(2) [OF assms(2,3) Some])
  then have "0 < w AND NOT (a - 1) \<or> rmax r \<noteq> u64_MAX"
    using assms(1) by (auto simp: valid_range_def word_gt_0)
  with Some assms show ?thesis
    by (auto simp: Range_align_to_def align_ok_def)
qed

lemma align_to_ret: "valid_range r \<Longrightarrow> \<exists>s. Range_align_to r a = Some s"
  using align_to_cases [of r a]
  by (auto simp: Range_align_to_def align_ok_def split: if_splits)

lemma align_to_Some:
  assumes r: "valid_range r" and eq: "Range_align_to r a = Some (Some s)"
  shows "align_ok a" "rmax s = rmax r" "rmin r \<le> rmin s" "rmin s \<le> rmax s" "aligned (rmin s) a"
    "v \<in> addrs r \<Longrightarrow> aligned v a \<Longrightarrow> rmin s \<le> v"
proof -
  have *: "align_ok a \<and> rmax s = rmax r \<and> rmin r \<le> rmin s \<and> rmin s \<le> rmax s \<and>
      aligned (rmin s) a \<and> (\<forall>v. v \<in> addrs r \<longrightarrow> aligned v a \<longrightarrow> rmin s \<le> v)"
  proof (cases "a = 0 \<or> a = 1")
    case True
    then show ?thesis
      using assms by (auto simp: Range_align_to_def align_ok_trivial valid_range_def addrs_def)
  next
    case False
    then have ok: "align_ok a"
      using eq by (auto simp: Range_align_to_def align_ok_def split: if_splits)
    then obtain w where w: "checked_add (rmin r) (a - 1) = Some w"
      "w AND NOT (a - 1) \<le> rmax r" "s = \<lparr>rmin = w AND NOT (a - 1), rmax = rmax r\<rparr>"
      using align_to_cases [OF r, of a] False eq by (auto split: if_splits)
    show ?thesis
      using ok aligned_round_up [OF ok _ w(1)] False w(2) by (auto simp: w(3) addrs_def)
  qed
  then show "align_ok a" "rmax s = rmax r" "rmin r \<le> rmin s" "rmin s \<le> rmax s" "aligned (rmin s) a"
    "v \<in> addrs r \<Longrightarrow> aligned v a \<Longrightarrow> rmin s \<le> v"
    by blast+
qed

lemma align_to_None:
  assumes "valid_range r" "Range_align_to r a = Some None" "v \<in> addrs r"
  shows "\<not> (align_ok a \<and> aligned v a)"
proof
  assume ok: "align_ok a \<and> aligned v a"
  have a: "a \<noteq> 0" "a \<noteq> 1"
    using assms(2) by (auto simp: Range_align_to_def)
  have v: "rmin r \<le> v" "v \<le> rmax r"
    using assms(3) by (auto simp: addrs_def)
  from align_to_cases [OF assms(1) _ a] ok assms(2) consider
      w where "checked_add (rmin r) (a - 1) = Some w" "\<not> w AND NOT (a - 1) \<le> rmax r"
    | "checked_add (rmin r) (a - 1) = None"
    by (auto split: if_splits)
  then show False
  proof cases
    case 1
    with aligned_round_up(3) [OF _ a(1) 1(1), of v] ok v show False by auto
  next
    case 2
    with no_aligned_above [OF _ a(1) 2 v(1)] ok show False by blast
  qed
qed

end
