(* ===== verification/IntervalTree.thy ===== *)
theory IntervalTree
  imports Alloc_Range
begin

text \<open>
  The interval tree of \<open>dbs_allocator/src/interval_tree.rs\<close>: an AVL tree keyed by disjoint
  ranges, each in one of the states free, allocated or valued. \<open>Option<Node<T>>\<close> is the
  datatype \<open>node\<close>, with \<open>Leaf\<close> for \<open>None\<close>; a method of \<open>Node\<close> that the source calls under a
  match on such an option has its \<open>None\<close> branch as the \<open>Leaf\<close> equation. The cached height
  (a \<open>u32\<close> in the source) is a natural number; \<open>height_bound\<close> shows that it stays below 130.
\<close>

section \<open>Data\<close>

datatype 'a NodeState = Free | Allocated | Valued 'a

fun NodeState_is_free :: "'a NodeState \<Rightarrow> bool" where
  "NodeState_is_free Free = True"
| "NodeState_is_free _ = False"

fun NodeState_into :: "'a NodeState \<Rightarrow> 'a option" where
  "NodeState_into Free = None"
| "NodeState_into Allocated = None"
| "NodeState_into (Valued d) = Some d"

datatype 'a node =
    Leaf
  | Node (key: Range) (data: "'a NodeState") (left: "'a node") (right: "'a node")
      (cached_height: nat) (cached_max_key: u64)

fun height :: "'a node \<Rightarrow> nat" where
  "height Leaf = 0"
| "height (Node k d l r h m) = h"

fun max_key :: "'a node \<Rightarrow> u64" where
  "max_key Leaf = 0"
| "max_key (Node k d l r h m) = m"

definition InnerNode_new :: "Range \<Rightarrow> 'a NodeState \<Rightarrow> 'a node" where
  "InnerNode_new k d = Node k d Leaf Leaf 1 (rmax k)"

definition Node_new :: "Range \<Rightarrow> 'a option \<Rightarrow> 'a node" where
  "Node_new k d = InnerNode_new k (case d of Some t \<Rightarrow> Valued t | None \<Rightarrow> Free)"

section \<open>Searching\<close>

fun search :: "'a node \<Rightarrow> Range \<Rightarrow> 'a node option" where
  "search Leaf k' = None"
| "search (Node k d l r h m) k' =
     (case Range_cmp k k' of
        Equal \<Rightarrow> Some (Node k d l r h m)
      | Less \<Rightarrow> search r k'
      | Greater \<Rightarrow> search l k')"

fun search_superset :: "'a node \<Rightarrow> Range \<Rightarrow> 'a node option" where
  "search_superset Leaf k' = None"
| "search_superset (Node k d l r h m) k' =
     (if Range_contain k k' then Some (Node k d l r h m)
      else if rmax k' < rmin k \<and> l \<noteq> Leaf then search_superset l k'
      else if rmin k' > rmax k \<and> r \<noteq> Leaf then search_superset r k'
      else None)"

text \<open>A mutable reference to the covering node is a function \<open>f\<close> that its holder applies to the
  state: the result is the node found and the tree after the write.\<close>

fun search_superset_mut ::
  "('a NodeState \<Rightarrow> 'a NodeState) \<Rightarrow> 'a node \<Rightarrow> Range \<Rightarrow> 'a node option \<times> 'a node" where
  "search_superset_mut f Leaf k' = (None, Leaf)"
| "search_superset_mut f (Node k d l r h m) k' =
     (if Range_contain k k' then (Some (Node k d l r h m), Node k (f d) l r h m)
      else if rmax k' < rmin k \<and> l \<noteq> Leaf then
        (case search_superset_mut f l k' of (n, l') \<Rightarrow> (n, Node k d l' r h m))
      else if rmin k' > rmax k \<and> r \<noteq> Leaf then
        (case search_superset_mut f r k' of (n, r') \<Rightarrow> (n, Node k d l r' h m))
      else (None, Node k d l r h m))"

section \<open>Rebalancing\<close>

fun update_cached_info :: "'a node \<Rightarrow> 'a node" where
  "update_cached_info Leaf = Leaf"
| "update_cached_info (Node k d l r h m) =
     Node k d l r (max (height l) (height r) + 1)
       (max (max_key l) (max (max_key r) (rmax k)))"

fun rotate_left :: "'a node \<Rightarrow> 'a node rust" where
  "rotate_left (Node k d l (Node rk rd rl rr rh rm) h m) =
     ret (update_cached_info
       (Node rk rd (update_cached_info (Node k d l rl h m)) rr rh rm))"
| "rotate_left _ = panic"

fun rotate_right :: "'a node \<Rightarrow> 'a node rust" where
  "rotate_right (Node k d (Node lk ld ll lr lh lm) r h m) =
     ret (update_cached_info
       (Node lk ld ll (update_cached_info (Node k d lr r h m)) lh lm))"
| "rotate_right _ = panic"

fun rotate_left_successor :: "'a node \<Rightarrow> 'a node rust" where
  "rotate_left_successor (Node k d (Node lk ld ll lr lh lm) r h m) =
     (if height ll < height lr then do {
        rotated \<leftarrow> rotate_left (Node lk ld ll lr lh lm);
        rotate_right (update_cached_info (Node k d rotated r h m))
      } else rotate_right (Node k d (Node lk ld ll lr lh lm) r h m))"
| "rotate_left_successor _ = panic"

fun rotate_right_successor :: "'a node \<Rightarrow> 'a node rust" where
  "rotate_right_successor (Node k d l (Node rk rd rl rr rh rm) h m) =
     (if height rl > height rr then do {
        rotated \<leftarrow> rotate_right (Node rk rd rl rr rh rm);
        rotate_left (update_cached_info (Node k d l rotated h m))
      } else rotate_left (Node k d l (Node rk rd rl rr rh rm) h m))"
| "rotate_right_successor _ = panic"

definition rotate :: "'a node \<Rightarrow> 'a node rust" where
  "rotate n =
     (let b = int (height (left n)) - int (height (right n)) in
      if b = 1 \<or> b = 0 \<or> b = - 1 then ret n
      else if b = 2 then rotate_left_successor n
      else if b = - 2 then rotate_right_successor n
      else panic)"

definition updated_node :: "'a node \<Rightarrow> 'a node rust" where
  "updated_node n = rotate (update_cached_info n)"

section \<open>Insertion, update, deletion\<close>

fun node_insert :: "'a node \<Rightarrow> Range \<Rightarrow> 'a option \<Rightarrow> 'a node rust" where
  "node_insert Leaf k' d' = ret (Node_new k' d')"
| "node_insert (Node k d l r h m) k' d' =
     (case Range_cmp k k' of
        Equal \<Rightarrow> panic
      | Less \<Rightarrow>
          if Range_intersect k k' then panic
          else do { r' \<leftarrow> node_insert r k' d'; updated_node (Node k d l r' h m) }
      | Greater \<Rightarrow>
          if Range_intersect k k' then panic
          else do { l' \<leftarrow> node_insert l k' d'; updated_node (Node k d l' r h m) })"

text \<open>The state pairs that \<open>update\<close> refuses.\<close>

fun update_refused :: "'a NodeState \<Rightarrow> 'a NodeState \<Rightarrow> bool" where
  "update_refused Free Free = True"
| "update_refused Free (Valued _) = True"
| "update_refused Allocated Free = True"
| "update_refused Allocated Allocated = True"
| "update_refused (Valued _) Free = True"
| "update_refused (Valued _) Allocated = True"
| "update_refused _ _ = False"

fun node_update :: "'a node \<Rightarrow> Range \<Rightarrow> 'a NodeState \<Rightarrow> ('a option \<times> 'a node) rust" where
  "node_update Leaf k' d' = ret (None, Leaf)"
| "node_update (Node k d l r h m) k' d' =
     (case Range_cmp k k' of
        Equal \<Rightarrow>
          if update_refused d d' then panic
          else ret (NodeState_into d, Node k d' l r h m)
      | Less \<Rightarrow> do { (old, r') \<leftarrow> node_update r k' d'; ret (old, Node k d l r' h m) }
      | Greater \<Rightarrow> do { (old, l') \<leftarrow> node_update l k' d'; ret (old, Node k d l' r h m) })"

text \<open>\<open>get_new_root\<close> takes the minimal node off a tree; \<open>Leaf\<close> stands for no node and is
  never passed.\<close>

fun get_new_root :: "'a node \<Rightarrow> ('a node \<times> 'a node) rust" where
  "get_new_root Leaf = panic"
| "get_new_root (Node k d l r h m) =
     (if l = Leaf then ret (Node k d Leaf Leaf h m, r)
      else do {
        (min_node, l') \<leftarrow> get_new_root l;
        n \<leftarrow> updated_node (Node k d l' r h m);
        ret (min_node, n)
      })"

fun combine_subtrees :: "'a node \<Rightarrow> 'a node \<Rightarrow> 'a node rust" where
  "combine_subtrees l r = do {
     (new_root, remaining) \<leftarrow> get_new_root r;
     updated_node (Node (key new_root) (data new_root) l remaining
       (cached_height new_root) (cached_max_key new_root))
   }"

fun delete_root :: "'a node \<Rightarrow> 'a node \<Rightarrow> 'a node rust" where
  "delete_root Leaf Leaf = ret Leaf"
| "delete_root l Leaf = ret l"
| "delete_root Leaf r = ret r"
| "delete_root l r = combine_subtrees l r"

fun node_delete :: "'a node \<Rightarrow> Range \<Rightarrow> ('a option \<times> 'a node) rust" where
  "node_delete Leaf k' = ret (None, Leaf)"
| "node_delete (Node k d l r h m) k' =
     (case Range_cmp k k' of
        Equal \<Rightarrow> do { t \<leftarrow> delete_root l r; ret (NodeState_into d, t) }
      | Less \<Rightarrow>
          if r = Leaf then ret (None, Node k d l r h m)
          else do {
            (old, r') \<leftarrow> node_delete r k';
            t \<leftarrow> updated_node (Node k d l r' h m);
            ret (old, t)
          }
      | Greater \<Rightarrow>
          if l = Leaf then ret (None, Node k d l r h m)
          else do {
            (old, l') \<leftarrow> node_delete l k';
            t \<leftarrow> updated_node (Node k d l' r h m);
            ret (old, t)
          })"

section \<open>Candidates for an allocation\<close>

definition check_constraint :: "Range \<Rightarrow> 'a NodeState \<Rightarrow> Constraint \<Rightarrow> bool rust" where
  "check_constraint k d c =
     (if NodeState_is_free d then
        (let mn = max (rmin k) (c_min c); mx = min (rmax k) (c_max c) in
         if mn \<le> mx then do {
           r \<leftarrow> Range_new mn mx;
           if c_align c = 0 \<or> c_align c = 1 then do {
             n \<leftarrow> Range_len r;
             ret (n \<ge> c_size c)
           } else do {
             a \<leftarrow> Range_align_to r (c_align c);
             (case a of
                None \<Rightarrow> ret False
              | Some aligned_key \<Rightarrow> do {
                  n \<leftarrow> Range_len aligned_key;
                  ret (n \<ge> c_size c)
                })
           }
         } else ret False)
      else ret False)"

fun first_match :: "'a node \<Rightarrow> Constraint \<Rightarrow> 'a node option rust" where
  "first_match Leaf c = ret None"
| "first_match (Node k d l r h m) c = do {
     candidate \<leftarrow> first_match l c;
     (case candidate of
        Some n \<Rightarrow> ret (Some n)
      | None \<Rightarrow> do {
          ok \<leftarrow> check_constraint k d c;
          if ok then ret (Some (Node k d l r h m)) else first_match r c
        })
   }"

definition find_candidate :: "'a node \<Rightarrow> Constraint \<Rightarrow> 'a node option rust" where
  "find_candidate n c =
     (case c_policy c of FirstMatch \<Rightarrow> first_match n c | Default \<Rightarrow> first_match n c)"

section \<open>The tree\<close>

text \<open>\<open>IntervalTree<T>\<close> has its root as its only field.\<close>

type_synonym 'a IntervalTree = "'a node"

definition IntervalTree_new :: "'a IntervalTree" where
  "IntervalTree_new = Leaf"

definition IntervalTree_is_empty :: "'a IntervalTree \<Rightarrow> bool" where
  "IntervalTree_is_empty t \<longleftrightarrow> t = Leaf"

definition IntervalTree_get :: "'a IntervalTree \<Rightarrow> Range \<Rightarrow> 'a NodeState option" where
  "IntervalTree_get t k = map_option data (search t k)"

definition IntervalTree_get_superset ::
  "'a IntervalTree \<Rightarrow> Range \<Rightarrow> (Range \<times> 'a NodeState) option" where
  "IntervalTree_get_superset t k = map_option (\<lambda>n. (key n, data n)) (search_superset t k)"

definition IntervalTree_get_superset_mut ::
  "('a \<Rightarrow> 'a) \<Rightarrow> 'a IntervalTree \<Rightarrow> Range \<Rightarrow> (Range \<times> 'a NodeState) option \<times> 'a IntervalTree" where
  "IntervalTree_get_superset_mut f t k =
     (case search_superset_mut (map_NodeState f) t k of
        (n, t') \<Rightarrow> (map_option (\<lambda>n. (key n, data n)) n, t'))"

definition IntervalTree_get_by_id :: "'a IntervalTree \<Rightarrow> u64 \<Rightarrow> 'a option" where
  "IntervalTree_get_by_id t i =
     (case search_superset t (Range_new_point i) of
        Some n \<Rightarrow> NodeState_into (data n)
      | None \<Rightarrow> None)"

definition IntervalTree_get_by_id_mut ::
  "('a \<Rightarrow> 'a) \<Rightarrow> 'a IntervalTree \<Rightarrow> u64 \<Rightarrow> 'a option \<times> 'a IntervalTree" where
  "IntervalTree_get_by_id_mut f t i =
     (case search_superset_mut (map_NodeState f) t (Range_new_point i) of
        (Some n, t') \<Rightarrow> (NodeState_into (data n), t')
      | (None, t') \<Rightarrow> (None, t'))"

definition IntervalTree_insert :: "'a IntervalTree \<Rightarrow> Range \<Rightarrow> 'a option \<Rightarrow> 'a IntervalTree rust" where
  "IntervalTree_insert t k d = (if t = Leaf then ret (Node_new k d) else node_insert t k d)"

definition IntervalTree_update ::
  "'a IntervalTree \<Rightarrow> Range \<Rightarrow> 'a \<Rightarrow> ('a option \<times> 'a IntervalTree) rust" where
  "IntervalTree_update t k d =
     (if t = Leaf then ret (None, Leaf) else node_update t k (Valued d))"

definition IntervalTree_delete ::
  "'a IntervalTree \<Rightarrow> Range \<Rightarrow> ('a option \<times> 'a IntervalTree) rust" where
  "IntervalTree_delete t k = (if t = Leaf then ret (None, Leaf) else node_delete t k)"

text \<open>\<open>self.root.as_mut().unwrap().update(..)\<close>\<close>

definition root_update :: "'a IntervalTree \<Rightarrow> Range \<Rightarrow> 'a NodeState \<Rightarrow> 'a IntervalTree rust" where
  "root_update t k d = (if t = Leaf then panic else map_option snd (node_update t k d))"

text \<open>The two conditional insertions of \<open>allocate\<close>: what is left of the node below and above the
  result.\<close>

definition insert_below :: "'a IntervalTree \<Rightarrow> Range \<Rightarrow> u64 \<Rightarrow> 'a IntervalTree rust" where
  "insert_below t node_key b =
     (if b > rmin node_key then do {
        e \<leftarrow> usub b 1;
        r \<leftarrow> Range_new (rmin node_key) e;
        IntervalTree_insert t r None
      } else ret t)"

definition insert_above :: "'a IntervalTree \<Rightarrow> Range \<Rightarrow> u64 \<Rightarrow> 'a IntervalTree rust" where
  "insert_above t node_key e =
     (if e < rmax node_key then do {
        b \<leftarrow> uadd e 1;
        r \<leftarrow> Range_new b (rmax node_key);
        IntervalTree_insert t r None
      } else ret t)"

definition IntervalTree_allocate ::
  "'a IntervalTree \<Rightarrow> Constraint \<Rightarrow> (Range option \<times> 'a IntervalTree) rust" where
  "IntervalTree_allocate t c =
     (if c_size c = 0 then ret (None, t)
      else do {
        candidate \<leftarrow> (if t = Leaf then ret None else find_candidate t c);
        case candidate of
          None \<Rightarrow> ret (None, t)
        | Some n \<Rightarrow> do {
            let node_key = key n;
            range \<leftarrow> Range_new (max (rmin node_key) (c_min c)) (min (rmax node_key) (c_max c));
            aligned \<leftarrow> Range_align_to range (c_align c);
            aligned_key \<leftarrow> aligned;
            past \<leftarrow> uadd (rmin aligned_key) (c_size c);
            last_addr \<leftarrow> usub past 1;
            result \<leftarrow> Range_new (rmin aligned_key) last_addr;
            len \<leftarrow> (if rmin node_key = rmin aligned_key
                    then map_option Some (Range_len node_key) else ret None);
            if len = Some (c_size c) then do {
              t \<leftarrow> root_update t node_key Allocated;
              ret (Some node_key, t)
            } else do {
              (_, t) \<leftarrow> IntervalTree_delete t node_key;
              t \<leftarrow> insert_below t node_key (rmin aligned_key);
              t \<leftarrow> IntervalTree_insert t result None;
              t \<leftarrow> insert_above t node_key (rmax result);
              t \<leftarrow> root_update t result Allocated;
              ret (Some result, t)
            }
          }
      })"

text \<open>The blocks of \<open>free\<close>: the bounds after merging with an adjacent free node, and the removal
  of the nodes merged.\<close>

definition merge_min :: "'a IntervalTree \<Rightarrow> Range \<Rightarrow> u64 rust" where
  "merge_min t k =
     (if rmin k > 0 then do {
        v \<leftarrow> usub (rmin k) 1;
        p \<leftarrow> Range_new v v;
        ret (case IntervalTree_get_superset t p of
               Some (r, d) \<Rightarrow> if NodeState_is_free d then rmin r else rmin k
             | None \<Rightarrow> rmin k)
      } else ret (rmin k))"

definition merge_max :: "'a IntervalTree \<Rightarrow> Range \<Rightarrow> u64 rust" where
  "merge_max t k =
     (if rmax k < u64_MAX then do {
        v \<leftarrow> uadd (rmax k) 1;
        p \<leftarrow> Range_new v v;
        ret (case IntervalTree_get_superset t p of
               Some (r, d) \<Rightarrow> if NodeState_is_free d then rmax r else rmax k
             | None \<Rightarrow> rmax k)
      } else ret (rmax k))"

definition delete_below :: "'a IntervalTree \<Rightarrow> Range \<Rightarrow> u64 \<Rightarrow> 'a IntervalTree rust" where
  "delete_below t k range_min =
     (if range_min < rmin k then do {
        e \<leftarrow> usub (rmin k) 1;
        r \<leftarrow> Range_new range_min e;
        map_option snd (IntervalTree_delete t r)
      } else ret t)"

definition delete_above :: "'a IntervalTree \<Rightarrow> Range \<Rightarrow> u64 \<Rightarrow> 'a IntervalTree rust" where
  "delete_above t k range_max =
     (if range_max > rmax k then do {
        b \<leftarrow> uadd (rmax k) 1;
        r \<leftarrow> Range_new b range_max;
        map_option snd (IntervalTree_delete t r)
      } else ret t)"

definition IntervalTree_free :: "'a IntervalTree \<Rightarrow> Range \<Rightarrow> ('a option \<times> 'a IntervalTree) rust" where
  "IntervalTree_free t k = do {
     (result, t) \<leftarrow> IntervalTree_delete t k;
     range_min \<leftarrow> merge_min t k;
     range_max \<leftarrow> merge_max t k;
     t \<leftarrow> delete_below t k range_min;
     t \<leftarrow> delete_above t k range_max;
     t \<leftarrow> IntervalTree_insert t \<lparr>rmin = range_min, rmax = range_max\<rparr> None;
     ret (result, t)
   }"

end
