(* ===== verification/IntervalTree_Inv.thy ===== *)
theory IntervalTree_Inv
  imports IntervalTree
begin

text \<open>
  The invariant of the interval tree (balanced, caches up to date, keys valid, disjoint and in
  order) and the functional behaviour of the node operations on it: every operation of a
  well-formed tree returns, keeps the tree well-formed and does to the list of entries what
  its list counterpart does.
\<close>

section \<open>The invariant\<close>

fun inorder :: "'a node \<Rightarrow> (Range \<times> 'a NodeState) list" where
  "inorder Leaf = []"
| "inorder (Node k d l r h m) = inorder l @ (k, d) # inorder r"

abbreviation keys :: "'a node \<Rightarrow> Range list" where
  "keys t \<equiv> map fst (inorder t)"

fun avl :: "'a node \<Rightarrow> bool" where
  "avl Leaf \<longleftrightarrow> True"
| "avl (Node k d l r h m) \<longleftrightarrow>
     height l \<le> height r + 1 \<and> height r \<le> height l + 1 \<and>
     h = max (height l) (height r) + 1 \<and>
     m = max (max_key l) (max (max_key r) (rmax k)) \<and> avl l \<and> avl r"

definition disjoint_keys :: "Range list \<Rightarrow> bool" where
  "disjoint_keys ks \<longleftrightarrow> sorted_wrt before ks \<and> (\<forall>k \<in> set ks. valid_range k)"

definition tree_ok :: "'a node \<Rightarrow> bool" where
  "tree_ok t \<longleftrightarrow> avl t \<and> disjoint_keys (keys t)"

text \<open>Insertion of an entry into an ordered list.\<close>

definition ins_entry :: "Range \<times> 'b \<Rightarrow> (Range \<times> 'b) list \<Rightarrow> (Range \<times> 'b) list" where
  "ins_entry e xs = takeWhile (\<lambda>x. before (fst x) (fst e)) xs @ e #
     dropWhile (\<lambda>x. before (fst x) (fst e)) xs"

text \<open>Replacing the state of one key.\<close>

definition set_state :: "Range \<Rightarrow> 'b \<Rightarrow> (Range \<times> 'b) list \<Rightarrow> (Range \<times> 'b) list" where
  "set_state k s xs = map (\<lambda>e. if fst e = k then (k, s) else e) xs"

abbreviation new_state :: "'a option \<Rightarrow> 'a NodeState" where
  "new_state d \<equiv> (case d of Some v \<Rightarrow> Valued v | None \<Rightarrow> Free)"

section \<open>Balance\<close>

lemma disjoint_keys_simps [simp]:
  "disjoint_keys []"
  "disjoint_keys (k # ks) \<longleftrightarrow> valid_range k \<and> (\<forall>k' \<in> set ks. before k k') \<and> disjoint_keys ks"
  by (auto simp: disjoint_keys_def)

lemma disjoint_keys_append [simp]:
  "disjoint_keys (xs @ ys) \<longleftrightarrow>
     disjoint_keys xs \<and> disjoint_keys ys \<and> (\<forall>x \<in> set xs. \<forall>y \<in> set ys. before x y)"
  by (auto simp: disjoint_keys_def sorted_wrt_append)

lemma height_0 [simp]: "avl t \<Longrightarrow> height t = 0 \<longleftrightarrow> t = Leaf"
  by (cases t) auto

lemma rotate_left_successor_ok:
  assumes "avl l" "avl r" "height l = height r + 2"
  shows "\<exists>t. rotate_left_successor (Node k d l r h m) = Some t \<and> avl t \<and>
     inorder t = inorder l @ (k, d) # inorder r \<and> height t \<in> {height l, height l + 1}"
  using assms
  by (cases l; cases "right l") (auto simp: max_def split: if_splits)

lemma rotate_right_successor_ok:
  assumes "avl l" "avl r" "height r = height l + 2"
  shows "\<exists>t. rotate_right_successor (Node k d l r h m) = Some t \<and> avl t \<and>
     inorder t = inorder l @ (k, d) # inorder r \<and> height t \<in> {height r, height r + 1}"
  using assms
  by (cases r; cases "left r") (auto simp: max_def split: if_splits)

lemma updated_node_ok:
  assumes "avl l" "avl r" "height l \<le> height r + 2" "height r \<le> height l + 2"
  obtains t where "updated_node (Node k d l r h m) = Some t" "avl t"
     "inorder t = inorder l @ (k, d) # inorder r"
     "height t = max (height l) (height r) + 1 \<or>
      height t = max (height l) (height r) \<and>
        (height l = height r + 2 \<or> height r = height l + 2)"
proof -
  let ?n = "update_cached_info (Node k d l r h m)"
  consider "height l = height r + 2" | "height r = height l + 2"
    | "height l \<le> height r + 1" "height r \<le> height l + 1"
    using assms(3,4) by linarith
  then show ?thesis
  proof cases
    case 1
    then have "updated_node (Node k d l r h m) = rotate_left_successor ?n"
      by (simp add: updated_node_def rotate_def)
    moreover obtain t where "rotate_left_successor ?n = Some t" "avl t"
      "inorder t = inorder l @ (k, d) # inorder r" "height t \<in> {height l, height l + 1}"
      using rotate_left_successor_ok [OF assms(1,2) 1] by (metis update_cached_info.simps(2))
    moreover have "max (height l) (height r) = height l" using 1 by simp
    ultimately show ?thesis using 1 by (intro that [of t]) auto
  next
    case 2
    then have "updated_node (Node k d l r h m) = rotate_right_successor ?n"
      by (simp add: updated_node_def rotate_def)
    moreover obtain t where "rotate_right_successor ?n = Some t" "avl t"
      "inorder t = inorder l @ (k, d) # inorder r" "height t \<in> {height r, height r + 1}"
      using rotate_right_successor_ok [OF assms(1,2) 2] by (metis update_cached_info.simps(2))
    moreover have "max (height l) (height r) = height r" using 2 by simp
    ultimately show ?thesis using 2 by (intro that [of t]) auto
  next
    case 3
    then have "updated_node (Node k d l r h m) = Some ?n"
      by (auto simp: updated_node_def rotate_def Let_def)
    with 3 assms show ?thesis by (intro that [of ?n]) auto
  qed
qed

lemma grow_height:
  fixes a b c t h :: nat
  assumes "a \<le> b + 1" "b \<le> a + 1" "h = max a b + 1" "c = b \<or> c = b + 1"
    "t = max a c + 1 \<or> t = max a c \<and> (a = c + 2 \<or> c = a + 2)"
  shows "t = h \<or> t = h + 1"
  using assms by (auto simp: max_def split: if_splits)
lemma shrink_height:
  fixes a b c t h :: nat
  assumes "a \<le> b + 1" "b \<le> a + 1" "h = max a b + 1" "b = c \<or> b = c + 1"
    "t = max a c + 1 \<or> t = max a c \<and> (a = c + 2 \<or> c = a + 2)"
  shows "h = t \<or> h = t + 1"
  using assms by (auto simp: max_def split: if_splits)

text \<open>One subtree of a balanced node has grown or shrunk by at most one level: rebalancing
  succeeds, keeps the entries, and the height of the node changes the same way.\<close>

lemma updated_node_grow:
  assumes "avl (Node k0 d0 l r h m)" "avl l'" "avl r'"
    "l' = l \<and> height r' \<in> {height r, height r + 1} \<or>
     r' = r \<and> height l' \<in> {height l, height l + 1}"
  obtains t where "updated_node (Node k d l' r' h0 m0) = Some t" "avl t"
     "inorder t = inorder l' @ (k, d) # inorder r'" "height t \<in> {h, h + 1}"
proof -
  have "height l' \<le> height r' + 2" "height r' \<le> height l' + 2"
    using assms(1,4) by auto
  from updated_node_ok [OF assms(2,3) this] obtain t where
    t: "updated_node (Node k d l' r' h0 m0) = Some t" "avl t"
     "inorder t = inorder l' @ (k, d) # inorder r'"
     "height t = max (height l') (height r') + 1 \<or>
      height t = max (height l') (height r') \<and>
        (height l' = height r' + 2 \<or> height r' = height l' + 2)" .
  have b: "height l \<le> height r + 1" "height r \<le> height l + 1" "h = max (height l) (height r) + 1"
    using assms(1) by auto
  have "l' = l \<and> (height r' = height r \<or> height r' = height r + 1) \<or>
      r' = r \<and> (height l' = height l \<or> height l' = height l + 1)"
    using assms(4) by simp
  then have "height t = h \<or> height t = h + 1"
  proof (elim disjE [where P = "_ \<and> _"] conjE)
    assume "l' = l" "height r' = height r \<or> height r' = height r + 1"
    with grow_height [OF b this(2)] t(4) show ?thesis by blast
  next
    assume "r' = r" "height l' = height l \<or> height l' = height l + 1"
    with grow_height [OF b(2,1) _ this(2)] b(3) t(4) show ?thesis
      by (auto simp: max.commute)
  qed
  then show ?thesis by (intro that [OF t(1-3)]) simp
qed

lemma updated_node_shrink:
  assumes "avl (Node k0 d0 l r h m)" "avl l'" "avl r'"
    "l' = l \<and> height r \<in> {height r', height r' + 1} \<or>
     r' = r \<and> height l \<in> {height l', height l' + 1}"
  obtains t where "updated_node (Node k d l' r' h0 m0) = Some t" "avl t"
     "inorder t = inorder l' @ (k, d) # inorder r'" "h \<in> {height t, height t + 1}"
proof -
  have "height l' \<le> height r' + 2" "height r' \<le> height l' + 2"
    using assms(1,4) by auto
  from updated_node_ok [OF assms(2,3) this] obtain t where
    t: "updated_node (Node k d l' r' h0 m0) = Some t" "avl t"
     "inorder t = inorder l' @ (k, d) # inorder r'"
     "height t = max (height l') (height r') + 1 \<or>
      height t = max (height l') (height r') \<and>
        (height l' = height r' + 2 \<or> height r' = height l' + 2)" .
  have b: "height l \<le> height r + 1" "height r \<le> height l + 1" "h = max (height l) (height r) + 1"
    using assms(1) by auto
  have "l' = l \<and> (height r = height r' \<or> height r = height r' + 1) \<or>
      r' = r \<and> (height l = height l' \<or> height l = height l' + 1)"
    using assms(4) by simp
  then have "h = height t \<or> h = height t + 1"
  proof (elim disjE [where P = "_ \<and> _"] conjE)
    assume "l' = l" "height r = height r' \<or> height r = height r' + 1"
    with shrink_height [OF b this(2)] t(4) show ?thesis by blast
  next
    assume "r' = r" "height l = height l' \<or> height l = height l' + 1"
    with shrink_height [OF b(2,1) _ this(2)] b(3) t(4) show ?thesis
      by (auto simp: max.commute)
  qed
  then show ?thesis by (intro that [OF t(1-3)]) simp
qed

section \<open>Insertion\<close>

lemma set_ins_entry [simp]: "set (ins_entry e xs) = insert e (set xs)"
  unfolding ins_entry_def
  by (metis Un_insert_right list.simps(15) set_append takeWhile_dropWhile_id)

lemma ins_entry_right:
  assumes "disjoint_keys (map fst (xs @ x # ys))" "before (fst x) (fst e)"
  shows "ins_entry e (xs @ x # ys) = xs @ x # ins_entry e ys"
proof -
  have "\<forall>y \<in> set (xs @ [x]). before (fst y) (fst e)"
    using assms by (auto intro: before_trans)
  then show ?thesis
    by (simp add: ins_entry_def takeWhile_append2 dropWhile_append2)
qed

lemma ins_entry_left:
  assumes "disjoint_keys (map fst (xs @ x # ys))" "before (fst e) (fst x)" "valid_range (fst e)"
  shows "ins_entry e (xs @ x # ys) = ins_entry e xs @ x # ys"
proof -
  have "\<not> before (fst x) (fst e)"
    using assms before_asym by auto
  then show ?thesis
    by (induction xs) (auto simp: ins_entry_def)
qed

lemma disjoint_keys_ins_entry:
  assumes "disjoint_keys (map fst xs)" "valid_range (fst e)"
    "\<forall>x \<in> set xs. \<not> Range_intersect (fst x) (fst e)"
  shows "disjoint_keys (map fst (ins_entry e xs))"
  using assms
proof (induction xs)
  case Nil
  then show ?case by (simp add: ins_entry_def)
next
  case (Cons x xs)
  show ?case
  proof (cases "before (fst x) (fst e)")
    case True
    then have "ins_entry e (x # xs) = x # ins_entry e xs"
      using ins_entry_right [of "[]" x xs e] Cons.prems by simp
    with Cons True show ?thesis by auto
  next
    case False
    then have "before (fst e) (fst x)"
      using Cons.prems not_intersect_before by auto
    then have "ins_entry e (x # xs) = e # x # xs"
      using False by (simp add: ins_entry_def)
    then show ?thesis
      using Cons.prems \<open>before (fst e) (fst x)\<close> by (auto intro: before_trans)
  qed
qed

lemma tree_ok_Node:
  assumes "tree_ok (Node k d l r h m)"
  shows "tree_ok l" "tree_ok r" "avl (Node k d l r h m)" "avl l" "avl r" "valid_range k"
    "disjoint_keys (map fst (inorder l @ (k, d) # inorder r))"
  using assms by (auto simp: tree_ok_def)

lemma node_insert_ok:
  assumes "tree_ok t" "valid_range k'" "\<forall>k \<in> set (keys t). \<not> Range_intersect k k'"
  shows "\<exists>t'. node_insert t k' d' = Some t' \<and> avl t' \<and> height t' \<in> {height t, height t + 1} \<and>
     inorder t' = ins_entry (k', new_state d') (inorder t)"
  using assms
proof (induction t)
  case Leaf
  then show ?case by (auto simp: Node_new_def InnerNode_new_def ins_entry_def)
next
  case (Node k d l r h m)
  note ok = tree_ok_Node [OF Node.prems(1)]
  have ni: "\<not> Range_intersect k k'" using Node.prems(3) by simp
  show ?case
  proof (cases "before k k'")
    case True
    then have cmp: "Range_cmp k k' = Less"
      using ok(6) Node.prems(2) Range_cmp_before by blast
    obtain r' where r': "node_insert r k' d' = Some r'" "avl r'"
        "height r' \<in> {height r, height r + 1}"
        "inorder r' = ins_entry (k', new_state d') (inorder r)"
      using Node.IH(2) [OF ok(2) Node.prems(2)] Node.prems(3) by auto
    obtain t' where "updated_node (Node k d l r' h m) = Some t'" "avl t'"
        "inorder t' = inorder l @ (k, d) # inorder r'" "height t' \<in> {h, h + 1}"
      using updated_node_grow [OF ok(3,4) r'(2)] r'(3) by blast
    then show ?thesis
      using cmp ni r' ins_entry_right [OF ok(7), of "(k', new_state d')"] True by simp
  next
    case False
    then have gt: "before k' k"
      using ni ok(6) Node.prems(2) not_intersect_before by blast
    then have cmp: "Range_cmp k k' = Greater"
      using ok(6) Node.prems(2) Range_cmp_before by blast
    obtain l' where l': "node_insert l k' d' = Some l'" "avl l'"
        "height l' \<in> {height l, height l + 1}"
        "inorder l' = ins_entry (k', new_state d') (inorder l)"
      using Node.IH(1) [OF ok(1) Node.prems(2)] Node.prems(3) by auto
    obtain t' where "updated_node (Node k d l' r h m) = Some t'" "avl t'"
        "inorder t' = inorder l' @ (k, d) # inorder r" "height t' \<in> {h, h + 1}"
      using updated_node_grow [OF ok(3) l'(2) ok(5)] l'(3) by blast
    then show ?thesis
      using cmp ni l' ins_entry_left [OF ok(7), of "(k', new_state d')"] gt Node.prems(2) by simp
  qed
qed

text \<open>A key that intersects an existing one makes the insertion panic.\<close>

lemma node_insert_panic:
  assumes "tree_ok t" "valid_range k'" "k \<in> set (keys t)" "Range_intersect k k'"
  shows "node_insert t k' d' = None"
  using assms
proof (induction t)
  case (Node k0 d l r h m)
  note ok = tree_ok_Node [OF Node.prems(1)]
  show ?case
  proof (cases "Range_intersect k0 k'")
    case True
    then show ?thesis by (simp split: Ordering.splits)
  next
    case False
    have v: "valid_range k"
      using Node.prems(1,3) by (auto simp: tree_ok_def disjoint_keys_def)
    have nb: "\<not> before k k'" "\<not> before k' k"
      using Node.prems(2,4) v not_intersect_before by blast+
    consider "before k0 k'" | "before k' k0"
      using False ok(6) Node.prems(2) not_intersect_before by blast
    then show ?thesis
    proof cases
      case 1
      then have "k \<in> set (keys r)"
        using Node.prems(3) ok(6,7) nb(1) False Node.prems(4) by (auto dest: before_trans)
      then show ?thesis
        using Node.IH(2) [OF ok(2) Node.prems(2)] Node.prems(4) 1 Range_cmp_before ok(6) Node.prems(2)
        by simp
    next
      case 2
      then have "k \<in> set (keys l)"
        using Node.prems(3) ok(6,7) nb(2) False Node.prems(4) by (auto dest: before_trans)
      then show ?thesis
        using Node.IH(1) [OF ok(1) Node.prems(2)] Node.prems(4) 2 Range_cmp_before ok(6) Node.prems(2)
        by simp
    qed
  qed
qed simp

section \<open>Deletion, search and update\<close>

lemma Range_cmp_notin:
  assumes "disjoint_keys (map fst (xs @ (k, d) # ys))"
  shows "Range_cmp k k' = Less \<Longrightarrow> k' \<notin> fst ` set xs"
    and "Range_cmp k k' = Greater \<Longrightarrow> k' \<notin> fst ` set ys"
proof -
  have k: "valid_range k" using assms by simp
  { fix e assume "e \<in> set xs"
    then have "before (fst e) k" "valid_range (fst e)"
      using assms by (auto, auto simp: disjoint_keys_def)
    with k have "Range_cmp k (fst e) = Greater" by (blast intro: Range_cmp_before) }
  then show "Range_cmp k k' = Less \<Longrightarrow> k' \<notin> fst ` set xs" by auto
  { fix e assume "e \<in> set ys"
    then have "before k (fst e)" "valid_range (fst e)"
      using assms by (auto, auto simp: disjoint_keys_def)
    with k have "Range_cmp k (fst e) = Less" by (blast intro: Range_cmp_before) }
  then show "Range_cmp k k' = Greater \<Longrightarrow> k' \<notin> fst ` set ys" by auto
qed

lemma get_new_root_ok:
  assumes "avl t" "t \<noteq> Leaf"
  shows "\<exists>mn t'. get_new_root t = Some (mn, t') \<and> avl t' \<and> height t \<in> {height t', height t' + 1} \<and>
     inorder t = (key mn, data mn) # inorder t'"
  using assms
proof (induction t)
  case (Node k d l r h m)
  have lr: "avl l" "avl r" using Node.prems(1) by simp_all
  show ?case
  proof (cases "l = Leaf")
    case True
    then show ?thesis using Node.prems(1) by auto
  next
    case False
    then obtain mn l' where l': "get_new_root l = Some (mn, l')" "avl l'"
        "height l \<in> {height l', height l' + 1}" "inorder l = (key mn, data mn) # inorder l'"
      using Node.IH(1) lr by blast
    obtain t' where t': "updated_node (Node k d l' r h m) = Some t'" "avl t'"
        "inorder t' = inorder l' @ (k, d) # inorder r" "h \<in> {height t', height t' + 1}"
      using updated_node_shrink [OF Node.prems(1) l'(2) lr(2)] l'(3) by blast
    have "get_new_root (Node k d l r h m) = Some (mn, t')"
      using l'(1) t'(1) False by simp
    with l'(4) t'(2-4) show ?thesis by simp
  qed
qed simp

lemma delete_root_ok:
  assumes "avl (Node k d l r h m)"
  shows "\<exists>t'. delete_root l r = Some t' \<and> avl t' \<and> h \<in> {height t', height t' + 1} \<and>
     inorder t' = inorder l @ inorder r"
proof (cases "l = Leaf \<or> r = Leaf")
  case True
  then show ?thesis using assms by (cases l; cases r) auto
next
  case False
  have lr: "avl l" "avl r" using assms by simp_all
  obtain mn r' where r': "get_new_root r = Some (mn, r')" "avl r'"
      "height r \<in> {height r', height r' + 1}" "inorder r = (key mn, data mn) # inorder r'"
    using get_new_root_ok lr False by blast
  obtain t' where "updated_node (Node (key mn) (data mn) l r' (cached_height mn) (cached_max_key mn))
      = Some t'" "avl t'" "inorder t' = inorder l @ (key mn, data mn) # inorder r'"
      "h \<in> {height t', height t' + 1}"
    using updated_node_shrink [OF assms lr(1) r'(2)] r'(3) by blast
  moreover have "delete_root l r = combine_subtrees l r"
    using False by (cases l; cases r) auto
  ultimately show ?thesis using r' by auto
qed

text \<open>Around the root of an ordered tree a key is found, or filtered out, on one side only.\<close>

lemma filter_notin: "k \<notin> fst ` set xs \<Longrightarrow> filter (\<lambda>e. fst e \<noteq> k) xs = xs"
  by (auto simp: filter_id_conv)

lemma around_Equal:
  assumes "disjoint_keys (map fst (xs @ (k, d) # ys))"
  shows "filter (\<lambda>e. fst e \<noteq> k) (xs @ (k, d) # ys) = xs @ ys"
    and "map_of (xs @ (k, d) # ys) k = Some d"
proof -
  have "k \<notin> fst ` set xs" "k \<notin> fst ` set ys"
    using assms by (auto dest: before_irrefl)
  moreover then have "map_of xs k = None"
    by (simp add: map_of_eq_None_iff)
  ultimately show "filter (\<lambda>e. fst e \<noteq> k) (xs @ (k, d) # ys) = xs @ ys"
    and "map_of (xs @ (k, d) # ys) k = Some d"
    by (simp_all add: filter_notin map_add_def)
qed

lemma around_Less:
  assumes "disjoint_keys (map fst (xs @ (k, d) # ys))" "Range_cmp k k' = Less"
  shows "filter (\<lambda>e. fst e \<noteq> k') (xs @ (k, d) # ys) = xs @ (k, d) # filter (\<lambda>e. fst e \<noteq> k') ys"
    and "map_of (xs @ (k, d) # ys) k' = map_of ys k'"
proof -
  have "k' \<notin> fst ` set xs" "k \<noteq> k'"
    using Range_cmp_notin(1) [OF assms] assms(2) by auto
  moreover then have "map_of xs k' = None"
    by (simp add: map_of_eq_None_iff)
  ultimately show
      "filter (\<lambda>e. fst e \<noteq> k') (xs @ (k, d) # ys) = xs @ (k, d) # filter (\<lambda>e. fst e \<noteq> k') ys"
    and "map_of (xs @ (k, d) # ys) k' = map_of ys k'"
    by (auto simp: filter_notin map_add_def split: option.splits)
qed

lemma around_Greater:
  assumes "disjoint_keys (map fst (xs @ (k, d) # ys))" "Range_cmp k k' = Greater"
  shows "filter (\<lambda>e. fst e \<noteq> k') (xs @ (k, d) # ys) = filter (\<lambda>e. fst e \<noteq> k') xs @ (k, d) # ys"
    and "map_of (xs @ (k, d) # ys) k' = map_of xs k'"
proof -
  have "k' \<notin> fst ` set ys" "k \<noteq> k'"
    using Range_cmp_notin(2) [OF assms] assms(2) by auto
  moreover then have "map_of ys k' = None"
    by (simp add: map_of_eq_None_iff)
  ultimately show
      "filter (\<lambda>e. fst e \<noteq> k') (xs @ (k, d) # ys) = filter (\<lambda>e. fst e \<noteq> k') xs @ (k, d) # ys"
    and "map_of (xs @ (k, d) # ys) k' = map_of xs k'"
    by (auto simp: filter_notin map_add_def split: option.splits)
qed

lemma node_delete_ok:
  assumes "tree_ok t"
  shows "\<exists>t'. node_delete t k' = Some (Option.bind (map_of (inorder t) k') NodeState_into, t') \<and>
     avl t' \<and> height t \<in> {height t', height t' + 1} \<and>
     inorder t' = filter (\<lambda>e. fst e \<noteq> k') (inorder t)"
  using assms
proof (induction t)
  case Leaf
  then show ?case by simp
next
  case (Node k d l r h m)
  note ok = tree_ok_Node [OF Node.prems]
  show ?case
  proof (cases "Range_cmp k k'")
    case Equal
    then have k': "k' = k" by simp
    obtain t' where "delete_root l r = Some t'" "avl t'" "h \<in> {height t', height t' + 1}"
        "inorder t' = inorder l @ inorder r"
      using delete_root_ok [OF ok(3)] by blast
    with around_Equal [OF ok(7)] Equal show ?thesis unfolding k' by simp
  next
    case Less
    show ?thesis
    proof (cases "r = Leaf")
      case True
      then show ?thesis using Less ok(3) around_Less [OF ok(7) Less] by (simp del: map_of_append filter_append)
    next
      case False
      obtain r' where r': "node_delete r k' =
            Some (Option.bind (map_of (inorder r) k') NodeState_into, r')" "avl r'"
          "height r \<in> {height r', height r' + 1}"
          "inorder r' = filter (\<lambda>e. fst e \<noteq> k') (inorder r)"
        using Node.IH(2) [OF ok(2)] by blast
      obtain t' where "updated_node (Node k d l r' h m) = Some t'" "avl t'"
          "inorder t' = inorder l @ (k, d) # inorder r'" "h \<in> {height t', height t' + 1}"
        using updated_node_shrink [OF ok(3,4) r'(2)] r'(3) by blast
      with False r' Less around_Less [OF ok(7) Less]
      show ?thesis by (simp del: map_of_append filter_append)
    qed
  next
    case Greater
    show ?thesis
    proof (cases "l = Leaf")
      case True
      then show ?thesis using Greater ok(3) around_Greater [OF ok(7) Greater] by (simp del: map_of_append filter_append)
    next
      case False
      obtain l' where l': "node_delete l k' =
            Some (Option.bind (map_of (inorder l) k') NodeState_into, l')" "avl l'"
          "height l \<in> {height l', height l' + 1}"
          "inorder l' = filter (\<lambda>e. fst e \<noteq> k') (inorder l)"
        using Node.IH(1) [OF ok(1)] by blast
      obtain t' where "updated_node (Node k d l' r h m) = Some t'" "avl t'"
          "inorder t' = inorder l' @ (k, d) # inorder r" "h \<in> {height t', height t' + 1}"
        using updated_node_shrink [OF ok(3) l'(2) ok(5)] l'(3) by blast
      with False l' Greater around_Greater [OF ok(7) Greater]
      show ?thesis by (simp del: map_of_append filter_append)
    qed
  qed
qed

lemma search_map_of:
  "tree_ok t \<Longrightarrow> map_option data (search t k') = map_of (inorder t) k'"
proof (induction t)
  case (Node k d l r h m)
  note ok = tree_ok_Node [OF Node.prems]
  show ?case
  proof (cases "Range_cmp k k'")
    case Equal
    then have k': "k' = k" by simp
    show ?thesis using around_Equal(2) [OF ok(7)] Equal unfolding k' by simp
  next
    case Less
    then show ?thesis using around_Less(2) [OF ok(7) Less] Node.IH(2) ok(2) by simp
  next
    case Greater
    then show ?thesis using around_Greater(2) [OF ok(7) Greater] Node.IH(1) ok(1) by simp
  qed
qed simp

lemma set_state_notin: "k \<notin> fst ` set xs \<Longrightarrow> set_state k s xs = xs"
  unfolding set_state_def by (rule map_idI) auto

lemma keys_set_state [simp]: "map fst (set_state k s xs) = map fst xs"
  by (auto simp: set_state_def)

lemma node_update_ok:
  assumes "tree_ok t" "\<And>s. map_of (inorder t) k' = Some s \<Longrightarrow> \<not> update_refused s d'"
  shows "\<exists>t'. node_update t k' d' = Some (Option.bind (map_of (inorder t) k') NodeState_into, t') \<and>
     avl t' \<and> height t' = height t \<and> max_key t' = max_key t \<and>
     inorder t' = set_state k' d' (inorder t)"
  using assms
proof (induction t)
  case Leaf
  then show ?case by (simp add: set_state_def)
next
  case (Node k d l r h m)
  note ok = tree_ok_Node [OF Node.prems(1)]
  show ?case
  proof (cases "Range_cmp k k'")
    case Equal
    then have k': "k' = k" by simp
    moreover have "k \<notin> fst ` set (inorder l)" "k \<notin> fst ` set (inorder r)"
      using ok(6,7) by (auto dest: before_irrefl)
    ultimately show ?thesis
      using around_Equal(2) [OF ok(7)] Node.prems(2) ok(3)
        set_state_notin [of k "inorder l" d'] set_state_notin [of k "inorder r" d'] Equal
      by (simp add: set_state_def)
  next
    case Less
    note a = around_Less(2) [OF ok(7) Less]
    obtain r' where r': "node_update r k' d' =
          Some (Option.bind (map_of (inorder r) k') NodeState_into, r')" "avl r'"
        "height r' = height r" "max_key r' = max_key r" "inorder r' = set_state k' d' (inorder r)"
      using Node.IH(2) [OF ok(2)] Node.prems(2) a by auto
    moreover have "set_state k' d' (inorder l) = inorder l"
      using Range_cmp_notin(1) [OF ok(7) Less] by (rule set_state_notin)
    moreover have "k \<noteq> k'" using Less by auto
    ultimately show ?thesis using Less a ok(3) by (simp add: set_state_def)
  next
    case Greater
    note a = around_Greater(2) [OF ok(7) Greater]
    obtain l' where l': "node_update l k' d' =
          Some (Option.bind (map_of (inorder l) k') NodeState_into, l')" "avl l'"
        "height l' = height l" "max_key l' = max_key l" "inorder l' = set_state k' d' (inorder l)"
      using Node.IH(1) [OF ok(1)] Node.prems(2) a by auto
    moreover have "set_state k' d' (inorder r) = inorder r"
      using Range_cmp_notin(2) [OF ok(7) Greater] by (rule set_state_notin)
    moreover have "k \<noteq> k'" using Greater by auto
    ultimately show ?thesis using Greater a ok(3) by (simp add: set_state_def)
  qed
qed

end
