(* ===== verification/IntervalTree_Entries.thy ===== *)
theory IntervalTree_Entries
  imports IntervalTree_Inv
begin

text \<open>
  The interval tree seen as a set of entries and as a map from addresses to states, and what
  the operations of \<open>IntervalTree\<close> do to these views.
\<close>

section \<open>Specification vocabulary\<close>

text \<open>
  \<open>state_at t a\<close> is the state of the node that covers address \<open>a\<close>. A pool is a well-formed tree
  that does not reach the last address; it is merged when no two free nodes touch. \<open>fits c k v\<close>:
  the constraint can be served from key \<open>k\<close> at address \<open>v\<close>. \<open>carve k r\<close>: what becomes of the free
  node \<open>k\<close> when \<open>r\<close> is taken out of it.
\<close>

abbreviation entries :: "'a node \<Rightarrow> (Range \<times> 'a NodeState) set" where
  "entries t \<equiv> set (inorder t)"

definition state_at :: "'a node \<Rightarrow> u64 \<Rightarrow> 'a NodeState option" where
  "state_at t a =
     map_option snd (find (\<lambda>e. rmin (fst e) \<le> a \<and> a \<le> rmax (fst e)) (inorder t))"

definition pool_ok :: "'a node \<Rightarrow> bool" where
  "pool_ok t \<longleftrightarrow> tree_ok t \<and> (\<forall>k \<in> set (keys t). rmax k \<noteq> u64_MAX)"

definition merged :: "'a node \<Rightarrow> bool" where
  "merged t \<longleftrightarrow> (\<forall>(k, s) \<in> entries t.
     NodeState_is_free s \<and> rmax k \<noteq> u64_MAX \<longrightarrow> state_at t (rmax k + 1) \<noteq> Some Free)"

definition fits :: "Constraint \<Rightarrow> Range \<Rightarrow> u64 \<Rightarrow> bool" where
  "fits c k v \<longleftrightarrow> align_ok (c_align c) \<and> aligned v (c_align c) \<and> rmin k \<le> v \<and> c_min c \<le> v \<and>
     unat v + unat (c_size c) \<le> unat (min (rmax k) (c_max c)) + 1"

definition can_serve :: "Constraint \<Rightarrow> Range \<times> 'a NodeState \<Rightarrow> bool" where
  "can_serve c e \<longleftrightarrow> NodeState_is_free (snd e) \<and> (\<exists>v. fits c (fst e) v)"

definition carve :: "Range \<Rightarrow> Range \<Rightarrow> (Range \<times> 'a NodeState) set" where
  "carve k r = {(r, Allocated)} \<union>
     (if rmin k < rmin r then {(\<lparr>rmin = rmin k, rmax = rmin r - 1\<rparr>, Free)} else {}) \<union>
     (if rmax r < rmax k then {(\<lparr>rmin = rmax r + 1, rmax = rmax k\<rparr>, Free)} else {})"

section \<open>Entries\<close>

lemma NodeState_is_free_iff [simp]: "NodeState_is_free s \<longleftrightarrow> s = Free"
  by (cases s) auto

lemma entries_disjoint:
  assumes "tree_ok t" "(k, s) \<in> entries t" "(k', s') \<in> entries t"
  shows "k = k' \<and> s = s' \<or> before k k' \<or> before k' k"
proof -
  have *: "sorted_wrt before (keys t)" using assms(1) by (simp add: tree_ok_def disjoint_keys_def)
  from assms(2,3) obtain i j where "i < length (inorder t)" "j < length (inorder t)"
    "inorder t ! i = (k, s)" "inorder t ! j = (k', s')" by (metis in_set_conv_nth)
  moreover have "before (fst (inorder t ! m)) (fst (inorder t ! n))"
    if "m < n" "n < length (inorder t)" for m n
    using * that by (simp add: sorted_wrt_iff_nth_less)
  ultimately show ?thesis
    by (cases i j rule: linorder_cases) (metis fst_conv prod.inject)+
qed

lemma entry_valid: "tree_ok t \<Longrightarrow> (k, s) \<in> entries t \<Longrightarrow> valid_range k"
  by (auto simp: tree_ok_def disjoint_keys_def)

lemma entries_overlap:
  assumes "tree_ok t" "(k, s) \<in> entries t" "(k', s') \<in> entries t" "a \<in> addrs k" "a \<in> addrs k'"
  shows "k = k'" "s = s'"
  using entries_disjoint [OF assms(1-3)] assms(4,5) by (auto simp: before_def addrs_def)

lemma disjoint_keys_distinct: "disjoint_keys ks \<Longrightarrow> distinct ks"
  by (induction ks) auto

lemma entries_map_of:
  assumes "tree_ok t"
  shows "map_of (inorder t) k = Some s \<longleftrightarrow> (k, s) \<in> entries t"
proof -
  have "distinct (keys t)"
    using assms by (simp add: tree_ok_def disjoint_keys_distinct)
  then show ?thesis by simp
qed

lemma state_at_iff:
  assumes "tree_ok t"
  shows "state_at t a = Some s \<longleftrightarrow> (\<exists>k. (k, s) \<in> entries t \<and> a \<in> addrs k)"
proof
  assume "state_at t a = Some s"
  then show "\<exists>k. (k, s) \<in> entries t \<and> a \<in> addrs k"
    by (auto simp: state_at_def addrs_def dest!: find_Some_in)
next
  assume "\<exists>k. (k, s) \<in> entries t \<and> a \<in> addrs k"
  then obtain k where k: "(k, s) \<in> entries t" "a \<in> addrs k" by blast
  then obtain e where e: "find (\<lambda>e. rmin (fst e) \<le> a \<and> a \<le> rmax (fst e)) (inorder t) = Some e"
    by (cases "find (\<lambda>e. rmin (fst e) \<le> a \<and> a \<le> rmax (fst e)) (inorder t)")
      (auto simp: find_None_iff addrs_def)
  then have "e \<in> entries t" "a \<in> addrs (fst e)"
    by (auto simp: addrs_def dest: find_Some_in)
  with e entries_overlap [OF assms k(1) _ k(2), of "fst e" "snd e"] show "state_at t a = Some s"
    by (simp add: state_at_def)
qed

lemma state_at_eqI:
  assumes "tree_ok t" "\<And>s. f a = Some s \<longleftrightarrow> (\<exists>k. (k, s) \<in> entries t \<and> a \<in> addrs k)"
  shows "state_at t a = f a"
  using state_at_iff [OF assms(1), of a] assms(2) by (metis option.exhaust)

section \<open>Operations on the set of entries\<close>

lemma IntervalTree_get_ok: "tree_ok t \<Longrightarrow> IntervalTree_get t k = Some s \<longleftrightarrow> (k, s) \<in> entries t"
  by (simp add: IntervalTree_get_def search_map_of entries_map_of)

lemma IntervalTree_insert_ok:
  assumes "tree_ok t" "valid_range k" "\<forall>e \<in> entries t. \<not> Range_intersect (fst e) k"
  obtains t' where "IntervalTree_insert t k d = Some t'" "tree_ok t'"
    "entries t' = insert (k, new_state d) (entries t)"
proof -
  obtain t' where t': "node_insert t k d = Some t'" "avl t'"
      "inorder t' = ins_entry (k, new_state d) (inorder t)"
    using node_insert_ok [OF assms(1,2)] assms(3) by auto
  moreover have "IntervalTree_insert t k d = node_insert t k d"
    by (simp add: IntervalTree_insert_def)
  moreover have "disjoint_keys (keys t')"
    using disjoint_keys_ins_entry [of "inorder t" "(k, new_state d)"] assms t'(3)
    by (auto simp: tree_ok_def)
  ultimately show ?thesis
    by (intro that [of t']) (auto simp: tree_ok_def)
qed

lemma IntervalTree_delete_ok:
  assumes "tree_ok t"
  obtains t' where
    "IntervalTree_delete t k = Some (Option.bind (IntervalTree_get t k) NodeState_into, t')"
    "tree_ok t'" "entries t' = {e \<in> entries t. fst e \<noteq> k}"
proof -
  obtain t' where t': "node_delete t k = Some (Option.bind (map_of (inorder t) k) NodeState_into, t')"
      "avl t'" "inorder t' = filter (\<lambda>e. fst e \<noteq> k) (inorder t)"
    using node_delete_ok [OF assms] by blast
  moreover have "IntervalTree_delete t k = node_delete t k"
    by (simp add: IntervalTree_delete_def)
  moreover have "map_of (inorder t) k = IntervalTree_get t k"
    using assms by (simp add: IntervalTree_get_def search_map_of)
  moreover have "disjoint_keys (keys t')"
    using assms t'(3) by (auto simp: tree_ok_def disjoint_keys_def sorted_wrt_map sorted_wrt_filter)
  ultimately show ?thesis
    by (intro that [of t']) (auto simp: tree_ok_def)
qed

lemma node_update_entries:
  assumes "tree_ok t" "(k, s) \<in> entries t" "\<not> update_refused s d"
  obtains t' where "node_update t k d = Some (NodeState_into s, t')" "tree_ok t'"
    "entries t' = insert (k, d) {e \<in> entries t. fst e \<noteq> k}"
proof -
  have m: "map_of (inorder t) k = Some s" using assms(1,2) by (simp add: entries_map_of)
  obtain t' where t': "node_update t k d = Some (NodeState_into s, t')" "avl t'"
      "inorder t' = set_state k d (inorder t)"
    using node_update_ok [OF assms(1), of k d] m assms(3) by auto
  moreover have "entries t' = insert (k, d) {e \<in> entries t. fst e \<noteq> k}"
    using assms(2) unfolding t'(3) set_state_def by force
  ultimately show ?thesis
    using assms(1) by (intro that [of t']) (auto simp: tree_ok_def)
qed

lemma root_update_ok:
  assumes "tree_ok t" "(k, s) \<in> entries t" "\<not> update_refused s d"
  obtains t' where "root_update t k d = Some t'" "tree_ok t'"
    "entries t' = insert (k, d) {e \<in> entries t. fst e \<noteq> k}"
proof -
  have "t \<noteq> Leaf" using assms(2) by auto
  with node_update_entries [OF assms] show ?thesis
    by (metis (no_types, lifting) option.simps(9) root_update_def snd_conv that)
qed

lemma search_superset_sound:
  "search_superset t k' = Some n \<Longrightarrow> (key n, data n) \<in> entries t \<and> Range_contain (key n) k'"
  by (induction t) (auto split: if_splits)

lemma search_superset_complete:
  assumes "tree_ok t" "valid_range k'" "(k, s) \<in> entries t" "Range_contain k k'"
  shows "\<exists>n. search_superset t k' = Some n \<and> key n = k \<and> data n = s"
  using assms
proof (induction t)
  case (Node k0 d l r h m)
  note ok = tree_ok_Node [OF Node.prems(1)]
  have v: "valid_range k" using entry_valid [OF Node.prems(1,3)] .
  have sub: "rmin k \<le> rmin k'" "rmax k' \<le> rmax k" "rmin k' \<le> rmax k'"
    using Node.prems(2,4) by (auto simp: Range_contain_def valid_range_def)
  from entries_disjoint [OF Node.prems(1,3), of k0 d]
  consider "k = k0" "s = d" | "before k k0" | "before k0 k" by auto
  then show ?case
  proof cases
    case 1
    then show ?thesis using Node.prems(4) by simp
  next
    case 2
    then have "(k, s) \<in> entries l"
      using Node.prems(3) ok(6,7) v before_asym by fastforce
    moreover have "\<not> Range_contain k0 k'" "rmax k' < rmin k0"
      using 2 sub by (auto simp: before_def Range_contain_def)
    moreover then have "l \<noteq> Leaf" using calculation(1) by auto
    ultimately show ?thesis using Node.IH(1) ok(1) Node.prems(2,4) by simp
  next
    case 3
    then have "(k, s) \<in> entries r"
      using Node.prems(3) ok(6,7) v before_asym by fastforce
    moreover have "\<not> Range_contain k0 k'" "rmax k0 < rmin k'"
      using 3 sub by (auto simp: before_def Range_contain_def)
    moreover have "\<not> rmax k' < rmin k0"
      using calculation(3) sub ok(6) by (auto simp: valid_range_def)
    moreover have "r \<noteq> Leaf" using calculation(1) by auto
    ultimately show ?thesis using Node.IH(2) ok(2) Node.prems(2,4) by simp
  qed
qed simp

lemma get_superset_point:
  assumes "tree_ok t"
  shows "IntervalTree_get_superset t \<lparr>rmin = a, rmax = a\<rparr> = Some (k, s) \<longleftrightarrow>
     (k, s) \<in> entries t \<and> a \<in> addrs k"
proof (cases "\<exists>k s. (k, s) \<in> entries t \<and> a \<in> addrs k")
  case True
  then obtain k0 s0 where k0: "(k0, s0) \<in> entries t" "a \<in> addrs k0" by blast
  then obtain n where "search_superset t \<lparr>rmin = a, rmax = a\<rparr> = Some n" "key n = k0" "data n = s0"
    using search_superset_complete [OF assms, of "\<lparr>rmin = a, rmax = a\<rparr>" k0 s0]
    by (auto simp: valid_range_def Range_contain_def addrs_def)
  then have "IntervalTree_get_superset t \<lparr>rmin = a, rmax = a\<rparr> = Some (k0, s0)"
    by (simp add: IntervalTree_get_superset_def)
  with k0 entries_overlap [OF assms k0(1) _ k0(2)] show ?thesis
    by (metis option.inject prod.inject)
next
  case False
  then show ?thesis
    using search_superset_sound [of t "\<lparr>rmin = a, rmax = a\<rparr>"]
    by (auto simp: IntervalTree_get_superset_def Range_contain_def addrs_def)
qed

end
