(* ===== verification/IntervalTree_Alloc.thy ===== *)
theory IntervalTree_Alloc
  imports IntervalTree_Entries
begin

text \<open>
  \<open>IntervalTree::allocate\<close>: \<open>check_constraint\<close> decides whether a free node can serve a
  constraint, \<open>first_match\<close> finds the first such node in address order, and the split of that
  node replaces it by its carved pieces.
\<close>

section \<open>Candidates\<close>

lemma fits_addr:
  assumes "fits c k v" "c_size c \<noteq> 0"
  shows "max (rmin k) (c_min c) \<le> v" "v \<le> min (rmax k) (c_max c)"
proof -
  have "0 < unat (c_size c)" using assms(2) by (simp add: unat_gt_0)
  with assms(1) have "unat v \<le> unat (min (rmax k) (c_max c))" by (simp add: fits_def)
  then show "v \<le> min (rmax k) (c_max c)" by (simp only: word_le_nat_alt)
  show "max (rmin k) (c_min c) \<le> v" using assms(1) by (simp add: fits_def)
qed

text \<open>The search for the lowest fitting address of a key: \<open>align_to\<close> on the part of the key the
  constraint allows.\<close>

lemma candidate_cases:
  assumes "valid_range k" "c_size c \<noteq> 0"
    "max (rmin k) (c_min c) \<le> min (rmax k) (c_max c)"
  defines "r \<equiv> \<lparr>rmin = max (rmin k) (c_min c), rmax = min (rmax k) (c_max c)\<rparr>"
  obtains
    (none) "Range_align_to r (c_align c) = Some None" "\<nexists>v. fits c k v"
  | (found) s n where "Range_align_to r (c_align c) = Some (Some s)" "Range_len s = Some n"
      "c_size c \<le> n \<longleftrightarrow> fits c k (rmin s)" "\<And>v. fits c k v \<Longrightarrow> rmin s \<le> v \<and> fits c k (rmin s)"
proof -
  have v: "valid_range r"
    using assms(1,3) by (auto simp: r_def valid_range_def min_def max_def split: if_splits)
  have in_r: "v \<in> addrs r" if "fits c k v" for v
    using fits_addr [OF that assms(2)] by (simp add: addrs_def r_def del: min.bounded_iff max.bounded_iff)
  obtain a where a: "Range_align_to r (c_align c) = Some a"
    using align_to_ret [OF v] by blast
  show ?thesis
  proof (cases a)
    case None
    with a have "\<nexists>v. fits c k v"
      using align_to_None [OF v] in_r by (auto simp: fits_def)
    with a None show ?thesis by (intro none) auto
  next
    case (Some s)
    note s = align_to_Some [OF v a [unfolded Some]]
    have vs: "valid_range s"
      using s(2-4) v by (auto simp: valid_range_def)
    obtain n where n: "Range_len s = Some n" "unat n = unat (rmax s) - unat (rmin s) + 1"
      using Range_len_valid [OF vs] .
    have lo: "rmin k \<le> rmin s" "c_min c \<le> rmin s" and hi: "min (rmax k) (c_max c) = rmax s"
      using s(2,3) by (auto simp: r_def)
    have le: "unat (rmin s) \<le> unat (rmax s)"
      using s(4) by (simp only: word_le_nat_alt)
    have iff: "c_size c \<le> n \<longleftrightarrow> fits c k (rmin s)"
      unfolding fits_def hi word_le_nat_alt [of _ n] n(2) using lo s(1,5) le by auto
    show ?thesis
    proof (rule found [OF a [unfolded Some] n(1) iff])
      fix w assume w: "fits c k w"
      then have "rmin s \<le> w" using s(6) in_r by (auto simp: fits_def)
      moreover then have "fits c k (rmin s)"
        using w lo s(1,5) unfolding fits_def hi by (simp add: word_le_nat_alt [of _ w])
      ultimately show "rmin s \<le> w \<and> fits c k (rmin s)" by blast
    qed
  qed
qed

lemma candidate_range:
  assumes "valid_range k" "max (rmin k) (c_min c) \<le> min (rmax k) (c_max c)"
  shows "Range_new (max (rmin k) (c_min c)) (min (rmax k) (c_max c)) =
    Some \<lparr>rmin = max (rmin k) (c_min c), rmax = min (rmax k) (c_max c)\<rparr>"
  using assms by (auto simp: Range_new_def valid_range_def min_def max_def split: if_splits)

lemma check_constraint_ok:
  assumes "valid_range k" "c_size c \<noteq> 0"
  shows "check_constraint k d c = Some (NodeState_is_free d \<and> (\<exists>v. fits c k v))"
proof (cases "NodeState_is_free d \<and> max (rmin k) (c_min c) \<le> min (rmax k) (c_max c)")
  case True
  let ?r = "\<lparr>rmin = max (rmin k) (c_min c), rmax = min (rmax k) (c_max c)\<rparr>"
  have "check_constraint k d c = Option.bind (Range_align_to ?r (c_align c)) (\<lambda>a. case a of
      None \<Rightarrow> Some False | Some s \<Rightarrow> Option.bind (Range_len s) (\<lambda>n. Some (n \<ge> c_size c)))"
    using True candidate_range [OF assms(1), of c]
    by (auto simp: check_constraint_def Let_def Range_align_to_def)
  moreover have "\<dots> = Some (\<exists>v. fits c k v)"
  proof (cases rule: candidate_cases [OF assms conjunct2 [OF True], case_names none found])
    case none
    then show ?thesis by simp
  next
    case (found s n)
    then show ?thesis by auto
  qed
  ultimately show ?thesis using True by simp
next
  case False
  then have "NodeState_is_free d \<longrightarrow> (\<nexists>v. fits c k v)"
    using fits_addr [OF _ assms(2), of k] order_trans by blast
  with False show ?thesis
    by (auto simp: check_constraint_def Let_def simp del: max.bounded_iff min.bounded_iff)
qed

lemma first_match_ok:
  assumes "\<forall>e \<in> entries t. valid_range (fst e)" "c_size c \<noteq> 0"
  shows "\<exists>res. first_match t c = Some res \<and>
     find (can_serve c) (inorder t) = map_option (\<lambda>n. (key n, data n)) res"
  using assms
proof (induction t)
  case (Node k d l r h m)
  obtain lres rres where lr: "first_match l c = Some lres" "first_match r c = Some rres"
    "find (can_serve c) (inorder l) = map_option (\<lambda>n. (key n, data n)) lres"
    "find (can_serve c) (inorder r) = map_option (\<lambda>n. (key n, data n)) rres"
    using Node by auto
  moreover have "check_constraint k d c = Some (can_serve c (k, d))"
    using Node.prems by (simp add: can_serve_def check_constraint_ok)
  ultimately show ?case
    by (cases lres) (auto simp: find_append)
qed simp

section \<open>Carving a range out of a free node\<close>

lemma lower_piece:
  assumes "rmin k < rmin r" "Range_contain k r" "valid_range k"
  defines "q \<equiv> \<lparr>rmin = rmin k, rmax = rmin r - 1\<rparr>"
  shows "0 < rmin r" "valid_range q" "before q r" "r \<noteq> q"
    "valid_range r \<Longrightarrow> Range_contain k q" "Range_new (rmin k) (rmin r - 1) = Some q"
proof -
  have pos: "0 < rmin r" using assms(1) by (simp add: word_gt_0) auto
  then show "0 < rmin r" .
  have max: "rmin r - 1 \<noteq> u64_MAX" using pos by auto
  have lt: "rmin r - 1 < rmin r" using word_le_pred_iff [OF pos, of "rmin r - 1"] by simp
  show valid: "valid_range q" "before q r" using assms(1) pos max lt
    by (auto simp: q_def valid_range_def before_def word_le_pred_iff)
  show "r \<noteq> q" using valid by auto
  show "Range_contain k q" if "valid_range r"
    using that assms(2) lt by (auto simp: q_def Range_contain_def valid_range_def)
  show "Range_new (rmin k) (rmin r - 1) = Some q"
    using valid(1) unfolding q_def by (subst Range_new_ret_iff) simp
qed

lemma upper_piece:
  assumes "rmax r < rmax k" "Range_contain k r" "valid_range k"
  defines "q \<equiv> \<lparr>rmin = rmax r + 1, rmax = rmax k\<rparr>"
  shows "rmax r \<noteq> u64_MAX" "valid_range q" "before r q" "r \<noteq> q"
    "valid_range r \<Longrightarrow> Range_contain k q" "Range_new (rmax r + 1) (rmax k) = Some q"
proof -
  have max: "rmax r \<noteq> u64_MAX" using assms(1) by auto
  then show "rmax r \<noteq> u64_MAX" .
  have pos: "rmax r + 1 \<noteq> 0" using max by (metis add_eq_0_iff2)
  show valid: "valid_range q" "before r q" using assms(1) pos max u64_succ_le_iff [OF max, of "rmax r + 1"]
    by (auto simp: q_def valid_range_def before_def u64_succ_le_iff)
  show "r \<noteq> q" using valid by auto
  show "Range_contain k q" if "valid_range r"
    using that assms(1,2) u64_succ_le_iff [OF max, of "rmax r + 1"]
    by (auto simp: q_def Range_contain_def valid_range_def)
  show "Range_new (rmax r + 1) (rmax k) = Some q"
    using valid(1) unfolding q_def by (subst Range_new_ret_iff) simp
qed


lemmas insert_piece_defs = insert_below_def insert_above_def

lemma insert_lower:
  assumes "tree_ok t" "valid_range k" "valid_range r" "Range_contain k r"
    "\<forall>e \<in> entries t. before (fst e) k \<or> before k (fst e)"
  obtains t' where
    "insert_below t k (rmin r) = Some t'" "tree_ok t'"
    "entries t' = entries t \<union>
       (if rmin k < rmin r then {(\<lparr>rmin = rmin k, rmax = rmin r - 1\<rparr>, Free)} else {})"
proof (cases "rmin k < rmin r")
  case True
  let ?q = "\<lparr>rmin = rmin k, rmax = rmin r - 1\<rparr>"
  note p = lower_piece [OF True assms(4,2)]
  have "\<forall>e \<in> entries t. \<not> Range_intersect (fst e) ?q"
    using assms(5) before_contain [OF p(5) [OF assms(3)]] before_not_intersect by blast
  from IntervalTree_insert_ok [OF assms(1) p(2) this, of None] obtain t' where
    "IntervalTree_insert t ?q None = Some t'" "tree_ok t'" "entries t' = insert (?q, Free) (entries t)"
    by auto
  with True p show ?thesis by (intro that [of t']) (auto simp: insert_piece_defs)
next
  case False
  with assms(1) show ?thesis by (intro that [of t]) (auto simp: insert_piece_defs)
qed

lemma insert_upper:
  assumes "tree_ok t" "valid_range k" "valid_range r" "Range_contain k r"
    "\<forall>e \<in> entries t. before (fst e) \<lparr>rmin = rmax r + 1, rmax = rmax k\<rparr> \<or> before k (fst e)"
  obtains t' where
    "insert_above t k (rmax r) = Some t'" "tree_ok t'"
    "entries t' = entries t \<union>
       (if rmax r < rmax k then {(\<lparr>rmin = rmax r + 1, rmax = rmax k\<rparr>, Free)} else {})"
proof (cases "rmax r < rmax k")
  case True
  let ?q = "\<lparr>rmin = rmax r + 1, rmax = rmax k\<rparr>"
  note p = upper_piece [OF True assms(4,2)]
  have "\<forall>e \<in> entries t. \<not> Range_intersect (fst e) ?q"
    using assms(5) before_contain [OF p(5) [OF assms(3)]] before_not_intersect by blast
  from IntervalTree_insert_ok [OF assms(1) p(2) this, of None] obtain t' where
    "IntervalTree_insert t ?q None = Some t'" "tree_ok t'" "entries t' = insert (?q, Free) (entries t)"
    by auto
  with True p show ?thesis by (intro that [of t']) (auto simp: insert_piece_defs)
next
  case False
  with assms(1) show ?thesis by (intro that [of t]) (auto simp: insert_piece_defs)
qed

lemma carve_ok:
  assumes "tree_ok t" "(k, Free) \<in> entries t" "valid_range r" "Range_contain k r"
  obtains old t1 t2 t3 t4 t' where
    "IntervalTree_delete t k = Some (old, t1)"
    "insert_below t1 k (rmin r) = Some t2"
    "IntervalTree_insert t2 r None = Some t3"
    "insert_above t3 k (rmax r) = Some t4"
    "root_update t4 r Allocated = Some t'" "tree_ok t'"
    "entries t' = {e \<in> entries t. fst e \<noteq> k} \<union> carve k r"
proof -
  have k: "valid_range k" using entry_valid [OF assms(1,2)] .
  let ?p = "\<lparr>rmin = rmin k, rmax = rmin r - 1\<rparr>" and ?q = "\<lparr>rmin = rmax r + 1, rmax = rmax k\<rparr>"
  obtain t1 where t1:
      "IntervalTree_delete t k = Some (Option.bind (IntervalTree_get t k) NodeState_into, t1)"
      "tree_ok t1" "entries t1 = {e \<in> entries t. fst e \<noteq> k}"
    using IntervalTree_delete_ok [OF assms(1)] .
  have d1: "\<forall>e \<in> entries t1. before (fst e) k \<or> before k (fst e)"
    using entries_disjoint [OF assms(1,2)] t1(3) by auto
  obtain t2 where t2: "insert_below t1 k (rmin r) = Some t2" "tree_ok t2"
      "entries t2 = entries t1 \<union> (if rmin k < rmin r then {(?p, Free)} else {})"
    using insert_lower [OF t1(2) k assms(3,4) d1] .
  have d2: "\<forall>e \<in> entries t2. before (fst e) r \<or> before k (fst e)"
    using d1 t2(3) before_contain [OF assms(4)] lower_piece(3) [OF _ assms(4) k]
    by (auto split: if_splits)
  then have "\<forall>e \<in> entries t2. \<not> Range_intersect (fst e) r"
    using before_contain [OF assms(4)] before_not_intersect by blast
  from IntervalTree_insert_ok [OF t2(2) assms(3) this, of None] obtain t3 where
    t3: "IntervalTree_insert t2 r None = Some t3" "tree_ok t3"
      "entries t3 = insert (r, Free) (entries t2)" by auto
  have d3: "\<forall>e \<in> entries t3. before (fst e) ?q \<or> before k (fst e)" if "rmax r < rmax k"
    using d2 t3(3) upper_piece(3) [OF that assms(4) k] assms(3)
    by (auto intro: before_trans)
  obtain t4 where t4: "insert_above t3 k (rmax r) = Some t4" "tree_ok t4"
      "entries t4 = entries t3 \<union> (if rmax r < rmax k then {(?q, Free)} else {})"
  proof (cases "rmax r < rmax k")
    case True
    then show ?thesis using insert_upper [OF t3(2) k assms(3,4) d3 [OF True]] that by blast
  next
    case False
    with t3(2) show ?thesis by (intro that [of t3]) (auto simp: insert_piece_defs)
  qed
  have "(r, Free) \<in> entries t4" using t3(3) t4(3) by simp
  from root_update_ok [OF t4(2) this, of Allocated] obtain t' where
    t': "root_update t4 r Allocated = Some t'" "tree_ok t'"
      "entries t' = insert (r, Allocated) {e \<in> entries t4. fst e \<noteq> r}" by auto
  have "r \<notin> fst ` entries t1"
    using d1 before_contain [OF assms(4)] before_irrefl [OF assms(3)] by auto
  then have "{e \<in> entries t4. fst e \<noteq> r} = entries t1 \<union> (if rmin k < rmin r then {(?p, Free)} else {}) \<union>
     (if rmax r < rmax k then {(?q, Free)} else {})"
    using t2(3) t3(3) t4(3) lower_piece(4) [OF _ assms(4) k] upper_piece(4) [OF _ assms(4) k]
    by (auto split: if_splits)
  with t'(3) t1(3) have "entries t' = {e \<in> entries t. fst e \<noteq> k} \<union> carve k r"
    by (auto simp: carve_def)
  with t1(1) t2(1) t3(1) t4(1) t'(1,2) show ?thesis by (intro that)
qed

section \<open>Allocation\<close>

lemma carve_self [simp]: "carve k k = {(k, Allocated)}"
  by (simp add: carve_def)

lemma find_candidate_ok:
  assumes "tree_ok t" "c_size c \<noteq> 0"
  obtains res where "find_candidate t c = Some res"
    "find (can_serve c) (inorder t) = map_option (\<lambda>n. (key n, data n)) res"
proof -
  have "find_candidate t c = first_match t c"
    by (simp add: find_candidate_def split: AllocPolicy.splits)
  moreover have "\<forall>e \<in> entries t. valid_range (fst e)"
    using assms(1) by (auto simp: entry_valid)
  ultimately show ?thesis
    using first_match_ok [OF _ assms(2)] that by metis
qed

lemma allocate_None:
  assumes "tree_ok t" "c_size c = 0 \<or> \<not> (\<exists>e \<in> entries t. can_serve c e)"
  shows "IntervalTree_allocate t c = Some (None, t)"
proof (cases "c_size c = 0")
  case False
  with assms(2) have "find (can_serve c) (inorder t) = None"
    by (auto simp: find_None_iff)
  then have "find_candidate t c = Some None"
    using find_candidate_ok [OF assms(1) False] by (metis option.map_disc_iff)
  with False show ?thesis
    by (simp add: IntervalTree_allocate_def)
qed (simp add: IntervalTree_allocate_def)

text \<open>The range of the constraint's size that starts at a fitting address.\<close>

lemma result_range:
  assumes "fits c k v" "c_size c \<noteq> 0" "rmax k \<noteq> u64_MAX"
  obtains p r where "uadd v (c_size c) = Some p" "usub p 1 = Some (rmax r)"
    "Range_new v (rmax r) = Some r" "rmin r = v" "valid_range r" "Range_contain k r"
    "unat (rmax r) + 1 = unat v + unat (c_size c)" "c_min c \<le> rmin r" "rmax r \<le> c_max c"
proof -
  have "unat (rmax k) < 18446744073709551615"
    using assms(3) u64_less_MAX_iff [of "rmax k"] unfolding word_less_nat_alt by simp
  moreover have le: "unat v + unat (c_size c) \<le> unat (rmax k) + 1"
      "unat v + unat (c_size c) \<le> unat (c_max c) + 1"
    using assms(1) by (auto simp: fits_def min_def word_le_nat_alt split: if_splits)
  ultimately have "unat v + unat (c_size c) < 2 ^ 64" by simp
  then have add: "uadd v (c_size c) = Some (v + c_size c)"
    by (simp add: checked_add_def)
  then obtain p where p: "uadd v (c_size c) = Some p" "unat p = unat v + unat (c_size c)"
    using checked_add_Some_unat [OF add] by blast
  have sz: "0 < unat (c_size c)"
    using assms(2) by (simp add: unat_gt_0)
  with p(2) have pos: "0 < p" by (simp add: word_pos_unat)
  define r where "r = \<lparr>rmin = v, rmax = p - 1\<rparr>"
  have u: "unat (rmax r) + 1 = unat v + unat (c_size c)"
    using pos p(2) sz by (simp add: r_def unat_pred)
  then have ord: "v \<le> rmax r" "rmax r \<le> rmax k" "rmax r \<le> c_max c"
    using le sz unfolding word_le_nat_alt by linarith+
  moreover have "rmax r \<noteq> u64_MAX" using ord(2) assms(3) word_order.extremum_unique by force
  ultimately have valid: "valid_range r" by (simp add: valid_range_def r_def)
  show ?thesis
  proof (rule that [OF p(1)])
    show "usub p 1 = Some (rmax r)" using pos by (simp add: r_def)
    show "Range_new v (rmax r) = Some r" using valid by (subst Range_new_ret_iff) (simp add: r_def)
    show "Range_contain k r" "c_min c \<le> rmin r"
      using assms(1) ord by (auto simp: Range_contain_def r_def fits_def)
  qed (use valid u ord in \<open>auto simp: r_def\<close>)
qed

lemma allocate_Some:
  assumes "pool_ok t" "c_size c \<noteq> 0" "\<exists>e \<in> entries t. can_serve c e"
  obtains k r t' where "find (can_serve c) (inorder t) = Some (k, Free)"
    "IntervalTree_allocate t c = Some (Some r, t')"
    "fits c k (rmin r)" "\<forall>v. fits c k v \<longrightarrow> rmin r \<le> v"
    "unat (rmax r) + 1 = unat (rmin r) + unat (c_size c)" "c_min c \<le> rmin r" "rmax r \<le> c_max c"
    "valid_range r" "Range_contain k r"
    "tree_ok t'" "entries t' = {e \<in> entries t. fst e \<noteq> k} \<union> carve k r"
proof -
  have tok: "tree_ok t" using assms(1) by (simp add: pool_ok_def)
  obtain k where k: "find (can_serve c) (inorder t) = Some (k, Free)"
    using assms(3) find_None_iff [of "can_serve c" "inorder t"]
    by (cases "find (can_serve c) (inorder t)") (auto simp: can_serve_def dest: find_Some_in)
  have kt: "(k, Free) \<in> entries t" and ex: "\<exists>v. fits c k v"
    using find_Some_in [OF k] by (auto simp: can_serve_def)
  have vk: "valid_range k" using entry_valid [OF tok kt] .
  have mk: "rmax k \<noteq> u64_MAX" using assms(1) kt by (force simp: pool_ok_def)
  obtain n where n: "find_candidate t c = Some (Some n)" "key n = k"
    using find_candidate_ok [OF tok assms(2)] k by (metis (no_types, lifting) map_option_eq_Some fst_conv)
  have le: "max (rmin k) (c_min c) \<le> min (rmax k) (c_max c)"
    using ex fits_addr [OF _ assms(2)] order_trans by blast
  obtain s m where s: "Range_align_to \<lparr>rmin = max (rmin k) (c_min c), rmax = min (rmax k) (c_max c)\<rparr>
      (c_align c) = Some (Some s)" "fits c k (rmin s)" "\<forall>v. fits c k v \<longrightarrow> rmin s \<le> v"
    by (cases rule: candidate_cases [OF vk assms(2) le]) (use ex in auto)
  obtain p r where r: "uadd (rmin s) (c_size c) = Some p" "usub p 1 = Some (rmax r)"
    "Range_new (rmin s) (rmax r) = Some r" "rmin r = rmin s" "valid_range r" "Range_contain k r"
    "unat (rmax r) + 1 = unat (rmin s) + unat (c_size c)" "c_min c \<le> rmin r" "rmax r \<le> c_max c"
    using result_range [OF s(2) assms(2) mk] .
  obtain l where l: "Range_len k = Some l" "unat l = unat (rmax k) - unat (rmin k) + 1"
    using Range_len_valid [OF vk] .
  have tl: "t \<noteq> Leaf" using kt by auto
  note cr = candidate_range [OF vk le]
  note fin = that [OF k, of r, unfolded r(4), OF _ s(2,3) r(7) r(8,9,5,6) [unfolded r(4)]]
  show ?thesis
  proof (cases "rmin k = rmin s \<and> l = c_size c")
    case True
    obtain t' where t': "root_update t k Allocated = Some t'" "tree_ok t'"
        "entries t' = insert (k, Allocated) {e \<in> entries t. fst e \<noteq> k}"
      using root_update_ok [OF tok kt, of Allocated] by auto
    have "unat (rmin k) \<le> unat (rmax k)" using vk by (simp add: valid_range_def word_le_nat_alt)
    then have "rmax r = rmax k"
      using True l(2) r(7) unfolding word_unat_eq_iff by linarith
    then have rk: "r = k" using True r(4) by (cases r; cases k) simp
    have "IntervalTree_allocate t c = Some (Some r, t')"
      using assms(2) n tl cr s(1) r(1-3) l True t'(1) rk by (simp add: IntervalTree_allocate_def)
    then show ?thesis using t'(2,3) rk by (intro fin [of t']) auto
  next
    case False
    obtain old t1 t2 t3 t4 t' where t: "IntervalTree_delete t k = Some (old, t1)"
      "insert_below t1 k (rmin r) = Some t2"
      "IntervalTree_insert t2 r None = Some t3"
      "insert_above t3 k (rmax r) = Some t4"
      "root_update t4 r Allocated = Some t'" "tree_ok t'"
      "entries t' = {e \<in> entries t. fst e \<noteq> k} \<union> carve k r"
      using carve_ok [OF tok kt r(5,6)] .
    obtain len where "(if rmin k = rmin s then map_option Some (Range_len k) else Some None) = Some len"
        "len \<noteq> Some (c_size c)"
      using False l by (cases "rmin k = rmin s") auto
    then have "IntervalTree_allocate t c = Some (Some r, t')"
      using assms(2) n tl cr s(1) r(1-3) t(1) t(2) [unfolded r(4)] t(3-5)
      by (simp add: IntervalTree_allocate_def)
    then show ?thesis using t(6,7) by (intro fin [of t'])
  qed
qed

end
