(* ===== verification/IntervalTree_Free.thy ===== *)
theory IntervalTree_Free
  imports IntervalTree_Entries
begin

text \<open>
  \<open>IntervalTree::free\<close>: the freed key and the free nodes that touch it become one free node.
\<close>

section \<open>Freeing\<close>

abbreviation left_gap :: "u64 \<Rightarrow> Range \<Rightarrow> Range" where
  "left_gap lo k \<equiv> \<lparr>rmin = lo, rmax = rmin k - 1\<rparr>"

abbreviation right_gap :: "Range \<Rightarrow> u64 \<Rightarrow> Range" where
  "right_gap k hi \<equiv> \<lparr>rmin = rmax k + 1, rmax = hi\<rparr>"

text \<open>\<open>coalesced t k lo hi t'\<close>: the entries of \<open>t'\<close> are those of \<open>t\<close> with the key \<open>k\<close> and the free
  nodes that touch it replaced by one free node from \<open>lo\<close> to \<open>hi\<close>.\<close>

definition coalesced :: "'a node \<Rightarrow> Range \<Rightarrow> u64 \<Rightarrow> u64 \<Rightarrow> 'a node \<Rightarrow> bool" where
  "coalesced t k lo hi t' \<longleftrightarrow> lo \<le> rmin k \<and> rmax k \<le> hi \<and> hi \<noteq> u64_MAX \<and>
     entries t' = insert (\<lparr>rmin = lo, rmax = hi\<rparr>, Free)
       {e \<in> entries t. fst e \<noteq> k \<and> fst e \<noteq> left_gap lo k \<and> fst e \<noteq> right_gap k hi} \<and>
     (lo < rmin k \<longrightarrow> (left_gap lo k, Free) \<in> entries t) \<and>
     (rmax k < hi \<longrightarrow> (right_gap k hi, Free) \<in> entries t) \<and>
     (lo = rmin k \<longrightarrow> (\<forall>q. (q, Free) \<in> entries t \<and> q \<noteq> k \<longrightarrow> unat (rmax q) + 1 \<noteq> unat (rmin k))) \<and>
     (hi = rmax k \<longrightarrow> (\<forall>q. (q, Free) \<in> entries t \<and> q \<noteq> k \<longrightarrow> unat (rmax k) + 1 \<noteq> unat (rmin q)))"

text \<open>The new lower bound: that of the free node ending just below the key, if there is one.\<close>

lemma free_left:
  assumes "tree_ok t" "valid_range k" "\<forall>e \<in> entries t. \<not> Range_intersect (fst e) k"
  obtains lo where
    "merge_min t k = Some lo"
    "lo \<le> rmin k" "lo < rmin k \<longrightarrow> (left_gap lo k, Free) \<in> entries t"
    "lo = rmin k \<longrightarrow> (\<forall>q. (q, Free) \<in> entries t \<longrightarrow> unat (rmax q) + 1 \<noteq> unat (rmin k))"
proof (cases "\<exists>r. rmin k > 0 \<and> (r, Free) \<in> entries t \<and> rmin k - 1 \<in> addrs r")
  case True
  then obtain r where r: "rmin k > 0" "(r, Free) \<in> entries t" "rmin k - 1 \<in> addrs r" by blast
  have lt: "rmin k - 1 < rmin k" using word_le_pred_iff [OF r(1), of "rmin k - 1"] by simp
  have "before r k"
    using assms(2,3) r(2,3) entry_valid [OF assms(1) r(2)] not_intersect_before [of r k] lt
    by (auto simp: before_def addrs_def valid_range_def)
  then have "rmax r = rmin k - 1"
    using r(1,3) word_le_pred_iff [OF r(1), of "rmax r"] by (simp add: before_def addrs_def)
  then have rr: "left_gap (rmin r) k = r" by simp
  have "rmin r < rmin k" using r(3) lt by (auto simp: addrs_def)
  moreover have "IntervalTree_get_superset t \<lparr>rmin = rmin k - 1, rmax = rmin k - 1\<rparr> = Some (r, Free)"
    using r get_superset_point [OF assms(1)] by blast
  ultimately show ?thesis
    using r rr by (intro that [of "rmin r"]) (auto simp: merge_min_def)
next
  case False
  have none: "unat (rmax q) + 1 \<noteq> unat (rmin k)" if "(q, Free) \<in> entries t" for q
  proof
    assume eq: "unat (rmax q) + 1 = unat (rmin k)"
    then have "rmin k > 0" by (simp add: word_pos_unat)
    moreover then have "rmax q = rmin k - 1"
      using eq by (simp add: word_unat_eq_iff unat_pred)
    moreover have "rmax q \<in> addrs q" using entry_valid [OF assms(1) that] addrs_nonempty by blast
    ultimately show False using False that by auto
  qed
  have "(case IntervalTree_get_superset t \<lparr>rmin = rmin k - 1, rmax = rmin k - 1\<rparr> of
       Some (r, d) \<Rightarrow> if NodeState_is_free d then rmin r else rmin k
     | None \<Rightarrow> rmin k) = rmin k" if "rmin k > 0"
    using False that get_superset_point [OF assms(1), of "rmin k - 1"]
    by (auto split: option.splits)
  with none show ?thesis by (intro that [of "rmin k"]) (auto simp: merge_min_def)
qed

lemma free_right:
  assumes "tree_ok t" "valid_range k" "\<forall>e \<in> entries t. \<not> Range_intersect (fst e) k"
  obtains hi where
    "merge_max t k = Some hi"
    "rmax k \<le> hi" "rmax k < hi \<longrightarrow> (right_gap k hi, Free) \<in> entries t"
    "hi = rmax k \<longrightarrow> (\<forall>q. (q, Free) \<in> entries t \<longrightarrow> unat (rmax k) + 1 \<noteq> unat (rmin q))"
proof (cases "\<exists>r. rmax k \<noteq> u64_MAX \<and> (r, Free) \<in> entries t \<and> rmax k + 1 \<in> addrs r")
  case True
  then obtain r where r: "rmax k \<noteq> u64_MAX" "(r, Free) \<in> entries t" "rmax k + 1 \<in> addrs r" by blast
  have lt: "rmax k < rmax k + 1" using u64_succ_le_iff [OF r(1), of "rmax k + 1"] by simp
  have "before k r"
    using assms(2,3) r(2,3) entry_valid [OF assms(1) r(2)] not_intersect_before [of r k] lt
    by (auto simp: before_def addrs_def valid_range_def)
  then have "rmin r = rmax k + 1"
    using r(1,3) u64_succ_le_iff [OF r(1), of "rmin r"] by (simp add: before_def addrs_def)
  then have rr: "right_gap k (rmax r) = r" by simp
  have "rmax k < rmax r" using r(3) lt by (auto simp: addrs_def)
  moreover have "IntervalTree_get_superset t \<lparr>rmin = rmax k + 1, rmax = rmax k + 1\<rparr> = Some (r, Free)"
    using r get_superset_point [OF assms(1)] by blast
  ultimately show ?thesis
    using r rr by (intro that [of "rmax r"]) (auto simp: merge_max_def)
next
  case False
  have none: "unat (rmax k) + 1 \<noteq> unat (rmin q)" if "(q, Free) \<in> entries t" for q
  proof
    assume eq: "unat (rmax k) + 1 = unat (rmin q)"
    have nm: "rmax k \<noteq> u64_MAX"
    proof
      assume "rmax k = u64_MAX"
      with eq have "unat (rmin q) = 18446744073709551616" by simp
      with unat_u64_bound [of "rmin q"] show False by linarith
    qed
    moreover then have "rmin q = rmax k + 1"
      using eq by (simp add: word_unat_eq_iff unat_u64_succ)
    moreover have "rmin q \<in> addrs q" using entry_valid [OF assms(1) that] addrs_nonempty by blast
    ultimately show False using False that by auto
  qed
  have "(case IntervalTree_get_superset t \<lparr>rmin = rmax k + 1, rmax = rmax k + 1\<rparr> of
       Some (r, d) \<Rightarrow> if NodeState_is_free d then rmax r else rmax k
     | None \<Rightarrow> rmax k) = rmax k" if "rmax k \<noteq> u64_MAX"
    using False that get_superset_point [OF assms(1), of "rmax k + 1"]
    by (auto split: option.splits)
  with none show ?thesis by (intro that [of "rmax k"]) (auto simp: merge_max_def)
qed

lemma empty_gap:
  "lo = rmin k \<Longrightarrow> \<not> valid_range (left_gap lo k)"
  "hi = rmax k \<Longrightarrow> rmax k \<noteq> u64_MAX \<Longrightarrow> \<not> valid_range (right_gap k hi)"
proof -
  show "\<not> valid_range (left_gap lo k)" if "lo = rmin k"
    using that word_le_pred_iff [of "rmin k" "rmin k"]
    by (cases "rmin k = 0") (auto simp: valid_range_def word_gt_0)
  show "\<not> valid_range (right_gap k hi)" if "hi = rmax k" "rmax k \<noteq> u64_MAX"
    using that u64_succ_le_iff [of "rmax k" "rmax k"] by (auto simp: valid_range_def)
qed

lemma left_gap_delete:
  assumes "tree_ok t" "lo \<le> rmin k" "lo < rmin k \<longrightarrow> (left_gap lo k, Free) \<in> entries t"
  obtains t' where "delete_below t k lo = Some t'" "tree_ok t'" "entries t' = {e \<in> entries t. fst e \<noteq> left_gap lo k}"
proof (cases "lo < rmin k")
  case True
  have pos: "0 < rmin k" using True by (metis word_gt_0 word_not_simps(1))
  have new: "Range_new lo (rmin k - 1) = Some (left_gap lo k)"
    using entry_valid [OF assms(1) mp [OF assms(3) True]] by (subst Range_new_ret_iff) simp
  show ?thesis
    using IntervalTree_delete_ok [OF assms(1), of "left_gap lo k"] that True pos new
    by (auto simp: delete_below_def)
next
  case False
  have "\<not> valid_range (left_gap lo k)"
    using False assms(2) empty_gap(1) by auto
  then have "entries t = {e \<in> entries t. fst e \<noteq> left_gap lo k}"
    using entry_valid [OF assms(1)] by auto
  with False assms(1) show ?thesis by (intro that [of t]) (auto simp: delete_below_def delete_above_def)
qed

lemma right_gap_delete:
  assumes "tree_ok t" "rmax k \<le> hi" "rmax k \<noteq> u64_MAX"
    "rmax k < hi \<longrightarrow> (right_gap k hi, Free) \<in> entries t"
  obtains t' where "delete_above t k hi = Some t'" "tree_ok t'" "entries t' = {e \<in> entries t. fst e \<noteq> right_gap k hi}"
proof (cases "rmax k < hi")
  case True
  have new: "Range_new (rmax k + 1) hi = Some (right_gap k hi)"
    using entry_valid [OF assms(1) mp [OF assms(4) True]] by (subst Range_new_ret_iff) simp
  show ?thesis
    using IntervalTree_delete_ok [OF assms(1), of "right_gap k hi"] that True assms(3) new
    by (auto simp: delete_above_def)
next
  case False
  have "\<not> valid_range (right_gap k hi)"
    using False assms(2,3) empty_gap(2) by auto
  then have "entries t = {e \<in> entries t. fst e \<noteq> right_gap k hi}"
    using entry_valid [OF assms(1)] by auto
  with False assms(1) show ?thesis by (intro that [of t]) (auto simp: delete_below_def delete_above_def)
qed

text \<open>Nothing but the key and the two gaps overlaps the merged range.\<close>

lemma merged_range_disjoint:
  assumes "tree_ok t" "(k, s) \<in> entries t" "rmax k \<noteq> u64_MAX"
    "lo < rmin k \<Longrightarrow> (left_gap lo k, Free) \<in> entries t" "lo \<le> rmin k"
    "rmax k < hi \<Longrightarrow> (right_gap k hi, Free) \<in> entries t" "rmax k \<le> hi"
    "(x, d) \<in> entries t" "x \<noteq> k" "x \<noteq> left_gap lo k" "x \<noteq> right_gap k hi"
  shows "before x \<lparr>rmin = lo, rmax = hi\<rparr> \<or> before \<lparr>rmin = lo, rmax = hi\<rparr> x"
proof -
  have vx: "rmin x \<le> rmax x" using entry_valid [OF assms(1,8)] by (simp add: valid_range_def)
  have "before x k \<or> before k x" using entries_disjoint [OF assms(1,2,8)] assms(9) by auto
  then show ?thesis
  proof
    assume xk: "before x k"
    show ?thesis
    proof (cases "lo < rmin k")
      case True
      then have pos: "0 < rmin k" by (metis word_gt_0 word_not_simps(1))
      have "before x (left_gap lo k) \<or> before (left_gap lo k) x"
        using entries_disjoint [OF assms(1,8) assms(4) [OF True]] assms(10) by auto
      moreover have "\<not> before (left_gap lo k) x"
        using xk vx word_le_pred_iff [OF pos, of "rmax x"] by (auto simp: before_def)
      ultimately show ?thesis by (simp add: before_def)
    qed (use xk assms(5) in \<open>auto simp: before_def\<close>)
  next
    assume kx: "before k x"
    show ?thesis
    proof (cases "rmax k < hi")
      case True
      have "before x (right_gap k hi) \<or> before (right_gap k hi) x"
        using entries_disjoint [OF assms(1,8) assms(6) [OF True]] assms(11) by auto
      moreover have "\<not> before x (right_gap k hi)"
        using kx vx u64_succ_le_iff [OF assms(3), of "rmin x"] by (auto simp: before_def)
      ultimately show ?thesis by (simp add: before_def)
    qed (use kx assms(7) in \<open>auto simp: before_def\<close>)
  qed
qed

lemma free_ok:
  assumes "pool_ok t" "(k, s) \<in> entries t"
  obtains lo hi t' where "IntervalTree_free t k = Some (NodeState_into s, t')" "tree_ok t'"
    "coalesced t k lo hi t'"
proof -
  have tok: "tree_ok t" using assms(1) by (simp add: pool_ok_def)
  have vk: "valid_range k" using entry_valid [OF tok assms(2)] .
  have mk: "rmax x \<noteq> u64_MAX" if "(x, d) \<in> entries t" for x d
    using assms(1) that by (force simp: pool_ok_def)
  have get: "IntervalTree_get t k = Some s" using assms(2) tok by (simp add: IntervalTree_get_ok)
  obtain t1 where t1: "IntervalTree_delete t k = Some (NodeState_into s, t1)"
      "tree_ok t1" "entries t1 = {e \<in> entries t. fst e \<noteq> k}"
    using IntervalTree_delete_ok [OF tok, of k] get by auto
  have d1: "\<forall>e \<in> entries t1. \<not> Range_intersect (fst e) k"
    using entries_disjoint [OF tok assms(2)] t1(3) before_not_intersect [of k]
      before_not_intersect [of _ k] by fastforce
  obtain lo where lo: "merge_min t1 k = Some lo"
    "lo \<le> rmin k" "lo < rmin k \<longrightarrow> (left_gap lo k, Free) \<in> entries t1"
    "lo = rmin k \<longrightarrow> (\<forall>q. (q, Free) \<in> entries t1 \<longrightarrow> unat (rmax q) + 1 \<noteq> unat (rmin k))"
    using free_left [OF t1(2) vk d1] .
  obtain hi where hi: "merge_max t1 k = Some hi"
    "rmax k \<le> hi" "rmax k < hi \<longrightarrow> (right_gap k hi, Free) \<in> entries t1"
    "hi = rmax k \<longrightarrow> (\<forall>q. (q, Free) \<in> entries t1 \<longrightarrow> unat (rmax k) + 1 \<noteq> unat (rmin q))"
    using free_right [OF t1(2) vk d1] .
  have nm: "rmax k \<noteq> u64_MAX" "hi \<noteq> u64_MAX"
    using mk [OF assms(2)] hi(2,3) mk [of "right_gap k hi" Free] t1(3)
    by (auto simp: order.order_iff_strict)
  have lo': "lo < rmin k \<Longrightarrow> (left_gap lo k, Free) \<in> entries t"
    and hi': "rmax k < hi \<Longrightarrow> (right_gap k hi, Free) \<in> entries t"
    using lo(3) hi(3) t1(3) by auto
  obtain t2 where t2: "delete_below t1 k lo = Some t2" "tree_ok t2" "entries t2 = {e \<in> entries t1. fst e \<noteq> left_gap lo k}"
    using left_gap_delete [OF t1(2) lo(2,3)] .
  have "rmin (left_gap lo k) \<noteq> rmin (right_gap k hi)"
    using lo(2) vk u64_succ_le_iff [OF nm(1), of lo] by (auto simp: valid_range_def)
  then have gap: "rmax k < hi \<longrightarrow> (right_gap k hi, Free) \<in> entries t2"
    using hi(3) t2(3) by auto
  obtain t3 where t3: "delete_above t2 k hi = Some t3" "tree_ok t3" "entries t3 = {e \<in> entries t2. fst e \<noteq> right_gap k hi}"
    using right_gap_delete [OF t2(2) hi(2) nm(1) gap] .
  let ?R = "\<lparr>rmin = lo, rmax = hi\<rparr>"
  have e3: "entries t3 = {e \<in> entries t. fst e \<noteq> k \<and> fst e \<noteq> left_gap lo k \<and> fst e \<noteq> right_gap k hi}"
    unfolding t3(3) t2(3) t1(3) by blast
  have dis: "\<forall>e \<in> entries t3. \<not> Range_intersect (fst e) ?R"
    using merged_range_disjoint [OF tok assms(2) nm(1) lo' lo(2) hi' hi(2)] before_not_intersect
    unfolding e3 by fastforce
  have vR: "valid_range ?R"
    using lo(2) hi(2) nm(2) vk by (auto simp: valid_range_def)
  obtain t' where t': "IntervalTree_insert t3 ?R None = Some t'" "tree_ok t'"
      "entries t' = insert (?R, Free) (entries t3)"
    using IntervalTree_insert_ok [OF t3(2) vR dis, of None] by auto
  have "IntervalTree_free t k = Some (NodeState_into s, t')"
    using t1(1) lo(1) hi(1) t2(1) t3(1) t'(1)
    by (simp add: IntervalTree_free_def)
  moreover have "coalesced t k lo hi t'"
    unfolding coalesced_def using lo(2,4) hi(2,4) nm(2) t'(3) [unfolded e3] lo' hi' t1(3)
    by (intro conjI) auto
  ultimately show ?thesis using t'(2) by (intro that)
qed

end
