(* ===== verification/Range_Pool.thy ===== *)
theory Range_Pool
  imports IntervalTree_Alloc IntervalTree_Free
begin

text \<open>
  The contract of a pool of addresses: what a client of \<open>IntervalTree::allocate\<close> and
  \<open>IntervalTree::free\<close> may rely on, as the locale \<open>range_pool\<close>, its consequences for a client,
  and the proof that the interval tree meets it.
\<close>

section \<open>Vocabulary\<close>

text \<open>\<open>satisfies c r\<close>: \<open>r\<close> is a range the constraint asks for. \<open>held t r\<close> is the state of a range
  that has been handed out.\<close>

definition satisfies :: "Constraint \<Rightarrow> Range \<Rightarrow> bool" where
  "satisfies c r \<longleftrightarrow> c_size c \<noteq> 0 \<and> valid_range r \<and>
     align_ok (c_align c) \<and> aligned (rmin r) (c_align c) \<and>
     c_min c \<le> rmin r \<and> rmax r \<le> c_max c \<and>
     unat (rmax r) + 1 = unat (rmin r) + unat (c_size c)"

definition free_range :: "'a node \<Rightarrow> Range \<Rightarrow> bool" where
  "free_range t r \<longleftrightarrow> (\<forall>a \<in> addrs r. state_at t a = Some Free)"

definition held :: "'a node \<Rightarrow> Range \<Rightarrow> 'a NodeState option" where
  "held t r = (case IntervalTree_get t r of
     Some s \<Rightarrow> if NodeState_is_free s then None else Some s
   | None \<Rightarrow> None)"

section \<open>Runs of free addresses\<close>

lemma mergedD:
  "merged t \<Longrightarrow> (k, Free) \<in> entries t \<Longrightarrow> rmax k \<noteq> u64_MAX \<Longrightarrow> state_at t (rmax k + 1) \<noteq> Some Free"
  by (auto simp: merged_def)

lemma pool_ok_max: "pool_ok t \<Longrightarrow> (k, s) \<in> entries t \<Longrightarrow> rmax k \<noteq> u64_MAX"
  by (force simp: pool_ok_def)

text \<open>In a merged pool a run of free addresses lies in a single free node.\<close>

lemma free_range_node:
  assumes "pool_ok t" "merged t" "valid_range r" "free_range t r"
  obtains k where "(k, Free) \<in> entries t" "Range_contain k r"
proof -
  have tok: "tree_ok t" using assms(1) by (simp add: pool_ok_def)
  have le: "rmin r \<le> rmax r" using assms(3) by (simp add: valid_range_def)
  then obtain k where k: "(k, Free) \<in> entries t" "rmin r \<in> addrs k"
    using assms(4) state_at_iff [OF tok, of "rmin r" Free] by (auto simp: free_range_def addrs_def)
  have mk: "rmax k \<noteq> u64_MAX" using pool_ok_max [OF assms(1) k(1)] .
  have "rmax r \<le> rmax k"
  proof (rule ccontr)
    assume "\<not> rmax r \<le> rmax k"
    then have "rmax k + 1 \<le> rmax r"
      using u64_succ_le_iff [OF mk] by simp
    moreover have "rmin r \<le> rmax k" using k(2) by (simp add: addrs_def)
    then have "rmin r \<le> rmax k + 1" using u64_less_succ [OF mk] by simp
    ultimately have "rmax k + 1 \<in> addrs r" by (simp add: addrs_def)
    then show False
      using assms(4) mergedD [OF assms(2) k(1) mk] by (simp add: free_range_def)
  qed
  with k show ?thesis by (intro that [of k]) (auto simp: Range_contain_def addrs_def)
qed

lemma satisfies_fits: "satisfies c r \<Longrightarrow> Range_contain k r \<Longrightarrow> fits c k (rmin r)"
  by (auto simp: satisfies_def fits_def Range_contain_def word_le_nat_alt)

lemma entry_state: "tree_ok t \<Longrightarrow> (k, s) \<in> entries t \<Longrightarrow> a \<in> addrs k \<Longrightarrow> state_at t a = Some s"
  using state_at_iff by blast

lemma addrs_contain: "Range_contain k r \<Longrightarrow> a \<in> addrs r \<Longrightarrow> a \<in> addrs k"
  by (auto simp: Range_contain_def addrs_def)

lemma entry_free_range:
  "tree_ok t \<Longrightarrow> (k, Free) \<in> entries t \<Longrightarrow> Range_contain k r \<Longrightarrow> free_range t r"
  by (auto simp: free_range_def intro: entry_state addrs_contain)

section \<open>Carving\<close>

lemma below_iff: "(rmin k < b \<and> rmin k \<le> a \<and> a \<le> b - 1) \<longleftrightarrow> rmin k \<le> a \<and> a < (b :: u64)"
proof (cases "b = 0")
  case False
  then have "0 < b" by (simp add: word_gt_0)
  then show ?thesis by (auto simp: word_le_pred_iff)
qed auto

lemma above_iff: "(e < rmax k \<and> e + 1 \<le> a \<and> a \<le> rmax k) \<longleftrightarrow> e < a \<and> a \<le> rmax k"
proof (cases "e = u64_MAX")
  case False
  then show ?thesis by (auto simp: u64_succ_le_iff)
qed auto

lemma carve_iff:
  "(\<exists>q. (q, s) \<in> carve k r \<and> a \<in> addrs q) \<longleftrightarrow>
     s = Allocated \<and> a \<in> addrs r \<or>
     s = Free \<and> (rmin k \<le> a \<and> a < rmin r \<or> rmax r < a \<and> a \<le> rmax k)"
proof -
  have "(\<exists>q. (q, s) \<in> carve k r \<and> a \<in> addrs q) \<longleftrightarrow>
     s = Allocated \<and> a \<in> addrs r \<or>
     s = Free \<and> ((rmin k < rmin r \<and> rmin k \<le> a \<and> a \<le> rmin r - 1) \<or>
       (rmax r < rmax k \<and> rmax r + 1 \<le> a \<and> a \<le> rmax k))"
    by (cases "rmin k < rmin r"; cases "rmax r < rmax k")
      (simp_all add: carve_def addrs_def conj_disj_distribR ex_disj_distrib, blast+)
  then show ?thesis unfolding below_iff above_iff .
qed

lemma carve_state:
  assumes "tree_ok t" "(k, Free) \<in> entries t" "Range_contain k r" "valid_range r"
    "tree_ok t'" "entries t' = {e \<in> entries t. fst e \<noteq> k} \<union> carve k r"
  shows "state_at t' a = (if a \<in> addrs r then Some Allocated else state_at t a)"
proof (rule state_at_eqI [OF assms(5), where f = "\<lambda>a. if a \<in> addrs r then Some Allocated else state_at t a"])
  fix s
  have ext: "(\<exists>x. (x, s) \<in> entries t' \<and> a \<in> addrs x) \<longleftrightarrow>
      (\<exists>x. (x, s) \<in> entries t \<and> x \<noteq> k \<and> a \<in> addrs x) \<or> (\<exists>q. (q, s) \<in> carve k r \<and> a \<in> addrs q)"
    unfolding assms(6) by auto
  have st: "state_at t a = Some s \<longleftrightarrow> (\<exists>x. (x, s) \<in> entries t \<and> a \<in> addrs x)"
    using state_at_iff [OF assms(1)] .
  show "(if a \<in> addrs r then Some Allocated else state_at t a) = Some s \<longleftrightarrow>
      (\<exists>x. (x, s) \<in> entries t' \<and> a \<in> addrs x)"
  proof (cases "a \<in> addrs k")
    case True
    then have "\<not> (\<exists>x. (x, s) \<in> entries t \<and> x \<noteq> k \<and> a \<in> addrs x)"
      using entries_overlap(1) [OF assms(1,2)] by blast
    moreover have "state_at t a = Some Free"
      using entry_state [OF assms(1,2) True] .
    ultimately show ?thesis
      unfolding ext carve_iff using True by (auto simp: addrs_def not_le)
  next
    case False
    then have "\<not> (\<exists>q. (q, s) \<in> carve k r \<and> a \<in> addrs q)" "a \<notin> addrs r"
      unfolding carve_iff using assms(3,4) by (auto simp: addrs_def Range_contain_def valid_range_def)
    with False st show ?thesis unfolding ext by auto
  qed
qed

lemma carve_pool:
  assumes "pool_ok t" "merged t" "(k, Free) \<in> entries t" "Range_contain k r" "valid_range r"
    "tree_ok t'" "entries t' = {e \<in> entries t. fst e \<noteq> k} \<union> carve k r"
  shows "pool_ok t'" "merged t'"
proof -
  have tok: "tree_ok t" using assms(1) by (simp add: pool_ok_def)
  have vk: "valid_range k" using entry_valid [OF tok assms(3)] .
  have mk: "rmax k \<noteq> u64_MAX" using pool_ok_max [OF assms(1,3)] .
  have mr: "rmax r \<noteq> u64_MAX" using assms(4) mk word_order.extremum_unique by (force simp: Range_contain_def)
  have "rmax x \<noteq> u64_MAX" if "(x, s) \<in> entries t'" for x s
    using that mr mk pool_ok_max [OF assms(1)] lower_piece(1) [OF _ assms(4) vk]
    unfolding assms(7) carve_def by (auto split: if_splits)
  then show "pool_ok t'" using assms(6) by (auto simp: pool_ok_def)
  note st = carve_state [OF tok assms(3-7)]
  have "state_at t' (rmax x + 1) \<noteq> Some Free" if x: "(x, Free) \<in> entries t'" "rmax x \<noteq> u64_MAX" for x
  proof (cases "(x, Free) \<in> entries t \<or> x = \<lparr>rmin = rmax r + 1, rmax = rmax k\<rparr>")
    case True
    then have "state_at t (rmax x + 1) \<noteq> Some Free"
      using mergedD [OF assms(2) _ x(2)] mergedD [OF assms(2,3) mk] by auto
    then show ?thesis unfolding st by auto
  next
    case False
    with x(1) have "rmax x + 1 = rmin r"
      unfolding assms(7) carve_def by (auto split: if_splits)
    then show ?thesis using assms(5) addrs_nonempty(1) unfolding st by auto
  qed
  then show "merged t'" by (auto simp: merged_def)
qed

section \<open>Freeing\<close>

lemma left_gap_addr:
  assumes "a \<in> addrs \<lparr>rmin = lo, rmax = hi\<rparr>" "a < rmin k"
  shows "a \<in> addrs (left_gap lo k)"
proof -
  have "0 < rmin k" using assms(2) by (metis word_gt_0 word_not_simps(1))
  with assms show ?thesis by (simp add: addrs_def word_le_pred_iff)
qed

lemma right_gap_addr:
  "a \<in> addrs \<lparr>rmin = lo, rmax = hi\<rparr> \<Longrightarrow> rmax k < a \<Longrightarrow> a \<in> addrs (right_gap k hi)"
  using u64_succ_le_iff [of "rmax k" a] by (cases "rmax k = u64_MAX") (auto simp: addrs_def)

lemma gap_sub:
  assumes "lo \<le> rmin k" "rmin k \<le> rmax k" "rmax k \<le> hi"
  shows "a \<in> addrs k \<Longrightarrow> a \<in> addrs \<lparr>rmin = lo, rmax = hi\<rparr>"
    and "valid_range (left_gap lo k) \<Longrightarrow> a \<in> addrs (left_gap lo k) \<Longrightarrow>
      a \<in> addrs \<lparr>rmin = lo, rmax = hi\<rparr>"
    and "valid_range (right_gap k hi) \<Longrightarrow> a \<in> addrs (right_gap k hi) \<Longrightarrow>
      a \<in> addrs \<lparr>rmin = lo, rmax = hi\<rparr>"
proof -
  show "a \<in> addrs k \<Longrightarrow> a \<in> addrs \<lparr>rmin = lo, rmax = hi\<rparr>"
    using assms by (auto simp: addrs_def)
  show "a \<in> addrs \<lparr>rmin = lo, rmax = hi\<rparr>"
    if "valid_range (left_gap lo k)" "a \<in> addrs (left_gap lo k)"
  proof -
    have "0 < rmin k" using that(1) assms(1) by (auto simp: valid_range_def word_gt_0)
    then have "lo \<le> a" "a < rmin k" using that(2) by (auto simp: addrs_def word_le_pred_iff)
    with assms show ?thesis by (auto simp: addrs_def)
  qed
  show "a \<in> addrs \<lparr>rmin = lo, rmax = hi\<rparr>"
    if "valid_range (right_gap k hi)" "a \<in> addrs (right_gap k hi)"
  proof -
    have "rmax k \<noteq> u64_MAX" using that(1) assms(3) by (auto simp: valid_range_def)
    then have "a \<le> hi" "rmax k < a" using that(2) by (auto simp: addrs_def u64_succ_le_iff)
    with assms show ?thesis by (auto simp: addrs_def)
  qed
qed

lemma coalesced_state:
  assumes "tree_ok t" "(k, s) \<in> entries t" "tree_ok t'" "coalesced t k lo hi t'"
  shows "state_at t' a = (if a \<in> addrs k then Some Free else state_at t a)"
proof -
  let ?R = "\<lparr>rmin = lo, rmax = hi\<rparr>"
  have "rmin k \<le> rmax k" using entry_valid [OF assms(1,2)] by (simp add: valid_range_def)
  note c = assms(4) [unfolded coalesced_def]
  have sub: "a \<in> addrs k \<Longrightarrow> a \<in> addrs ?R"
    "\<And>x. x = left_gap lo k \<or> x = right_gap k hi \<Longrightarrow> valid_range x \<Longrightarrow> a \<in> addrs x \<Longrightarrow> a \<in> addrs ?R"
    using gap_sub [OF _ \<open>rmin k \<le> rmax k\<close>, of lo hi a] c by blast+
  have R: "state_at t' a = Some Free" if "a \<in> addrs ?R"
    using entry_state [OF assms(3) _ that] c by simp
  consider "a \<in> addrs k" | "a \<in> addrs ?R" "a \<notin> addrs k" | "a \<notin> addrs ?R" by blast
  then show ?thesis
  proof cases
    case 1
    with R sub(1) show ?thesis by simp
  next
    case 2
    then have "a < rmin k \<or> rmax k < a" by (auto simp: addrs_def not_le)
    then have "state_at t a = Some Free"
    proof
      assume lt: "a < rmin k"
      then have "lo < rmin k" using 2(1) by (auto simp: addrs_def)
      with c lt 2(1) left_gap_addr show ?thesis by (blast intro: entry_state [OF assms(1)])
    next
      assume gt: "rmax k < a"
      then have "rmax k < hi" using 2(1) by (auto simp: addrs_def)
      with c gt 2(1) right_gap_addr show ?thesis by (blast intro: entry_state [OF assms(1)])
    qed
    with R 2 show ?thesis by simp
  next
    case 3
    then have keep: "x \<noteq> k \<and> x \<noteq> left_gap lo k \<and> x \<noteq> right_gap k hi"
      if "(x, d) \<in> entries t" "a \<in> addrs x" for x d
      using sub entry_valid [OF assms(1) that(1)] that(2) by blast
    have "state_at t' a = state_at t a"
    proof (rule state_at_eqI [OF assms(3)])
      fix d
      show "state_at t a = Some d \<longleftrightarrow> (\<exists>x. (x, d) \<in> entries t' \<and> a \<in> addrs x)"
        unfolding state_at_iff [OF assms(1)] using c 3 keep by auto
    qed
    with 3 sub(1) show ?thesis by auto
  qed
qed

text \<open>The entry that covers the address just above another entry starts there.\<close>

lemma succ_entry:
  assumes "tree_ok t" "(x, d) \<in> entries t" "(y, e) \<in> entries t" "rmax x \<noteq> u64_MAX"
    "rmax x + 1 \<in> addrs y"
  shows "rmin y = rmax x + 1" "y \<noteq> x"
proof -
  have le: "rmin x \<le> rmax x" using entry_valid [OF assms(1,2)] by (simp add: valid_range_def)
  have y: "rmin y \<le> rmax x + 1" "rmax x < rmax y"
    using assms(5) u64_less_succ [OF assms(4)] by (auto simp: addrs_def)
  then have "before x y"
    using entries_disjoint [OF assms(1-3)] le by (auto simp: before_def)
  then show "rmin y = rmax x + 1" "y \<noteq> x"
    using u64_succ_eqI [OF assms(4) _ y(1)] y(2) by (auto simp: before_def)
qed

lemma coalesced_top:
  assumes "tree_ok t" "merged t" "(k, s) \<in> entries t" "tree_ok t'" "coalesced t k lo hi t'"
  shows "state_at t' (hi + 1) \<noteq> Some Free"
proof
  let ?R = "\<lparr>rmin = lo, rmax = hi\<rparr>"
  note c = assms(5) [unfolded coalesced_def]
  assume "state_at t' (hi + 1) = Some Free"
  then obtain y where y: "(y, Free) \<in> entries t'" "hi + 1 \<in> addrs y"
    using state_at_iff [OF assms(4)] by blast
  then have ry: "rmin y = hi + 1" "y \<noteq> ?R"
    using succ_entry [OF assms(4) _ y(1), of ?R Free] c by auto
  then have yt: "(y, Free) \<in> entries t" "y \<noteq> k" using y(1) c by auto
  have "state_at t (hi + 1) = Some Free" using entry_state [OF assms(1) yt(1) y(2)] .
  then show False
    using c mergedD [OF assms(2), of "right_gap k hi"] yt ry(1) unat_u64_succ [of hi]
    by (cases "hi = rmax k") (auto simp: order.order_iff_strict)
qed

lemma coalesced_bottom:
  assumes "tree_ok t" "(k, s) \<in> entries t" "coalesced t k lo hi t'"
    "(x, Free) \<in> entries t" "x \<noteq> k" "x \<noteq> left_gap lo k" "rmax x \<noteq> u64_MAX"
  shows "rmax x + 1 \<notin> addrs k"
proof
  note c = assms(3) [unfolded coalesced_def]
  assume "rmax x + 1 \<in> addrs k"
  then have eq: "rmin k = rmax x + 1" using succ_entry [OF assms(1,4,2,7)] by simp
  then have pred: "unat (rmax x) + 1 = unat (rmin k)" "rmin k - 1 = rmax x"
    using unat_u64_succ [OF assms(7)] by auto
  then have gap: "(left_gap lo k, Free) \<in> entries t"
    using c assms(4,5) by (auto simp: order.order_iff_strict)
  have "rmax x \<in> addrs (left_gap lo k)" "rmax x \<in> addrs x"
    using addrs_nonempty(2) [OF entry_valid [OF assms(1) gap]]
      addrs_nonempty(2) [OF entry_valid [OF assms(1,4)]] pred(2) by auto
  then show False using entries_overlap(1) [OF assms(1,4) gap] assms(6) by simp
qed

lemma coalesced_pool:
  assumes "pool_ok t" "merged t" "(k, s) \<in> entries t" "tree_ok t'" "coalesced t k lo hi t'"
  shows "pool_ok t'" "merged t'"
proof -
  note c = assms(5) [unfolded coalesced_def]
  have tok: "tree_ok t" using assms(1) by (simp add: pool_ok_def)
  show "pool_ok t'" using assms(4) c pool_ok_max [OF assms(1)] by (auto simp: pool_ok_def)
  have "state_at t' (rmax x + 1) \<noteq> Some Free" if x: "(x, Free) \<in> entries t'" "rmax x \<noteq> u64_MAX" for x
  proof (cases "x = \<lparr>rmin = lo, rmax = hi\<rparr>")
    case True
    then show ?thesis using coalesced_top [OF tok assms(2-5)] by simp
  next
    case False
    with x(1) c have xt: "(x, Free) \<in> entries t" "x \<noteq> k" "x \<noteq> left_gap lo k" by auto
    with x(2) show ?thesis
      using mergedD [OF assms(2) xt(1) x(2)] coalesced_bottom [OF tok assms(3,5) xt x(2)]
        coalesced_state [OF tok assms(3-5)] by auto
  qed
  then show "merged t'" by (auto simp: merged_def)
qed

section \<open>The contract\<close>

locale range_pool =
  fixes inv :: "'t \<Rightarrow> bool"
    and mark :: "'v NodeState"
    and state :: "'t \<Rightarrow> u64 \<Rightarrow> 'v NodeState option"
    and given :: "'t \<Rightarrow> Range \<Rightarrow> 'v NodeState option"
    and alloc :: "'t \<Rightarrow> Constraint \<Rightarrow> (Range option \<times> 't) rust"
    and release :: "'t \<Rightarrow> Range \<Rightarrow> ('v option \<times> 't) rust"
  assumes mark_not_free: "mark \<noteq> Free"
    and alloc_total: "inv t \<Longrightarrow> \<exists>res t'. alloc t c = Some (res, t') \<and> inv t'"
    and alloc_None: "inv t \<Longrightarrow> alloc t c = Some (None, t') \<Longrightarrow>
      t' = t \<and> \<not> (\<exists>r. satisfies c r \<and> (\<forall>a \<in> addrs r. state t a = Some Free))"
    and alloc_Some: "inv t \<Longrightarrow> alloc t c = Some (Some r, t') \<Longrightarrow>
      satisfies c r \<and> (\<forall>a \<in> addrs r. state t a = Some Free) \<and>
      state t' = (\<lambda>a. if a \<in> addrs r then Some mark else state t a) \<and>
      given t' = (given t)(r \<mapsto> mark)"
    and release_given: "inv t \<Longrightarrow> given t r = Some s \<Longrightarrow>
      \<exists>t'. release t r = Some (NodeState_into s, t') \<and> inv t' \<and>
        state t' = (\<lambda>a. if a \<in> addrs r then Some Free else state t a) \<and>
        given t' = (given t)(r := None)"
    and given_state: "inv t \<Longrightarrow> given t r = Some s \<Longrightarrow>
      valid_range r \<and> s \<noteq> Free \<and> (\<forall>a \<in> addrs r. state t a = Some s)"
    and given_disjoint: "inv t \<Longrightarrow> given t r = Some s \<Longrightarrow> given t r' = Some s' \<Longrightarrow> r \<noteq> r' \<Longrightarrow>
      addrs r \<inter> addrs r' = {}"
begin

lemma alloc_new:
  assumes "inv t" "alloc t c = Some (Some r, t')"
  shows "given t r = None" "given t r' = Some s \<Longrightarrow> addrs r \<inter> addrs r' = {}"
proof -
  note a = alloc_Some [OF assms]
  have "rmin r \<in> addrs r" using a by (auto simp: satisfies_def intro: addrs_nonempty)
  with a given_state [OF assms(1), of r] show "given t r = None"
    by (cases "given t r") auto
  show "addrs r \<inter> addrs r' = {}" if "given t r' = Some s"
    using a given_state [OF assms(1) that] by force
qed

lemma alloc_inv: "inv t \<Longrightarrow> alloc t c = Some (res, t') \<Longrightarrow> inv t'"
  using alloc_total [of t c] by auto

text \<open>Releasing what has just been allocated restores the pool.\<close>

lemma alloc_release:
  assumes "inv t" "alloc t c = Some (Some r, t')"
  shows "\<exists>t''. release t' r = Some (NodeState_into mark, t'') \<and> inv t'' \<and> state t'' = state t \<and> given t'' = given t"
proof -
  note a = alloc_Some [OF assms]
  have i: "inv t'" using alloc_inv assms by blast
  obtain t'' where r: "release t' r = Some (NodeState_into mark, t'')" "inv t''"
      "state t'' = (\<lambda>a. if a \<in> addrs r then Some Free else state t' a)"
      "given t'' = (given t')(r := None)"
    using release_given [OF i, of r mark] a by auto
  moreover have "state t'' = state t" using r(3) a by auto
  moreover have "given t'' = given t" using r(4) a alloc_new(1) [OF assms] by auto
  ultimately show ?thesis by blast
qed

text \<open>Any sequence of held ranges can be released, in any order.\<close>

lemma release_all:
  assumes "inv t" "distinct rs" "\<forall>r \<in> set rs. given t r \<noteq> None"
  shows "\<exists>t'. fold (\<lambda>r u. Option.bind u (\<lambda>t. map_option snd (release t r))) rs (Some t) = Some t' \<and>
    inv t' \<and> state t' = (\<lambda>a. if \<exists>r \<in> set rs. a \<in> addrs r then Some Free else state t a) \<and>
    given t' = (\<lambda>r. if r \<in> set rs then None else given t r)"
  using assms
proof (induction rs arbitrary: t)
  case (Cons r rs)
  then obtain s where s: "given t r = Some s" by auto
  obtain t1 where t1: "release t r = Some (NodeState_into s, t1)" "inv t1"
      "state t1 = (\<lambda>a. if a \<in> addrs r then Some Free else state t a)"
      "given t1 = (given t)(r := None)"
    using release_given [OF Cons.prems(1) s] by blast
  have "\<forall>r' \<in> set rs. given t1 r' \<noteq> None" using Cons.prems t1(4) by auto
  with Cons.IH [OF t1(2)] Cons.prems(2) obtain t' where
    "fold (\<lambda>r u. Option.bind u (\<lambda>t. map_option snd (release t r))) rs (Some t1) = Some t'" "inv t'"
    "state t' = (\<lambda>a. if \<exists>r \<in> set rs. a \<in> addrs r then Some Free else state t1 a)"
    "given t' = (\<lambda>r. if r \<in> set rs then None else given t1 r)" by auto
  with t1 show ?case by (auto simp: fun_eq_iff)
qed simp

end

section \<open>The interval tree is a pool\<close>

lemma held_iff: "tree_ok t \<Longrightarrow> held t r = Some s \<longleftrightarrow> (r, s) \<in> entries t \<and> s \<noteq> Free"
  by (auto simp: held_def simp flip: IntervalTree_get_ok split: option.splits)

lemma held_eqI:
  assumes "tree_ok t'" "\<And>r s. s \<noteq> Free \<Longrightarrow> (r, s) \<in> entries t' \<longleftrightarrow> f r = Some s" "\<And>r. f r \<noteq> Some Free"
  shows "held t' = f"
proof
  fix r
  show "held t' r = f r"
    using held_iff [OF assms(1), of r] assms(2) [of _ r] assms(3) [of r]
    by (cases "held t' r"; cases "f r") auto
qed

lemma carve_held:
  assumes "tree_ok t" "(k, Free) \<in> entries t" "Range_contain k r" "valid_range r"
    "tree_ok t'" "entries t' = {e \<in> entries t. fst e \<noteq> k} \<union> carve k r"
  shows "held t' = (held t)(r \<mapsto> Allocated)"
proof (rule held_eqI [OF assms(5)])
  fix x s assume s: "(s :: 'a NodeState) \<noteq> Free"
  have "(r, d) \<notin> entries t" if "d \<noteq> Free" for d
    using entries_overlap(2) [OF assms(1,2)] addrs_nonempty(1) [OF assms(4)] addrs_contain [OF assms(3)]
      that by blast
  moreover have "(x, s) \<in> entries t \<Longrightarrow> x \<noteq> k"
    using s assms(2) IntervalTree_get_ok [OF assms(1), of k] by (metis option.inject)
  ultimately show "(x, s) \<in> entries t' \<longleftrightarrow> ((held t)(r \<mapsto> Allocated)) x = Some s"
    using s held_iff [OF assms(1), of x s] unfolding assms(6) by (auto simp: carve_def)
qed (use held_iff [OF assms(1)] in auto)

lemma find_first:
  assumes "find P xs = Some x" "disjoint_keys (map fst xs)" "y \<in> set xs" "P y"
  shows "y = x \<or> before (fst x) (fst y)"
  using assms by (induction xs) (auto split: if_splits)

lemma allocate_lowest:
  assumes "pool_ok t" "merged t" "find (can_serve c) (inorder t) = Some (k, Free)"
    "\<forall>v. fits c k v \<longrightarrow> rmin r \<le> v" "valid_range r" "Range_contain k r"
    "satisfies c r'" "free_range t r'"
  shows "rmin r \<le> rmin r'"
proof -
  have v: "valid_range r'" "disjoint_keys (keys t)"
    using assms(1,7) by (auto simp: satisfies_def pool_ok_def tree_ok_def)
  obtain k' where k': "(k', Free) \<in> entries t" "Range_contain k' r'"
    using free_range_node [OF assms(1,2) v(1) assms(8)] .
  have f: "fits c k' (rmin r')" using satisfies_fits [OF assms(7) k'(2)] .
  then have "can_serve c (k', Free)" by (auto simp: can_serve_def)
  with find_first [OF assms(3) v(2) k'(1)] have "k' = k \<or> before k k'" by auto
  then show ?thesis
  proof
    assume "before k k'"
    then show ?thesis
      using k'(2) assms(5,6) by (auto simp: before_def Range_contain_def valid_range_def)
  qed (use f assms(4) in auto)
qed

lemma allocate_pool:
  assumes "pool_ok t" "merged t"
  shows "\<exists>res t'. IntervalTree_allocate t c = Some (res, t') \<and> pool_ok t' \<and> merged t' \<and>
    (case res of
       None \<Rightarrow> t' = t \<and> \<not> (\<exists>r. satisfies c r \<and> free_range t r)
     | Some r \<Rightarrow> satisfies c r \<and> free_range t r \<and>
         (\<forall>r'. satisfies c r' \<and> free_range t r' \<longrightarrow> rmin r \<le> rmin r') \<and>
         state_at t' = (\<lambda>a. if a \<in> addrs r then Some Allocated else state_at t a) \<and>
         held t' = (held t)(r \<mapsto> Allocated))"
proof (cases "c_size c \<noteq> 0 \<and> (\<exists>e \<in> entries t. can_serve c e)")
  case True
  have tok: "tree_ok t" using assms(1) by (simp add: pool_ok_def)
  obtain k r t' where t': "find (can_serve c) (inorder t) = Some (k, Free)"
    "IntervalTree_allocate t c = Some (Some r, t')"
    "fits c k (rmin r)" "\<forall>v. fits c k v \<longrightarrow> rmin r \<le> v"
    "unat (rmax r) + 1 = unat (rmin r) + unat (c_size c)" "c_min c \<le> rmin r" "rmax r \<le> c_max c"
    "valid_range r" "Range_contain k r"
    "tree_ok t'" "entries t' = {e \<in> entries t. fst e \<noteq> k} \<union> carve k r"
    using allocate_Some [OF assms(1) conjunct1 [OF True] conjunct2 [OF True]] .
  have k: "(k, Free) \<in> entries t" using find_Some_in [OF t'(1)] by simp
  have "satisfies c r" using t'(3,5-8) True by (simp add: satisfies_def fits_def)
  moreover have "free_range t r" using entry_free_range [OF tok k t'(9)] .
  moreover have "rmin r \<le> rmin r'" if "satisfies c r'" "free_range t r'" for r'
    using allocate_lowest [OF assms t'(1,4,8,9) that] .
  moreover have "state_at t' = (\<lambda>a. if a \<in> addrs r then Some Allocated else state_at t a)"
    using carve_state [OF tok k t'(9,8,10,11)] by (intro ext)
  moreover have "held t' = (held t)(r \<mapsto> Allocated)"
    using carve_held [OF tok k t'(9,8,10,11)] .
  ultimately show ?thesis
    using t'(2) carve_pool [OF assms k t'(9,8,10,11)] by auto
next
  case False
  have "\<not> free_range t r" if s: "satisfies c r" for r
  proof
    assume fr: "free_range t r"
    have v: "valid_range r" "c_size c \<noteq> 0" using s by (auto simp: satisfies_def)
    obtain k where k: "(k, Free) \<in> entries t" "Range_contain k r"
      using free_range_node [OF assms v(1) fr] .
    then have "can_serve c (k, Free)" using satisfies_fits [OF s] by (auto simp: can_serve_def)
    with False k(1) v(2) show False by blast
  qed
  with False assms allocate_None [of t c] show ?thesis by (auto simp: pool_ok_def)
qed

lemma coalesced_gap:
  assumes "tree_ok t" "rmax k \<noteq> u64_MAX" "coalesced t k lo hi t'" "(x, d) \<in> entries t"
    "x = left_gap lo k \<or> x = right_gap k hi"
  shows "d = Free"
proof -
  note c = assms(3) [unfolded coalesced_def]
  have "lo = rmin k \<or> lo < rmin k" "hi = rmax k \<or> rmax k < hi" using c by auto
  then have "(x, Free) \<in> entries t"
    using assms(5) entry_valid [OF assms(1,4)] empty_gap(1) [of lo k] empty_gap(2) [of hi k] assms(2) c
    by blast
  then show ?thesis using assms(4) IntervalTree_get_ok [OF assms(1), of x] by (metis option.inject)
qed

lemma free_pool:
  assumes "pool_ok t" "merged t" "held t k = Some s"
  shows "\<exists>t'. IntervalTree_free t k = Some (NodeState_into s, t') \<and> pool_ok t' \<and> merged t' \<and>
    state_at t' = (\<lambda>a. if a \<in> addrs k then Some Free else state_at t a) \<and>
    held t' = (held t)(k := None)"
proof -
  have tok: "tree_ok t" using assms(1) by (simp add: pool_ok_def)
  have k: "(k, s) \<in> entries t" "s \<noteq> Free" using assms(3) held_iff [OF tok] by auto
  obtain lo hi t' where t': "IntervalTree_free t k = Some (NodeState_into s, t')" "tree_ok t'"
      "coalesced t k lo hi t'"
    using free_ok [OF assms(1) k(1)] .
  note c = t'(3) [unfolded coalesced_def]
  have "state_at t' = (\<lambda>a. if a \<in> addrs k then Some Free else state_at t a)"
    using coalesced_state [OF tok k(1) t'(2,3)] by (intro ext)
  moreover have "held t' = (held t)(k := None)"
  proof (rule held_eqI [OF t'(2)])
    fix r d assume d: "(d :: 'a NodeState) \<noteq> Free"
    have "r \<noteq> left_gap lo k \<and> r \<noteq> right_gap k hi" if "(r, d) \<in> entries t"
      using coalesced_gap [OF tok pool_ok_max [OF assms(1) k(1)] t'(3)] that d by blast
    then show "(r, d) \<in> entries t' \<longleftrightarrow> ((held t)(k := None)) r = Some d"
      using c d held_iff [OF tok, of r d] by auto
  qed (use held_iff [OF tok] in auto)
  ultimately show ?thesis using t'(1) coalesced_pool [OF assms(1,2) k(1) t'(2,3)] by blast
qed

interpretation tree_pool:
  range_pool "\<lambda>t. pool_ok t \<and> merged t" Allocated state_at held IntervalTree_allocate IntervalTree_free
proof
  show "Allocated \<noteq> (Free :: 'a NodeState)" by simp
next
  fix t t' :: "'a node" and c r r' s s'
  assume inv: "pool_ok t \<and> merged t"
  then have tok: "tree_ok t" by (simp add: pool_ok_def)
  note a = allocate_pool [OF conjunct1 [OF inv] conjunct2 [OF inv], of c]
  show "\<exists>res t'. IntervalTree_allocate t c = Some (res, t') \<and> pool_ok t' \<and> merged t'"
    using a by blast
  show "t' = t \<and> \<not> (\<exists>r. satisfies c r \<and> (\<forall>a \<in> addrs r. state_at t a = Some Free))"
    if "IntervalTree_allocate t c = Some (None, t')"
    using a that by (auto simp: free_range_def)
  show "satisfies c r \<and> (\<forall>a \<in> addrs r. state_at t a = Some Free) \<and>
      state_at t' = (\<lambda>a. if a \<in> addrs r then Some Allocated else state_at t a) \<and>
      held t' = (held t)(r \<mapsto> Allocated)"
    if "IntervalTree_allocate t c = Some (Some r, t')"
    using a that by (auto simp: free_range_def)
  show "\<exists>t'. IntervalTree_free t r = Some (NodeState_into s, t') \<and> (pool_ok t' \<and> merged t') \<and>
      state_at t' = (\<lambda>a. if a \<in> addrs r then Some Free else state_at t a) \<and>
      held t' = (held t)(r := None)" if "held t r = Some s"
    using free_pool [OF _ _ that] inv by blast
  show "valid_range r \<and> s \<noteq> Free \<and> (\<forall>a \<in> addrs r. state_at t a = Some s)" if "held t r = Some s"
    using that held_iff [OF tok, of r s] entry_valid [OF tok] entry_state [OF tok] by auto
  show "addrs r \<inter> addrs r' = {}" if "held t r = Some s" "held t r' = Some s'" "r \<noteq> r'"
    using that held_iff [OF tok, of r s] held_iff [OF tok, of r' s'] entries_overlap(1) [OF tok, of r s r' s']
    by blast
qed

lemma IntervalTree_insert_node: "IntervalTree_insert t k d = node_insert t k d"
  by (simp add: IntervalTree_insert_def)

section \<open>Freeing what is not there\<close>

lemma merge_bounds:
  assumes "tree_ok t"
  shows "merge_min t k = Some lo \<Longrightarrow> lo \<le> rmin k"
    and "merge_max t k = Some hi \<Longrightarrow> rmax k \<le> hi"
    and "merge_max t k = Some hi \<Longrightarrow> hi = rmax k \<or> (\<exists>e \<in> entries t. hi = rmax (fst e))"
proof -
  have le: "rmin r \<le> a" "a \<le> rmax r" "(r, d) \<in> entries t"
    if "IntervalTree_get_superset t \<lparr>rmin = a, rmax = a\<rparr> = Some (r, d)" for r d a
    using that get_superset_point [OF assms] by (auto simp: addrs_def)
  show "lo \<le> rmin k" if "merge_min t k = Some lo"
    using that le(1) [of "rmin k - 1"] word_le_pred_iff [of "rmin k" lo]
    by (auto simp: merge_min_def split: if_splits option.splits)
  show "rmax k \<le> hi" if "merge_max t k = Some hi"
    using that le(2) [of "rmax k + 1"] u64_succ_le_iff [of "rmax k" hi]
    by (auto simp: merge_max_def split: if_splits option.splits)
  show "hi = rmax k \<or> (\<exists>e \<in> entries t. hi = rmax (fst e))" if "merge_max t k = Some hi"
    using that le(3) [of "rmax k + 1"]
    by (force simp: merge_max_def split: if_splits option.splits)
qed

lemma delete_gap_keeps:
  assumes "tree_ok t" "e \<in> entries t" "Range_intersect (fst e) k"
  shows "delete_below t k lo = Some t' \<Longrightarrow> tree_ok t' \<and> e \<in> entries t'"
    and "delete_above t k hi = Some t' \<Longrightarrow> tree_ok t' \<and> e \<in> entries t'"
proof -
  have del: "tree_ok t2 \<and> (fst e \<noteq> q \<longrightarrow> e \<in> entries t2)"
    if "map_option snd (IntervalTree_delete t q) = Some t2" for t2 q
    by (rule IntervalTree_delete_ok [OF assms(1), of q]) (use that assms(2) in auto)
  show "tree_ok t' \<and> e \<in> entries t'" if "delete_below t k lo = Some t'"
  proof (cases "lo < rmin k")
    case True
    then have pos: "0 < rmin k" by (metis word_gt_0 word_not_simps(1))
    have "before \<lparr>rmin = lo, rmax = rmin k - 1\<rparr> k"
      using word_le_pred_iff [OF pos, of "rmin k - 1"] by (simp add: before_def)
    then have "fst e \<noteq> \<lparr>rmin = lo, rmax = rmin k - 1\<rparr>"
      using before_not_intersect(1) assms(3) by auto
    with that True pos del show ?thesis
      by (auto simp: delete_below_def Range_new_ret_iff bind_eq_Some_conv)
  qed (use that assms in \<open>simp add: delete_below_def\<close>)
  show "tree_ok t' \<and> e \<in> entries t'" if "delete_above t k hi = Some t'"
  proof (cases "rmax k < hi")
    case True
    then have nm: "rmax k \<noteq> u64_MAX" by auto
    have "before k \<lparr>rmin = rmax k + 1, rmax = hi\<rparr>"
      using u64_less_succ [OF nm] by (simp add: before_def)
    then have "fst e \<noteq> \<lparr>rmin = rmax k + 1, rmax = hi\<rparr>"
      using before_not_intersect(2) assms(3) by auto
    with that True nm del show ?thesis
      by (auto simp: delete_above_def Range_new_ret_iff bind_eq_Some_conv)
  qed (use that assms in \<open>simp add: delete_above_def\<close>)
qed

lemma IntervalTree_free_foreign:
  assumes "pool_ok t" "valid_range k" "rmax k \<noteq> u64_MAX" "IntervalTree_get t k = None"
    "e \<in> entries t" "Range_intersect (fst e) k"
  shows "IntervalTree_free t k = None"
proof (rule ccontr)
  have tok: "tree_ok t" using assms(1) by (simp add: pool_ok_def)
  assume "IntervalTree_free t k \<noteq> None"
  then obtain old t1 lo hi t2 t3 t' where f: "IntervalTree_delete t k = Some (old, t1)"
      "merge_min t1 k = Some lo" "merge_max t1 k = Some hi"
      "delete_below t1 k lo = Some t2" "delete_above t2 k hi = Some t3"
      "IntervalTree_insert t3 \<lparr>rmin = lo, rmax = hi\<rparr> None = Some t'"
    by (auto simp: IntervalTree_free_def bind_eq_Some_conv)
  have "\<forall>e \<in> entries t. fst e \<noteq> k"
    using assms(4) IntervalTree_get_ok [OF tok, of k] by (metis option.distinct(1) prod.collapse)
  then have t1: "tree_ok t1" "entries t1 = entries t"
    using IntervalTree_delete_ok [OF tok, of k] f(1) by auto
  have "tree_ok t2 \<and> e \<in> entries t2"
    using delete_gap_keeps(1) [OF t1(1) _ assms(6) f(4)] assms(5) t1(2) by simp
  then have t3: "tree_ok t3" "e \<in> entries t3"
    using delete_gap_keeps(2) [OF _ _ assms(6) f(5)] by auto
  note b = merge_bounds [OF t1(1)]
  have "hi \<noteq> u64_MAX" using b(3) [OF f(3)] t1(2) pool_ok_max [OF assms(1)] assms(3)
    by (metis prod.collapse)
  then have "valid_range \<lparr>rmin = lo, rmax = hi\<rparr>"
    using b(1) [OF f(2)] b(2) [OF f(3)] assms(2) by (auto simp: valid_range_def)
  moreover have "Range_intersect (fst e) \<lparr>rmin = lo, rmax = hi\<rparr>"
    using Range_intersect_mono [OF assms(6) b(1) [OF f(2)] b(2) [OF f(3)]] .
  ultimately have "node_insert t3 \<lparr>rmin = lo, rmax = hi\<rparr> None = None"
    using node_insert_panic [OF t3(1), of _ "fst e"] t3(2) by simp
  with f(6) show False by (simp add: IntervalTree_insert_node)
qed

end
