(* ===== verification/IntervalTree_Props.thy ===== *)
theory IntervalTree_Props
  imports Range_Pool
begin

text \<open>
  The properties of the interval tree and of a pool built on it: the dictionary laws, the
  bound on the height that makes the source's narrow integer types safe, the specification of
  \<open>allocate\<close> and \<open>free\<close> by addresses, and the life of a pool as a state machine.
\<close>

section \<open>The life of a pool\<close>

text \<open>A pool and the ranges its clients own. A client allocates, attaches a value to a range it
  owns, or gives a range it owns back.\<close>

inductive pool_step :: "'a node \<times> Range set \<Rightarrow> 'a node \<times> Range set \<Rightarrow> bool" where
  allocated: "IntervalTree_allocate t c = Some (Some r, t') \<Longrightarrow> pool_step (t, own) (t', insert r own)"
| exhausted: "IntervalTree_allocate t c = Some (None, t') \<Longrightarrow> pool_step (t, own) (t', own)"
| updated: "r \<in> own \<Longrightarrow> IntervalTree_update t r v = Some (old, t') \<Longrightarrow> pool_step (t, own) (t', own)"
| freed: "r \<in> own \<Longrightarrow> IntervalTree_free t r = Some (old, t') \<Longrightarrow> pool_step (t, own) (t', own - {r})"

inductive_cases pool_stepE: "pool_step (t, own) (t', own')"

text \<open>What holds in every reachable state: \<open>own\<close> is what the tree has handed out, and the tree
  still covers the addresses \<open>dm\<close> it started with.\<close>

definition pool_inv :: "u64 set \<Rightarrow> 'a node \<times> Range set \<Rightarrow> bool" where
  "pool_inv dm = (\<lambda>(t, own). pool_ok t \<and> merged t \<and> dom (held t) = own \<and> dom (state_at t) = dm)"

section \<open>Updating a held range\<close>

lemma update_pool:
  assumes "pool_ok t" "merged t" "held t r = Some s"
  shows "\<exists>t'. IntervalTree_update t r v = Some (NodeState_into s, t') \<and> pool_ok t' \<and> merged t' \<and>
    state_at t' = (\<lambda>a. if a \<in> addrs r then Some (Valued v) else state_at t a) \<and>
    held t' = (held t)(r \<mapsto> Valued v)"
proof -
  have tok: "tree_ok t" using assms(1) by (simp add: pool_ok_def)
  have r: "(r, s) \<in> entries t" "s \<noteq> Free" using assms(3) held_iff [OF tok] by auto
  then have "\<not> update_refused s (Valued v)" by (cases s) auto
  then obtain t' where t': "node_update t r (Valued v) = Some (NodeState_into s, t')" "tree_ok t'"
      "entries t' = insert (r, Valued v) {e \<in> entries t. fst e \<noteq> r}"
    using node_update_entries [OF tok r(1)] by blast
  have st: "state_at t' a = (if a \<in> addrs r then Some (Valued v) else state_at t a)" for a
  proof (rule state_at_eqI [OF t'(2), where f = "\<lambda>a. if a \<in> addrs r then Some (Valued v) else state_at t a"])
    fix d
    show "(if a \<in> addrs r then Some (Valued v) else state_at t a) = Some d \<longleftrightarrow>
        (\<exists>k. (k, d) \<in> entries t' \<and> a \<in> addrs k)"
      using state_at_iff [OF tok, of a d] entries_overlap(1) [OF tok r(1), of _ _ a] unfolding t'(3) by auto
  qed
  have "pool_ok t'" using t'(2,3) pool_ok_max [OF assms(1)] r(1) by (auto simp: pool_ok_def)
  moreover have "merged t'"
    using mergedD [OF assms(2)] unfolding merged_def t'(3) st by auto
  moreover have "held t' = (held t)(r \<mapsto> Valued v)"
    by (rule held_eqI [OF t'(2)]) (use held_iff [OF tok] t'(3) in auto)
  moreover have "IntervalTree_update t r v = Some (NodeState_into s, t')"
    using t'(1) r(1) by (auto simp: IntervalTree_update_def)
  ultimately show ?thesis using st by blast
qed

section \<open>The height\<close>

lemma avl_size: "avl t \<Longrightarrow> 2 ^ ((height t + 1) div 2) \<le> length (inorder t) + 1"
proof (induction t)
  case (Node k d l r h m)
  show ?case
  proof (cases "h < 2")
    case True
    then have "h = 1" using Node.prems by auto
    then show ?thesis by simp
  next
    case False
    then obtain n where n: "h = n + 2" by (metis add.commute le_add_diff_inverse2 not_less)
    have le: "n \<le> height l" "n \<le> height r" using Node.prems n by auto
    have mono: "(2::nat) ^ ((n + 1) div 2) \<le> 2 ^ ((x + 1) div 2)" if "n \<le> x" for x
      using that by (intro power_increasing div_le_mono) auto
    have "2 ^ ((n + 1) div 2) \<le> length (inorder l) + 1"
      using order_trans [OF mono [OF le(1)]] Node.IH(1) Node.prems by simp
    moreover have "2 ^ ((n + 1) div 2) \<le> length (inorder r) + 1"
      using order_trans [OF mono [OF le(2)]] Node.IH(2) Node.prems by simp
    moreover have "(h + 1) div 2 = Suc ((n + 1) div 2)" using n by simp
    ultimately show ?thesis by simp
  qed
qed simp

lemma disjoint_keys_length:
  assumes "disjoint_keys ks"
  shows "length ks \<le> 2 ^ 64"
proof -
  have "distinct (map (\<lambda>k. unat (rmin k)) ks)"
    using assms
  proof (induction ks)
    case (Cons k ks)
    have "rmin k < rmin k'" if "k' \<in> set ks" for k'
      using Cons.prems that by (auto simp: before_def valid_range_def)
    then have "unat (rmin k) \<noteq> unat (rmin k')" if "k' \<in> set ks" for k'
      using that by (metis word_less_nat_alt less_irrefl)
    then show ?case using Cons by auto
  qed simp
  then have "length ks = card (set (map (\<lambda>k. unat (rmin k)) ks))"
    by (metis distinct_card length_map)
  also have "\<dots> \<le> card {..< (2::nat) ^ 64}"
  proof (rule card_mono)
    show "set (map (\<lambda>k. unat (rmin k)) ks) \<subseteq> {..< (2::nat) ^ 64}"
      using unat_less_exp [where 'a = 64] by auto
  qed simp
  finally show ?thesis by simp
qed

section \<open>The dictionary\<close>

lemma get_eqI:
  assumes "tree_ok t" "\<And>s. (k, s) \<in> entries t \<longleftrightarrow> f = Some s"
  shows "IntervalTree_get t k = f"
  using IntervalTree_get_ok [OF assms(1), of k] assms(2) by (metis option.exhaust)

section \<open>Reachable pools\<close>

lemma pool_step_inv:
  assumes "pool_step x y" "pool_inv dm x"
  shows "pool_inv dm y"
  using assms
proof (induction rule: pool_step.induct)
  case (allocated t c r t' own)
  then have i: "pool_ok t \<and> merged t" by (simp add: pool_inv_def)
  note a = tree_pool.alloc_Some [OF i allocated(1)] and a' = tree_pool.alloc_inv [OF i allocated(1)]
  have "dom (state_at t') = dom (state_at t)" using a by (auto split: if_splits)
  with a a' allocated(2) show ?case by (simp add: pool_inv_def)
next
  case (exhausted t c t' own)
  then have i: "pool_ok t \<and> merged t" by (simp add: pool_inv_def)
  with tree_pool.alloc_None [OF i exhausted(1)] exhausted(2) show ?case by simp
next
  case (updated r own t v old t')
  then obtain s where s: "pool_ok t" "merged t" "held t r = Some s" by (auto simp: pool_inv_def)
  have "dom (state_at t') = dom (state_at t)"
    using update_pool [OF s, of v] updated(2) tree_pool.given_state [of t r s] s by (auto split: if_splits)
  with update_pool [OF s, of v] updated show ?case by (auto simp: pool_inv_def)
next
  case (freed r own t old t')
  then obtain s where s: "pool_ok t" "merged t" "held t r = Some s" by (auto simp: pool_inv_def)
  have "dom (state_at t') = dom (state_at t)"
    using free_pool [OF s] freed(2) tree_pool.given_state [of t r s] s by (auto split: if_splits)
  with free_pool [OF s] freed show ?case by (auto simp: pool_inv_def)
qed

lemma pool_steps_inv: "pool_step\<^sup>*\<^sup>* x y \<Longrightarrow> pool_inv dm x \<Longrightarrow> pool_inv dm y"
  by (induction rule: rtranclp_induct) (auto intro: pool_step_inv)

lemma pool_inv_states:
  assumes "pool_inv dm (t, own)" "a \<in> dm"
  shows "state_at t a = Some Free \<longleftrightarrow> (\<forall>r \<in> own. a \<notin> addrs r)"
proof -
  have i: "pool_ok t \<and> merged t" and own: "own = dom (held t)" and "a \<in> dom (state_at t)"
    using assms by (auto simp: pool_inv_def)
  then have tok: "tree_ok t" by (simp add: pool_ok_def)
  obtain k s where k: "(k, s) \<in> entries t" "a \<in> addrs k" "state_at t a = Some s"
    using \<open>a \<in> dom (state_at t)\<close> state_at_iff [OF tok] by blast
  show ?thesis
  proof (cases "s = Free")
    case True
    then show ?thesis using k(3) own tree_pool.given_state [OF i] by fastforce
  next
    case False
    then have "held t k = Some s" using k(1) held_iff [OF tok] by simp
    then show ?thesis using own k(2,3) False by auto
  qed
qed

section \<open>Properties\<close>

text \<open>The pool of the examples: one free and one allocated range, with a hole between them.\<close>

definition demo_pool :: "nat node" where
  "demo_pool = Node \<lparr>rmin = 0x100, rmax = 0x1ff\<rparr> Free Leaf
     (Node \<lparr>rmin = 0x300, rmax = 0x30f\<rparr> Allocated Leaf Leaf 1 0x30f) 2 0x30f"

definition free_pool_demo :: "nat node" where
  "free_pool_demo = Node \<lparr>rmin = 0x100, rmax = 0x1ff\<rparr> Free Leaf Leaf 1 0x1ff"

lemma demo_pool_ok: "pool_ok demo_pool" "merged demo_pool" "tree_ok demo_pool"
  by (simp_all add: pool_ok_def tree_ok_def demo_pool_def valid_range_def before_def merged_def state_at_def)

text \<open>C4: \<open>insert\<close> on a well-formed tree panics exactly when the new key intersects an existing
  one, and otherwise gives a well-formed tree with the new entry added.\<close>

theorem tree_insert_correct:
  assumes "tree_ok t" "valid_range k"
  shows "case IntervalTree_insert t k d of
      None \<Rightarrow> \<exists>e \<in> entries t. Range_intersect (fst e) k
    | Some t' \<Rightarrow> (\<forall>e \<in> entries t. \<not> Range_intersect (fst e) k) \<and> tree_ok t' \<and>
        (\<forall>k'. IntervalTree_get t' k' = (if k' = k then Some (new_state d) else IntervalTree_get t k'))"
proof (cases "\<exists>e \<in> entries t. Range_intersect (fst e) k")
  case True
  then have "IntervalTree_insert t k d = None"
    using node_insert_panic [OF assms] by (auto simp: IntervalTree_insert_node)
  with True show ?thesis by simp
next
  case False
  then obtain t' where t': "IntervalTree_insert t k d = Some t'" "tree_ok t'"
      "entries t' = insert (k, new_state d) (entries t)"
    using IntervalTree_insert_ok [OF assms, of d] by blast
  have "Range_intersect k k"
    using Range_intersect_iff [OF assms(2,2)] addrs_nonempty(1) [OF assms(2)] by auto
  then have "(k, s) \<notin> entries t" for s using False by force
  then have "IntervalTree_get t' k' = (if k' = k then Some (new_state d) else IntervalTree_get t k')" for k'
    using t'(3) IntervalTree_get_ok [OF assms(1), of k'] by (intro get_eqI [OF t'(2)]) auto
  with False t'(1,2) show ?thesis by auto
qed

theorem tree_insert_correct_witness:
  "case IntervalTree_insert demo_pool \<lparr>rmin = 0x200, rmax = 0x20f\<rparr> (Some 7) of
      None \<Rightarrow> False
    | Some t' \<Rightarrow> tree_ok t' \<and> IntervalTree_get t' \<lparr>rmin = 0x200, rmax = 0x20f\<rparr> = Some (Valued 7)"
proof -
  have "valid_range \<lparr>rmin = 0x200, rmax = 0x20f\<rparr>" by (simp add: valid_range_def)
  from tree_insert_correct [OF demo_pool_ok(3) this, of "Some 7"] show ?thesis
    by (auto simp: demo_pool_def Range_intersect_def split: option.splits)
qed

text \<open>C5: \<open>delete\<close> on a well-formed tree never panics, removes exactly the entry of the key and
  returns the value it carried.\<close>

theorem tree_delete_correct:
  assumes "tree_ok t"
  shows "\<exists>t'. IntervalTree_delete t k =
      Some (Option.bind (IntervalTree_get t k) NodeState_into, t') \<and> tree_ok t' \<and>
    (\<forall>k'. IntervalTree_get t' k' = (if k' = k then None else IntervalTree_get t k'))"
proof -
  obtain t' where t': "IntervalTree_delete t k =
        Some (Option.bind (IntervalTree_get t k) NodeState_into, t')"
      "tree_ok t'" "entries t' = {e \<in> entries t. fst e \<noteq> k}"
    using IntervalTree_delete_ok [OF assms] .
  have "IntervalTree_get t' k' = (if k' = k then None else IntervalTree_get t k')" for k'
    using t'(3) IntervalTree_get_ok [OF assms, of k'] by (intro get_eqI [OF t'(2)]) auto
  with t'(1,2) show ?thesis by auto
qed

theorem tree_delete_correct_witness:
  "\<exists>t'. IntervalTree_delete demo_pool \<lparr>rmin = 0x100, rmax = 0x1ff\<rparr> = Some (None, t') \<and> tree_ok t' \<and>
     IntervalTree_get t' \<lparr>rmin = 0x100, rmax = 0x1ff\<rparr> = None"
  using tree_delete_correct [OF demo_pool_ok(3), of "\<lparr>rmin = 0x100, rmax = 0x1ff\<rparr>"]
  by (auto simp: demo_pool_def IntervalTree_get_def [of "Node _ _ _ _ _ _"])



text \<open>C1: \<open>allocate\<close> on a pool without touching free nodes never panics. If it returns a range,
  the range has the size, bounds and alignment the constraint asks for, all its addresses were
  free, it is the lowest such range, and afterwards exactly its addresses are allocated. If it
  returns none, no run of free addresses could have satisfied the constraint.\<close>

theorem tree_allocate_correct:
  assumes "pool_ok t" "merged t"
  shows "\<exists>res t'. IntervalTree_allocate t c = Some (res, t') \<and> pool_ok t' \<and> merged t' \<and>
    (case res of
       None \<Rightarrow> t' = t \<and> \<not> (\<exists>r. satisfies c r \<and> free_range t r)
     | Some r \<Rightarrow> satisfies c r \<and> free_range t r \<and>
         (\<forall>r'. satisfies c r' \<and> free_range t r' \<longrightarrow> rmin r \<le> rmin r') \<and>
         state_at t' = (\<lambda>a. if a \<in> addrs r then Some Allocated else state_at t a) \<and>
         held t' = (held t)(r \<mapsto> Allocated))"
  by (rule allocate_pool [OF assms])

theorem tree_allocate_correct_witness:
  "\<exists>res t'. IntervalTree_allocate demo_pool (Constraint_align (Constraint_new 0x10) 0x20) = Some (res, t') \<and>
     pool_ok t' \<and> (\<forall>r. res = Some r \<longrightarrow> free_range demo_pool r)"
  using tree_allocate_correct [OF demo_pool_ok(1,2), of "Constraint_align (Constraint_new 0x10) 0x20"]
  by (force split: option.splits)

text \<open>C2: \<open>free\<close> of a range that was handed out never panics, returns the value attached to the
  range, makes exactly its addresses free, and leaves no two free nodes that touch.\<close>

theorem tree_free_correct:
  assumes "pool_ok t" "merged t" "held t k = Some s"
  shows "\<exists>t'. IntervalTree_free t k = Some (NodeState_into s, t') \<and> pool_ok t' \<and> merged t' \<and>
    state_at t' = (\<lambda>a. if a \<in> addrs k then Some Free else state_at t a) \<and>
    held t' = (held t)(k := None)"
  by (rule free_pool [OF assms])

theorem tree_free_correct_witness:
  "\<exists>t'. IntervalTree_free demo_pool \<lparr>rmin = 0x300, rmax = 0x30f\<rparr> = Some (None, t') \<and>
     state_at t' 0x305 = Some Free \<and> state_at t' 0x250 = None"
proof -
  have "held demo_pool \<lparr>rmin = 0x300, rmax = 0x30f\<rparr> = Some Allocated"
    by (simp add: held_def IntervalTree_get_def demo_pool_def Range_cmp_def u64_cmp_def)
  moreover have "state_at demo_pool 0x250 = None" by (simp add: state_at_def demo_pool_def)
  ultimately show ?thesis
    using tree_free_correct [OF demo_pool_ok(1,2)] by (fastforce simp: addrs_def)
qed

text \<open>freeing a range right after allocating it gives back a pool with the same state at
  every address and the same ranges handed out.\<close>

theorem tree_allocate_free:
  assumes "pool_ok t" "merged t" "IntervalTree_allocate t c = Some (Some r, t')"
  shows "\<exists>t''. IntervalTree_free t' r = Some (None, t'') \<and> (pool_ok t'' \<and> merged t'') \<and>
    state_at t'' = state_at t \<and> held t'' = held t"
  using tree_pool.alloc_release [OF conjI [OF assms(1,2)] assms(3)] by simp

theorem tree_allocate_free_witness:
  "\<exists>r t' t''. IntervalTree_allocate demo_pool (Constraint_new 0x10) = Some (Some r, t') \<and>
     IntervalTree_free t' r = Some (None, t'') \<and> state_at t'' = state_at demo_pool"
proof -
  let ?c = "Constraint_new 0x10" and ?r = "\<lparr>rmin = 0x100, rmax = 0x10f\<rparr>"
  have "satisfies ?c ?r"
    by (simp add: satisfies_def Constraint_new_def valid_range_def align_ok_trivial)
  moreover have "free_range demo_pool ?r"
    by (rule entry_free_range [OF demo_pool_ok(3), of "\<lparr>rmin = 0x100, rmax = 0x1ff\<rparr>"])
      (simp_all add: demo_pool_def Range_contain_def)
  ultimately obtain r t' where "IntervalTree_allocate demo_pool ?c = Some (Some r, t')"
    using allocate_pool [OF demo_pool_ok(1,2), of ?c] by (auto split: option.splits)
  with tree_allocate_free [OF demo_pool_ok(1,2) this] show ?thesis by blast
qed

text \<open>C3: in every state a pool reaches by allocating, updating and freeing, the ranges its clients
  own are pairwise disjoint, an address of the pool is free exactly when no client owns it, the
  pool covers the addresses it covered at the start, and freeing any owned range succeeds.\<close>

theorem pool_reachable:
  assumes "pool_step\<^sup>*\<^sup>* (t0, {}) (t, own)" "pool_ok t0" "merged t0" "held t0 = Map.empty"
  shows "dom (state_at t) = dom (state_at t0) \<and>
    (\<forall>r \<in> own. \<forall>r' \<in> own. r \<noteq> r' \<longrightarrow> addrs r \<inter> addrs r' = {}) \<and>
    (\<forall>a \<in> dom (state_at t0). state_at t a = Some Free \<longleftrightarrow> (\<forall>r \<in> own. a \<notin> addrs r)) \<and>
    (\<forall>r \<in> own. IntervalTree_free t r \<noteq> None)"
proof -
  have "pool_inv (dom (state_at t0)) (t0, {})" using assms(2-4) by (simp add: pool_inv_def)
  from pool_steps_inv [OF assms(1) this] have inv: "pool_inv (dom (state_at t0)) (t, own)" .
  then have i: "pool_ok t \<and> merged t" and own: "own = dom (held t)" "dom (state_at t) = dom (state_at t0)"
    by (auto simp: pool_inv_def)
  have "addrs r \<inter> addrs r' = {}" if "r \<in> own" "r' \<in> own" "r \<noteq> r'" for r r'
    using tree_pool.given_disjoint [OF i] own(1) that by blast
  moreover have "IntervalTree_free t r \<noteq> None" if "r \<in> own" for r
    using tree_pool.release_given [OF i, of r] own(1) that by auto
  ultimately show ?thesis using pool_inv_states [OF inv] own(2) by blast
qed

theorem pool_reachable_witness:
  "\<exists>r t. pool_step\<^sup>*\<^sup>* (free_pool_demo, {}) (t, {r}) \<and> IntervalTree_free t r \<noteq> None"
proof -
  let ?c = "Constraint_new 0x10" and ?r = "\<lparr>rmin = 0x100, rmax = 0x10f\<rparr>"
  have ok: "pool_ok free_pool_demo" "merged free_pool_demo" "tree_ok free_pool_demo"
    by (simp_all add: pool_ok_def tree_ok_def free_pool_demo_def valid_range_def merged_def state_at_def)
  have "satisfies ?c ?r"
    by (simp add: satisfies_def Constraint_new_def valid_range_def align_ok_trivial)
  moreover have "free_range free_pool_demo ?r"
    by (rule entry_free_range [OF ok(3), of "\<lparr>rmin = 0x100, rmax = 0x1ff\<rparr>"])
      (simp_all add: free_pool_demo_def Range_contain_def)
  ultimately obtain r t where "IntervalTree_allocate free_pool_demo ?c = Some (Some r, t)"
    using allocate_pool [OF ok(1,2), of ?c] by (auto split: option.splits)
  then have "pool_step\<^sup>*\<^sup>* (free_pool_demo, {}) (t, {r})"
    using pool_step.allocated by (metis r_into_rtranclp)
  moreover have "held free_pool_demo = Map.empty"
    by (rule ext) (simp add: held_def IntervalTree_get_def free_pool_demo_def split: Ordering.splits)
  ultimately show ?thesis using pool_reachable [OF _ ok(1,2)] by blast
qed

text \<open>looking up the node that covers a point returns the entry whose range contains it, and
  \<open>get_by_id\<close> the value attached to that entry.\<close>

theorem tree_get_by_id_correct:
  assumes "tree_ok t"
  shows "IntervalTree_get_by_id t a = Option.bind (state_at t a) NodeState_into"
proof (cases "IntervalTree_get_superset t \<lparr>rmin = a, rmax = a\<rparr>")
  case None
  then have "state_at t a = None"
    using get_superset_point [OF assms, of a] state_at_iff [OF assms, of a] by (metis option.exhaust option.distinct(1))
  with None show ?thesis
    by (simp add: IntervalTree_get_by_id_def IntervalTree_get_superset_def Range_new_point_def)
next
  case (Some e)
  obtain k s where e: "e = (k, s)" by fastforce
  with Some have "state_at t a = Some s"
    using get_superset_point [OF assms, of a k s] state_at_iff [OF assms, of a s] by blast
  with Some e show ?thesis
    by (auto simp: IntervalTree_get_by_id_def IntervalTree_get_superset_def Range_new_point_def)
qed

theorem tree_get_by_id_correct_witness:
  "IntervalTree_get_by_id demo_pool 0x305 = Option.bind (state_at demo_pool 0x305) NodeState_into"
  using tree_get_by_id_correct [OF demo_pool_ok(3)] .

text \<open>freeing a range that is not an entry of the tree but overlaps one panics; a range that
  was freed before and has been merged with its neighbours is such a range.\<close>

theorem tree_free_foreign_panics:
  assumes "pool_ok t" "valid_range k" "rmax k \<noteq> u64_MAX" "IntervalTree_get t k = None"
    "e \<in> entries t" "Range_intersect (fst e) k"
  shows "IntervalTree_free t k = None"
  using IntervalTree_free_foreign [OF assms] .

theorem tree_free_foreign_panics_witness:
  "IntervalTree_free demo_pool \<lparr>rmin = 0x110, rmax = 0x11f\<rparr> = None"
proof (rule tree_free_foreign_panics [OF demo_pool_ok(1), of _ "(\<lparr>rmin = 0x100, rmax = 0x1ff\<rparr>, Free)"])
  show "IntervalTree_get demo_pool \<lparr>rmin = 0x110, rmax = 0x11f\<rparr> = None"
    by (simp add: IntervalTree_get_def demo_pool_def Range_cmp_def u64_cmp_def)
qed (simp_all add: demo_pool_def Range_intersect_def valid_range_def)


end
