(* ===== verification/Resources.thy ===== *)
theory Resources
  imports Rust_Prelude
begin

text \<open>
  Device resources: \<open>dbs_device/src/resources.rs\<close>. The constraints a device states, the resources
  it is assigned and the queries on a set of assigned resources.
\<close>

section \<open>Constraints\<close>

datatype ResourceConstraint =
    PioAddress "(u16 \<times> u16) option" u16 u16
  | MmioAddress "(u64 \<times> u64) option" u64 u64
  | MemAddress "(u64 \<times> u64) option" u64 u64
  | LegacyIrqConstraint "u32 option"
  | PciMsiIrq u32
  | PciMsixIrq u32
  | GenericIrq u32
  | KvmMemSlotConstraint "u32 option" u32

definition new_pio :: "u16 \<Rightarrow> ResourceConstraint" where
  "new_pio sz = PioAddress None 1 sz"

definition pio_with_constraints :: "u16 \<Rightarrow> (u16 \<times> u16) option \<Rightarrow> u16 \<Rightarrow> ResourceConstraint" where
  "pio_with_constraints sz rg align = PioAddress rg align sz"

definition new_mmio :: "u64 \<Rightarrow> ResourceConstraint" where
  "new_mmio sz = MmioAddress None 0x1000 sz"

definition mmio_with_constraints :: "u64 \<Rightarrow> (u64 \<times> u64) option \<Rightarrow> u64 \<Rightarrow> ResourceConstraint" where
  "mmio_with_constraints sz rg align = MmioAddress rg align sz"

definition new_mem :: "u64 \<Rightarrow> ResourceConstraint" where
  "new_mem sz = MemAddress None 0x1000 sz"

definition mem_with_constraints :: "u64 \<Rightarrow> (u64 \<times> u64) option \<Rightarrow> u64 \<Rightarrow> ResourceConstraint" where
  "mem_with_constraints sz rg align = MemAddress rg align sz"

definition new_legacy_irq :: "u32 option \<Rightarrow> ResourceConstraint" where
  "new_legacy_irq irq = LegacyIrqConstraint irq"

definition new_pci_msi_irq :: "u32 \<Rightarrow> ResourceConstraint" where
  "new_pci_msi_irq sz = PciMsiIrq sz"

definition new_pci_msix_irq :: "u32 \<Rightarrow> ResourceConstraint" where
  "new_pci_msix_irq sz = PciMsixIrq sz"

definition new_generic_irq :: "u32 \<Rightarrow> ResourceConstraint" where
  "new_generic_irq sz = GenericIrq sz"

definition new_kvm_mem_slot :: "u32 \<Rightarrow> u32 option \<Rightarrow> ResourceConstraint" where
  "new_kvm_mem_slot sz slot = KvmMemSlotConstraint slot sz"

section \<open>Assigned resources\<close>

datatype MsiIrqType = PciMsi | PciMsix | GenericMsi

datatype Resource =
    PioAddressRange u16 u16
  | MmioAddressRange u64 u64
  | MemAddressRange u64 u64
  | LegacyIrq u32
  | MsiIrq MsiIrqType u32 u32
  | MacAddresss string
  | KvmMemSlot u32

text \<open>\<open>DeviceResources\<close> is a vector of resources; \<open>deref\<close> and \<open>get_all_resources\<close> are the vector
  itself.\<close>

type_synonym DeviceResources = "Resource list"

definition DeviceResources_new :: DeviceResources where
  "DeviceResources_new = []"

definition DeviceResources_append :: "DeviceResources \<Rightarrow> Resource \<Rightarrow> DeviceResources" where
  "DeviceResources_append self entry = self @ [entry]"

definition get_pio_address_ranges :: "DeviceResources \<Rightarrow> (u16 \<times> u16) list" where
  "get_pio_address_ranges self = [(base, sz). PioAddressRange base sz \<leftarrow> self]"

definition get_mmio_address_ranges :: "DeviceResources \<Rightarrow> (u64 \<times> u64) list" where
  "get_mmio_address_ranges self = [(base, sz). MmioAddressRange base sz \<leftarrow> self]"

definition get_mem_address_ranges :: "DeviceResources \<Rightarrow> (u64 \<times> u64) list" where
  "get_mem_address_ranges self = [(base, sz). MemAddressRange base sz \<leftarrow> self]"

fun get_legacy_irq :: "DeviceResources \<Rightarrow> u32 option" where
  "get_legacy_irq [] = None"
| "get_legacy_irq (LegacyIrq base # rest) = Some base"
| "get_legacy_irq (entry # rest) = get_legacy_irq rest"

fun get_msi_irqs :: "DeviceResources \<Rightarrow> MsiIrqType \<Rightarrow> (u32 \<times> u32) option" where
  "get_msi_irqs [] ty = None"
| "get_msi_irqs (MsiIrq msi_type base sz # rest) ty =
     (if ty = msi_type then Some (base, sz) else get_msi_irqs rest ty)"
| "get_msi_irqs (entry # rest) ty = get_msi_irqs rest ty"

definition get_pci_msi_irqs :: "DeviceResources \<Rightarrow> (u32 \<times> u32) option" where
  "get_pci_msi_irqs self = get_msi_irqs self PciMsi"

definition get_pci_msix_irqs :: "DeviceResources \<Rightarrow> (u32 \<times> u32) option" where
  "get_pci_msix_irqs self = get_msi_irqs self PciMsix"

definition get_generic_msi_irqs :: "DeviceResources \<Rightarrow> (u32 \<times> u32) option" where
  "get_generic_msi_irqs self = get_msi_irqs self GenericMsi"

definition get_kvm_mem_slots :: "DeviceResources \<Rightarrow> u32 list" where
  "get_kvm_mem_slots self = [index. KvmMemSlot index \<leftarrow> self]"

fun get_mac_address :: "DeviceResources \<Rightarrow> string option" where
  "get_mac_address [] = None"
| "get_mac_address (MacAddresss addr # rest) = Some addr"
| "get_mac_address (entry # rest) = get_mac_address rest"

end
