(* ===== verification/ResourceManager.thy ===== *)
theory ResourceManager
  imports IntervalTree_Props Resources
begin

text \<open>
  The resource manager of a virtual machine: \<open>resource_manager.rs\<close>, for x86_64, with the
  address map of \<open>dbs_boot/src/x86_64/layout.rs\<close>. The last guest physical address, read from
  \<open>/proc/cpuinfo\<close> by the source, is the argument \<open>pe\<close>. A pool is an interval tree without
  values; each method takes and returns the whole manager, which the source guards by one lock
  per pool.
\<close>

section \<open>Address map\<close>

definition IRQ_BASE :: u32 where "IRQ_BASE = 5"
definition IRQ_MAX :: u32 where "IRQ_MAX = 15"
definition MMIO_LOW_START :: u64 where "MMIO_LOW_START = 0xc0000000"
definition MMIO_LOW_END :: u64 where "MMIO_LOW_END = 0xffffffff"
definition GUEST_MEM_START :: u64 where "GUEST_MEM_START = 0"

text \<open>The number of physical address bits is accepted from 36 to 64; the shift by 64 overflows.\<close>

definition GUEST_PHYS_END :: "nat \<Rightarrow> u64 rust" where
  "GUEST_PHYS_END sz = (if 36 \<le> sz \<and> sz < 64 then ret (2 ^ sz - 1) else panic)"

definition GUEST_MEM_END :: "u64 \<Rightarrow> u64" where
  "GUEST_MEM_END pe = drop_bit 1 pe"

definition SHARED_IRQ :: u32 where "SHARED_IRQ = IRQ_BASE"
definition MSI_IRQ_BASE :: u32 where "MSI_IRQ_BASE = 24"
definition MSI_IRQ_MAX :: u32 where "MSI_IRQ_MAX = 1023"
definition KVM_USER_MEM_SLOTS :: u64 where "KVM_USER_MEM_SLOTS = 509"
definition PIO_MIN :: u16 where "PIO_MIN = 0"
definition PIO_MAX :: u16 where "PIO_MAX = 0xffff"
definition MMIO_SPACE_RESERVED :: u64 where "MMIO_SPACE_RESERVED = 0x4000000"

lemmas layout_defs = IRQ_BASE_def IRQ_MAX_def MMIO_LOW_START_def MMIO_LOW_END_def
  GUEST_MEM_START_def SHARED_IRQ_def MSI_IRQ_BASE_def MSI_IRQ_MAX_def KVM_USER_MEM_SLOTS_def
  PIO_MIN_def PIO_MAX_def MMIO_SPACE_RESERVED_def

datatype ResourceError = UnknownResourceType | InvalidResourceRange string | NoAvailResource

type_synonym Pool = "unit IntervalTree"

record ResourceManager =
  legacy_irq_pool :: Pool
  msi_irq_pool :: Pool
  pio_pool :: Pool
  mmio_pool :: Pool
  mem_pool :: Pool
  kvm_mem_slot_pool :: Pool

section \<open>Building\<close>

definition ResourceManager_default :: ResourceManager where
  "ResourceManager_default = \<lparr>legacy_irq_pool = IntervalTree_new, msi_irq_pool = IntervalTree_new,
     pio_pool = IntervalTree_new, mmio_pool = IntervalTree_new, mem_pool = IntervalTree_new,
     kvm_mem_slot_pool = IntervalTree_new\<rparr>"

definition init_legacy_irq_pool :: "ResourceManager \<Rightarrow> ResourceManager rust" where
  "init_legacy_irq_pool self = do {
     r \<leftarrow> Range_new (ucast (IRQ_BASE + 1)) (ucast IRQ_MAX);
     t \<leftarrow> IntervalTree_insert (legacy_irq_pool self) r None;
     ret (self\<lparr>legacy_irq_pool := t\<rparr>)
   }"

definition init_msi_irq_pool :: "ResourceManager \<Rightarrow> ResourceManager rust" where
  "init_msi_irq_pool self = do {
     r \<leftarrow> Range_new (ucast MSI_IRQ_BASE) (ucast MSI_IRQ_MAX);
     t \<leftarrow> IntervalTree_insert (msi_irq_pool self) r None;
     ret (self\<lparr>msi_irq_pool := t\<rparr>)
   }"

definition init_pio_pool :: "ResourceManager \<Rightarrow> ResourceManager rust" where
  "init_pio_pool self = do {
     r \<leftarrow> Range_new (ucast PIO_MIN) (ucast PIO_MAX);
     t \<leftarrow> IntervalTree_insert (pio_pool self) r None;
     ret (self\<lparr>pio_pool := t\<rparr>)
   }"

text \<open>\<open>pool.allocate\<close> followed by \<open>pool.update(k, ())\<close>, the pattern of most allocators.\<close>

definition allocate_valued :: "Pool \<Rightarrow> Constraint \<Rightarrow> (Range option \<times> Pool) rust" where
  "allocate_valued t c = do {
     (key, t) \<leftarrow> IntervalTree_allocate t c;
     (case key of
        Some k \<Rightarrow> do { (_, t) \<leftarrow> IntervalTree_update t k (); ret (key, t) }
      | None \<Rightarrow> ret (key, t))
   }"

definition mem_crosses_mmio :: "u64 \<Rightarrow> bool" where
  "mem_crosses_mmio pe \<longleftrightarrow> \<not> (GUEST_MEM_END pe < MMIO_LOW_START \<or> GUEST_MEM_START > MMIO_LOW_END \<or>
     MMIO_LOW_START = MMIO_LOW_END)"

definition init_mmio_pool_helper :: "u64 \<Rightarrow> Pool \<Rightarrow> Pool rust" where
  "init_mmio_pool_helper pe mmio = do {
     r \<leftarrow> Range_new MMIO_LOW_START MMIO_LOW_END;
     mmio \<leftarrow> IntervalTree_insert mmio r None;
     mmio \<leftarrow> (if mem_crosses_mmio pe then do {
         lo \<leftarrow> usub MMIO_LOW_END MMIO_SPACE_RESERVED;
         (key, mmio) \<leftarrow> allocate_valued mmio
           (Constraint_max (Constraint_min (Constraint_new MMIO_SPACE_RESERVED) lo) 0xffffffff);
         if key = None then panic else ret mmio
       } else ret mmio);
     if GUEST_MEM_END pe < pe then do {
       b \<leftarrow> uadd (GUEST_MEM_END pe) 1;
       r \<leftarrow> Range_new b pe;
       IntervalTree_insert mmio r None
     } else ret mmio
   }"

definition init_mmio_pool :: "u64 \<Rightarrow> ResourceManager \<Rightarrow> ResourceManager rust" where
  "init_mmio_pool pe self = do {
     t \<leftarrow> init_mmio_pool_helper pe (mmio_pool self);
     ret (self\<lparr>mmio_pool := t\<rparr>)
   }"

definition init_mem_pool_helper :: "u64 \<Rightarrow> Pool \<Rightarrow> Pool rust" where
  "init_mem_pool_helper pe mem =
     (if \<not> mem_crosses_mmio pe then do {
        r \<leftarrow> Range_new GUEST_MEM_START (GUEST_MEM_END pe);
        IntervalTree_insert mem r None
      } else do {
        mem \<leftarrow> (if MMIO_LOW_START > GUEST_MEM_START then do {
            e \<leftarrow> usub MMIO_LOW_START 1;
            r \<leftarrow> Range_new GUEST_MEM_START e;
            IntervalTree_insert mem r None
          } else ret mem);
        if MMIO_LOW_END < GUEST_MEM_END pe then do {
          b \<leftarrow> uadd MMIO_LOW_END 1;
          r \<leftarrow> Range_new b (GUEST_MEM_END pe);
          IntervalTree_insert mem r None
        } else ret mem
      })"

definition init_mem_pool :: "u64 \<Rightarrow> ResourceManager \<Rightarrow> ResourceManager rust" where
  "init_mem_pool pe self = do {
     t \<leftarrow> init_mem_pool_helper pe (mem_pool self);
     ret (self\<lparr>mem_pool := t\<rparr>)
   }"

definition init_kvm_mem_slot_pool :: "u64 option \<Rightarrow> ResourceManager \<Rightarrow> ResourceManager rust" where
  "init_kvm_mem_slot_pool max_kvm_mem_slot self = do {
     let max_slots = (case max_kvm_mem_slot of Some n \<Rightarrow> n | None \<Rightarrow> KVM_USER_MEM_SLOTS);
     r \<leftarrow> Range_new 0 max_slots;
     t \<leftarrow> IntervalTree_insert (kvm_mem_slot_pool self) r None;
     ret (self\<lparr>kvm_mem_slot_pool := t\<rparr>)
   }"

definition ResourceManager_new :: "u64 \<Rightarrow> u64 option \<Rightarrow> ResourceManager rust" where
  "ResourceManager_new pe max_kvm_mem_slot = do {
     b \<leftarrow> init_legacy_irq_pool ResourceManager_default;
     b \<leftarrow> init_msi_irq_pool b;
     b \<leftarrow> init_pio_pool b;
     b \<leftarrow> init_mmio_pool pe b;
     b \<leftarrow> init_mem_pool pe b;
     init_kvm_mem_slot_pool max_kvm_mem_slot b
   }"

definition is_mem_pool_empty :: "ResourceManager \<Rightarrow> bool" where
  "is_mem_pool_empty self = IntervalTree_is_empty (mem_pool self)"

section \<open>Interrupts\<close>

definition allocate_legacy_irq ::
  "ResourceManager \<Rightarrow> bool \<Rightarrow> u32 option \<Rightarrow> (u32 option \<times> ResourceManager) rust" where
  "allocate_legacy_irq self shared fixed =
     (if shared then ret (Some SHARED_IRQ, self)
      else if fixed = Some SHARED_IRQ then ret (None, self)
      else do {
        let c = Constraint_new 1;
        let c = (case fixed of Some v \<Rightarrow> c\<lparr>c_min := ucast v, c_max := ucast v\<rparr> | None \<Rightarrow> c);
        (key, t) \<leftarrow> allocate_valued (legacy_irq_pool self) c;
        ret (map_option (\<lambda>v. ucast (rmin v)) key, self\<lparr>legacy_irq_pool := t\<rparr>)
      })"

definition free_legacy_irq ::
  "ResourceManager \<Rightarrow> u32 \<Rightarrow> ((ResourceError + unit) \<times> ResourceManager) rust" where
  "free_legacy_irq self irq =
     (if irq = SHARED_IRQ then ret (Inr (), self)
      else if \<not> (IRQ_BASE \<le> irq \<and> irq \<le> IRQ_MAX) then
        ret (Inl (InvalidResourceRange ''Legacy IRQ''), self)
      else do {
        key \<leftarrow> Range_new (ucast irq) (ucast irq);
        (_, t) \<leftarrow> IntervalTree_free (legacy_irq_pool self) key;
        ret (Inr (), self\<lparr>legacy_irq_pool := t\<rparr>)
      })"

definition allocate_msi_irq ::
  "ResourceManager \<Rightarrow> u32 \<Rightarrow> (u32 option \<times> ResourceManager) rust" where
  "allocate_msi_irq self count = do {
     (key, t) \<leftarrow> allocate_valued (msi_irq_pool self) (Constraint_new (ucast count));
     ret (map_option (\<lambda>v. ucast (rmin v)) key, self\<lparr>msi_irq_pool := t\<rparr>)
   }"

definition allocate_msi_irq_aligned ::
  "ResourceManager \<Rightarrow> u32 \<Rightarrow> (u32 option \<times> ResourceManager) rust" where
  "allocate_msi_irq_aligned self count = do {
     (key, t) \<leftarrow> allocate_valued (msi_irq_pool self)
       (Constraint_align (Constraint_new (ucast count)) (ucast count));
     ret (map_option (\<lambda>v. ucast (rmin v)) key, self\<lparr>msi_irq_pool := t\<rparr>)
   }"

definition free_msi_irq ::
  "ResourceManager \<Rightarrow> u32 \<Rightarrow> u32 \<Rightarrow> ((ResourceError + unit) \<times> ResourceManager) rust" where
  "free_msi_irq self irq count =
     (if irq < MSI_IRQ_BASE \<or> count = 0 \<or> checked_add irq count = None then
        ret (Inl (InvalidResourceRange ''MSI IRQ''), self)
      else do {
        e \<leftarrow> uadd irq count;
        e \<leftarrow> usub e 1;
        if e > MSI_IRQ_MAX then ret (Inl (InvalidResourceRange ''MSI IRQ''), self)
        else do {
          key \<leftarrow> Range_new (ucast irq) (ucast e);
          (_, t) \<leftarrow> IntervalTree_free (msi_irq_pool self) key;
          ret (Inr (), self\<lparr>msi_irq_pool := t\<rparr>)
        }
      })"

section \<open>Addresses\<close>

definition allocate_pio_address ::
  "ResourceManager \<Rightarrow> Constraint \<Rightarrow> (u16 option \<times> ResourceManager) rust" where
  "allocate_pio_address self c = do {
     (key, t) \<leftarrow> allocate_valued (pio_pool self) c;
     ret (map_option (\<lambda>v. ucast (rmin v)) key, self\<lparr>pio_pool := t\<rparr>)
   }"

definition allocate_pio_address_simple ::
  "ResourceManager \<Rightarrow> u16 \<Rightarrow> (u16 option \<times> ResourceManager) rust" where
  "allocate_pio_address_simple self sz = allocate_pio_address self (Constraint_new (ucast sz))"

definition free_pio_address ::
  "ResourceManager \<Rightarrow> u16 \<Rightarrow> u16 \<Rightarrow> ((ResourceError + unit) \<times> ResourceManager) rust" where
  "free_pio_address self base sz =
     (case checked_add base sz of
        None \<Rightarrow> ret (Inl (InvalidResourceRange ''PIO Address''), self)
      | Some e \<Rightarrow> do {
          e \<leftarrow> usub e 1;
          key \<leftarrow> Range_new (ucast base) (ucast e);
          (_, t) \<leftarrow> IntervalTree_free (pio_pool self) key;
          ret (Inr (), self\<lparr>pio_pool := t\<rparr>)
        })"

definition allocate_mmio_address ::
  "ResourceManager \<Rightarrow> Constraint \<Rightarrow> (u64 option \<times> ResourceManager) rust" where
  "allocate_mmio_address self c = do {
     (key, t) \<leftarrow> IntervalTree_allocate (mmio_pool self) c;
     ret (map_option rmin key, self\<lparr>mmio_pool := t\<rparr>)
   }"

definition allocate_mmio_address_aligned ::
  "ResourceManager \<Rightarrow> u64 \<Rightarrow> u64 \<Rightarrow> (u64 option \<times> ResourceManager) rust" where
  "allocate_mmio_address_aligned self sz align =
     allocate_mmio_address self (Constraint_align (Constraint_new sz) align)"

definition free_mmio_address ::
  "ResourceManager \<Rightarrow> u64 \<Rightarrow> u64 \<Rightarrow> ((ResourceError + unit) \<times> ResourceManager) rust" where
  "free_mmio_address self base sz =
     (case checked_add base sz of
        None \<Rightarrow> ret (Inl (InvalidResourceRange ''MMIO Address''), self)
      | Some e \<Rightarrow> do {
          e \<leftarrow> usub e 1;
          key \<leftarrow> Range_new base e;
          (_, t) \<leftarrow> IntervalTree_free (mmio_pool self) key;
          ret (Inr (), self\<lparr>mmio_pool := t\<rparr>)
        })"

definition allocate_mem_address ::
  "ResourceManager \<Rightarrow> Constraint \<Rightarrow> (u64 option \<times> ResourceManager) rust" where
  "allocate_mem_address self c = do {
     (key, t) \<leftarrow> IntervalTree_allocate (mem_pool self) c;
     ret (map_option rmin key, self\<lparr>mem_pool := t\<rparr>)
   }"

definition free_mem_address ::
  "u64 \<Rightarrow> ResourceManager \<Rightarrow> u64 \<Rightarrow> u64 \<Rightarrow> ((ResourceError + unit) \<times> ResourceManager) rust" where
  "free_mem_address pe self base sz =
     (case checked_add base sz of
        None \<Rightarrow> ret (Inl (InvalidResourceRange ''MEM Address''), self)
      | Some e \<Rightarrow>
          if base < GUEST_MEM_START \<or> e > GUEST_MEM_END pe then
            ret (Inl (InvalidResourceRange ''MEM Address''), self)
          else do {
            e \<leftarrow> usub e 1;
            key \<leftarrow> Range_new base e;
            (_, t) \<leftarrow> IntervalTree_free (mem_pool self) key;
            ret (Inr (), self\<lparr>mem_pool := t\<rparr>)
          })"

definition allocate_kvm_mem_slot ::
  "ResourceManager \<Rightarrow> u32 \<Rightarrow> u32 option \<Rightarrow> (u32 option \<times> ResourceManager) rust" where
  "allocate_kvm_mem_slot self sz fixed = do {
     let c = Constraint_new (ucast sz);
     let c = (case fixed of Some v \<Rightarrow> c\<lparr>c_min := ucast v, c_max := ucast v\<rparr> | None \<Rightarrow> c);
     (key, t) \<leftarrow> allocate_valued (kvm_mem_slot_pool self) c;
     ret (map_option (\<lambda>v. ucast (rmin v)) key, self\<lparr>kvm_mem_slot_pool := t\<rparr>)
   }"

definition free_kvm_mem_slot ::
  "ResourceManager \<Rightarrow> u32 \<Rightarrow> ((ResourceError + unit) \<times> ResourceManager) rust" where
  "free_kvm_mem_slot self slot = do {
     key \<leftarrow> Range_new (ucast slot) (ucast slot);
     (_, t) \<leftarrow> IntervalTree_free (kvm_mem_slot_pool self) key;
     ret (Inr (), self\<lparr>kvm_mem_slot_pool := t\<rparr>)
   }"

section \<open>Resources of a device\<close>

text \<open>The body of the loop of \<open>free_device_resources\<close>, and the loop, which stops at the first
  error.\<close>

fun free_resource ::
  "u64 \<Rightarrow> ResourceManager \<Rightarrow> Resource \<Rightarrow> ((ResourceError + unit) \<times> ResourceManager) rust" where
  "free_resource pe self (PioAddressRange base sz) = free_pio_address self base sz"
| "free_resource pe self (MmioAddressRange base sz) = free_mmio_address self base sz"
| "free_resource pe self (MemAddressRange base sz) = free_mem_address pe self base sz"
| "free_resource pe self (LegacyIrq base) = free_legacy_irq self base"
| "free_resource pe self (MsiIrq ty base sz) = free_msi_irq self base sz"
| "free_resource pe self (KvmMemSlot slot) = free_kvm_mem_slot self slot"
| "free_resource pe self (MacAddresss addr) = ret (Inr (), self)"

fun free_device_resources ::
  "u64 \<Rightarrow> ResourceManager \<Rightarrow> DeviceResources \<Rightarrow> ((ResourceError + unit) \<times> ResourceManager) rust" where
  "free_device_resources pe self [] = ret (Inr (), self)"
| "free_device_resources pe self (res # rest) = do {
     (result, self) \<leftarrow> free_resource pe self res;
     (case result of
        Inl e \<Rightarrow> ret (Inl e, self)
      | Inr _ \<Rightarrow> free_device_resources pe self rest)
   }"

text \<open>A constraint with an optional window.\<close>

definition windowed :: "u64 \<Rightarrow> u64 \<Rightarrow> (u64 \<times> u64) option \<Rightarrow> Constraint" where
  "windowed sz align window =
     (let c = Constraint_align (Constraint_new sz) align in
      case window of Some r \<Rightarrow> c\<lparr>c_min := fst r, c_max := snd r\<rparr> | None \<Rightarrow> c)"

text \<open>The match of \<open>allocate_device_resources\<close>: \<open>None\<close> where the source takes the error branch.\<close>

fun allocate_resource ::
  "ResourceManager \<Rightarrow> bool \<Rightarrow> ResourceConstraint \<Rightarrow> (Resource option \<times> ResourceManager) rust" where
  "allocate_resource self shared_irq (PioAddress rg align sz) = do {
     (base, self) \<leftarrow> allocate_pio_address self
       (windowed (ucast sz) (ucast align) (map_option (map_prod ucast ucast) rg));
     ret (map_option (\<lambda>base. PioAddressRange base sz) base, self)
   }"
| "allocate_resource self shared_irq (MmioAddress rg align sz) = do {
     (base, self) \<leftarrow> allocate_mmio_address self (windowed sz align rg);
     ret (map_option (\<lambda>base. MmioAddressRange base sz) base, self)
   }"
| "allocate_resource self shared_irq (MemAddress rg align sz) = do {
     (base, self) \<leftarrow> allocate_mem_address self (windowed sz align rg);
     ret (map_option (\<lambda>base. MemAddressRange base sz) base, self)
   }"
| "allocate_resource self shared_irq (LegacyIrqConstraint irq) = do {
     (v, self) \<leftarrow> allocate_legacy_irq self shared_irq irq;
     ret (map_option LegacyIrq v, self)
   }"
| "allocate_resource self shared_irq (PciMsiIrq sz) = do {
     (base, self) \<leftarrow> allocate_msi_irq_aligned self sz;
     ret (map_option (\<lambda>base. MsiIrq PciMsi base sz) base, self)
   }"
| "allocate_resource self shared_irq (PciMsixIrq sz) = do {
     (base, self) \<leftarrow> allocate_msi_irq self sz;
     ret (map_option (\<lambda>base. MsiIrq PciMsix base sz) base, self)
   }"
| "allocate_resource self shared_irq (GenericIrq sz) = do {
     (base, self) \<leftarrow> allocate_msi_irq self sz;
     ret (map_option (\<lambda>base. MsiIrq GenericMsi base sz) base, self)
   }"
| "allocate_resource self shared_irq (KvmMemSlotConstraint slot sz) = do {
     (v, self) \<leftarrow> allocate_kvm_mem_slot self sz slot;
     ret (map_option KvmMemSlot v, self)
   }"

fun allocate_loop ::
  "u64 \<Rightarrow> ResourceManager \<Rightarrow> DeviceResources \<Rightarrow> ResourceConstraint list \<Rightarrow> bool \<Rightarrow>
     ((ResourceError + DeviceResources) \<times> ResourceManager) rust" where
  "allocate_loop pe self resources [] shared_irq = ret (Inr resources, self)"
| "allocate_loop pe self resources (request # requests) shared_irq = do {
     (res, self) \<leftarrow> allocate_resource self shared_irq request;
     (case res of
        Some res \<Rightarrow>
          allocate_loop pe self (DeviceResources_append resources res) requests shared_irq
      | None \<Rightarrow> do {
          (result, self) \<leftarrow> free_device_resources pe self resources;
          (case result of
             Inl e \<Rightarrow> ret (Inl e, self)
           | Inr _ \<Rightarrow> ret (Inl NoAvailResource, self))
        })
   }"

definition allocate_device_resources ::
  "u64 \<Rightarrow> ResourceManager \<Rightarrow> ResourceConstraint list \<Rightarrow> bool \<Rightarrow>
     ((ResourceError + DeviceResources) \<times> ResourceManager) rust" where
  "allocate_device_resources pe self requests shared_irq =
     allocate_loop pe self DeviceResources_new requests shared_irq"

end
