(* ===== verification/ResourceManager_Lemmas.thy ===== *)
theory ResourceManager_Lemmas
  imports ResourceManager
begin

text \<open>
  The resource manager as a client of the pool contract: every pool keeps its invariant, a device
  gets what it asked for or the manager is as it was, and freeing a device's resources gives them
  back.
\<close>

section \<open>Vocabulary\<close>

datatype pool_id = LegacyIrqPool | MsiIrqPool | PioPool | MmioPool | MemPool | KvmSlotPool

fun pool :: "ResourceManager \<Rightarrow> pool_id \<Rightarrow> Pool" where
  "pool self LegacyIrqPool = legacy_irq_pool self"
| "pool self MsiIrqPool = msi_irq_pool self"
| "pool self PioPool = pio_pool self"
| "pool self MmioPool = mmio_pool self"
| "pool self MemPool = mem_pool self"
| "pool self KvmSlotPool = kvm_mem_slot_pool self"

fun set_pool :: "ResourceManager \<Rightarrow> pool_id \<Rightarrow> Pool \<Rightarrow> ResourceManager" where
  "set_pool self LegacyIrqPool t = self\<lparr>legacy_irq_pool := t\<rparr>"
| "set_pool self MsiIrqPool t = self\<lparr>msi_irq_pool := t\<rparr>"
| "set_pool self PioPool t = self\<lparr>pio_pool := t\<rparr>"
| "set_pool self MmioPool t = self\<lparr>mmio_pool := t\<rparr>"
| "set_pool self MemPool t = self\<lparr>mem_pool := t\<rparr>"
| "set_pool self KvmSlotPool t = self\<lparr>kvm_mem_slot_pool := t\<rparr>"

text \<open>The numbers a pool may hold, so that the casts to \<open>u16\<close> and \<open>u32\<close> lose nothing.\<close>

fun window_max :: "pool_id \<Rightarrow> u64" where
  "window_max LegacyIrqPool = ucast IRQ_MAX"
| "window_max MsiIrqPool = ucast MSI_IRQ_MAX"
| "window_max PioPool = ucast PIO_MAX"
| "window_max MmioPool = u64_MAX"
| "window_max MemPool = u64_MAX"
| "window_max KvmSlotPool = 0xffffffff"

fun window_min :: "pool_id \<Rightarrow> u64" where
  "window_min LegacyIrqPool = ucast IRQ_BASE + 1"
| "window_min MsiIrqPool = ucast MSI_IRQ_BASE"
| "window_min _ = 0"

definition pool_inv_at :: "pool_id \<Rightarrow> Pool \<Rightarrow> bool" where
  "pool_inv_at i t \<longleftrightarrow> pool_ok t \<and> merged t \<and>
     (\<forall>k \<in> set (keys t). window_min i \<le> rmin k \<and> rmax k \<le> window_max i)"

definition rm_ok :: "ResourceManager \<Rightarrow> bool" where
  "rm_ok self \<longleftrightarrow> (\<forall>i. pool_inv_at i (pool self i))"

text \<open>Two managers that no client can tell apart.\<close>

definition same_view :: "ResourceManager \<Rightarrow> ResourceManager \<Rightarrow> bool" where
  "same_view self other \<longleftrightarrow> (\<forall>i. state_at (pool self i) = state_at (pool other i) \<and>
     held (pool self i) = held (pool other i))"

text \<open>The pool and the range a resource stands for. The shared interrupt and the MAC address
  belong to no pool.\<close>

fun res_key :: "Resource \<Rightarrow> (pool_id \<times> Range) option" where
  "res_key (PioAddressRange base sz) =
     Some (PioPool, \<lparr>rmin = ucast base, rmax = ucast base + ucast sz - 1\<rparr>)"
| "res_key (MmioAddressRange base sz) = Some (MmioPool, \<lparr>rmin = base, rmax = base + sz - 1\<rparr>)"
| "res_key (MemAddressRange base sz) = Some (MemPool, \<lparr>rmin = base, rmax = base + sz - 1\<rparr>)"
| "res_key (LegacyIrq irq) =
     (if irq = SHARED_IRQ then None
      else Some (LegacyIrqPool, \<lparr>rmin = ucast irq, rmax = ucast irq\<rparr>))"
| "res_key (MsiIrq ty base sz) =
     Some (MsiIrqPool, \<lparr>rmin = ucast base, rmax = ucast base + ucast sz - 1\<rparr>)"
| "res_key (KvmMemSlot slot) = Some (KvmSlotPool, \<lparr>rmin = ucast slot, rmax = ucast slot\<rparr>)"
| "res_key (MacAddresss addr) = None"

text \<open>A request for memory slots asks for one slot; the manager can only return one.\<close>

fun single_slot :: "ResourceConstraint \<Rightarrow> bool" where
  "single_slot (KvmMemSlotConstraint slot sz) \<longleftrightarrow> sz \<le> 1"
| "single_slot _ \<longleftrightarrow> True"

definition granted :: "'a node \<Rightarrow> Range \<Rightarrow> 'a node \<Rightarrow> bool" where
  "granted t r t' \<longleftrightarrow> held t r = None \<and> free_range t r \<and> (\<exists>s. s \<noteq> Free \<and>
     state_at t' = (\<lambda>a. if a \<in> addrs r then Some s else state_at t a) \<and> held t' = (held t)(r \<mapsto> s))"

definition released :: "'a node \<Rightarrow> Range \<Rightarrow> 'a node \<Rightarrow> bool" where
  "released t r t' \<longleftrightarrow> state_at t' = (\<lambda>a. if a \<in> addrs r then Some Free else state_at t a) \<and>
     held t' = (held t)(r := None)"

text \<open>A manager after a resource was taken from it, or given back to it.\<close>

definition taken :: "ResourceManager \<Rightarrow> Resource \<Rightarrow> ResourceManager \<Rightarrow> bool" where
  "taken self res self' \<longleftrightarrow> (case res_key res of
     None \<Rightarrow> self' = self
   | Some (i, r) \<Rightarrow> \<exists>t. self' = set_pool self i t \<and> granted (pool self i) r t)"

definition given_back :: "ResourceManager \<Rightarrow> Resource \<Rightarrow> ResourceManager \<Rightarrow> bool" where
  "given_back self res self' \<longleftrightarrow> (case res_key res of
     None \<Rightarrow> self' = self
   | Some (i, r) \<Rightarrow> \<exists>t. self' = set_pool self i t \<and> released (pool self i) r t)"

text \<open>An address range of a size and alignment inside an optional window.\<close>

definition range_meets :: "(u64 \<times> u64) option \<Rightarrow> u64 \<Rightarrow> u64 \<Rightarrow> u64 \<Rightarrow> u64 \<Rightarrow> bool" where
  "range_meets rg align sz base n \<longleftrightarrow> n = sz \<and> sz \<noteq> 0 \<and> aligned base align \<and>
     (\<forall>lo hi. rg = Some (lo, hi) \<longrightarrow> lo \<le> base \<and> unat base + unat sz \<le> unat hi + 1)"

text \<open>The resource is one the request asks for.\<close>

fun meets :: "bool \<Rightarrow> ResourceConstraint \<Rightarrow> Resource \<Rightarrow> bool" where
  "meets shared (PioAddress rg align sz) (PioAddressRange base n) \<longleftrightarrow>
     range_meets (map_option (map_prod ucast ucast) rg) (ucast align) (ucast sz) (ucast base) (ucast n)"
| "meets shared (MmioAddress rg align sz) (MmioAddressRange base n) \<longleftrightarrow> range_meets rg align sz base n"
| "meets shared (MemAddress rg align sz) (MemAddressRange base n) \<longleftrightarrow> range_meets rg align sz base n"
| "meets shared (LegacyIrqConstraint irq) (LegacyIrq v) \<longleftrightarrow>
     (if shared then v = SHARED_IRQ else IRQ_BASE < v \<and> v \<le> IRQ_MAX \<and> (irq = None \<or> irq = Some v))"
| "meets shared (PciMsiIrq sz) (MsiIrq ty base n) \<longleftrightarrow>
     ty = PciMsi \<and> range_meets None (ucast sz) (ucast sz) (ucast base) (ucast n)"
| "meets shared (PciMsixIrq sz) (MsiIrq ty base n) \<longleftrightarrow> ty = PciMsix \<and> n = sz"
| "meets shared (GenericIrq sz) (MsiIrq ty base n) \<longleftrightarrow> ty = GenericMsi \<and> n = sz"
| "meets shared (KvmMemSlotConstraint slot sz) (KvmMemSlot v) \<longleftrightarrow> slot = None \<or> slot = Some v"
| "meets shared _ _ \<longleftrightarrow> False"

definition outcome :: "ResourceManager \<Rightarrow> Resource option \<Rightarrow> ResourceManager \<Rightarrow> bool" where
  "outcome self res self' \<longleftrightarrow> rm_ok self' \<and>
     (case res of None \<Rightarrow> self' = self | Some x \<Rightarrow> taken self x self')"

definition freed_or_refused ::
  "ResourceManager \<Rightarrow> Resource \<Rightarrow> ((ResourceError + unit) \<times> ResourceManager) rust \<Rightarrow> bool" where
  "freed_or_refused self res out \<longleftrightarrow> (\<exists>result self'. out = Some (result, self') \<and> rm_ok self' \<and>
     (case result of
        Inl e \<Rightarrow> e \<noteq> NoAvailResource \<and> self' = self
      | Inr _ \<Rightarrow> given_back self res self'))"

text \<open>\<open>holds self0 ks self\<close>: the keys \<open>ks\<close> have been taken out of \<open>self0\<close> to reach \<open>self\<close>.\<close>

definition holds :: "ResourceManager \<Rightarrow> (pool_id \<times> Range) list \<Rightarrow> ResourceManager \<Rightarrow> bool" where
  "holds self0 ks self \<longleftrightarrow> distinct ks \<and>
     (\<forall>i r. (i, r) \<in> set ks \<longrightarrow> held (pool self i) r \<noteq> None \<and> held (pool self0 i) r = None) \<and>
     (\<forall>i r. (i, r) \<notin> set ks \<longrightarrow> held (pool self i) r = held (pool self0 i) r) \<and>
     (\<forall>i a. state_at (pool self0 i) a =
        (if \<exists>r. (i, r) \<in> set ks \<and> a \<in> addrs r then Some Free else state_at (pool self i) a))"

section \<open>Valued pools\<close>

interpretation valued_pool:
  range_pool "\<lambda>t. pool_ok t \<and> merged t" "Valued ()" state_at held allocate_valued IntervalTree_free
proof
  fix t t' :: Pool and c r r' s s'
  assume inv: "pool_ok t \<and> merged t"
  have up: "allocate_valued t c = Some (None, t) \<and> IntervalTree_allocate t c = Some (None, t) \<or>
      (\<exists>r t1 t2. IntervalTree_allocate t c = Some (Some r, t1) \<and>
        allocate_valued t c = Some (Some r, t2) \<and> pool_ok t2 \<and> merged t2 \<and>
        state_at t2 = (\<lambda>a. if a \<in> addrs r then Some (Valued ()) else state_at t1 a) \<and>
        held t2 = (held t1)(r \<mapsto> Valued ()))"
  proof -
    obtain res t1 where a: "IntervalTree_allocate t c = Some (res, t1)" "pool_ok t1 \<and> merged t1"
      using tree_pool.alloc_total [OF inv] by blast
    show ?thesis
    proof (cases res)
      case None
      with a tree_pool.alloc_None [OF inv, of c t1] show ?thesis by (auto simp: allocate_valued_def)
    next
      case (Some r)
      then have "held t1 r = Some Allocated" using tree_pool.alloc_Some [OF inv, of c r t1] a by simp
      with update_pool [OF _ _ this, of "()"] a Some show ?thesis by (auto simp: allocate_valued_def)
    qed
  qed
  show "\<exists>res t'. allocate_valued t c = Some (res, t') \<and> pool_ok t' \<and> merged t'"
    using up inv by blast
  show "t' = t \<and> \<not> (\<exists>r. satisfies c r \<and> (\<forall>a \<in> addrs r. state_at t a = Some Free))"
    if "allocate_valued t c = Some (None, t')"
    using up that tree_pool.alloc_None [OF inv, of c t] by auto
  show "satisfies c r \<and> (\<forall>a \<in> addrs r. state_at t a = Some Free) \<and>
      state_at t' = (\<lambda>a. if a \<in> addrs r then Some (Valued ()) else state_at t a) \<and>
      held t' = (held t)(r \<mapsto> Valued ())"
    if "allocate_valued t c = Some (Some r, t')"
    using up that tree_pool.alloc_Some [OF inv, of c r] by (auto simp: fun_eq_iff)
qed (erule (1) tree_pool.release_given tree_pool.given_state | erule (3) tree_pool.given_disjoint | simp)+

section \<open>Grants and releases\<close>

lemma pool_inv_atD: "pool_inv_at i t \<Longrightarrow> pool_ok t \<and> merged t"
  by (simp add: pool_inv_at_def)

text \<open>The window bounds the addresses that have a state, which no operation changes.\<close>

lemma window_iff:
  assumes "tree_ok t"
  shows "(\<forall>k \<in> set (keys t). window_min i \<le> rmin k \<and> rmax k \<le> window_max i) \<longleftrightarrow>
    (\<forall>a \<in> dom (state_at t). window_min i \<le> a \<and> a \<le> window_max i)"
proof
  assume l: "\<forall>k \<in> set (keys t). window_min i \<le> rmin k \<and> rmax k \<le> window_max i"
  show "\<forall>a \<in> dom (state_at t). window_min i \<le> a \<and> a \<le> window_max i"
  proof
    fix a assume "a \<in> dom (state_at t)"
    then obtain k s where "(k, s) \<in> entries t" "a \<in> addrs k" using state_at_iff [OF assms] by blast
    with l show "window_min i \<le> a \<and> a \<le> window_max i" by (fastforce simp: addrs_def)
  qed
next
  assume r: "\<forall>a \<in> dom (state_at t). window_min i \<le> a \<and> a \<le> window_max i"
  show "\<forall>k \<in> set (keys t). window_min i \<le> rmin k \<and> rmax k \<le> window_max i"
  proof
    fix k assume "k \<in> set (keys t)"
    then obtain s where k: "(k, s) \<in> entries t" by auto
    have "rmin k \<in> dom (state_at t)" "rmax k \<in> dom (state_at t)"
      using entry_state [OF assms k] addrs_nonempty [OF entry_valid [OF assms k]] by auto
    with r show "window_min i \<le> rmin k \<and> rmax k \<le> window_max i" by blast
  qed
qed

lemma pool_inv_at_dom:
  assumes "pool_inv_at i t" "pool_ok t' \<and> merged t'" "dom (state_at t') = dom (state_at t)"
  shows "pool_inv_at i t'"
  using assms window_iff [of t i] window_iff [of t' i] by (auto simp: pool_inv_at_def pool_ok_def)

lemma granted_dom: "granted t r t' \<Longrightarrow> dom (state_at t') = dom (state_at t)"
  by (auto simp: granted_def free_range_def split: if_splits)

lemma allocate_valued_cases:
  assumes "pool_inv_at i t"
  obtains (none) "allocate_valued t c = Some (None, t)"
  | (some) r t' where "allocate_valued t c = Some (Some r, t')" "pool_inv_at i t'" "granted t r t'"
      "satisfies c r" "window_min i \<le> rmin r" "rmax r \<le> window_max i"
proof -
  note inv = pool_inv_atD [OF assms]
  obtain res t' where a: "allocate_valued t c = Some (res, t')" "pool_ok t' \<and> merged t'"
    using valued_pool.alloc_total [OF inv] by blast
  show ?thesis
  proof (cases res)
    case None
    with a valued_pool.alloc_None [OF inv, of c t'] show ?thesis by (intro none) simp
  next
    case (Some r)
    note s = valued_pool.alloc_Some [OF inv a(1) [unfolded Some]]
    have g: "granted t r t'"
      using s valued_pool.alloc_new(1) [OF inv a(1) [unfolded Some]]
      by (auto simp: granted_def free_range_def)
    have "rmin r \<in> addrs r" "rmax r \<in> addrs r"
      using s addrs_nonempty by (auto simp: satisfies_def)
    then have "rmin r \<in> dom (state_at t)" "rmax r \<in> dom (state_at t)" using s by auto
    then have "window_min i \<le> rmin r" "rmax r \<le> window_max i"
      using assms window_iff [of t i] by (auto simp: pool_inv_at_def pool_ok_def)
    with s g a Some pool_inv_at_dom [OF assms a(2) granted_dom [OF g]] show ?thesis by (intro some) auto
  qed
qed

lemma allocate_plain_cases:
  assumes "pool_inv_at i t"
  obtains (none) "IntervalTree_allocate t c = Some (None, t)"
  | (some) r t' where "IntervalTree_allocate t c = Some (Some r, t')" "pool_inv_at i t'"
      "granted t r t'" "satisfies c r"
proof -
  note inv = pool_inv_atD [OF assms]
  obtain res t' where a: "IntervalTree_allocate t c = Some (res, t')" "pool_ok t' \<and> merged t'"
    using tree_pool.alloc_total [OF inv] by blast
  show ?thesis
  proof (cases res)
    case None
    with a tree_pool.alloc_None [OF inv, of c t'] show ?thesis by (intro none) simp
  next
    case (Some r)
    note s = tree_pool.alloc_Some [OF inv a(1) [unfolded Some]]
    have g: "granted t r t'"
      using s tree_pool.alloc_new(1) [OF inv a(1) [unfolded Some]]
      by (auto simp: granted_def free_range_def)
    with s a Some pool_inv_at_dom [OF assms a(2) granted_dom [OF g]] show ?thesis by (intro some) auto
  qed
qed

lemma free_held:
  assumes "pool_inv_at i t" "held t r = Some s"
  obtains v t' where "IntervalTree_free t r = Some (v, t')" "pool_inv_at i t'" "released t r t'"
proof -
  note inv = pool_inv_atD [OF assms(1)]
  obtain t' where t': "IntervalTree_free t r = Some (NodeState_into s, t')" "pool_ok t' \<and> merged t'"
      "state_at t' = (\<lambda>a. if a \<in> addrs r then Some Free else state_at t a)"
      "held t' = (held t)(r := None)"
    using tree_pool.release_given [OF inv assms(2)] by blast
  have "dom (state_at t') = dom (state_at t)"
    using t'(3) tree_pool.given_state [OF inv assms(2)] by (auto split: if_splits)
  with t' assms(1) show ?thesis
    by (intro that [OF t'(1) pool_inv_at_dom]) (auto simp: released_def)
qed

section \<open>Bookkeeping of held keys\<close>

lemma holds_nil: "holds self [] self" "holds self0 [] self \<Longrightarrow> same_view self self0"
  by (auto simp: holds_def same_view_def fun_eq_iff)

lemma holdsD:
  assumes "holds self0 ks self"
  shows "distinct ks" "(i, r) \<in> set ks \<Longrightarrow> held (pool self i) r \<noteq> None"
    "(i, r) \<in> set ks \<Longrightarrow> held (pool self0 i) r = None"
    "(i, r) \<notin> set ks \<Longrightarrow> held (pool self i) r = held (pool self0 i) r"
    "state_at (pool self0 i) a =
      (if \<exists>r. (i, r) \<in> set ks \<and> a \<in> addrs r then Some Free else state_at (pool self i) a)"
  using assms unfolding holds_def by blast+

lemma holds_perm: "holds self0 ks self \<Longrightarrow> distinct ks' \<Longrightarrow> set ks' = set ks \<Longrightarrow> holds self0 ks' self"
  unfolding holds_def by simp

lemma holds_same_view:
  assumes "holds self0 ks self" "same_view self' self"
  shows "holds self0 ks self'"
proof -
  have "state_at (pool self' i) = state_at (pool self i)" "held (pool self' i) = held (pool self i)" for i
    using assms(2) by (simp_all add: same_view_def)
  then have "holds self0 ks self' = holds self0 ks self" by (simp only: holds_def)
  then show ?thesis using assms(1) by simp
qed

lemma holds_trans:
  assumes "holds self0 ks self" "holds self ks' self'"
  shows "holds self0 (ks @ ks') self'"
proof -
  note h = holdsD [OF assms(1)] and h' = holdsD [OF assms(2)]
  have new: "(i, r) \<notin> set ks" if "(i, r) \<in> set ks'" for i r using h(2) h'(3) that by blast
  show ?thesis unfolding holds_def
  proof (intro conjI allI impI)
    fix i r assume m: "(i, r) \<in> set (ks @ ks')"
    show "held (pool self' i) r \<noteq> None"
      using m h(2) [of i r] h'(2,4) [of i r] by (cases "(i, r) \<in> set ks'") auto
    show "held (pool self0 i) r = None"
      using m h(3,4) [of i r] h'(3) [of i r] by (cases "(i, r) \<in> set ks") auto
  next
    fix i r assume "(i, r) \<notin> set (ks @ ks')"
    then show "held (pool self' i) r = held (pool self0 i) r" using h(4) h'(4) by simp
  next
    fix i a
    show "state_at (pool self0 i) a =
      (if \<exists>r. (i, r) \<in> set (ks @ ks') \<and> a \<in> addrs r then Some Free else state_at (pool self' i) a)"
      using h(5) [of i a] h'(5) [of i a] by auto
  qed (use h(1) h'(1) new in auto)
qed

lemma holds_grant:
  assumes "holds self0 ks self" "granted (pool self i) r (pool self' i)"
    "\<And>j. j \<noteq> i \<Longrightarrow> pool self' j = pool self j"
  shows "holds self0 (ks @ [(i, r)]) self'"
proof -
  from assms(2) obtain s where s: "held (pool self i) r = None" "free_range (pool self i) r" "s \<noteq> Free"
    "state_at (pool self' i) = (\<lambda>a. if a \<in> addrs r then Some s else state_at (pool self i) a)"
    "held (pool self' i) = (held (pool self i))(r \<mapsto> s)" by (auto simp: granted_def)
  note h = holdsD [OF assms(1)]
  have new: "(i, r) \<notin> set ks" using h(2) s(1) by blast
  show ?thesis unfolding holds_def
  proof (intro conjI allI impI)
    fix j q assume q: "(j, q) \<in> set (ks @ [(i, r)])"
    show "held (pool self' j) q \<noteq> None"
      using q h(2) [of j q] s(5) assms(3) [of j] by (cases "j = i") auto
    show "held (pool self0 j) q = None"
      using q h(3) [of j q] h(4) [OF new] s(1) by (cases "(j, q) = (i, r)") auto
  next
    fix j q assume "(j, q) \<notin> set (ks @ [(i, r)])"
    then show "held (pool self' j) q = held (pool self0 j) q"
      using h(4) [of j q] s(5) assms(3) [of j] by (cases "j = i") auto
  next
    fix j a
    show "state_at (pool self0 j) a =
      (if \<exists>q. (j, q) \<in> set (ks @ [(i, r)]) \<and> a \<in> addrs q then Some Free else state_at (pool self' j) a)"
      using h(5) [of j a] s(2,4) assms(3) [of j] by (cases "j = i") (auto simp: free_range_def)
  qed (use h(1) new in auto)
qed

lemma holds_release:
  assumes "holds self0 ((i, r) # ks) self" "released (pool self i) r (pool self' i)"
    "\<And>j. j \<noteq> i \<Longrightarrow> pool self' j = pool self j"
  shows "holds self0 ks self'"
proof -
  note h = holdsD [OF assms(1)] and rel = assms(2) [unfolded released_def]
  have nk: "(i, r) \<notin> set ks" using h(1) by simp
  show ?thesis unfolding holds_def
  proof (intro conjI allI impI)
    fix j q assume q: "(j, q) \<in> set ks"
    show "held (pool self' j) q \<noteq> None"
      using q h(2) [of j q] nk rel assms(3) [of j] by (cases "j = i") auto
    show "held (pool self0 j) q = None" using q h(3) [of j q] by auto
  next
    fix j q assume "(j, q) \<notin> set ks"
    then show "held (pool self' j) q = held (pool self0 j) q"
      using h(3,4) [of j q] rel assms(3) [of j] by (cases "j = i") auto
  next
    fix j a
    show "state_at (pool self0 j) a =
      (if \<exists>q. (j, q) \<in> set ks \<and> a \<in> addrs q then Some Free else state_at (pool self' j) a)"
      using h(5) [of j a] rel assms(3) [of j] by (cases "j = i") auto
  qed (use h(1) in auto)
qed

section \<open>Words\<close>

lemma satisfies_range:
  assumes "satisfies c r"
  shows "r = \<lparr>rmin = rmin r, rmax = rmin r + c_size c - 1\<rparr>"
proof -
  have "unat (rmax r) + 1 = unat (rmin r) + unat (c_size c)" using assms by (simp add: satisfies_def)
  then have "of_nat (unat (rmax r) + 1) = (of_nat (unat (rmin r) + unat (c_size c)) :: u64)" by simp
  then have "rmax r + 1 = rmin r + c_size c" by (simp add: add.commute)
  then have "rmax r = rmin r + c_size c - 1" by (simp only: eq_diff_eq)
  then show ?thesis by (cases r) simp
qed

lemma range_end:
  fixes b n :: "'a::len word"
  assumes "LENGTH('a) \<le> 64" "checked_add b n = Some e" "n \<noteq> 0"
  shows "usub e 1 = Some (e - 1)" "ucast (e - 1) = ucast b + ucast n - (1 :: u64)"
proof -
  have u: "unat e = unat b + unat n" using checked_add_Some_unat [OF assms(2)] .
  have "0 < unat n" using assms(3) by (simp add: unat_gt_0)
  with u have pos: "0 < e" by (simp add: word_pos_unat)
  then show "usub e 1 = Some (e - 1)" by simp
  have "unat (e - 1) + 1 = unat b + unat n"
    using pos u \<open>0 < unat n\<close> by (simp add: unat_pred)
  then have "of_nat (unat (e - 1) + 1) = (of_nat (unat b + unat n) :: u64)" by simp
  then have "ucast (e - 1) + 1 = (ucast b + ucast n :: u64)" by (simp add: add.commute)
  then show "ucast (e - 1) = ucast b + ucast n - (1 :: u64)" by (simp only: eq_diff_eq)
qed

section \<open>Taking and giving back one resource\<close>

lemma pool_set_pool [simp]: "pool (set_pool self i t) j = (if j = i then t else pool self j)"
  by (cases i; cases j) auto

lemma set_pool_self [simp]: "set_pool self i (pool self i) = self"
  by (cases i) auto

lemma rm_ok_pool: "rm_ok self \<Longrightarrow> pool_inv_at i (pool self i)"
  by (simp add: rm_ok_def)

lemma rm_ok_set_pool: "rm_ok self \<Longrightarrow> pool_inv_at i t \<Longrightarrow> rm_ok (set_pool self i t)"
  by (simp add: rm_ok_def)


lemma taken_simps:
  "res_key res = Some (i, r) \<Longrightarrow> granted (pool self i) r t \<Longrightarrow> taken self res (set_pool self i t)"
  "res_key res = None \<Longrightarrow> taken self res self"
  by (auto simp: taken_def)

lemma valued_allocator:
  assumes "rm_ok self"
    "\<And>r. satisfies c r \<Longrightarrow> window_min i \<le> rmin r \<Longrightarrow> unat (rmin r) \<le> unat (window_max i) \<Longrightarrow>
      res_key (f (rmin r)) = Some (i, r)"
  shows "\<exists>key t. allocate_valued (pool self i) c = Some (key, t) \<and>
    outcome self (map_option (\<lambda>r. f (rmin r)) key) (set_pool self i t)"
proof (cases rule: allocate_valued_cases [OF rm_ok_pool [OF assms(1), of i], of c])
  case 1
  then show ?thesis using assms(1) by (auto simp: outcome_def)
next
  case (2 r t)
  have "rmin r \<le> rmax r" using 2(4) by (simp add: satisfies_def valid_range_def)
  then have "unat (rmin r) \<le> unat (window_max i)" using 2(6) by (simp add: word_le_nat_alt)
  then have "res_key (f (rmin r)) = Some (i, r)" using assms(2) 2(4,5) by blast
  then have "outcome self (Some (f (rmin r))) (set_pool self i t)"
    using 2(2,3) assms(1) by (simp add: outcome_def rm_ok_set_pool taken_simps(1))
  with 2(1) show ?thesis by force
qed

lemma plain_allocator:
  assumes "rm_ok self" "\<And>r. satisfies c r \<Longrightarrow> res_key (f (rmin r)) = Some (i, r)"
  shows "\<exists>key t. IntervalTree_allocate (pool self i) c = Some (key, t) \<and>
    outcome self (map_option (\<lambda>r. f (rmin r)) key) (set_pool self i t)"
proof (cases rule: allocate_plain_cases [OF rm_ok_pool [OF assms(1), of i], of c])
  case 1
  then show ?thesis using assms(1) by (auto simp: outcome_def)
next
  case (2 r t)
  then have "res_key (f (rmin r)) = Some (i, r)" using assms(2) by blast
  then have "outcome self (Some (f (rmin r))) (set_pool self i t)"
    using 2(2,3) assms(1) by (simp add: outcome_def rm_ok_set_pool taken_simps(1))
  with 2(1) show ?thesis by force
qed

lemma size_defs [simp]:
  "c_size (Constraint_new n) = n" "c_size (Constraint_align c a) = c_size c" "c_size (windowed n a w) = n"
  "c_align (Constraint_align c a) = a"
  by (auto simp: Constraint_defs windowed_def Let_def split: option.splits)

lemma key_cast:
  assumes "satisfies c r" "unat (rmin r) < 2 ^ LENGTH('a::len)"
  shows "\<lparr>rmin = ucast (ucast (rmin r) :: 'a word), rmax = ucast (ucast (rmin r) :: 'a word) + c_size c - 1\<rparr> = r"
  using satisfies_range [OF assms(1)] ucast_down_up [OF assms(2)] by simp

lemma key_cast_single:
  assumes "satisfies c r" "unat (rmin r) < 2 ^ LENGTH('a::len)" "c_size c = 1"
  shows "\<lparr>rmin = ucast (ucast (rmin r) :: 'a word), rmax = ucast (ucast (rmin r) :: 'a word)\<rparr> = r"
  using key_cast [OF assms(1,2)] assms(3) by simp

lemma allocate_pio_address_ok:
  assumes "rm_ok self" "c_size c = ucast sz"
  shows "\<exists>v self'. allocate_pio_address self c = Some (v, self') \<and>
    outcome self (map_option (\<lambda>base. PioAddressRange base sz) v) self'"
proof -
  obtain key t where "allocate_valued (pool self PioPool) c = Some (key, t)"
      "outcome self (map_option (\<lambda>r. PioAddressRange (ucast (rmin r)) sz) key) (set_pool self PioPool t)"
    using valued_allocator [OF assms(1), of c PioPool "\<lambda>b. PioAddressRange (ucast b) sz"]
      key_cast [of c _, where 'a = 16] assms(2) by (force simp: PIO_MAX_def)
  then show ?thesis by (simp add: allocate_pio_address_def option.map_comp comp_def)
qed

lemma allocate_mmio_address_ok:
  assumes "rm_ok self"
  shows "\<exists>v self'. allocate_mmio_address self c = Some (v, self') \<and>
    outcome self (map_option (\<lambda>base. MmioAddressRange base (c_size c)) v) self'"
proof -
  obtain key t where "IntervalTree_allocate (pool self MmioPool) c = Some (key, t)"
      "outcome self (map_option (\<lambda>r. MmioAddressRange (rmin r) (c_size c)) key) (set_pool self MmioPool t)"
    using plain_allocator [OF assms, of c "\<lambda>b. MmioAddressRange b (c_size c)" MmioPool]
      satisfies_range [of c] by force
  then show ?thesis by (simp add: allocate_mmio_address_def option.map_comp comp_def)
qed

lemma allocate_mem_address_ok:
  assumes "rm_ok self"
  shows "\<exists>v self'. allocate_mem_address self c = Some (v, self') \<and>
    outcome self (map_option (\<lambda>base. MemAddressRange base (c_size c)) v) self'"
proof -
  obtain key t where "IntervalTree_allocate (pool self MemPool) c = Some (key, t)"
      "outcome self (map_option (\<lambda>r. MemAddressRange (rmin r) (c_size c)) key) (set_pool self MemPool t)"
    using plain_allocator [OF assms, of c "\<lambda>b. MemAddressRange b (c_size c)" MemPool]
      satisfies_range [of c] by force
  then show ?thesis by (simp add: allocate_mem_address_def option.map_comp comp_def)
qed

lemma msi_allocator:
  assumes "rm_ok self" "c_size c = ucast sz"
  shows "\<exists>key t. allocate_valued (pool self MsiIrqPool) c = Some (key, t) \<and>
    outcome self (map_option (\<lambda>r. MsiIrq ty (ucast (rmin r)) sz) key) (self\<lparr>msi_irq_pool := t\<rparr>)"
  using valued_allocator [OF assms(1), of c MsiIrqPool "\<lambda>b. MsiIrq ty (ucast b) sz"]
    key_cast [of c _, where 'a = 32] assms(2) by (force simp: MSI_IRQ_MAX_def)

lemma allocate_msi_irq_ok:
  assumes "rm_ok self"
  shows "\<exists>v self'. allocate_msi_irq self sz = Some (v, self') \<and>
    outcome self (map_option (\<lambda>base. MsiIrq ty base sz) v) self'"
  using msi_allocator [OF assms, of "Constraint_new (ucast sz)" sz ty]
  by (auto simp: allocate_msi_irq_def option.map_comp comp_def)

lemma allocate_msi_irq_aligned_ok:
  assumes "rm_ok self"
  shows "\<exists>v self'. allocate_msi_irq_aligned self sz = Some (v, self') \<and>
    outcome self (map_option (\<lambda>base. MsiIrq ty base sz) v) self'"
  using msi_allocator [OF assms, of "Constraint_align (Constraint_new (ucast sz)) (ucast sz)" sz ty]
  by (auto simp: allocate_msi_irq_aligned_def option.map_comp comp_def)

lemma legacy_key:
  assumes "satisfies c r" "c_size c = 1" "6 \<le> rmin r" "unat (rmin r) \<le> 15"
  shows "res_key (LegacyIrq (ucast (rmin r))) = Some (LegacyIrqPool, r)"
proof -
  have u: "unat (rmin r) < 2 ^ LENGTH(32)" using assms(4) by simp
  have "(ucast (rmin r) :: u32) \<noteq> 5"
  proof
    assume "(ucast (rmin r) :: u32) = 5"
    then have "rmin r = ucast (5 :: u32)" using ucast_down_up [OF u] by simp
    with assms(3) show False by simp
  qed
  then show ?thesis using key_cast_single [OF assms(1) u assms(2)] by (simp add: layout_defs)
qed

lemma allocate_legacy_irq_ok:
  assumes "rm_ok self"
  shows "\<exists>v self'. allocate_legacy_irq self shared irq = Some (v, self') \<and>
    outcome self (map_option LegacyIrq v) self'"
proof (cases "shared \<or> irq = Some SHARED_IRQ")
  case True
  then show ?thesis
    using assms by (auto simp: allocate_legacy_irq_def outcome_def taken_def)
next
  case False
  define c where "c = (case irq of
      Some v \<Rightarrow> (Constraint_new 1)\<lparr>c_min := ucast v, c_max := ucast v\<rparr> | None \<Rightarrow> Constraint_new 1)"
  have "c_size c = 1" by (simp add: c_def split: option.splits)
  then obtain key t where "allocate_valued (pool self LegacyIrqPool) c = Some (key, t)"
      "outcome self (map_option (\<lambda>r. LegacyIrq (ucast (rmin r))) key) (set_pool self LegacyIrqPool t)"
    using valued_allocator [OF assms, of c LegacyIrqPool "\<lambda>b. LegacyIrq (ucast b)"] legacy_key [of c]
    by (force simp: layout_defs)
  with False show ?thesis
    by (simp add: allocate_legacy_irq_def c_def [symmetric] option.map_comp comp_def)
qed

lemma allocate_kvm_mem_slot_ok:
  assumes "rm_ok self" "sz \<le> 1"
  shows "\<exists>v self'. allocate_kvm_mem_slot self sz slot = Some (v, self') \<and>
    outcome self (map_option KvmMemSlot v) self'"
proof -
  define c where "c = (case slot of
      Some v \<Rightarrow> (Constraint_new (ucast sz))\<lparr>c_min := ucast v, c_max := ucast v\<rparr>
    | None \<Rightarrow> Constraint_new (ucast sz))"
  have c: "c_size c = ucast sz" by (simp add: c_def split: option.splits)
  have "unat sz \<le> 1" using assms(2) by (simp add: word_le_nat_alt)
  then have "sz = 0 \<or> sz = 1" unfolding word_unat_eq_iff [of sz] by simp linarith
  then have key: "res_key (KvmMemSlot (ucast (rmin r))) = Some (KvmSlotPool, r)"
    if "satisfies c r" "unat (rmin r) \<le> unat (window_max KvmSlotPool)" for r
    using key_cast_single [OF that(1), where 'a = 32] that c by (auto simp: satisfies_def)
  obtain key t where "allocate_valued (pool self KvmSlotPool) c = Some (key, t)"
      "outcome self (map_option (\<lambda>r. KvmMemSlot (ucast (rmin r))) key) (set_pool self KvmSlotPool t)"
    using valued_allocator [OF assms(1), of c KvmSlotPool "\<lambda>b. KvmMemSlot (ucast b)"] key by blast
  then show ?thesis
    by (simp add: allocate_kvm_mem_slot_def c_def [symmetric] Let_def option.map_comp comp_def)
qed

lemma allocate_resource_ok:
  assumes "rm_ok self" "single_slot req"
  shows "\<exists>res self'. allocate_resource self shared_irq req = Some (res, self') \<and> outcome self res self'"
proof (cases req)
  case (PioAddress rg align sz)
  with allocate_pio_address_ok [OF assms(1), of "windowed (ucast sz) (ucast align)
    (map_option (map_prod ucast ucast) rg)" sz] show ?thesis by auto
next
  case (MmioAddress rg align sz)
  with allocate_mmio_address_ok [OF assms(1), of "windowed sz align rg"] show ?thesis by auto
next
  case (MemAddress rg align sz)
  with allocate_mem_address_ok [OF assms(1), of "windowed sz align rg"] show ?thesis by auto
next
  case (LegacyIrqConstraint irq)
  with allocate_legacy_irq_ok [OF assms(1), of shared_irq irq] show ?thesis by auto
next
  case (PciMsiIrq sz)
  with allocate_msi_irq_aligned_ok [OF assms(1), of sz PciMsi] show ?thesis by auto
next
  case (PciMsixIrq sz)
  with allocate_msi_irq_ok [OF assms(1), of sz PciMsix] show ?thesis by auto
next
  case (GenericIrq sz)
  with allocate_msi_irq_ok [OF assms(1), of sz GenericMsi] show ?thesis by auto
next
  case (KvmMemSlotConstraint slot sz)
  with allocate_kvm_mem_slot_ok [OF assms(1), of sz slot] assms(2) show ?thesis by auto
qed

lemma refused: "rm_ok self \<Longrightarrow> freed_or_refused self res (Some (Inl (InvalidResourceRange m), self))"
  by (simp add: freed_or_refused_def)

lemma freed_nothing: "rm_ok self \<Longrightarrow> res_key res = None \<Longrightarrow> freed_or_refused self res (Some (Inr (), self))"
  by (simp add: freed_or_refused_def given_back_def)

lemma freed_range:
  assumes "rm_ok self" "res_key res = Some (i, r)" "held (pool self i) r = Some s"
  shows "freed_or_refused self res (do {
      (_, t) \<leftarrow> IntervalTree_free (pool self i) r;
      Some (Inr (), set_pool self i t)
    })"
proof -
  obtain v t where t: "IntervalTree_free (pool self i) r = Some (v, t)" "pool_inv_at i t"
      "released (pool self i) r t"
    using free_held [OF rm_ok_pool [OF assms(1)] assms(3)] .
  then have "given_back self res (set_pool self i t)" using assms(2) by (auto simp: given_back_def)
  with t rm_ok_set_pool [OF assms(1) t(2)] show ?thesis by (simp add: freed_or_refused_def)
qed

lemma held_valid: "rm_ok self \<Longrightarrow> held (pool self i) r = Some s \<Longrightarrow> valid_range r"
  using tree_pool.given_state pool_inv_atD rm_ok_pool by blast

lemma valid_end: "valid_range \<lparr>rmin = b, rmax = b + n - 1\<rparr> \<Longrightarrow> n \<noteq> 0"
  using empty_gap(1) [of b "\<lparr>rmin = b, rmax = b\<rparr>"] by auto

lemma Range_new_held:
  assumes "rm_ok self" "held (pool self i) r = Some s"
  shows "Range_new (rmin r) (rmax r) = Some r"
  using held_valid [OF assms] by (subst Range_new_ret_iff) simp

text \<open>The key of an address range, computed at the width of the arguments.\<close>

lemma free_computed_key:
  fixes b n :: "'a::len word"
  assumes "LENGTH('a) \<le> 64" "rm_ok self" "checked_add b n = Some e"
    "res_key res = Some (i, \<lparr>rmin = ucast b, rmax = ucast b + ucast n - 1\<rparr>)"
    "held (pool self i) \<lparr>rmin = ucast b, rmax = ucast b + ucast n - 1\<rparr> = Some s"
  shows "usub e 1 = Some (e - 1)"
    "freed_or_refused self res (do {
      key \<leftarrow> Range_new (ucast b) (ucast (e - 1));
      (_, t) \<leftarrow> IntervalTree_free (pool self i) key;
      Some (Inr (), set_pool self i t)
    })"
proof -
  have "ucast n \<noteq> (0 :: u64)" using valid_end [OF held_valid [OF assms(2,5)]] .
  then have n: "n \<noteq> 0" by auto
  note e = range_end [OF assms(1,3) n]
  show "usub e 1 = Some (e - 1)" by (rule e(1))
  show "freed_or_refused self res (do {
      key \<leftarrow> Range_new (ucast b) (ucast (e - 1));
      (_, t) \<leftarrow> IntervalTree_free (pool self i) key;
      Some (Inr (), set_pool self i t)
    })"
    using freed_range [OF assms(2,4,5)] Range_new_held [OF assms(2,5)] by (simp add: e(2))
qed

lemma free_resource_ok:
  assumes "rm_ok self" "\<And>i r. res_key res = Some (i, r) \<Longrightarrow> held (pool self i) r \<noteq> None"
  shows "freed_or_refused self res (free_resource pe self res)"
proof (cases res)
  case (PioAddressRange b n)
  then obtain s where s: "held (pool self PioPool) \<lparr>rmin = ucast b, rmax = ucast b + ucast n - 1\<rparr> = Some s"
    using assms(2) by auto
  show ?thesis
  proof (cases "checked_add b n")
    case (Some e)
    with free_computed_key [OF _ assms(1) Some _ s, of res] PioAddressRange show ?thesis
      by (simp add: free_pio_address_def)
  qed (simp add: PioAddressRange free_pio_address_def refused [OF assms(1)])
next
  case (MmioAddressRange b n)
  then obtain s where s: "held (pool self MmioPool) \<lparr>rmin = b, rmax = b + n - 1\<rparr> = Some s"
    using assms(2) by auto
  show ?thesis
  proof (cases "checked_add b n")
    case (Some e)
    with free_computed_key [OF _ assms(1) Some, of res MmioPool s] s MmioAddressRange show ?thesis
      by (simp add: free_mmio_address_def)
  qed (simp add: MmioAddressRange free_mmio_address_def refused [OF assms(1)])
next
  case (MemAddressRange b n)
  then obtain s where s: "held (pool self MemPool) \<lparr>rmin = b, rmax = b + n - 1\<rparr> = Some s"
    using assms(2) by auto
  show ?thesis
  proof (cases "checked_add b n")
    case (Some e)
    with free_computed_key [OF _ assms(1) Some, of res MemPool s] s MemAddressRange show ?thesis
      by (simp add: free_mem_address_def refused [OF assms(1)])
  qed (simp add: MemAddressRange free_mem_address_def refused [OF assms(1)])
next
  case (LegacyIrq irq)
  show ?thesis
  proof (cases "irq = SHARED_IRQ")
    case False
    then obtain s where s: "held (pool self LegacyIrqPool) \<lparr>rmin = ucast irq, rmax = ucast irq\<rparr> = Some s"
      using assms(2) LegacyIrq by auto
    with False freed_range [OF assms(1) _ s, of res] LegacyIrq show ?thesis
      by (auto simp: free_legacy_irq_def refused [OF assms(1)])
  qed (simp add: LegacyIrq free_legacy_irq_def freed_nothing [OF assms(1)])
next
  case (MsiIrq ty b n)
  then obtain s where s: "held (pool self MsiIrqPool) \<lparr>rmin = ucast b, rmax = ucast b + ucast n - 1\<rparr> = Some s"
    using assms(2) by auto
  show ?thesis
  proof (cases "checked_add b n")
    case (Some e)
    with free_computed_key [OF _ assms(1) Some _ s, of res] MsiIrq show ?thesis
      by (auto simp: free_msi_irq_def refused [OF assms(1)])
  qed (simp add: MsiIrq free_msi_irq_def refused [OF assms(1)])
next
  case (KvmMemSlot slot)
  then obtain s where s: "held (pool self KvmSlotPool) \<lparr>rmin = ucast slot, rmax = ucast slot\<rparr> = Some s"
    using assms(2) by auto
  with freed_range [OF assms(1) _ s, of res] KvmMemSlot show ?thesis
    by (simp add: free_kvm_mem_slot_def)
next
  case (MacAddresss addr)
  then show ?thesis using freed_nothing [OF assms(1), of res] by simp
qed

section \<open>What a request is given\<close>

lemma windowed_meets:
  assumes "satisfies (windowed sz align rg) r"
  shows "range_meets rg align sz (rmin r) sz"
  using assms
  by (auto simp: satisfies_def range_meets_def windowed_def Constraint_defs Let_def word_le_nat_alt
      split: option.splits)

lemma allocate_valued_Some:
  assumes "pool_inv_at i t" "allocate_valued t c = Some (Some r, t')"
  shows "satisfies c r" "window_min i \<le> rmin r" "unat (rmin r) \<le> unat (window_max i)"
proof -
  have "satisfies c r \<and> window_min i \<le> rmin r \<and> rmax r \<le> window_max i"
    by (cases rule: allocate_valued_cases [OF assms(1), of c]) (use assms(2) in auto)
  then show "satisfies c r" "window_min i \<le> rmin r" "unat (rmin r) \<le> unat (window_max i)"
    by (auto simp: satisfies_def valid_range_def word_le_nat_alt)
qed

lemma pool_cast:
  assumes "pool_inv_at i t" "allocate_valued t c = Some (Some r, t')"
    "unat (window_max i) < 2 ^ LENGTH('a::len)"
  shows "ucast (ucast (rmin r) :: 'a word) = rmin r"
  using allocate_valued_Some(3) [OF assms(1,2)] assms(3) by (intro ucast_down_up) simp

lemma fixed_cast:
  assumes "satisfies c r" "c_min c = ucast v" "c_max c = ucast v" "c_size c \<noteq> 0"
  shows "(ucast (rmin r) :: u32) = v"
proof -
  have "rmin r \<le> rmax r" "c_min c \<le> rmin r" "rmax r \<le> c_max c"
    using assms(1) by (auto simp: satisfies_def valid_range_def)
  then have "rmin r = ucast v" using assms(2,3) by auto
  then show ?thesis using ucast_up_down [of v, where 'b = 64] by simp
qed

lemma legacy_irq_meets:
  assumes "rm_ok self" "allocate_legacy_irq self shared irq = Some (Some v, self')"
  shows "meets shared (LegacyIrqConstraint irq) (LegacyIrq v)"
proof (cases shared)
  case False
  define c where "c = (case irq of
      Some v \<Rightarrow> (Constraint_new 1)\<lparr>c_min := ucast v, c_max := ucast v\<rparr> | None \<Rightarrow> Constraint_new 1)"
  obtain r t where a: "allocate_valued (pool self LegacyIrqPool) c = Some (Some r, t)" "v = ucast (rmin r)"
    using assms(2) False
    by (auto simp: allocate_legacy_irq_def c_def Let_def bind_eq_Some_conv split: if_splits)
  note w = allocate_valued_Some [OF rm_ok_pool [OF assms(1)] a(1)]
  have "ucast v = rmin r"
    using pool_cast [OF rm_ok_pool [OF assms(1)] a(1), where 'a = 32] a(2) by (simp add: layout_defs)
  then have "unat v = unat (rmin r)" using unat_up [of v, where 'b = 64] by simp
  then have "IRQ_BASE < v" "v \<le> IRQ_MAX"
    using w(2,3) by (simp_all add: layout_defs word_le_nat_alt word_less_nat_alt)
  moreover have "irq = None \<or> irq = Some v"
    using fixed_cast [OF w(1)] a(2) by (cases irq) (auto simp: c_def)
  ultimately show ?thesis using False by auto
qed (use assms in \<open>simp add: allocate_legacy_irq_def\<close>)

lemma kvm_slot_meets:
  assumes "rm_ok self" "allocate_kvm_mem_slot self sz slot = Some (Some v, self')"
  shows "slot = None \<or> slot = Some v"
proof -
  define c where "c = (case slot of
      Some v \<Rightarrow> (Constraint_new (ucast sz))\<lparr>c_min := ucast v, c_max := ucast v\<rparr>
    | None \<Rightarrow> Constraint_new (ucast sz))"
  obtain r t where a: "allocate_valued (pool self KvmSlotPool) c = Some (Some r, t)" "v = ucast (rmin r)"
    using assms(2) by (auto simp: allocate_kvm_mem_slot_def c_def Let_def bind_eq_Some_conv)
  note w = allocate_valued_Some [OF rm_ok_pool [OF assms(1)] a(1)]
  have "c_size c \<noteq> 0" using w(1) by (simp add: satisfies_def)
  then show ?thesis using fixed_cast [OF w(1)] a(2) by (cases slot) (auto simp: c_def)
qed

lemma allocate_resource_meets:
  assumes "rm_ok self" "allocate_resource self shared req = Some (Some x, self')"
  shows "meets shared req x"
proof (cases req)
  case (PioAddress rg align sz)
  then obtain r t where a: "allocate_valued (pool self PioPool)
      (windowed (ucast sz) (ucast align) (map_option (map_prod ucast ucast) rg)) = Some (Some r, t)"
      "x = PioAddressRange (ucast (rmin r)) sz"
    using assms(2) by (auto simp: allocate_pio_address_def bind_eq_Some_conv)
  note w = allocate_valued_Some [OF rm_ok_pool [OF assms(1)] a(1)]
  have "ucast (ucast (rmin r) :: u16) = rmin r"
    using pool_cast [OF rm_ok_pool [OF assms(1)] a(1), where 'a = 16] by (simp add: layout_defs)
  then show ?thesis using windowed_meets [OF w(1)] PioAddress a(2) by simp
next
  case (MmioAddress rg align sz)
  then obtain r t where a: "IntervalTree_allocate (pool self MmioPool) (windowed sz align rg) = Some (Some r, t)"
      "x = MmioAddressRange (rmin r) sz"
    using assms(2) by (auto simp: allocate_mmio_address_def bind_eq_Some_conv)
  with tree_pool.alloc_Some [OF pool_inv_atD [OF rm_ok_pool [OF assms(1)]] a(1)] windowed_meets MmioAddress
  show ?thesis by auto
next
  case (MemAddress rg align sz)
  then obtain r t where a: "IntervalTree_allocate (pool self MemPool) (windowed sz align rg) = Some (Some r, t)"
      "x = MemAddressRange (rmin r) sz"
    using assms(2) by (auto simp: allocate_mem_address_def bind_eq_Some_conv)
  with tree_pool.alloc_Some [OF pool_inv_atD [OF rm_ok_pool [OF assms(1)]] a(1)] windowed_meets MemAddress
  show ?thesis by auto
next
  case (LegacyIrqConstraint irq)
  then show ?thesis using assms legacy_irq_meets by (auto simp: bind_eq_Some_conv)
next
  case (PciMsiIrq sz)
  then obtain r t where a: "allocate_valued (pool self MsiIrqPool)
      (Constraint_align (Constraint_new (ucast sz)) (ucast sz)) = Some (Some r, t)"
      "x = MsiIrq PciMsi (ucast (rmin r)) sz"
    using assms(2) by (auto simp: allocate_msi_irq_aligned_def bind_eq_Some_conv)
  note w = allocate_valued_Some [OF rm_ok_pool [OF assms(1)] a(1)]
  have "ucast (ucast (rmin r) :: u32) = rmin r"
    using pool_cast [OF rm_ok_pool [OF assms(1)] a(1), where 'a = 32] by (simp add: layout_defs)
  then show ?thesis using w(1) PciMsiIrq a(2) by (simp add: range_meets_def satisfies_def)
next
  case (KvmMemSlotConstraint slot sz)
  then show ?thesis using assms kvm_slot_meets by (auto simp: bind_eq_Some_conv)
qed (use assms(2) in \<open>auto simp: allocate_msi_irq_def bind_eq_Some_conv\<close>)

section \<open>All resources of a device\<close>

abbreviation res_keys :: "Resource list \<Rightarrow> (pool_id \<times> Range) list" where
  "res_keys rs \<equiv> List.map_filter res_key rs"

lemma holds_taken:
  assumes "holds self0 (res_keys rs) self" "taken self x self'"
  shows "holds self0 (res_keys (rs @ [x])) self'"
proof (cases "res_key x")
  case None
  with assms show ?thesis by (simp add: taken_def map_filter_def)
next
  case (Some k)
  obtain i r where k: "k = (i, r)" by fastforce
  with assms(2) Some obtain t where t: "self' = set_pool self i t" "granted (pool self i) r t"
    by (auto simp: taken_def)
  have "holds self0 (res_keys rs @ [(i, r)]) self'"
    using t by (intro holds_grant [OF assms(1)]) auto
  with Some k show ?thesis by (simp add: map_filter_def)
qed

lemma free_device_resources_ok:
  assumes "rm_ok self" "holds self0 (res_keys rs @ ks) self"
  shows "\<exists>result self'. free_device_resources pe self rs = Some (result, self') \<and> rm_ok self' \<and>
    (case result of Inl e \<Rightarrow> e \<noteq> NoAvailResource | Inr _ \<Rightarrow> holds self0 ks self')"
  using assms
proof (induction rs arbitrary: self)
  case Nil
  then show ?case by (simp add: map_filter_def)
next
  case (Cons x rs)
  have "held (pool self i) r \<noteq> None" if "res_key x = Some (i, r)" for i r
    using holdsD(2) [OF Cons.prems(2), of i r] that by (simp add: map_filter_def)
  then obtain result self1 where f: "free_resource pe self x = Some (result, self1)" "rm_ok self1"
      "case result of Inl e \<Rightarrow> e \<noteq> NoAvailResource \<and> self1 = self | Inr _ \<Rightarrow> given_back self x self1"
    using free_resource_ok [OF Cons.prems(1), of x pe] by (auto simp: freed_or_refused_def)
  show ?case
  proof (cases result)
    case (Inl e)
    with f show ?thesis by auto
  next
    case (Inr u)
    have "holds self0 (res_keys rs @ ks) self1"
    proof (cases "res_key x")
      case None
      with f(3) Inr Cons.prems(2) show ?thesis by (simp add: given_back_def map_filter_def)
    next
      case (Some k)
      obtain i r where k: "k = (i, r)" by fastforce
      with f(3) Inr Some obtain t where t: "self1 = set_pool self i t" "released (pool self i) r t"
        by (auto simp: given_back_def)
      have h: "holds self0 ((i, r) # res_keys rs @ ks) self"
        using Cons.prems(2) Some k by (simp add: map_filter_def)
      show ?thesis using t holds_release [OF h, of self1] by simp
    qed
    from Cons.IH [OF f(2) this] f(1) Inr show ?thesis by auto
  qed
qed

lemma allocate_loop_ok:
  assumes "rm_ok self" "holds self0 (res_keys rs) self" "\<forall>req \<in> set reqs. single_slot req"
  shows "\<exists>result self'. allocate_loop pe self rs reqs shared_irq = Some (result, self') \<and> rm_ok self' \<and>
    (case result of
       Inl e \<Rightarrow> e = NoAvailResource \<longrightarrow> same_view self' self0
     | Inr rs' \<Rightarrow> holds self0 (res_keys rs') self' \<and>
         (\<exists>new. rs' = rs @ new \<and> list_all2 (meets shared_irq) reqs new))"
  using assms
proof (induction reqs arbitrary: self rs)
  case (Cons req reqs)
  obtain res self1 where a: "allocate_resource self shared_irq req = Some (res, self1)" "outcome self res self1"
    using allocate_resource_ok [OF Cons.prems(1), of req shared_irq] Cons.prems(3) by auto
  show ?case
  proof (cases res)
    case None
    with a(2) have "self1 = self" by (simp add: outcome_def)
    obtain result self2 where "free_device_resources pe self rs = Some (result, self2)" "rm_ok self2"
        "case result of Inl e \<Rightarrow> e \<noteq> NoAvailResource | Inr _ \<Rightarrow> holds self0 [] self2"
      using free_device_resources_ok [OF Cons.prems(1), of self0 rs "[]" pe] Cons.prems(2) by auto
    with a(1) None \<open>self1 = self\<close> holds_nil(2) show ?thesis by (cases result) auto
  next
    case (Some x)
    have "rm_ok self1" "taken self x self1" using a(2) Some by (auto simp: outcome_def)
    from Cons.IH [OF this(1) holds_taken [OF Cons.prems(2) this(2)]] Cons.prems(3)
    obtain result self' where "allocate_loop pe self1 (rs @ [x]) reqs shared_irq = Some (result, self')"
      "rm_ok self'" "case result of
         Inl e \<Rightarrow> e = NoAvailResource \<longrightarrow> same_view self' self0
       | Inr rs' \<Rightarrow> holds self0 (res_keys rs') self' \<and>
           (\<exists>new. rs' = (rs @ [x]) @ new \<and> list_all2 (meets shared_irq) reqs new)" by auto
    moreover have "meets shared_irq req x"
      using allocate_resource_meets [OF Cons.prems(1)] a(1) Some by blast
    ultimately show ?thesis
      using a(1) Some by (auto simp: DeviceResources_append_def split: sum.splits)
  qed
qed simp

section \<open>A new manager\<close>

text \<open>What the number of physical address bits gives: guest memory reaches beyond the low MMIO
  window and ends below the last physical address.\<close>

lemma phys_end_bounds:
  assumes "GUEST_PHYS_END n = Some pe"
  shows "MMIO_LOW_END < GUEST_MEM_END pe" "GUEST_MEM_END pe < pe" "pe \<noteq> u64_MAX"
    "unat (GUEST_MEM_END pe) \<ge> 2 ^ 35 - 1"
proof -
  have n: "36 \<le> n" "n < 64" "pe = 2 ^ n - 1"
    using assms by (auto simp: GUEST_PHYS_END_def split: if_splits)
  have p: "(2::nat) ^ 36 \<le> 2 ^ n" "(2::nat) ^ n \<le> 2 ^ 63"
    using n by (intro power_increasing; simp)+
  have "unat (2 ^ n :: u64) = 2 ^ n" using n by (intro unat_exp) simp
  moreover have "0 < (2 ^ n :: u64)" using calculation p(1) by (simp add: word_pos_unat)
  ultimately have upe: "unat pe = 2 ^ n - 1" using n(3) by (simp add: unat_pred)
  have ug: "unat (GUEST_MEM_END pe) = unat pe div 2"
    by (simp add: GUEST_MEM_END_def drop_bit_eq_div unat_div)
  show "unat (GUEST_MEM_END pe) \<ge> 2 ^ 35 - 1" using p(1) unfolding ug upe by simp
  then show "MMIO_LOW_END < GUEST_MEM_END pe"
    by (simp add: MMIO_LOW_END_def word_less_nat_alt)
  show "GUEST_MEM_END pe < pe" using p unfolding word_less_nat_alt ug upe by simp
  show "pe \<noteq> u64_MAX" using p(2) upe by auto
qed

lemma insert_above_pool:
  assumes "pool_ok t" "merged t" "valid_range r" "rmax r \<noteq> u64_MAX"
    "\<forall>a \<in> dom (state_at t). unat a + 1 < unat (rmin r)"
  shows "\<exists>t'. IntervalTree_insert t r None = Some t' \<and> pool_ok t' \<and> merged t' \<and>
    state_at t' = (\<lambda>a. if a \<in> addrs r then Some Free else state_at t a) \<and> held t' = held t"
proof -
  have tok: "tree_ok t" using assms(1) by (simp add: pool_ok_def)
  have bef: "unat (rmax k) + 1 < unat (rmin r)" if "(k, s) \<in> entries t" for k s
    using assms(5) entry_state [OF tok that addrs_nonempty(2) [OF entry_valid [OF tok that]]] by auto
  then have "before k r" if "(k, s) \<in> entries t" for k s
    using that by (fastforce simp: before_def word_less_nat_alt)
  then have "\<forall>e \<in> entries t. \<not> Range_intersect (fst e) r" using before_not_intersect by auto
  then obtain t' where t': "IntervalTree_insert t r None = Some t'" "tree_ok t'"
      "entries t' = insert (r, Free) (entries t)"
    using IntervalTree_insert_ok [OF tok assms(3), of None] by auto
  have out: "a \<notin> addrs r" if "a \<in> dom (state_at t)" for a
    using bspec [OF assms(5) that] by (simp add: addrs_def word_le_nat_alt)
  have st: "state_at t' a = (if a \<in> addrs r then Some Free else state_at t a)" for a
  proof (rule state_at_eqI [OF t'(2), where f = "\<lambda>a. if a \<in> addrs r then Some Free else state_at t a"])
    fix s
    show "(if a \<in> addrs r then Some Free else state_at t a) = Some s \<longleftrightarrow>
        (\<exists>k. (k, s) \<in> entries t' \<and> a \<in> addrs k)"
      using out [of a] state_at_iff [OF tok, of a s] unfolding t'(3) by (auto intro: entry_state [OF tok])
  qed
  have "pool_ok t'" using t'(2,3) pool_ok_max [OF assms(1)] assms(4) by (auto simp: pool_ok_def)
  moreover have "merged t'"
  proof -
    have "state_at t' (rmax k + 1) \<noteq> Some Free" if k: "(k, Free) \<in> entries t'" "rmax k \<noteq> u64_MAX" for k
    proof (cases "k = r")
      case True
      then have "rmax k + 1 \<notin> addrs r" using u64_less_succ [OF k(2)] by (auto simp: addrs_def)
      moreover have "state_at t (rmax k + 1) = None"
      proof (rule ccontr)
        assume "state_at t (rmax k + 1) \<noteq> None"
        then have "unat (rmax k + 1) + 1 < unat (rmin r)" using assms(5) by auto
        then show False
          using True assms(3) unat_u64_succ [OF k(2)] by (simp add: valid_range_def word_le_nat_alt)
      qed
      ultimately show ?thesis unfolding st by simp
    next
      case False
      with k(1) t'(3) have kt: "(k, Free) \<in> entries t" by simp
      then have "rmax k + 1 \<notin> addrs r"
        using bef [OF kt] unat_u64_succ [OF k(2)] by (simp add: addrs_def word_le_nat_alt)
      then show ?thesis using mergedD [OF assms(2) kt k(2)] unfolding st by simp
    qed
    then show ?thesis by (auto simp: merged_def)
  qed
  moreover have "held t' = held t"
    by (rule held_eqI [OF t'(2)]) (use held_iff [OF tok] t'(3) in auto)
  ultimately show ?thesis using t'(1) st by auto
qed

lemma empty_pool [simp]:
  "pool_ok IntervalTree_new" "merged IntervalTree_new" "state_at IntervalTree_new a = None"
  "dom (state_at IntervalTree_new) = {}"
  "held IntervalTree_new = Map.empty"
  by (auto simp: IntervalTree_new_def pool_ok_def tree_ok_def merged_def state_at_def held_def
      IntervalTree_get_def)

lemma new_pool:
  assumes "a \<le> b" "b \<noteq> u64_MAX"
  shows "\<exists>t. IntervalTree_insert IntervalTree_new \<lparr>rmin = a, rmax = b\<rparr> (None :: unit option) = Some t \<and>
    pool_ok t \<and> merged t \<and>
    state_at t = (\<lambda>x. if a \<le> x \<and> x \<le> b then Some Free else None) \<and> held t = Map.empty"
  using insert_above_pool [of "IntervalTree_new :: unit node" "\<lparr>rmin = a, rmax = b\<rparr>"] assms
  by (simp add: valid_range_def addrs_def cong: if_cong)


text \<open>The state of the MMIO pool of a new manager, and the range reserved in it.\<close>

abbreviation reserved_range :: Range where
  "reserved_range \<equiv> \<lparr>rmin = 0xfbffffff, rmax = 0xfffffffe\<rparr>"

abbreviation reserve_constraint :: Constraint where
  "reserve_constraint \<equiv> Constraint_max (Constraint_min (Constraint_new MMIO_SPACE_RESERVED) 0xfbffffff) 0xffffffff"

lemma reserve_range:
  assumes "pool_ok t" "merged t" "state_at t = (\<lambda>x. if 0xc0000000 \<le> x \<and> x \<le> 0xffffffff then Some Free else None)"
    "held t = Map.empty"
  shows "\<exists>t'. allocate_valued t reserve_constraint = Some (Some reserved_range, t') \<and> pool_ok t' \<and> merged t' \<and>
    state_at t' = (\<lambda>x. if x \<in> addrs reserved_range then Some (Valued ())
      else if 0xc0000000 \<le> x \<and> x \<le> 0xffffffff then Some Free else None) \<and>
    held t' = [reserved_range \<mapsto> Valued ()]"
proof -
  have sat: "satisfies reserve_constraint reserved_range"
    by (simp add: satisfies_def Constraint_defs MMIO_SPACE_RESERVED_def valid_range_def align_ok_trivial)
  have free: "free_range t reserved_range"
    using assms(3) by (auto simp: free_range_def addrs_def word_le_nat_alt)
  obtain r t' where a: "allocate_valued t reserve_constraint = Some (Some r, t')" "pool_ok t' \<and> merged t'"
  proof -
    obtain res t' where r: "allocate_valued t reserve_constraint = Some (res, t')" "pool_ok t' \<and> merged t'"
      using valued_pool.alloc_total [of t reserve_constraint] assms(1,2) by blast
    then show ?thesis
      using valued_pool.alloc_None [of t reserve_constraint t'] assms(1,2) sat free that
      by (cases res) (auto simp: free_range_def)
  qed
  note s = valued_pool.alloc_Some [OF conjI [OF assms(1,2)] a(1)]
  have "rmin r = 0xfbffffff"
  proof (rule order_antisym)
    show "rmin r \<le> 0xfbffffff"
      using allocate_pool [OF assms(1,2), of reserve_constraint] a(1) sat free
      by (force simp: allocate_valued_def bind_eq_Some_conv split: option.splits)
    show "0xfbffffff \<le> rmin r" using s by (simp add: satisfies_def Constraint_defs)
  qed
  then have "r = reserved_range"
    using satisfies_range [of reserve_constraint r] s
    by (simp add: Constraint_defs MMIO_SPACE_RESERVED_def)
  with a s assms(3,4) show ?thesis by auto
qed


lemma mmio_pool_new:
  assumes "GUEST_PHYS_END n = Some pe"
  shows "\<exists>t. init_mmio_pool_helper pe IntervalTree_new = Some t \<and> pool_ok t \<and> merged t \<and>
    state_at t = (\<lambda>x. if x \<in> addrs reserved_range then Some (Valued ())
      else if MMIO_LOW_START \<le> x \<and> x \<le> MMIO_LOW_END \<or> GUEST_MEM_END pe < x \<and> x \<le> pe
      then Some Free else None) \<and> held t = [reserved_range \<mapsto> Valued ()]"
proof -
  note b = phys_end_bounds [OF assms]
  have m: "GUEST_MEM_END pe \<noteq> u64_MAX" using b(2) by auto
  obtain t1 where t1: "IntervalTree_insert IntervalTree_new \<lparr>rmin = MMIO_LOW_START, rmax = MMIO_LOW_END\<rparr> (None :: unit option) = Some t1"
      "pool_ok t1" "merged t1" "held t1 = Map.empty"
      "state_at t1 = (\<lambda>x. if 0xc0000000 \<le> x \<and> x \<le> 0xffffffff then Some Free else None)"
    using new_pool [of MMIO_LOW_START MMIO_LOW_END] by (auto simp: layout_defs)
  obtain t2 where t2: "allocate_valued t1 reserve_constraint = Some (Some reserved_range, t2)"
      "pool_ok t2" "merged t2" "held t2 = [reserved_range \<mapsto> Valued ()]"
      "state_at t2 = (\<lambda>x. if x \<in> addrs reserved_range then Some (Valued ())
        else if 0xc0000000 \<le> x \<and> x \<le> 0xffffffff then Some Free else None)"
    using reserve_range [OF t1(2,3,5,4)] by auto
  let ?r = "\<lparr>rmin = GUEST_MEM_END pe + 1, rmax = pe\<rparr>"
  have "\<forall>a \<in> dom (state_at t2). unat a + 1 < unat (rmin ?r)"
    using b(4) unat_u64_succ [OF m] unfolding t2(5)
    by (auto simp: addrs_def word_le_nat_alt split: if_splits)
  moreover have r: "valid_range ?r" using b(2,3) m by (simp add: valid_range_def u64_succ_le_iff)
  ultimately obtain t3 where t3: "IntervalTree_insert t2 ?r None = Some t3" "pool_ok t3" "merged t3"
      "state_at t3 = (\<lambda>a. if a \<in> addrs ?r then Some Free else state_at t2 a)" "held t3 = held t2"
    using insert_above_pool [OF t2(2,3) r] b(3) by auto
  have "GUEST_MEM_END pe + 1 \<le> x \<longleftrightarrow> GUEST_MEM_END pe < x" for x using m by (simp add: u64_succ_le_iff)
  moreover have "\<not> GUEST_MEM_END pe < x" if "x \<in> addrs reserved_range" for x
    using that b(4) by (simp add: addrs_def word_le_nat_alt word_less_nat_alt)
  ultimately have "state_at t3 = (\<lambda>x. if x \<in> addrs reserved_range then Some (Valued ())
      else if MMIO_LOW_START \<le> x \<and> x \<le> MMIO_LOW_END \<or> GUEST_MEM_END pe < x \<and> x \<le> pe
      then Some Free else None)"
    unfolding t3(4) t2(5) by (auto simp: addrs_def layout_defs)
  moreover have "init_mmio_pool_helper pe IntervalTree_new = Some t3"
    using b(1,2) t1(1) t2(1) t3(1) r m
    by (simp add: init_mmio_pool_helper_def Range_new_def valid_range_def mem_crosses_mmio_def layout_defs
        word_less_nat_alt word_le_nat_alt checked_sub_def)
  ultimately show ?thesis using t3 t2 by auto
qed

lemma mem_pool_new:
  assumes "GUEST_PHYS_END n = Some pe"
  shows "\<exists>t. init_mem_pool_helper pe IntervalTree_new = Some t \<and> pool_ok t \<and> merged t \<and>
    state_at t = (\<lambda>x. if x < MMIO_LOW_START \<or> MMIO_LOW_END < x \<and> x \<le> GUEST_MEM_END pe
      then Some Free else None) \<and> held t = Map.empty"
proof -
  note b = phys_end_bounds [OF assms]
  have m: "GUEST_MEM_END pe \<noteq> u64_MAX" using b(2) by auto
  obtain t1 where t1: "IntervalTree_insert IntervalTree_new \<lparr>rmin = GUEST_MEM_START, rmax = 0xbfffffff\<rparr> (None :: unit option) = Some t1"
      "pool_ok t1" "merged t1" "held t1 = Map.empty"
      "state_at t1 = (\<lambda>x. if x \<le> 0xbfffffff then Some Free else None)"
    using new_pool [of GUEST_MEM_START "0xbfffffff"] by (auto simp: layout_defs)
  let ?r = "\<lparr>rmin = MMIO_LOW_END + 1, rmax = GUEST_MEM_END pe\<rparr>"
  have "\<forall>a \<in> dom (state_at t1). unat a + 1 < unat (rmin ?r)"
    unfolding t1(5) by (auto simp: layout_defs word_le_nat_alt split: if_splits)
  moreover have r: "valid_range ?r"
    using b(1) by (simp add: valid_range_def layout_defs word_le_nat_alt word_less_nat_alt)
  ultimately obtain t2 where t2: "IntervalTree_insert t1 ?r None = Some t2" "pool_ok t2" "merged t2"
      "state_at t2 = (\<lambda>a. if a \<in> addrs ?r then Some Free else state_at t1 a)" "held t2 = held t1"
    using insert_above_pool [OF t1(2,3) r] m by auto
  have "MMIO_LOW_END + 1 \<le> x \<longleftrightarrow> MMIO_LOW_END < x" for x
    by (rule u64_succ_le_iff) (simp add: layout_defs)
  moreover have "x \<le> 0xbfffffff \<longleftrightarrow> x < MMIO_LOW_START" for x :: u64
    by (auto simp: layout_defs word_le_nat_alt word_less_nat_alt)
  ultimately have "state_at t2 = (\<lambda>x. if x < MMIO_LOW_START \<or> MMIO_LOW_END < x \<and> x \<le> GUEST_MEM_END pe
      then Some Free else None)"
    unfolding t2(4) t1(5) by (auto simp: addrs_def)
  moreover have "init_mem_pool_helper pe IntervalTree_new = Some t2"
    using b(1) t1(1) t2(1) r
    by (simp add: init_mem_pool_helper_def Range_new_def valid_range_def mem_crosses_mmio_def layout_defs
        word_less_nat_alt checked_sub_def)
  ultimately show ?thesis using t2 t1 by auto
qed


lemma init_pool_inv:
  assumes "pool_ok t" "merged t" "\<forall>a \<in> dom (state_at t). window_min i \<le> a \<and> a \<le> window_max i"
  shows "pool_inv_at i t"
  using assms window_iff [of t i] by (auto simp: pool_inv_at_def pool_ok_def)

lemma ResourceManager_new_ok:
  assumes "GUEST_PHYS_END n = Some pe" "\<forall>m. slots = Some m \<longrightarrow> m \<le> 0xffffffff"
  shows "\<exists>rm. ResourceManager_new pe slots = Some rm \<and> rm_ok rm \<and>
    (\<forall>x. state_at (legacy_irq_pool rm) x = (if 6 \<le> x \<and> x \<le> 15 then Some Free else None)) \<and>
    (\<forall>x. state_at (msi_irq_pool rm) x = (if 24 \<le> x \<and> x \<le> 1023 then Some Free else None)) \<and>
    (\<forall>x. state_at (pio_pool rm) x = (if x \<le> 0xffff then Some Free else None)) \<and>
    (\<forall>x. state_at (mmio_pool rm) x = (if x \<in> addrs reserved_range then Some (Valued ())
      else if MMIO_LOW_START \<le> x \<and> x \<le> MMIO_LOW_END \<or> GUEST_MEM_END pe < x \<and> x \<le> pe
      then Some Free else None)) \<and>
    (\<forall>x. state_at (mem_pool rm) x = (if x < MMIO_LOW_START \<or> MMIO_LOW_END < x \<and> x \<le> GUEST_MEM_END pe
      then Some Free else None)) \<and>
    (\<forall>x. state_at (kvm_mem_slot_pool rm) x =
      (if x \<le> (case slots of Some m \<Rightarrow> m | None \<Rightarrow> KVM_USER_MEM_SLOTS) then Some Free else None))"
proof -
  let ?m = "case slots of Some m \<Rightarrow> m | None \<Rightarrow> KVM_USER_MEM_SLOTS"
  have m: "?m \<le> 0xffffffff" using assms(2) by (auto simp: layout_defs split: option.splits)
  then have m': "?m \<noteq> u64_MAX" by auto
  obtain l where l: "IntervalTree_insert IntervalTree_new \<lparr>rmin = 6, rmax = 15\<rparr> (None :: unit option) = Some l"
      "pool_ok l" "merged l" "state_at l = (\<lambda>x. if 6 \<le> x \<and> x \<le> 15 then Some Free else None)"
    using new_pool [of 6 15] by auto
  obtain s where s: "IntervalTree_insert IntervalTree_new \<lparr>rmin = 24, rmax = 1023\<rparr> (None :: unit option) = Some s"
      "pool_ok s" "merged s" "state_at s = (\<lambda>x. if 24 \<le> x \<and> x \<le> 1023 then Some Free else None)"
    using new_pool [of 24 1023] by auto
  obtain p where p: "IntervalTree_insert IntervalTree_new \<lparr>rmin = 0, rmax = 0xffff\<rparr> (None :: unit option) = Some p"
      "pool_ok p" "merged p" "state_at p = (\<lambda>x. if x \<le> 0xffff then Some Free else None)"
    using new_pool [of 0 "0xffff"] by auto
  obtain k where k: "IntervalTree_insert IntervalTree_new \<lparr>rmin = 0, rmax = ?m\<rparr> (None :: unit option) = Some k"
      "pool_ok k" "merged k" "state_at k = (\<lambda>x. if x \<le> ?m then Some Free else None)"
    using new_pool [of 0 ?m] m' by auto
  note mmio = mmio_pool_new [OF assms(1)] and mem = mem_pool_new [OF assms(1)]
  obtain io where io: "init_mmio_pool_helper pe IntervalTree_new = Some io" "pool_ok io" "merged io"
      "state_at io = (\<lambda>x. if x \<in> addrs reserved_range then Some (Valued ())
        else if MMIO_LOW_START \<le> x \<and> x \<le> MMIO_LOW_END \<or> GUEST_MEM_END pe < x \<and> x \<le> pe
        then Some Free else None)" using mmio by blast
  obtain me where me: "init_mem_pool_helper pe IntervalTree_new = Some me" "pool_ok me" "merged me"
      "state_at me = (\<lambda>x. if x < MMIO_LOW_START \<or> MMIO_LOW_END < x \<and> x \<le> GUEST_MEM_END pe
        then Some Free else None)" using mem by blast
  let ?rm = "\<lparr>legacy_irq_pool = l, msi_irq_pool = s, pio_pool = p, mmio_pool = io, mem_pool = me,
    kvm_mem_slot_pool = k\<rparr>"
  have "ResourceManager_new pe slots = Some ?rm"
    using l(1) s(1) p(1) k(1) io(1) me(1) m'
    by (simp add: ResourceManager_new_def ResourceManager_default_def init_legacy_irq_pool_def
        init_msi_irq_pool_def init_pio_pool_def init_mmio_pool_def init_mem_pool_def
        init_kvm_mem_slot_pool_def Range_new_def layout_defs Let_def)
  moreover have "pool_inv_at i (pool ?rm i)" for i
    using l s p k m io me
    by (cases i) (auto intro!: init_pool_inv simp: layout_defs split: if_splits)
  ultimately show ?thesis using l(4) s(4) p(4) k(4) io(4) me(4) by (auto simp: rm_ok_def)
qed

end
