(* ===== verification/ResourceManager_Props.thy ===== *)
theory ResourceManager_Props
  imports ResourceManager_Lemmas
begin

text \<open>
  The properties of the resource manager: what a new manager holds, that a device gets what it asked
  for or nothing, that giving everything back restores the manager, and that over every sequence of
  such operations no two devices own the same port, address, interrupt or slot.
\<close>

section \<open>Runs\<close>

text \<open>A manager with the resources of each device that got some. An allocation either succeeds or
  reports that a resource is not available; a device gives back all its resources.\<close>

inductive manager_run :: "u64 \<Rightarrow> ResourceManager \<Rightarrow> ResourceManager \<Rightarrow> DeviceResources list \<Rightarrow> bool"
  for pe rm0 where
  start: "manager_run pe rm0 rm0 []"
| granted_all: "manager_run pe rm0 self owned \<Longrightarrow> \<forall>req \<in> set reqs. single_slot req \<Longrightarrow>
    allocate_device_resources pe self reqs shared_irq = Some (Inr rs, self') \<Longrightarrow>
    manager_run pe rm0 self' (rs # owned)"
| unavailable: "manager_run pe rm0 self owned \<Longrightarrow> \<forall>req \<in> set reqs. single_slot req \<Longrightarrow>
    allocate_device_resources pe self reqs shared_irq = Some (Inl NoAvailResource, self') \<Longrightarrow>
    manager_run pe rm0 self' owned"
| given_back_all: "manager_run pe rm0 self (xs @ rs # ys) \<Longrightarrow>
    free_device_resources pe self rs = Some (Inr (), self') \<Longrightarrow>
    manager_run pe rm0 self' (xs @ ys)"

abbreviation owned_keys :: "DeviceResources list \<Rightarrow> (pool_id \<times> Range) list" where
  "owned_keys owned \<equiv> res_keys (concat owned)"

lemma allocate_device_resources_ok:
  assumes "rm_ok self" "\<forall>req \<in> set reqs. single_slot req"
  shows "\<exists>result self'. allocate_device_resources pe self reqs shared_irq = Some (result, self') \<and> rm_ok self' \<and>
    (case result of
       Inl e \<Rightarrow> e = NoAvailResource \<longrightarrow> same_view self' self
     | Inr rs \<Rightarrow> holds self (res_keys rs) self' \<and> list_all2 (meets shared_irq) reqs rs)"
  using allocate_loop_ok [OF assms(1) _ assms(2), of self "[]" pe shared_irq] holds_nil(1)
  by (simp add: allocate_device_resources_def DeviceResources_new_def map_filter_def cong: sum.case_cong)

lemma map_filter_append [simp]: "List.map_filter f (xs @ ys) = List.map_filter f xs @ List.map_filter f ys"
  by (simp add: map_filter_def)

lemma manager_run_holds:
  assumes "manager_run pe rm0 self owned" "rm_ok rm0"
  shows "rm_ok self \<and> holds rm0 (res_keys (concat owned)) self"
  using assms(1)
proof induction
  case start
  then show ?case using assms(2) holds_nil(1) by (simp add: map_filter_def)
next
  case (granted_all self owned reqs shared_irq rs self')
  have "rm_ok self' \<and> holds self (res_keys rs) self'"
    using allocate_device_resources_ok [of self reqs pe shared_irq] granted_all by auto
  moreover have h: "holds rm0 (res_keys (concat owned) @ res_keys rs) self'"
    using holds_trans [OF _ conjunct2 [OF calculation]] granted_all.IH by blast
  moreover have "holds rm0 (res_keys rs @ res_keys (concat owned)) self'"
    using holdsD(1) [OF h] by (intro holds_perm [OF h]) auto
  ultimately show ?case by simp
next
  case (unavailable self owned reqs shared_irq self')
  have "rm_ok self' \<and> same_view self' self"
    using allocate_device_resources_ok [of self reqs pe shared_irq] unavailable by auto
  then show ?case using unavailable.IH holds_same_view by blast
next
  case (given_back_all self xs rs ys self')
  let ?ks = "res_keys (concat (xs @ ys))"
  have h: "holds rm0 (res_keys (concat xs) @ res_keys rs @ res_keys (concat ys)) self"
    using given_back_all.IH by simp
  have "holds rm0 (res_keys rs @ ?ks) self"
    using holdsD(1) [OF h] by (intro holds_perm [OF h]) auto
  then show ?case
    using free_device_resources_ok [of self rm0 rs ?ks pe] given_back_all by auto
qed

section \<open>Examples\<close>

text \<open>A manager for 36 physical address bits with the default number of memory slots.\<close>

definition demo_pe :: u64 where "demo_pe = 0xfffffffff"

lemma demo_phys_end: "GUEST_PHYS_END 36 = Some demo_pe"
  by (simp add: GUEST_PHYS_END_def demo_pe_def)

text \<open>What the pools hold at first.\<close>

fun initially_free :: "u64 \<Rightarrow> u64 option \<Rightarrow> pool_id \<Rightarrow> u64 \<Rightarrow> bool" where
  "initially_free pe slots LegacyIrqPool x \<longleftrightarrow> 6 \<le> x \<and> x \<le> 15"
| "initially_free pe slots MsiIrqPool x \<longleftrightarrow> 24 \<le> x \<and> x \<le> 1023"
| "initially_free pe slots PioPool x \<longleftrightarrow> x \<le> 0xffff"
| "initially_free pe slots MmioPool x \<longleftrightarrow> 0xc0000000 \<le> x \<and> x < 0xfbffffff \<or> x = 0xffffffff \<or>
     pe div 2 < x \<and> x \<le> pe"
| "initially_free pe slots MemPool x \<longleftrightarrow> x < 0xc0000000 \<or> 0x100000000 \<le> x \<and> x \<le> pe div 2"
| "initially_free pe slots KvmSlotPool x \<longleftrightarrow> x \<le> (case slots of Some m \<Rightarrow> m | None \<Rightarrow> 509)"

lemma initially_free_iff:
  assumes "GUEST_PHYS_END n = Some pe" "\<forall>m. slots = Some m \<longrightarrow> m \<le> 0xffffffff"
  shows "\<exists>rm. ResourceManager_new pe slots = Some rm \<and> rm_ok rm \<and>
    (\<forall>i x. state_at (pool rm i) x = Some Free \<longleftrightarrow> initially_free pe slots i x)"
proof -
  obtain rm where rm: "ResourceManager_new pe slots = Some rm" "rm_ok rm"
    "\<forall>x. state_at (legacy_irq_pool rm) x = (if 6 \<le> x \<and> x \<le> 15 then Some Free else None)"
    "\<forall>x. state_at (msi_irq_pool rm) x = (if 24 \<le> x \<and> x \<le> 1023 then Some Free else None)"
    "\<forall>x. state_at (pio_pool rm) x = (if x \<le> 0xffff then Some Free else None)"
    "\<forall>x. state_at (mmio_pool rm) x = (if x \<in> addrs reserved_range then Some (Valued ())
      else if MMIO_LOW_START \<le> x \<and> x \<le> MMIO_LOW_END \<or> GUEST_MEM_END pe < x \<and> x \<le> pe
      then Some Free else None)"
    "\<forall>x. state_at (mem_pool rm) x = (if x < MMIO_LOW_START \<or> MMIO_LOW_END < x \<and> x \<le> GUEST_MEM_END pe
      then Some Free else None)"
    "\<forall>x. state_at (kvm_mem_slot_pool rm) x =
      (if x \<le> (case slots of Some m \<Rightarrow> m | None \<Rightarrow> KVM_USER_MEM_SLOTS) then Some Free else None)"
    using ResourceManager_new_ok [OF assms] by blast
  have half: "GUEST_MEM_END pe = pe div 2" by (simp add: GUEST_MEM_END_def drop_bit_eq_div)
  have b: "0xffffffff < unat (pe div 2)" using phys_end_bounds(4) [OF assms(1)] half by simp
  have "state_at (pool rm i) x = Some Free \<longleftrightarrow> initially_free pe slots i x" for i x
    using rm(3-8) b unfolding half
    by (cases i) (auto simp: layout_defs addrs_def word_le_nat_alt word_less_nat_alt word_unat_eq_iff
        split: if_splits option.splits)
  then show ?thesis using rm(1,2) by blast
qed

text \<open>An allocation that could be served is served.\<close>

lemma valued_succeeds:
  assumes "pool_inv_at i t" "satisfies c r" "free_range t r"
  shows "\<exists>r t'. allocate_valued t c = Some (Some r, t')"
proof -
  note inv = pool_inv_atD [OF assms(1)]
  obtain res t' where a: "allocate_valued t c = Some (res, t')"
    using valued_pool.alloc_total [OF inv] by blast
  with valued_pool.alloc_None [OF inv, of c t'] assms(2,3) show ?thesis
    by (cases res) (auto simp: free_range_def)
qed

lemma allocate_valued_lowest:
  assumes "pool_inv_at i t" "allocate_valued t c = Some (Some r, t')" "satisfies c r'" "free_range t r'"
  shows "rmin r \<le> rmin r'"
proof -
  obtain t1 where "IntervalTree_allocate t c = Some (Some r, t1)"
    using assms(2) by (auto simp: allocate_valued_def bind_eq_Some_conv split: option.splits)
  then show ?thesis
    using allocate_pool [of t c] pool_inv_atD [OF assms(1)] assms(3,4) by auto
qed

lemma demo_manager:
  "\<exists>rm. ResourceManager_new demo_pe None = Some rm \<and> rm_ok rm \<and>
    (\<forall>i x. state_at (pool rm i) x = Some Free \<longleftrightarrow> initially_free demo_pe None i x)"
  by (rule initially_free_iff [OF demo_phys_end]) simp

text \<open>A first device with one interrupt gets the first one.\<close>

lemma demo_allocation:
  "\<exists>rm rm'. ResourceManager_new demo_pe None = Some rm \<and> rm_ok rm \<and>
    allocate_device_resources demo_pe rm [GenericIrq 1] False = Some (Inr [MsiIrq GenericMsi 24 1], rm')"
proof -
  obtain rm where rm: "ResourceManager_new demo_pe None = Some rm" "rm_ok rm"
    "\<forall>i x. state_at (pool rm i) x = Some Free \<longleftrightarrow> initially_free demo_pe None i x"
    using demo_manager by blast
  let ?r = "\<lparr>rmin = 24, rmax = 24\<rparr>"
  have sat: "satisfies (Constraint_new 1) ?r"
    by (simp add: satisfies_def Constraint_defs valid_range_def align_ok_trivial)
  moreover have free: "free_range (pool rm MsiIrqPool) ?r"
    unfolding free_range_def rm(3) [rule_format] by (auto simp: addrs_def)
  ultimately obtain r t where a: "allocate_valued (pool rm MsiIrqPool) (Constraint_new 1) = Some (Some r, t)"
    using valued_succeeds [OF rm_ok_pool [OF rm(2)]] by blast
  have "rmin r \<le> 24"
    using allocate_valued_lowest [OF rm_ok_pool [OF rm(2)] a sat free] by simp
  moreover have "24 \<le> rmin r"
    using allocate_valued_Some(2) [OF rm_ok_pool [OF rm(2)] a] by (simp add: layout_defs)
  ultimately have "rmin r = 24" by (rule order_antisym)
  then have "allocate_device_resources demo_pe rm [GenericIrq 1] False =
      Some (Inr [MsiIrq GenericMsi 24 1], rm\<lparr>msi_irq_pool := t\<rparr>)"
    using a by (simp add: allocate_device_resources_def allocate_msi_irq_def DeviceResources_append_def
        DeviceResources_new_def)
  with rm show ?thesis by blast
qed

section \<open>Properties\<close>










text \<open>C12: a group of memory slots larger than one cannot be given back: only its first slot is
  reported, and freeing that slot panics because the pool holds the whole group as one range.\<close>

theorem kvm_slot_group_panics:
  assumes "rm_ok self" "1 < sz" "allocate_kvm_mem_slot self sz fixed = Some (Some slot, self')"
  shows "free_kvm_mem_slot self' slot = None"
proof -
  obtain c r t where a: "allocate_valued (pool self KvmSlotPool) c = Some (Some r, t)" "c_size c = ucast sz"
      "slot = ucast (rmin r)" "self' = set_pool self KvmSlotPool t"
    using assms(3) by (auto simp: allocate_kvm_mem_slot_def Constraint_defs Let_def bind_eq_Some_conv
        split: option.splits)
  note w = allocate_valued_Some [OF rm_ok_pool [OF assms(1)] a(1)]
  note inv = pool_inv_atD [OF rm_ok_pool [OF assms(1)]]
  have tok: "pool_ok t" using valued_pool.alloc_total [OF inv, of KvmSlotPool c] a(1) by auto
  have "held t r = Some (Valued ())" using valued_pool.alloc_Some [OF inv a(1)] by simp
  then have e: "(r, Valued ()) \<in> entries t" using held_iff [of t r "Valued ()"] tok by (simp add: pool_ok_def)
  let ?k = "\<lparr>rmin = rmin r, rmax = rmin r\<rparr>"
  have cast: "ucast slot = rmin r" unfolding a(3)
    using pool_cast [OF rm_ok_pool [OF assms(1)] a(1), where 'a = 32] by simp
  have sz: "unat (rmax r) + 1 = unat (rmin r) + unat sz" "rmin r \<le> rmax r"
    using w(1) a(2) by (auto simp: satisfies_def valid_range_def unat_up)
  have "1 < unat sz" using assms(2) by (simp add: word_less_nat_alt)
  then have ne: "rmax r \<noteq> rmin r" using sz(1) by auto
  have int: "Range_intersect r ?k" using sz(2) by (simp add: Range_intersect_def)
  have "(?k, s) \<notin> entries t" for s
  proof
    assume k: "(?k, s) \<in> entries t"
    have "tree_ok t" using tok by (simp add: pool_ok_def)
    from entries_overlap(1) [OF this e k, of "rmin r"] ne sz(2) show False
      by (cases r) (simp add: addrs_def)
  qed
  then have "IntervalTree_get t ?k = None"
    using IntervalTree_get_ok [of t ?k] tok by (cases "IntervalTree_get t ?k") (auto simp: pool_ok_def)
  moreover have "rmin r \<noteq> u64_MAX" using w(3) by auto
  ultimately have "IntervalTree_free t ?k = None"
    using IntervalTree_free_foreign [OF tok _ _ _ e, of ?k] int by (simp add: valid_range_def)
  then show ?thesis using a(4) cast \<open>rmin r \<noteq> u64_MAX\<close>
    by (simp add: free_kvm_mem_slot_def Range_new_def)
qed

theorem kvm_slot_group_panics_witness:
  "\<exists>rm rm' slot. ResourceManager_new demo_pe None = Some rm \<and>
    allocate_kvm_mem_slot rm 2 None = Some (Some slot, rm') \<and> free_kvm_mem_slot rm' slot = None"
proof -
  obtain rm where rm: "ResourceManager_new demo_pe None = Some rm" "rm_ok rm"
    "\<forall>i x. state_at (pool rm i) x = Some Free \<longleftrightarrow> initially_free demo_pe None i x"
    using demo_manager by blast
  have "satisfies (Constraint_new 2) \<lparr>rmin = 0, rmax = 1\<rparr>"
    by (simp add: satisfies_def Constraint_defs valid_range_def align_ok_trivial)
  moreover have "free_range (pool rm KvmSlotPool) \<lparr>rmin = 0, rmax = 1\<rparr>"
    unfolding free_range_def rm(3) [rule_format] by (auto simp: addrs_def word_le_nat_alt)
  ultimately obtain r t where "allocate_valued (pool rm KvmSlotPool) (Constraint_new 2) = Some (Some r, t)"
    using valued_succeeds [OF rm_ok_pool [OF rm(2)]] by blast
  then have a: "allocate_kvm_mem_slot rm 2 None = Some (Some (ucast (rmin r)), rm\<lparr>kvm_mem_slot_pool := t\<rparr>)"
    by (simp add: allocate_kvm_mem_slot_def Let_def)
  then show ?thesis using kvm_slot_group_panics [OF rm(2) _ a] rm(1) a by auto
qed

text \<open>C13: the last port can be allocated while it is free, but it is never given back: freeing it
  reports an invalid range, because the end of the range is computed before the check.\<close>

theorem pio_top_leaks:
  assumes "rm_ok self" "state_at (pio_pool self) 0xffff = Some Free"
  shows "\<exists>self'. allocate_pio_address self (Constraint_max (Constraint_min (Constraint_new 1) 0xffff) 0xffff)
      = Some (Some 0xffff, self') \<and>
    free_pio_address self' 0xffff 1 = Some (Inl (InvalidResourceRange ''PIO Address''), self')"
proof -
  let ?c = "Constraint_max (Constraint_min (Constraint_new 1) 0xffff) 0xffff"
  have "satisfies ?c \<lparr>rmin = 0xffff, rmax = 0xffff\<rparr>"
    by (simp add: satisfies_def Constraint_defs valid_range_def align_ok_trivial)
  moreover have "free_range (pio_pool self) \<lparr>rmin = 0xffff, rmax = 0xffff\<rparr>"
    using assms(2) by (auto simp: free_range_def addrs_def)
  ultimately obtain r t where a: "allocate_valued (pool self PioPool) ?c = Some (Some r, t)"
    using valued_succeeds [OF rm_ok_pool [OF assms(1), of PioPool], of ?c] by fastforce
  have "rmin r \<le> rmax r" "0xffff \<le> rmin r" "rmax r \<le> 0xffff"
    using allocate_valued_Some(1) [OF rm_ok_pool [OF assms(1)] a]
    by (auto simp: satisfies_def Constraint_defs valid_range_def)
  then have "rmin r = 0xffff" by (meson order_antisym order_trans)
  with a show ?thesis
    by (simp add: allocate_pio_address_def free_pio_address_def checked_add_def)
qed

theorem pio_top_leaks_witness:
  "\<exists>rm rm'. ResourceManager_new demo_pe None = Some rm \<and>
    allocate_pio_address rm (Constraint_max (Constraint_min (Constraint_new 1) 0xffff) 0xffff)
      = Some (Some 0xffff, rm') \<and>
    free_pio_address rm' 0xffff 1 = Some (Inl (InvalidResourceRange ''PIO Address''), rm')"
proof -
  obtain rm where rm: "ResourceManager_new demo_pe None = Some rm" "rm_ok rm"
    "\<forall>i x. state_at (pool rm i) x = Some Free \<longleftrightarrow> initially_free demo_pe None i x"
    using demo_manager by blast
  show ?thesis using pio_top_leaks [OF rm(2)] rm(3) [rule_format, of PioPool] rm(1) by auto
qed

end
