(* ===== verification/Vsock_Packet.thy ===== *)
theory Vsock_Packet
  imports Rust_Prelude
begin

text \<open>
  The packets of the vsock device (\<open>vsock/packet.rs\<close> and the constants and errors of
  \<open>vsock/mod.rs\<close>): the header as the C struct it is, its bytes in guest memory, and the checks that
  turn a chain of virtio descriptors into a packet.

  A packet is a snapshot of the guest memory it points to. The descriptor chain and the guest
  memory come from the crates \<open>virtio_queue\<close> and \<open>vm_memory\<close>: a chain is the list of descriptors
  its iterator yields, the memory a record of the operations used here.
\<close>

section \<open>Constants and errors\<close>

definition RXQ_EVENT :: u32 where "RXQ_EVENT = 0"
definition TXQ_EVENT :: u32 where "TXQ_EVENT = 1"
definition EVQ_EVENT :: u32 where "EVQ_EVENT = 2"
definition BACKEND_EVENT :: u32 where "BACKEND_EVENT = 3"
definition MAX_PKT_BUF_SIZE :: nat where "MAX_PKT_BUF_SIZE = 64 * 1024"

definition VSOCK_OP_REQUEST :: u16 where "VSOCK_OP_REQUEST = 1"
definition VSOCK_OP_RESPONSE :: u16 where "VSOCK_OP_RESPONSE = 2"
definition VSOCK_OP_RST :: u16 where "VSOCK_OP_RST = 3"
definition VSOCK_OP_SHUTDOWN :: u16 where "VSOCK_OP_SHUTDOWN = 4"
definition VSOCK_OP_RW :: u16 where "VSOCK_OP_RW = 5"
definition VSOCK_OP_CREDIT_UPDATE :: u16 where "VSOCK_OP_CREDIT_UPDATE = 6"
definition VSOCK_OP_CREDIT_REQUEST :: u16 where "VSOCK_OP_CREDIT_REQUEST = 7"
definition VSOCK_FLAGS_SHUTDOWN_RCV :: u32 where "VSOCK_FLAGS_SHUTDOWN_RCV = 1"
definition VSOCK_FLAGS_SHUTDOWN_SEND :: u32 where "VSOCK_FLAGS_SHUTDOWN_SEND = 2"
definition VSOCK_TYPE_STREAM :: u16 where "VSOCK_TYPE_STREAM = 1"
definition VSOCK_HOST_CID :: u64 where "VSOCK_HOST_CID = 2"
definition VSOCK_PKT_HDR_SIZE :: nat where "VSOCK_PKT_HDR_SIZE = 44"

lemmas vsock_op_defs = VSOCK_OP_REQUEST_def VSOCK_OP_RESPONSE_def VSOCK_OP_RST_def
  VSOCK_OP_SHUTDOWN_def VSOCK_OP_RW_def VSOCK_OP_CREDIT_UPDATE_def VSOCK_OP_CREDIT_REQUEST_def

lemmas vsock_flag_defs = VSOCK_FLAGS_SHUTDOWN_RCV_def VSOCK_FLAGS_SHUTDOWN_SEND_def

text \<open>Errors of \<open>std::io\<close>: the only kind the code tells apart is \<open>WouldBlock\<close>.\<close>

datatype IoError = WouldBlock | OtherIoError

datatype VsockError =
    Backend IoError
  | BufDescMissing
  | BufDescTooSmall
  | GuestMemoryError string
  | GuestMemoryBounds u64 nat
  | HdrDescTooSmall u32
  | InvalidPktLen u32
  | MuxerError string
  | NoData
  | PktBufMissing
  | UnreadableDescriptor
  | UnwritableDescriptor

section \<open>The header\<close>

record VsockPacketHdr =
  h_src_cid :: u64
  h_dst_cid :: u64
  h_src_port :: u32
  h_dst_port :: u32
  h_len :: u32
  h_type :: u16
  h_op :: u16
  h_flags :: u32
  h_buf_alloc :: u32
  h_fwd_cnt :: u32

definition VsockPacketHdr_default :: VsockPacketHdr where
  "VsockPacketHdr_default = \<lparr>h_src_cid = 0, h_dst_cid = 0, h_src_port = 0, h_dst_port = 0, h_len = 0,
     h_type = 0, h_op = 0, h_flags = 0, h_buf_alloc = 0, h_fwd_cnt = 0\<rparr>"

text \<open>The header as it lies in guest memory, and what dereferencing a pointer to it yields.\<close>

definition hdr_as_slice :: "VsockPacketHdr \<Rightarrow> u8 list" where
  "hdr_as_slice h = le_bytes 8 (h_src_cid h) @ le_bytes 8 (h_dst_cid h) @ le_bytes 4 (h_src_port h) @
     le_bytes 4 (h_dst_port h) @ le_bytes 4 (h_len h) @ le_bytes 2 (h_type h) @ le_bytes 2 (h_op h) @
     le_bytes 4 (h_flags h) @ le_bytes 4 (h_buf_alloc h) @ le_bytes 4 (h_fwd_cnt h)"

definition bytes_at :: "nat \<Rightarrow> nat \<Rightarrow> u8 list \<Rightarrow> u8 list" where
  "bytes_at ofs n bs = take n (drop ofs bs)"

definition hdr_deref :: "u8 list \<Rightarrow> VsockPacketHdr" where
  "hdr_deref bs = \<lparr>h_src_cid = le_word (bytes_at 0 8 bs), h_dst_cid = le_word (bytes_at 8 8 bs),
     h_src_port = le_word (bytes_at 16 4 bs), h_dst_port = le_word (bytes_at 20 4 bs),
     h_len = le_word (bytes_at 24 4 bs), h_type = le_word (bytes_at 28 2 bs),
     h_op = le_word (bytes_at 30 2 bs), h_flags = le_word (bytes_at 32 4 bs),
     h_buf_alloc = le_word (bytes_at 36 4 bs), h_fwd_cnt = le_word (bytes_at 40 4 bs)\<rparr>"

section \<open>Packets\<close>

record VsockPacket =
  pkt_hdr :: VsockPacketHdr
  pkt_buf :: "u8 list option"

definition pkt_src_cid :: "VsockPacket \<Rightarrow> u64" where "pkt_src_cid pkt = h_src_cid (pkt_hdr pkt)"
definition pkt_dst_cid :: "VsockPacket \<Rightarrow> u64" where "pkt_dst_cid pkt = h_dst_cid (pkt_hdr pkt)"
definition pkt_src_port :: "VsockPacket \<Rightarrow> u32" where "pkt_src_port pkt = h_src_port (pkt_hdr pkt)"
definition pkt_dst_port :: "VsockPacket \<Rightarrow> u32" where "pkt_dst_port pkt = h_dst_port (pkt_hdr pkt)"
definition pkt_len :: "VsockPacket \<Rightarrow> u32" where "pkt_len pkt = h_len (pkt_hdr pkt)"
definition pkt_type :: "VsockPacket \<Rightarrow> u16" where "pkt_type pkt = h_type (pkt_hdr pkt)"
definition pkt_op :: "VsockPacket \<Rightarrow> u16" where "pkt_op pkt = h_op (pkt_hdr pkt)"
definition pkt_flags :: "VsockPacket \<Rightarrow> u32" where "pkt_flags pkt = h_flags (pkt_hdr pkt)"
definition pkt_buf_alloc :: "VsockPacket \<Rightarrow> u32" where "pkt_buf_alloc pkt = h_buf_alloc (pkt_hdr pkt)"
definition pkt_fwd_cnt :: "VsockPacket \<Rightarrow> u32" where "pkt_fwd_cnt pkt = h_fwd_cnt (pkt_hdr pkt)"

definition set_src_cid :: "u64 \<Rightarrow> VsockPacket \<Rightarrow> VsockPacket" where
  "set_src_cid v pkt = pkt\<lparr>pkt_hdr := (pkt_hdr pkt)\<lparr>h_src_cid := v\<rparr>\<rparr>"
definition set_dst_cid :: "u64 \<Rightarrow> VsockPacket \<Rightarrow> VsockPacket" where
  "set_dst_cid v pkt = pkt\<lparr>pkt_hdr := (pkt_hdr pkt)\<lparr>h_dst_cid := v\<rparr>\<rparr>"
definition set_src_port :: "u32 \<Rightarrow> VsockPacket \<Rightarrow> VsockPacket" where
  "set_src_port v pkt = pkt\<lparr>pkt_hdr := (pkt_hdr pkt)\<lparr>h_src_port := v\<rparr>\<rparr>"
definition set_dst_port :: "u32 \<Rightarrow> VsockPacket \<Rightarrow> VsockPacket" where
  "set_dst_port v pkt = pkt\<lparr>pkt_hdr := (pkt_hdr pkt)\<lparr>h_dst_port := v\<rparr>\<rparr>"
definition set_len :: "u32 \<Rightarrow> VsockPacket \<Rightarrow> VsockPacket" where
  "set_len v pkt = pkt\<lparr>pkt_hdr := (pkt_hdr pkt)\<lparr>h_len := v\<rparr>\<rparr>"
definition set_type :: "u16 \<Rightarrow> VsockPacket \<Rightarrow> VsockPacket" where
  "set_type v pkt = pkt\<lparr>pkt_hdr := (pkt_hdr pkt)\<lparr>h_type := v\<rparr>\<rparr>"
definition set_op :: "u16 \<Rightarrow> VsockPacket \<Rightarrow> VsockPacket" where
  "set_op v pkt = pkt\<lparr>pkt_hdr := (pkt_hdr pkt)\<lparr>h_op := v\<rparr>\<rparr>"
definition set_flags :: "u32 \<Rightarrow> VsockPacket \<Rightarrow> VsockPacket" where
  "set_flags v pkt = pkt\<lparr>pkt_hdr := (pkt_hdr pkt)\<lparr>h_flags := v\<rparr>\<rparr>"
definition set_flag :: "u32 \<Rightarrow> VsockPacket \<Rightarrow> VsockPacket" where
  "set_flag v pkt = set_flags (pkt_flags pkt OR v) pkt"
definition set_buf_alloc :: "u32 \<Rightarrow> VsockPacket \<Rightarrow> VsockPacket" where
  "set_buf_alloc v pkt = pkt\<lparr>pkt_hdr := (pkt_hdr pkt)\<lparr>h_buf_alloc := v\<rparr>\<rparr>"
definition set_fwd_cnt :: "u32 \<Rightarrow> VsockPacket \<Rightarrow> VsockPacket" where
  "set_fwd_cnt v pkt = pkt\<lparr>pkt_hdr := (pkt_hdr pkt)\<lparr>h_fwd_cnt := v\<rparr>\<rparr>"

lemmas pkt_get_defs = pkt_src_cid_def pkt_dst_cid_def pkt_src_port_def pkt_dst_port_def pkt_len_def
  pkt_type_def pkt_op_def pkt_flags_def pkt_buf_alloc_def pkt_fwd_cnt_def

lemmas pkt_set_defs = set_src_cid_def set_dst_cid_def set_src_port_def set_dst_port_def set_len_def
  set_type_def set_op_def set_flags_def set_flag_def set_buf_alloc_def set_fwd_cnt_def

section \<open>Packets from descriptor chains\<close>

record Descriptor =
  desc_addr :: u64
  desc_len :: u32
  desc_write_only :: bool

record GuestMemory =
  checked_offset :: "u64 \<Rightarrow> nat \<Rightarrow> u64 option"
  get_host_address :: "u64 \<Rightarrow> string + nat"
  host_bytes :: "nat \<Rightarrow> nat \<Rightarrow> u8 list"

definition hdr_from_virtq_desc :: "GuestMemory \<Rightarrow> Descriptor \<Rightarrow> VsockError + VsockPacketHdr" where
  "hdr_from_virtq_desc mem desc =
     (if unat (desc_len desc) < VSOCK_PKT_HDR_SIZE then Inl (HdrDescTooSmall (desc_len desc))
      else case checked_offset mem (desc_addr desc) VSOCK_PKT_HDR_SIZE of
        None \<Rightarrow> Inl (GuestMemoryBounds (desc_addr desc) VSOCK_PKT_HDR_SIZE)
      | Some _ \<Rightarrow>
          (case get_host_address mem (desc_addr desc) of
             Inl e \<Rightarrow> Inl (GuestMemoryError e)
           | Inr ptr \<Rightarrow> Inr (hdr_deref (host_bytes mem ptr VSOCK_PKT_HDR_SIZE))))"

definition buf_from_virtq_desc :: "GuestMemory \<Rightarrow> Descriptor \<Rightarrow> VsockError + u8 list" where
  "buf_from_virtq_desc mem desc =
     (case checked_offset mem (desc_addr desc) (unat (desc_len desc)) of
        None \<Rightarrow> Inl (GuestMemoryBounds (desc_addr desc) (unat (desc_len desc)))
      | Some _ \<Rightarrow>
          (case get_host_address mem (desc_addr desc) of
             Inl e \<Rightarrow> Inl (GuestMemoryError e)
           | Inr ptr \<Rightarrow> Inr (host_bytes mem ptr (unat (desc_len desc)))))"

definition from_tx_virtq_head :: "GuestMemory \<Rightarrow> Descriptor list \<Rightarrow> VsockError + VsockPacket" where
  "from_tx_virtq_head mem desc_chain =
     (case desc_chain of
        [] \<Rightarrow> Inl BufDescMissing
      | desc # rest \<Rightarrow>
          if desc_write_only desc then Inl UnreadableDescriptor
          else case hdr_from_virtq_desc mem desc of
            Inl e \<Rightarrow> Inl e
          | Inr hdr \<Rightarrow>
              if unat (h_len hdr) > MAX_PKT_BUF_SIZE then Inl (InvalidPktLen (h_len hdr))
              else if h_len hdr = 0 then Inr \<lparr>pkt_hdr = hdr, pkt_buf = None\<rparr>
              else case rest of
                [] \<Rightarrow> Inl BufDescMissing
              | buf_desc # _ \<Rightarrow>
                  if desc_write_only buf_desc then Inl UnreadableDescriptor
                  else if desc_len buf_desc < h_len hdr then Inl BufDescTooSmall
                  else case buf_from_virtq_desc mem buf_desc of
                    Inl e \<Rightarrow> Inl e
                  | Inr buf \<Rightarrow> Inr \<lparr>pkt_hdr = hdr, pkt_buf = Some buf\<rparr>)"

definition from_rx_virtq_head :: "GuestMemory \<Rightarrow> Descriptor list \<Rightarrow> VsockError + VsockPacket" where
  "from_rx_virtq_head mem desc_chain =
     (case desc_chain of
        [] \<Rightarrow> Inl BufDescMissing
      | desc # rest \<Rightarrow>
          if \<not> desc_write_only desc then Inl UnwritableDescriptor
          else case hdr_from_virtq_desc mem desc of
            Inl e \<Rightarrow> Inl e
          | Inr hdr \<Rightarrow>
              (case rest of
                 [] \<Rightarrow> Inl BufDescMissing
               | buf_desc # _ \<Rightarrow>
                   if \<not> desc_write_only buf_desc then Inl UnwritableDescriptor
                   else case buf_from_virtq_desc mem buf_desc of
                     Inl e \<Rightarrow> Inl e
                   | Inr buf \<Rightarrow> Inr \<lparr>pkt_hdr = hdr, pkt_buf = Some buf\<rparr>))"

section \<open>Reading back\<close>

text \<open>What the guest memory is relied on for: a read of some length yields that many bytes.\<close>

definition memory_reads :: "GuestMemory \<Rightarrow> bool" where
  "memory_reads mem \<longleftrightarrow> (\<forall>ptr n. length (host_bytes mem ptr n) = n)"

text \<open>A packet whose data is inside its buffer, and whose header announces data exactly if it has
  one.\<close>

definition tx_packet_ok :: "VsockPacket \<Rightarrow> bool" where
  "tx_packet_ok pkt \<longleftrightarrow> unat (pkt_len pkt) \<le> MAX_PKT_BUF_SIZE \<and>
     (case pkt_buf pkt of None \<Rightarrow> pkt_len pkt = 0
      | Some buf \<Rightarrow> 0 < pkt_len pkt \<and> unat (pkt_len pkt) \<le> length buf)"

lemma hdr_deref_as_slice: "hdr_deref (hdr_as_slice h) = h"
  by (cases h) (simp add: hdr_deref_def hdr_as_slice_def bytes_at_def le_word_bytes)

lemma from_tx_ok:
  assumes "memory_reads mem" "from_tx_virtq_head mem descs = Inr pkt"
  shows "tx_packet_ok pkt"
  using assms
  by (auto simp: from_tx_virtq_head_def tx_packet_ok_def pkt_len_def buf_from_virtq_desc_def memory_reads_def
      word_le_nat_alt word_less_nat_alt unat_gt_0 split: list.splits if_splits sum.splits option.splits)

end
