(* ===== verification/Vsock_TxBuf.thy ===== *)
theory Vsock_TxBuf
  imports Vsock_Packet
begin

text \<open>
  The ring buffer of a vsock connection (\<open>vsock/csm/txbuf.rs\<close>) and its refinement: the buffer
  implements a bounded queue of bytes. The offsets \<open>head\<close> and \<open>tail\<close> are 32-bit counters that wrap
  around; slices and lengths are lists and natural numbers.

  The sink of \<open>flush_to\<close> is any \<open>std::io::Write\<close>: an argument, with a ghost function for the bytes
  it has accepted.
\<close>

section \<open>Slices\<close>

text \<open>\<open>dst[ofs..ofs + src.len()].copy_from_slice(src)\<close> and \<open>src[from..to]\<close>; both panic out of range.\<close>

definition copy_into :: "'a list \<Rightarrow> nat \<Rightarrow> 'a list \<Rightarrow> 'a list rust" where
  "copy_into dst ofs src =
     (if ofs + length src \<le> length dst then ret (take ofs dst @ src @ drop (ofs + length src) dst)
      else panic)"

definition subslice :: "'a list \<Rightarrow> nat \<Rightarrow> nat \<Rightarrow> 'a list rust" where
  "subslice src from to =
     (if from \<le> to \<and> to \<le> length src then ret (take (to - from) (drop from src)) else panic)"

section \<open>The ring buffer\<close>

text \<open>Errors of the connection state machine (\<open>csm/mod.rs\<close>).\<close>

datatype CsmError = TxBufFull | TxBufFlush IoError | StreamWrite IoError

definition CONN_TX_BUF_SIZE :: u32 where "CONN_TX_BUF_SIZE = 64 * 1024"

record TxBuf =
  tx_data :: "u8 list option"
  tx_head :: u32
  tx_tail :: u32

definition TxBuf_SIZE :: nat where "TxBuf_SIZE = unat CONN_TX_BUF_SIZE"

definition TxBuf_default :: TxBuf where
  "TxBuf_default = \<lparr>tx_data = None, tx_head = 0, tx_tail = 0\<rparr>"

definition TxBuf_len :: "TxBuf \<Rightarrow> nat" where
  "TxBuf_len self = unat (tx_head self - tx_tail self)"

definition TxBuf_is_empty :: "TxBuf \<Rightarrow> bool" where
  "TxBuf_is_empty self \<longleftrightarrow> TxBuf_len self = 0"

definition TxBuf_push :: "TxBuf \<Rightarrow> u8 list \<Rightarrow> ((CsmError + unit) \<times> TxBuf) rust" where
  "TxBuf_push self src =
     (if TxBuf_len self + length src > TxBuf_SIZE then ret (Inl TxBufFull, self)
      else do {
        let data = (case tx_data self of Some d \<Rightarrow> d | None \<Rightarrow> replicate TxBuf_SIZE 0);
        let head_ofs = unat (tx_head self) mod TxBuf_SIZE;
        let len = min (TxBuf_SIZE - head_ofs) (length src);
        data \<leftarrow> copy_into data head_ofs (take len src);
        data \<leftarrow> (if len < length src then copy_into data 0 (drop len src) else ret data);
        ret (Inr (), self\<lparr>tx_data := Some data, tx_head := tx_head self + of_nat (length src)\<rparr>)
      })"

text \<open>\<open>flush_to\<close> calls itself for the second write. Nothing in the code bounds the recursion: it
  ends because a sink never claims to have written more than it was given.\<close>

partial_function (option) flush_to ::
  "('s \<Rightarrow> u8 list \<Rightarrow> (IoError + nat) \<times> 's) \<Rightarrow> TxBuf \<Rightarrow> 's \<Rightarrow> ((CsmError + nat) \<times> TxBuf \<times> 's) rust" where
  "flush_to wr self sink =
     (if TxBuf_is_empty self then ret (Inr 0, self, sink)
      else do {
        let tail_ofs = unat (tx_tail self) mod TxBuf_SIZE;
        let len_to_write = min (TxBuf_SIZE - tail_ofs) (TxBuf_len self);
        data \<leftarrow> tx_data self;
        chunk \<leftarrow> subslice data tail_ofs (tail_ofs + len_to_write);
        (case wr sink chunk of
           (Inl e, sink) \<Rightarrow> ret (Inl (TxBufFlush e), self, sink)
         | (Inr written, sink) \<Rightarrow> do {
             let self = self\<lparr>tx_tail := tx_tail self + of_nat written\<rparr>;
             if written < len_to_write then ret (Inr written, self, sink)
             else do {
               (r, self, sink) \<leftarrow> flush_to wr self sink;
               ret (Inr (written + (case r of Inr n \<Rightarrow> n | Inl _ \<Rightarrow> 0)), self, sink)
             }
           })
      })"

section \<open>The queue it implements\<close>

text \<open>The invariant, and the bytes the buffer holds, oldest first.\<close>

definition txbuf_ok :: "TxBuf \<Rightarrow> bool" where
  "txbuf_ok self \<longleftrightarrow> TxBuf_len self \<le> TxBuf_SIZE \<and>
     (case tx_data self of None \<Rightarrow> TxBuf_len self = 0 | Some d \<Rightarrow> length d = TxBuf_SIZE)"

definition contents :: "TxBuf \<Rightarrow> u8 list" where
  "contents self =
     (case tx_data self of None \<Rightarrow> []
      | Some d \<Rightarrow> map (\<lambda>i. d ! ((unat (tx_tail self) + i) mod TxBuf_SIZE)) [0..<TxBuf_len self])"

text \<open>What \<open>std::io::Write::write\<close> promises: it accepts a prefix of the slice and reports its
  length, or accepts nothing and reports an error.\<close>

definition sink_ok :: "('s \<Rightarrow> u8 list \<Rightarrow> (IoError + nat) \<times> 's) \<Rightarrow> ('s \<Rightarrow> u8 list) \<Rightarrow> bool" where
  "sink_ok wr accepted \<longleftrightarrow> (\<forall>s bs.
     case wr s bs of
       (Inl _, s') \<Rightarrow> accepted s' = accepted s
     | (Inr n, s') \<Rightarrow> n \<le> length bs \<and> accepted s' = accepted s @ take n bs)"

lemma TxBuf_SIZE_val [simp]: "TxBuf_SIZE = 65536"
  by (simp add: TxBuf_SIZE_def CONN_TX_BUF_SIZE_def)

lemma length_contents: "txbuf_ok self \<Longrightarrow> length (contents self) = TxBuf_len self"
  by (auto simp: contents_def txbuf_ok_def split: option.splits)

text \<open>The counters wrap at a multiple of the buffer size.\<close>

lemma unat_add_mod_SIZE: "unat (t + of_nat i :: u32) mod 65536 = (unat t + i) mod 65536"
proof -
  have "unat (t + of_nat i) = (unat t + i) mod 2 ^ 32"
    by (simp add: unat_word_ariths unat_of_nat mod_add_right_eq)
  moreover have "(unat t + i) mod 2 ^ 32 mod 65536 = (unat t + i) mod 65536"
    by (rule mod_mod_cancel) simp
  ultimately show ?thesis by simp
qed

lemma TxBuf_default_ok: "txbuf_ok TxBuf_default" "contents TxBuf_default = []"
  by (simp_all add: txbuf_ok_def TxBuf_default_def TxBuf_len_def contents_def)


section \<open>Pushing\<close>

lemma copy_into_nth:
  assumes "copy_into d ofs src = Some d'"
  shows "length d' = length d"
    "j < length d \<Longrightarrow> d' ! j = (if ofs \<le> j \<and> j < ofs + length src then src ! (j - ofs) else d ! j)"
  using assms by (auto simp: copy_into_def nth_append split: if_splits)

lemma mod_distinct: "a < b \<Longrightarrow> b < a + m \<Longrightarrow> a mod m \<noteq> b mod (m :: nat)"
  using mod_eq_dvd_iff_nat [of a b m] by (auto dest!: dvd_imp_le)

text \<open>Copying a slice into a ring in at most two pieces.\<close>

definition ring_copy :: "'a list \<Rightarrow> nat \<Rightarrow> 'a list \<Rightarrow> 'a list rust" where
  "ring_copy d ofs src = do {
     let len = min (length d - ofs) (length src);
     d \<leftarrow> copy_into d ofs (take len src);
     if len < length src then copy_into d 0 (drop len src) else ret d
   }"

lemma ring_copy_nth:
  assumes "ofs < length d" "length src \<le> length d"
  shows "\<exists>d'. ring_copy d ofs src = Some d' \<and> length d' = length d \<and>
    (\<forall>k < length src. d' ! ((ofs + k) mod length d) = src ! k) \<and>
    (\<forall>j < length d. (\<forall>k < length src. j \<noteq> (ofs + k) mod length d) \<longrightarrow> d' ! j = d ! j)"
proof -
  let ?S = "length d" and ?len = "min (length d - ofs) (length src)"
  have "copy_into d ofs (take ?len src) \<noteq> None" using assms by (auto simp: copy_into_def)
  then obtain d1 where d1: "copy_into d ofs (take ?len src) = Some d1" by blast
  have l1: "length d1 = ?S" and n1: "j < ?S \<Longrightarrow>
      d1 ! j = (if ofs \<le> j \<and> j < ofs + ?len then src ! (j - ofs) else d ! j)" for j
    using copy_into_nth(1) [OF d1] copy_into_nth(2) [OF d1, of j] by (auto intro!: nth_take)
  have sub: "k < ?S - ofs \<Longrightarrow> (ofs + k) mod ?S = ofs + k" "?S - ofs \<le> k \<Longrightarrow> k < length src \<Longrightarrow>
      (ofs + k) mod ?S = k - (?S - ofs)" for k
    using assms by (auto simp: mod_if)
  show ?thesis
  proof (cases "?len < length src")
    case False
    then have "length src \<le> ?S - ofs" by auto
    moreover have "d1 ! j = d ! j" if j: "j < ?S" "\<forall>k < length src. j \<noteq> (ofs + k) mod ?S" for j
    proof -
      have "\<not> (ofs \<le> j \<and> j < ofs + length src)" using j(1) j(2) [rule_format, of "j - ofs"]
        by (cases "j - ofs < length src") auto
      then show ?thesis using n1 [OF j(1)] by auto
    qed
    ultimately show ?thesis using d1 l1 n1 sub(1) False
      by (intro exI [of _ d1]) (auto simp: ring_copy_def Let_def)
  next
    case True
    then have len: "?len = ?S - ofs" by auto
    have "copy_into d1 0 (drop ?len src) \<noteq> None" using assms l1 by (auto simp: copy_into_def)
    then obtain d2 where d2: "copy_into d1 0 (drop ?len src) = Some d2" by blast
    have n2: "length d2 = ?S" "j < ?S \<Longrightarrow>
        d2 ! j = (if j < length src - ?len then src ! (?len + j) else d1 ! j)" for j
      using copy_into_nth [OF d2] l1 True by auto
    have "d2 ! ((ofs + k) mod ?S) = src ! k" if k: "k < length src" for k
    proof (cases "k < ?S - ofs")
      case True
      then have "\<not> ofs + k < length src - (?S - ofs)" using assms by auto
      then show ?thesis using True sub(1) [OF True] n2(2) n1 len assms by auto
    next
      case False
      then show ?thesis using sub(2) [of k] k n2(2) [of "k - (?S - ofs)"] len assms by auto
    qed
    moreover have "d2 ! j = d ! j" if j: "j < ?S" "\<forall>k < length src. j \<noteq> (ofs + k) mod ?S" for j
    proof -
      have "\<not> (ofs \<le> j \<and> j < ofs + ?len)"
        using j(1) j(2) [rule_format, of "j - ofs"] by (cases "j - ofs < length src") auto
      moreover have "\<not> j < length src - ?len"
      proof
        assume "j < length src - ?len"
        then have k: "j + (?S - ofs) < length src" using len by linarith
        from j(2) [rule_format, OF k] sub(2) [OF _ k] show False by simp
      qed
      ultimately show ?thesis using n2(2) [OF j(1)] n1 [OF j(1)] by auto
    qed
    moreover have "ring_copy d ofs src = Some d2" using d1 d2 True len by (auto simp: ring_copy_def Let_def)
    ultimately show ?thesis using n2(1) by auto
  qed
qed

lemma TxBuf_head: "tx_head self = tx_tail self + of_nat (TxBuf_len self)"
  by (simp add: TxBuf_len_def)

lemma TxBuf_push_ring:
  assumes "TxBuf_len self + length src \<le> TxBuf_SIZE"
    "d = (case tx_data self of Some d \<Rightarrow> d | None \<Rightarrow> replicate TxBuf_SIZE 0)" "length d = TxBuf_SIZE"
  shows "TxBuf_push self src = map_option (\<lambda>d.
      (Inr (), self\<lparr>tx_data := Some d, tx_head := tx_head self + of_nat (length src)\<rparr>))
    (ring_copy d (unat (tx_head self) mod TxBuf_SIZE) src)"
  using assms(1) unfolding TxBuf_push_def ring_copy_def Let_def assms(2) [symmetric] assms(3)
  by (simp split: bind_splits)

lemma TxBuf_push_ok:
  assumes "txbuf_ok self"
  shows "\<exists>result self'. TxBuf_push self src = Some (result, self') \<and> txbuf_ok self' \<and>
    (if length (contents self) + length src \<le> TxBuf_SIZE
     then result = Inr () \<and> contents self' = contents self @ src
     else result = Inl TxBufFull \<and> self' = self)"
proof (cases "TxBuf_len self + length src \<le> TxBuf_SIZE")
  case False
  then show ?thesis using assms length_contents [OF assms] by (simp add: TxBuf_push_def)
next
  case True
  define d where "d = (case tx_data self of Some d \<Rightarrow> d | None \<Rightarrow> replicate TxBuf_SIZE 0)"
  let ?t = "unat (tx_tail self)" and ?L = "TxBuf_len self" and ?ofs = "unat (tx_head self) mod TxBuf_SIZE"
  have ld: "length d = 65536" using assms by (auto simp: d_def txbuf_ok_def split: option.splits)
  have ofs: "?ofs = (?t + ?L) mod 65536" unfolding TxBuf_head [of self] using unat_add_mod_SIZE by simp
  obtain d' where d': "ring_copy d ?ofs src = Some d'" "length d' = 65536"
      "\<forall>k < length src. d' ! ((?ofs + k) mod 65536) = src ! k"
      "\<forall>j < 65536. (\<forall>k < length src. j \<noteq> (?ofs + k) mod 65536) \<longrightarrow> d' ! j = d ! j"
    using ring_copy_nth [of ?ofs d src] True ld by auto
  let ?self' = "self\<lparr>tx_data := Some d', tx_head := tx_head self + of_nat (length src)\<rparr>"
  have push: "TxBuf_push self src = Some (Inr (), ?self')"
    using TxBuf_push_ring [OF True d_def] d'(1) ld by simp
  have len': "TxBuf_len ?self' = ?L + length src"
  proof -
    have "TxBuf_len ?self' = unat (of_nat (?L + length src) :: u32)"
      by (simp add: TxBuf_len_def add_diff_eq diff_add_eq)
    also have "\<dots> = ?L + length src" using True by (simp add: unat_of_nat del: of_nat_add)
    finally show ?thesis .
  qed
  have ofs_k: "(?ofs + k) mod 65536 = (?t + ?L + k) mod 65536" for k
    unfolding ofs by (rule mod_add_left_eq)
  have old: "d' ! ((?t + i) mod 65536) = d ! ((?t + i) mod 65536)" if "i < ?L" for i
  proof -
    have "(?t + i) mod 65536 \<noteq> (?ofs + k) mod 65536" if k: "k < length src" for k
      unfolding ofs_k using k \<open>i < ?L\<close> True by (intro mod_distinct) auto
    then show ?thesis using d'(4) by simp
  qed
  have new: "d' ! ((?t + ?L + k) mod 65536) = src ! k" if "k < length src" for k
    using d'(3) that unfolding ofs_k by simp
  have c: "contents self = map (\<lambda>i. d ! ((?t + i) mod 65536)) [0..<?L]"
    using assms by (auto simp: contents_def d_def txbuf_ok_def split: option.splits)
  have c': "contents ?self' = map (\<lambda>i. d' ! ((?t + i) mod 65536)) [0..<?L + length src]"
    unfolding contents_def len' by simp
  have "contents ?self' = contents self @ src"
  proof (rule nth_equalityI)
    show "length (contents ?self') = length (contents self @ src)" unfolding c c' by simp
    fix i assume "i < length (contents ?self')"
    then have i: "i < ?L + length src" unfolding c' by simp
    then show "contents ?self' ! i = (contents self @ src) ! i"
      using old [of i] new [of "i - ?L"] unfolding c c' by (auto simp: nth_append)
  qed
  moreover have "txbuf_ok ?self'" using len' True d'(2) by (simp add: txbuf_ok_def)
  ultimately show ?thesis using push True length_contents [OF assms] by simp
qed


section \<open>Flushing\<close>

text \<open>The first chunk \<open>flush_to\<close> offers is a prefix of the contents, and moving the tail drops it.\<close>

definition first_len :: "TxBuf \<Rightarrow> nat" where
  "first_len self = min (TxBuf_SIZE - unat (tx_tail self) mod TxBuf_SIZE) (TxBuf_len self)"

lemma flush_chunk:
  assumes "txbuf_ok self" "\<not> TxBuf_is_empty self"
  shows "\<exists>d. tx_data self = Some d \<and>
    subslice d (unat (tx_tail self) mod TxBuf_SIZE) (unat (tx_tail self) mod TxBuf_SIZE + first_len self) =
      Some (take (first_len self) (contents self))"
proof -
  let ?t = "unat (tx_tail self) mod 65536" and ?n = "first_len self"
  obtain d where d: "tx_data self = Some d" "length d = 65536"
    using assms by (auto simp: txbuf_ok_def TxBuf_is_empty_def split: option.splits)
  have n: "?t + ?n \<le> 65536" "?n \<le> TxBuf_len self" by (auto simp: first_len_def)
  have "take ?n (drop ?t d) = take ?n (contents self)"
  proof (rule nth_equalityI)
    show "length (take ?n (drop ?t d)) = length (take ?n (contents self))"
      using n d length_contents [OF assms(1)] by simp
    fix i assume "i < length (take ?n (drop ?t d))"
    then have i: "i < ?n" by simp
    then have "(unat (tx_tail self) + i) mod 65536 = ?t + i"
      using n mod_add_left_eq [of "unat (tx_tail self)" 65536 i] by simp
    then show "take ?n (drop ?t d) ! i = take ?n (contents self) ! i"
      using i n d by (simp add: contents_def)
  qed
  then show ?thesis using d n by (simp add: subslice_def)
qed

lemma move_tail:
  assumes "txbuf_ok self" "n \<le> TxBuf_len self"
  defines "self' \<equiv> self\<lparr>tx_tail := tx_tail self + of_nat n\<rparr>"
  shows "txbuf_ok self'" "contents self' = drop n (contents self)" "TxBuf_len self' = TxBuf_len self - n"
proof -
  have "of_nat (TxBuf_len self) = (of_nat (TxBuf_len self - n) + of_nat n :: u32)"
    using assms(2) by (simp flip: of_nat_add)
  then have "tx_head self - tx_tail self' = of_nat (TxBuf_len self - n)"
    unfolding TxBuf_head [of self] self'_def by (simp add: algebra_simps)
  then have "TxBuf_len self' = unat (of_nat (TxBuf_len self - n) :: u32)"
    by (simp add: TxBuf_len_def self'_def)
  also have "\<dots> = TxBuf_len self - n"
    using assms(1) unat_of_nat [of "TxBuf_len self - n", where 'a = 32]
    by (auto simp: txbuf_ok_def intro!: mod_less)
  finally show len: "TxBuf_len self' = TxBuf_len self - n" .
  show "txbuf_ok self'" using assms(1) len by (auto simp: txbuf_ok_def self'_def split: option.splits)
  show "contents self' = drop n (contents self)"
  proof (cases "tx_data self")
    case (Some d)
    have "(unat (tx_tail self') + i) mod 65536 = (unat (tx_tail self) + (n + i)) mod 65536" for i
      using unat_add_mod_SIZE [of "tx_tail self" n] mod_add_left_eq [of "unat (tx_tail self')" 65536 i]
        mod_add_left_eq [of "unat (tx_tail self) + n" 65536 i]
      by (simp add: self'_def add.assoc)
    then show ?thesis using Some len assms(2)
      by (intro nth_equalityI) (auto simp: contents_def self'_def)
  qed (simp add: contents_def self'_def)
qed

lemma sink_okD:
  assumes "sink_ok wr accepted"
  shows "wr s bs = (Inl e, s') \<Longrightarrow> accepted s' = accepted s"
    "wr s bs = (Inr n, s') \<Longrightarrow> n \<le> length bs \<and> accepted s' = accepted s @ take n bs"
  using assms unfolding sink_ok_def by (metis (mono_tags, lifting) case_prod_conv sum.case)+

lemma flush_to_ok:
  assumes "txbuf_ok self" "sink_ok wr accepted"
  shows "\<exists>result self' sink'. flush_to wr self sink = Some (result, self', sink') \<and> txbuf_ok self' \<and>
    (case result of
       Inl e \<Rightarrow> contents self' = contents self \<and> accepted sink' = accepted sink \<and> (\<exists>io. e = TxBufFlush io)
     | Inr n \<Rightarrow> n \<le> length (contents self) \<and> contents self' = drop n (contents self) \<and>
         accepted sink' = accepted sink @ take n (contents self))"
  using assms(1)
proof (induction "TxBuf_len self" arbitrary: self sink rule: less_induct)
  case less
  show ?case
  proof (cases "TxBuf_is_empty self")
    case True
    then show ?thesis using less.prems by (simp add: flush_to.simps)
  next
    case False
    let ?n = "first_len self"
    obtain d where d: "tx_data self = Some d"
        "subslice d (unat (tx_tail self) mod TxBuf_SIZE) (unat (tx_tail self) mod TxBuf_SIZE + ?n) =
          Some (take ?n (contents self))"
      using flush_chunk [OF less.prems False] by blast
    have pos: "0 < ?n" "?n \<le> TxBuf_len self" using False by (auto simp: first_len_def TxBuf_is_empty_def)
    have lc: "length (contents self) = TxBuf_len self" using length_contents [OF less.prems] .
    note step = flush_to.simps [of wr self sink, unfolded Let_def, folded first_len_def]
    obtain res sink1 where w: "wr sink (take ?n (contents self)) = (res, sink1)" by fastforce
    show ?thesis
    proof (cases res)
      case (Inl e)
      then show ?thesis using step False d w less.prems sink_okD(1) [OF assms(2)] by auto
    next
      case (Inr m)
      let ?self1 = "self\<lparr>tx_tail := tx_tail self + of_nat m\<rparr>"
      have m: "m \<le> ?n" "accepted sink1 = accepted sink @ take m (contents self)"
        using sink_okD(2) [OF assms(2) w [unfolded Inr]] pos lc by (auto simp: min_def split: if_splits)
      note mv = move_tail [OF less.prems, of m]
      show ?thesis
      proof (cases "m < ?n")
        case True
        then show ?thesis using step False d w Inr m mv pos lc by auto
      next
        case nm: False
        then obtain r self2 sink2 where r: "flush_to wr ?self1 sink1 = Some (r, self2, sink2)" "txbuf_ok self2"
          "case r of
             Inl e \<Rightarrow> contents self2 = contents ?self1 \<and> accepted sink2 = accepted sink1 \<and> (\<exists>io. e = TxBufFlush io)
           | Inr n \<Rightarrow> n \<le> length (contents ?self1) \<and> contents self2 = drop n (contents ?self1) \<and>
               accepted sink2 = accepted sink1 @ take n (contents ?self1)"
          using less.hyps [of ?self1 sink1] mv pos m by auto
        show ?thesis
        proof (cases r)
          case (Inl e)
          then show ?thesis using r step False d w Inr m mv pos lc nm by auto
        next
          case (Inr b)
          then have b: "b \<le> TxBuf_len self - m" "contents self2 = drop (m + b) (contents self)"
              "accepted sink2 = accepted sink @ take (m + b) (contents self)"
            using r(3) mv m pos lc by (auto simp: take_add add.commute [of b])
          then show ?thesis using r(1,2) step False d w \<open>res = Inr m\<close> Inr m pos lc nm by auto
        qed
      qed
    qed
  qed
qed

end
