(* ===== verification/Vsock_Csm.thy ===== *)
theory Vsock_Csm
  imports Vsock_TxBuf
begin

text \<open>
  The state machine of one vsock connection (\<open>vsock/csm/mod.rs\<close>, \<open>vsock/csm/connection.rs\<close>).

  The host side of a connection is a stream: any object with the \<open>Read\<close> and \<open>Write\<close> of \<open>std::io\<close>,
  given by the two operations of \<open>HostStream\<close> on a stream state. The clock is an argument, in
  milliseconds. Every operation returns \<open>panic\<close> where the source panics, and otherwise its result
  with the new connection and packet.
\<close>

section \<open>Constants and states\<close>

definition CONN_CREDIT_UPDATE_THRESHOLD :: u32 where "CONN_CREDIT_UPDATE_THRESHOLD = 4 * 1024"
definition CONN_REQUEST_TIMEOUT_MS :: nat where "CONN_REQUEST_TIMEOUT_MS = 2000"
definition CONN_SHUTDOWN_TIMEOUT_MS :: nat where "CONN_SHUTDOWN_TIMEOUT_MS = 2000"

datatype ConnState =
    LocalInit
  | PeerInit
  | Established
  | LocalClosed
  | PeerClosed bool bool
  | Killed

section \<open>Pending packets\<close>

datatype PendingRx = Request | Response | Rst | Rw | CreditUpdate

primrec PendingRx_index :: "PendingRx \<Rightarrow> nat" where
  "PendingRx_index Request = 0"
| "PendingRx_index Response = 1"
| "PendingRx_index Rst = 2"
| "PendingRx_index Rw = 3"
| "PendingRx_index CreditUpdate = 4"

definition into_mask :: "PendingRx \<Rightarrow> u16" where
  "into_mask it = push_bit (PendingRx_index it) 1"

record PendingRxSet =
  rx_data :: u16

definition PendingRxSet_insert :: "PendingRxSet \<Rightarrow> PendingRx \<Rightarrow> PendingRxSet" where
  "PendingRxSet_insert self it = self\<lparr>rx_data := rx_data self OR into_mask it\<rparr>"

definition PendingRxSet_contains :: "PendingRxSet \<Rightarrow> PendingRx \<Rightarrow> bool" where
  "PendingRxSet_contains self it \<longleftrightarrow> rx_data self AND into_mask it \<noteq> 0"

definition PendingRxSet_remove :: "PendingRxSet \<Rightarrow> PendingRx \<Rightarrow> bool \<times> PendingRxSet" where
  "PendingRxSet_remove self it =
     (PendingRxSet_contains self it, self\<lparr>rx_data := rx_data self AND NOT (into_mask it)\<rparr>)"

definition PendingRxSet_is_empty :: "PendingRxSet \<Rightarrow> bool" where
  "PendingRxSet_is_empty self \<longleftrightarrow> rx_data self = 0"

definition PendingRxSet_from :: "PendingRx \<Rightarrow> PendingRxSet" where
  "PendingRxSet_from it = \<lparr>rx_data = into_mask it\<rparr>"

section \<open>Connections\<close>

record 's HostStream =
  stream_read :: "'s \<Rightarrow> nat \<Rightarrow> (IoError + u8 list) \<times> 's"
  stream_write :: "'s \<Rightarrow> u8 list \<Rightarrow> (IoError + nat) \<times> 's"

record 's VsockConnection =
  cn_state :: ConnState
  local_cid :: u64
  peer_cid :: u64
  local_port :: u32
  peer_port :: u32
  cn_stream :: 's
  tx_buf :: TxBuf
  fwd_cnt :: u32
  peer_buf_alloc :: u32
  peer_fwd_cnt :: u32
  rx_cnt :: u32
  last_fwd_cnt_to_peer :: u32
  pending_rx :: PendingRxSet
  expiry :: "nat option"

definition new_peer_init :: "'s \<Rightarrow> u64 \<Rightarrow> u64 \<Rightarrow> u32 \<Rightarrow> u32 \<Rightarrow> u32 \<Rightarrow> 's VsockConnection" where
  "new_peer_init stream lcid pcid lport pport buf_alloc =
     \<lparr>cn_state = PeerInit, local_cid = lcid, peer_cid = pcid, local_port = lport, peer_port = pport,
      cn_stream = stream, tx_buf = TxBuf_default, fwd_cnt = 0, peer_buf_alloc = buf_alloc,
      peer_fwd_cnt = 0, rx_cnt = 0, last_fwd_cnt_to_peer = 0,
      pending_rx = PendingRxSet_from Response, expiry = None\<rparr>"

definition new_local_init :: "'s \<Rightarrow> u64 \<Rightarrow> u64 \<Rightarrow> u32 \<Rightarrow> u32 \<Rightarrow> 's VsockConnection" where
  "new_local_init stream lcid pcid lport pport =
     \<lparr>cn_state = LocalInit, local_cid = lcid, peer_cid = pcid, local_port = lport, peer_port = pport,
      cn_stream = stream, tx_buf = TxBuf_default, fwd_cnt = 0, peer_buf_alloc = 0,
      peer_fwd_cnt = 0, rx_cnt = 0, last_fwd_cnt_to_peer = 0,
      pending_rx = PendingRxSet_from Request, expiry = None\<rparr>"

definition will_expire :: "nat \<Rightarrow> 's VsockConnection \<Rightarrow> bool" where
  "will_expire now self = (case expiry self of None \<Rightarrow> False | Some t \<Rightarrow> t > now)"

definition has_expired :: "nat \<Rightarrow> 's VsockConnection \<Rightarrow> bool" where
  "has_expired now self = (case expiry self of None \<Rightarrow> False | Some t \<Rightarrow> t \<le> now)"

definition pend :: "PendingRx \<Rightarrow> 's VsockConnection \<Rightarrow> 's VsockConnection" where
  "pend it self = self\<lparr>pending_rx := PendingRxSet_insert (pending_rx self) it\<rparr>"

definition kill :: "'s VsockConnection \<Rightarrow> 's VsockConnection" where
  "kill self = pend Rst (self\<lparr>cn_state := Killed\<rparr>)"

definition has_pending_rx :: "'s VsockConnection \<Rightarrow> bool" where
  "has_pending_rx self \<longleftrightarrow> \<not> PendingRxSet_is_empty (pending_rx self)"

definition send_bytes_raw ::
  "'s HostStream \<Rightarrow> 's VsockConnection \<Rightarrow> u8 list \<Rightarrow> (CsmError + nat) \<times> 's VsockConnection" where
  "send_bytes_raw io self buf =
     (case stream_write io (cn_stream self) buf of
        (Inl e, s) \<Rightarrow> (Inl (StreamWrite e), self\<lparr>cn_stream := s\<rparr>)
      | (Inr n, s) \<Rightarrow> (Inr n, self\<lparr>cn_stream := s\<rparr>))"

text \<open>\<open>self.tx_buf.push\<close> with the buffer put back.\<close>

definition push_tx ::
  "'s VsockConnection \<Rightarrow> u8 list \<Rightarrow> ((CsmError + unit) \<times> 's VsockConnection) rust" where
  "push_tx self buf = do {
     (r, b) \<leftarrow> TxBuf_push (tx_buf self) buf;
     ret (r, self\<lparr>tx_buf := b\<rparr>)
   }"

definition send_bytes ::
  "'s HostStream \<Rightarrow> 's VsockConnection \<Rightarrow> u8 list \<Rightarrow> ((CsmError + unit) \<times> 's VsockConnection) rust" where
  "send_bytes io self buf =
     (if \<not> TxBuf_is_empty (tx_buf self) then push_tx self buf
      else do {
        let (w, s) = stream_write io (cn_stream self) buf;
        let self = self\<lparr>cn_stream := s\<rparr>;
        let written = (case w of Inr cnt \<Rightarrow> Inr cnt
          | Inl e \<Rightarrow> if e = WouldBlock then Inr 0 else Inl (StreamWrite e));
        (case written of
           Inl e \<Rightarrow> ret (Inl e, self)
         | Inr written \<Rightarrow> do {
             let self = self\<lparr>fwd_cnt := fwd_cnt self + of_nat written\<rparr>;
             if written < length buf then push_tx self (drop written buf) else ret (Inr (), self)
           })
      })"

definition peer_needs_credit_update :: "'s VsockConnection \<Rightarrow> bool" where
  "peer_needs_credit_update self \<longleftrightarrow>
     CONN_TX_BUF_SIZE - (fwd_cnt self - last_fwd_cnt_to_peer self) < CONN_CREDIT_UPDATE_THRESHOLD"

definition peer_avail_credit :: "'s VsockConnection \<Rightarrow> nat" where
  "peer_avail_credit self = unat (peer_buf_alloc self - (rx_cnt self - peer_fwd_cnt self))"

definition need_credit_update_from_peer :: "'s VsockConnection \<Rightarrow> bool" where
  "need_credit_update_from_peer self \<longleftrightarrow> peer_avail_credit self = 0"

definition init_pkt :: "'s VsockConnection \<Rightarrow> VsockPacket \<Rightarrow> VsockPacket" where
  "init_pkt self pkt =
     set_fwd_cnt (fwd_cnt self) (set_buf_alloc CONN_TX_BUF_SIZE (set_type VSOCK_TYPE_STREAM
       (set_dst_port (peer_port self) (set_src_port (local_port self)
         (set_dst_cid (peer_cid self) (set_src_cid (local_cid self)
           (pkt\<lparr>pkt_hdr := VsockPacketHdr_default\<rparr>)))))))"

section \<open>Packets to the guest\<close>

text \<open>\<open>self.pending_rx.remove(it)\<close> with the set put back.\<close>

definition unpend :: "PendingRx \<Rightarrow> 's VsockConnection \<Rightarrow> bool \<times> 's VsockConnection" where
  "unpend it self = (let (r, p) = PendingRxSet_remove (pending_rx self) it in (r, self\<lparr>pending_rx := p\<rparr>))"

definition note_credit :: "'s VsockConnection \<Rightarrow> 's VsockConnection" where
  "note_credit self = self\<lparr>last_fwd_cnt_to_peer := fwd_cnt self\<rparr>"

text \<open>The last step of \<open>recv_pkt\<close>: a credit update if there is nothing else to say.\<close>

definition recv_credit_update ::
  "'s VsockConnection \<Rightarrow> VsockPacket \<Rightarrow> ((VsockError + unit) \<times> 's VsockConnection \<times> VsockPacket) rust" where
  "recv_credit_update self pkt =
     (let (due, self) = unpend CreditUpdate self in
      if due \<and> \<not> has_pending_rx self
      then ret (Inr (), note_credit self, set_op VSOCK_OP_CREDIT_UPDATE pkt)
      else ret (Inl NoData, self, pkt))"

text \<open>The data step: it ends \<open>recv_pkt\<close> unless the stream would block.\<close>

definition recv_rw ::
  "'s HostStream \<Rightarrow> nat \<Rightarrow> 's VsockConnection \<Rightarrow> VsockPacket \<Rightarrow>
     ((VsockError + unit) \<times> 's VsockConnection \<times> VsockPacket) rust" where
  "recv_rw io now self pkt =
     (if \<not> (case cn_state self of Established \<Rightarrow> True | PeerClosed recv_off _ \<Rightarrow> \<not> recv_off | _ \<Rightarrow> False)
      then ret (Inr (), self, set_op VSOCK_OP_RST pkt)
      else if need_credit_update_from_peer self
      then ret (Inr (), note_credit self, set_op VSOCK_OP_CREDIT_REQUEST pkt)
      else case pkt_buf pkt of
        None \<Rightarrow> ret (Inl PktBufMissing, self, pkt)
      | Some buf \<Rightarrow>
          (case stream_read io (cn_stream self) (min (length buf) (peer_avail_credit self)) of
             (Inr bytes, s) \<Rightarrow> do {
               buf \<leftarrow> copy_into buf 0 bytes;
               let self = self\<lparr>cn_stream := s\<rparr>;
               let pkt = pkt\<lparr>pkt_buf := Some buf\<rparr>;
               let (self, pkt) =
                 (if bytes = []
                  then (self\<lparr>cn_state := LocalClosed, expiry := Some (now + CONN_SHUTDOWN_TIMEOUT_MS)\<rparr>,
                        set_flag VSOCK_FLAGS_SHUTDOWN_SEND (set_flag VSOCK_FLAGS_SHUTDOWN_RCV
                          (set_op VSOCK_OP_SHUTDOWN pkt)))
                  else (self, set_len (of_nat (length bytes)) (set_op VSOCK_OP_RW pkt)));
               ret (Inr (), note_credit (self\<lparr>rx_cnt := rx_cnt self + pkt_len pkt\<rparr>), pkt)
             }
           | (Inl e, s) \<Rightarrow>
               if e = WouldBlock then recv_credit_update (self\<lparr>cn_stream := s\<rparr>) pkt
               else ret (Inr (), note_credit (self\<lparr>cn_stream := s\<rparr>), set_op VSOCK_OP_RST pkt)))"

definition conn_recv_pkt ::
  "'s HostStream \<Rightarrow> nat \<Rightarrow> 's VsockConnection \<Rightarrow> VsockPacket \<Rightarrow>
     ((VsockError + unit) \<times> 's VsockConnection \<times> VsockPacket) rust" where
  "conn_recv_pkt io now self pkt =
     (let pkt = init_pkt self pkt;
          (rst, self) = unpend Rst self
      in if rst then ret (Inr (), self, set_op VSOCK_OP_RST pkt)
      else let (response, self) = unpend Response self
      in if response then ret (Inr (), self\<lparr>cn_state := Established\<rparr>, set_op VSOCK_OP_RESPONSE pkt)
      else let (request, self) = unpend Request self
      in if request
         then ret (Inr (), self\<lparr>expiry := Some (now + CONN_REQUEST_TIMEOUT_MS)\<rparr>, set_op VSOCK_OP_REQUEST pkt)
      else let (rw, self) = unpend Rw self
      in if rw then recv_rw io now self pkt else recv_credit_update self pkt)"

section \<open>Packets from the guest\<close>

definition send_rw ::
  "'s HostStream \<Rightarrow> 's VsockConnection \<Rightarrow> VsockPacket \<Rightarrow> 's VsockConnection rust" where
  "send_rw io self pkt =
     (case pkt_buf pkt of
        None \<Rightarrow> ret self
      | Some buf \<Rightarrow> do {
          buf_slice \<leftarrow> subslice buf 0 (unat (pkt_len pkt));
          (r, self) \<leftarrow> send_bytes io self buf_slice;
          (case r of
             Inl _ \<Rightarrow> ret (kill self)
           | Inr _ \<Rightarrow> ret (if peer_needs_credit_update self then pend CreditUpdate self else self))
        })"

definition flag_set :: "u32 \<Rightarrow> VsockPacket \<Rightarrow> bool" where
  "flag_set flag pkt \<longleftrightarrow> pkt_flags pkt AND flag \<noteq> 0"

definition shutdown_established :: "nat \<Rightarrow> 's VsockConnection \<Rightarrow> VsockPacket \<Rightarrow> 's VsockConnection" where
  "shutdown_established now self pkt =
     (let recv_off = flag_set VSOCK_FLAGS_SHUTDOWN_RCV pkt;
          send_off = flag_set VSOCK_FLAGS_SHUTDOWN_SEND pkt;
          self = self\<lparr>cn_state := PeerClosed recv_off send_off\<rparr>
      in if recv_off \<and> send_off
         then if TxBuf_is_empty (tx_buf self) then pend Rst self
              else self\<lparr>expiry := Some (now + CONN_SHUTDOWN_TIMEOUT_MS)\<rparr>
         else self)"

definition shutdown_again :: "'s VsockConnection \<Rightarrow> bool \<Rightarrow> bool \<Rightarrow> VsockPacket \<Rightarrow> 's VsockConnection" where
  "shutdown_again self recv_off send_off pkt =
     (let recv_off = (recv_off \<or> flag_set VSOCK_FLAGS_SHUTDOWN_RCV pkt);
          send_off = (send_off \<or> flag_set VSOCK_FLAGS_SHUTDOWN_SEND pkt);
          self = self\<lparr>cn_state := PeerClosed recv_off send_off\<rparr>
      in if recv_off \<and> send_off \<and> TxBuf_is_empty (tx_buf self) then pend Rst self else self)"

text \<open>The arms of the match on the state, in the order of the source; a packet that fits none is
  dropped.\<close>

definition conn_send_pkt ::
  "'s HostStream \<Rightarrow> nat \<Rightarrow> 's VsockConnection \<Rightarrow> VsockPacket \<Rightarrow>
     ((VsockError + unit) \<times> 's VsockConnection) rust" where
  "conn_send_pkt io now self pkt = do {
     let self = self\<lparr>peer_buf_alloc := pkt_buf_alloc pkt, peer_fwd_cnt := pkt_fwd_cnt pkt\<rparr>;
     let op = pkt_op pkt;
     self \<leftarrow> (case cn_state self of
         Established \<Rightarrow>
           if op = VSOCK_OP_RW then send_rw io self pkt
           else if op = VSOCK_OP_SHUTDOWN then ret (shutdown_established now self pkt)
           else if op = VSOCK_OP_CREDIT_UPDATE then ret self
           else if op = VSOCK_OP_CREDIT_REQUEST then ret (pend CreditUpdate self)
           else ret self
       | PeerClosed recv_off send_off \<Rightarrow>
           if \<not> send_off \<and> op = VSOCK_OP_RW then send_rw io self pkt
           else if op = VSOCK_OP_SHUTDOWN then ret (shutdown_again self recv_off send_off pkt)
           else if \<not> recv_off \<and> op = VSOCK_OP_CREDIT_UPDATE then ret self
           else if \<not> send_off \<and> op = VSOCK_OP_CREDIT_REQUEST then ret (pend CreditUpdate self)
           else ret self
       | LocalInit \<Rightarrow>
           if op = VSOCK_OP_RESPONSE then ret (self\<lparr>expiry := None, cn_state := Established\<rparr>)
           else ret self
       | PeerInit \<Rightarrow>
           if op = VSOCK_OP_CREDIT_UPDATE then ret self
           else if op = VSOCK_OP_CREDIT_REQUEST then ret (pend CreditUpdate self)
           else ret self
       | _ \<Rightarrow> ret self);
     ret (Inr (), self)
   }"

section \<open>Events\<close>

definition EPOLLIN :: u32 where "EPOLLIN = 1"
definition EPOLLOUT :: u32 where "EPOLLOUT = 4"

definition evset_contains :: "u32 \<Rightarrow> u32 \<Rightarrow> bool" where
  "evset_contains evset ev \<longleftrightarrow> evset AND ev = ev"

definition get_polled_evset :: "'s VsockConnection \<Rightarrow> u32" where
  "get_polled_evset self =
     (let evset = (if TxBuf_is_empty (tx_buf self) then 0 else EPOLLOUT) in
      case cn_state self of
        Killed \<Rightarrow> evset
      | LocalClosed \<Rightarrow> evset
      | PeerClosed True _ \<Rightarrow> evset
      | _ \<Rightarrow> if need_credit_update_from_peer self then evset else evset OR EPOLLIN)"

definition notify_out :: "'s HostStream \<Rightarrow> 's VsockConnection \<Rightarrow> 's VsockConnection rust" where
  "notify_out io self =
     (if TxBuf_is_empty (tx_buf self) then ret self
      else do {
        (r, b, s) \<leftarrow> flush_to (stream_write io) (tx_buf self) (cn_stream self);
        let self = self\<lparr>tx_buf := b, cn_stream := s\<rparr>;
        let (flushed, self) = (case r of
            Inr n \<Rightarrow> (n, self)
          | Inl e \<Rightarrow> (0, if e = TxBufFlush WouldBlock then self else kill self));
        let self = self\<lparr>fwd_cnt := fwd_cnt self + of_nat flushed\<rparr>;
        ret (if cn_state self = PeerClosed True True \<and> TxBuf_is_empty (tx_buf self) then pend Rst self
             else if peer_needs_credit_update self then pend CreditUpdate self
             else self)
      })"

definition conn_notify :: "'s HostStream \<Rightarrow> 's VsockConnection \<Rightarrow> u32 \<Rightarrow> 's VsockConnection rust" where
  "conn_notify io self evset =
     (let self = (if evset_contains evset EPOLLIN then pend Rw self else self) in
      if evset_contains evset EPOLLOUT then notify_out io self else ret self)"

end
