(* ===== verification/Vsock_Csm_Lemmas.thy ===== *)
theory Vsock_Csm_Lemmas
  imports Vsock_Csm
begin

text \<open>
  What the operations of a connection do: the pending set as a set, the bytes on their way to the
  host stream, the credit counters, and the invariant that no operation panics under.
\<close>

section \<open>The pending set\<close>

definition pending_set :: "PendingRxSet \<Rightarrow> PendingRx set" where
  "pending_set p = {it. PendingRxSet_contains p it}"

text \<open>Only the five bits of the indications are ever set.\<close>

definition pending_ok :: "PendingRxSet \<Rightarrow> bool" where
  "pending_ok p \<longleftrightarrow> (\<forall>n. bit (rx_data p) n \<longrightarrow> n < 5)"

lemma index_inj: "PendingRx_index a = PendingRx_index b \<longleftrightarrow> a = b"
  by (cases a; cases b) auto

lemma bit_into_mask: "bit (into_mask it) n \<longleftrightarrow> n = PendingRx_index it"
proof -
  have "PendingRx_index it < LENGTH(16)" by (cases it) auto
  then show ?thesis by (auto simp: into_mask_def push_bit_eq_mult bit_exp_iff)
qed

lemma contains_bit: "PendingRxSet_contains p it \<longleftrightarrow> bit (rx_data p) (PendingRx_index it)"
proof
  assume "PendingRxSet_contains p it"
  then have "rx_data p AND into_mask it \<noteq> 0" by (simp add: PendingRxSet_contains_def)
  then obtain n where "bit (rx_data p AND into_mask it) n" by (metis bit_eq_iff bit_0_eq bot_apply bot_bool_def)
  then show "bit (rx_data p) (PendingRx_index it)" by (auto simp: bit_and_iff bit_into_mask)
next
  assume "bit (rx_data p) (PendingRx_index it)"
  then have "bit (rx_data p AND into_mask it) (PendingRx_index it)" by (simp add: bit_and_iff bit_into_mask)
  then show "PendingRxSet_contains p it" by (auto simp: PendingRxSet_contains_def)
qed

lemma pending_set_insert [simp]: "pending_set (PendingRxSet_insert p it) = insert it (pending_set p)"
  by (auto simp: pending_set_def contains_bit PendingRxSet_insert_def bit_or_iff bit_into_mask index_inj)

lemma pending_set_remove [simp]: "pending_set (snd (PendingRxSet_remove p it)) = pending_set p - {it}"
  by (auto simp: pending_set_def contains_bit PendingRxSet_remove_def bit_and_iff bit_not_iff bit_into_mask index_inj
      dest: bit_imp_le_length)

lemma remove_fst [simp]: "fst (PendingRxSet_remove p it) \<longleftrightarrow> it \<in> pending_set p"
  by (simp add: PendingRxSet_remove_def pending_set_def)

lemma pending_set_from [simp]: "pending_set (PendingRxSet_from it) = {it}"
  by (auto simp: pending_set_def contains_bit PendingRxSet_from_def bit_into_mask index_inj)

lemma index_surj:
  assumes "n < 5"
  shows "\<exists>it. PendingRx_index it = n"
proof -
  have "n \<in> PendingRx_index ` {Request, Response, Rst, Rw, CreditUpdate}" using assms by auto
  then show ?thesis by blast
qed

lemma is_empty_iff [simp]:
  assumes "pending_ok p"
  shows "PendingRxSet_is_empty p \<longleftrightarrow> pending_set p = {}"
proof
  assume "PendingRxSet_is_empty p"
  then show "pending_set p = {}" by (simp add: pending_set_def contains_bit PendingRxSet_is_empty_def)
next
  assume "pending_set p = {}"
  then have "\<not> bit (rx_data p) n" for n
    using assms index_surj [of n] by (auto simp: pending_ok_def pending_set_def contains_bit)
  then show "PendingRxSet_is_empty p" by (auto simp: PendingRxSet_is_empty_def bit_eq_iff)
qed

lemma pending_ok_ops [simp]:
  "pending_ok p \<Longrightarrow> pending_ok (PendingRxSet_insert p it)"
  "pending_ok p \<Longrightarrow> pending_ok (snd (PendingRxSet_remove p it))"
  "pending_ok (PendingRxSet_from it)"
  by (cases it; auto simp: pending_ok_def PendingRxSet_insert_def PendingRxSet_remove_def PendingRxSet_from_def
      bit_or_iff bit_and_iff bit_into_mask)+

section \<open>Connections\<close>

definition conn_ok :: "'s VsockConnection \<Rightarrow> bool" where
  "conn_ok self \<longleftrightarrow> txbuf_ok (tx_buf self) \<and> pending_ok (pending_rx self)"

definition pending :: "'s VsockConnection \<Rightarrow> PendingRx set" where
  "pending self = pending_set (pending_rx self)"

lemma finite_pending [simp]: "finite (pending c)"
proof -
  have "pending c \<subseteq> {Request, Response, Rst, Rw, CreditUpdate}" using PendingRx.exhaust by blast
  then show ?thesis using finite_subset by blast
qed

text \<open>What the code relies on a stream for: \<open>write\<close> accepts a prefix, \<open>read\<close> yields at most as many
  bytes as there is room for and does not touch what was written.\<close>

definition stream_ok :: "'s HostStream \<Rightarrow> ('s \<Rightarrow> u8 list) \<Rightarrow> bool" where
  "stream_ok io accepted \<longleftrightarrow> sink_ok (stream_write io) accepted \<and>
     (\<forall>s n. case stream_read io s n of
        (Inl _, s') \<Rightarrow> accepted s' = accepted s
      | (Inr bytes, s') \<Rightarrow> length bytes \<le> n \<and> accepted s' = accepted s)"

text \<open>The bytes of the guest: those the stream has accepted, and those that wait for it.\<close>

definition delivered :: "('s \<Rightarrow> u8 list) \<Rightarrow> 's VsockConnection \<Rightarrow> u8 list" where
  "delivered accepted self = accepted (cn_stream self) @ contents (tx_buf self)"

lemma pend_simps [simp]:
  "cn_state (pend it self) = cn_state self" "cn_stream (pend it self) = cn_stream self"
  "tx_buf (pend it self) = tx_buf self" "fwd_cnt (pend it self) = fwd_cnt self"
  "pending (pend it self) = insert it (pending self)" "conn_ok self \<Longrightarrow> conn_ok (pend it self)"
  "expiry (pend it self) = expiry self"
  "rx_cnt (pend it self) = rx_cnt self" "peer_fwd_cnt (pend it self) = peer_fwd_cnt self"
  "peer_buf_alloc (pend it self) = peer_buf_alloc self"
  by (auto simp: pend_def pending_def conn_ok_def)

lemma kill_simps [simp]:
  "cn_state (kill self) = Killed" "cn_stream (kill self) = cn_stream self"
  "tx_buf (kill self) = tx_buf self" "fwd_cnt (kill self) = fwd_cnt self"
  "pending (kill self) = insert Rst (pending self)" "conn_ok self \<Longrightarrow> conn_ok (kill self)"
  by (auto simp: kill_def pending_def pend_def conn_ok_def)

lemma unpend_eq: "unpend it self =
  (it \<in> pending self, self\<lparr>pending_rx := snd (PendingRxSet_remove (pending_rx self) it)\<rparr>)"
  by (simp add: unpend_def pending_def split: prod.splits)
    (metis fst_conv remove_fst snd_conv)

lemma has_pending_iff: "conn_ok self \<Longrightarrow> has_pending_rx self \<longleftrightarrow> pending self \<noteq> {}"
  by (simp add: has_pending_rx_def conn_ok_def pending_def)


lemma stream_okD:
  assumes "stream_ok io accepted"
  shows "sink_ok (stream_write io) accepted"
    "stream_read io s n = (Inl e, s') \<Longrightarrow> accepted s' = accepted s"
    "stream_read io s n = (Inr bytes, s') \<Longrightarrow> length bytes \<le> n \<and> accepted s' = accepted s"
  using assms unfolding stream_ok_def by (metis (mono_tags, lifting) case_prod_conv sum.case)+

section \<open>Data from the guest\<close>

text \<open>\<open>push\<close> on the connection: everything is queued or nothing.\<close>

lemma push_tx_ok:
  assumes "conn_ok self"
  shows "\<exists>r self'. push_tx self bs = Some (r, self') \<and> conn_ok self' \<and>
    self' = self\<lparr>tx_buf := tx_buf self'\<rparr> \<and>
    (case r of Inl e \<Rightarrow> contents (tx_buf self') = contents (tx_buf self)
     | Inr _ \<Rightarrow> contents (tx_buf self') = contents (tx_buf self) @ bs)"
proof -
  obtain r b where "TxBuf_push (tx_buf self) bs = Some (r, b)" "txbuf_ok b"
      "if length (contents (tx_buf self)) + length bs \<le> TxBuf_SIZE
       then r = Inr () \<and> contents b = contents (tx_buf self) @ bs else r = Inl TxBufFull \<and> b = tx_buf self"
    using TxBuf_push_ok [of "tx_buf self" bs] assms by (auto simp: conn_ok_def)
  then show ?thesis using assms
    by (intro exI [of _ r] exI [of _ "self\<lparr>tx_buf := b\<rparr>"])
      (auto simp: push_tx_def conn_ok_def split: if_splits)
qed

lemma empty_contents: "conn_ok self \<Longrightarrow> TxBuf_is_empty (tx_buf self) \<longleftrightarrow> contents (tx_buf self) = []"
  using length_contents [of "tx_buf self"] by (auto simp: conn_ok_def TxBuf_is_empty_def)

text \<open>Sending bytes: they are all delivered in order, or an error is reported and a prefix of them
  was accepted. The counter follows the stream.\<close>

lemma send_bytes_ok:
  assumes "conn_ok self" "stream_ok io accepted"
  shows "\<exists>r self' n. send_bytes io self bs = Some (r, self') \<and> conn_ok self' \<and>
    cn_state self' = cn_state self \<and> pending self' = pending self \<and>
    accepted (cn_stream self') = accepted (cn_stream self) @ take n bs \<and> n \<le> length bs \<and>
    fwd_cnt self' = fwd_cnt self + of_nat n \<and> expiry self' = expiry self \<and>
    local_port self' = local_port self \<and> peer_port self' = peer_port self \<and>
    (n = 0 \<or> contents (tx_buf self) = []) \<and>
    (case r of
       Inl _ \<Rightarrow> contents (tx_buf self') = contents (tx_buf self)
     | Inr _ \<Rightarrow> delivered accepted self' = delivered accepted self @ bs)"
proof (cases "TxBuf_is_empty (tx_buf self)")
  case False
  obtain r self' where p: "push_tx self bs = Some (r, self')" "conn_ok self'" "self' = self\<lparr>tx_buf := tx_buf self'\<rparr>"
    "case r of Inl e \<Rightarrow> contents (tx_buf self') = contents (tx_buf self)
     | Inr _ \<Rightarrow> contents (tx_buf self') = contents (tx_buf self) @ bs"
    using push_tx_ok [OF assms(1)] by blast
  have eq: "cn_state self' = cn_state self" "pending self' = pending self" "cn_stream self' = cn_stream self"
    "fwd_cnt self' = fwd_cnt self" "expiry self' = expiry self"
    "local_port self' = local_port self" "peer_port self' = peer_port self"
    by (subst p(3); simp add: pending_def)+
  show ?thesis using False p(1,2,4) eq
    by (intro exI [of _ r] exI [of _ self'] exI [of _ 0])
      (auto simp: send_bytes_def delivered_def split: sum.splits)
next
  case True
  then have emp: "contents (tx_buf self) = []" using empty_contents [OF assms(1)] by simp
  obtain w s where w: "stream_write io (cn_stream self) bs = (w, s)" by fastforce
  note ok = sink_okD [OF stream_okD(1) [OF assms(2)]]
  define written where "written = (case w of Inr n \<Rightarrow> Inr n
    | Inl e \<Rightarrow> if e = WouldBlock then Inr 0 else Inl (StreamWrite e))"
  show ?thesis
  proof (cases written)
    case (Inl e)
    then obtain io where "w = Inl io" by (auto simp: written_def split: sum.splits)
    then have "accepted s = accepted (cn_stream self)" using ok(1) w by blast
    then show ?thesis using True w Inl assms(1)
      by (intro exI [of _ "Inl e"] exI [of _ "self\<lparr>cn_stream := s\<rparr>"] exI [of _ 0])
        (simp add: send_bytes_def Let_def conn_ok_def pending_def flip: written_def)
  next
    case (Inr n)
    then have n: "n \<le> length bs" "accepted s = accepted (cn_stream self) @ take n bs"
      using ok(1) [of "cn_stream self" bs _ s] ok(2) [of "cn_stream self" bs _ s] w
      by (auto simp: written_def split: sum.splits if_splits)
    let ?self1 = "self\<lparr>cn_stream := s, fwd_cnt := fwd_cnt self + of_nat n\<rparr>"
    have ok1: "conn_ok ?self1" using assms(1) by (simp add: conn_ok_def)
    have send: "send_bytes io self bs =
        (if n < length bs then push_tx ?self1 (drop n bs) else Some (Inr (), ?self1))"
      using True w Inr by (simp add: send_bytes_def Let_def flip: written_def)
    obtain r self' where p: "push_tx ?self1 (drop n bs) = Some (r, self')" "conn_ok self'"
      "self' = ?self1\<lparr>tx_buf := tx_buf self'\<rparr>"
      "case r of Inl e \<Rightarrow> contents (tx_buf self') = contents (tx_buf ?self1)
       | Inr _ \<Rightarrow> contents (tx_buf self') = contents (tx_buf ?self1) @ drop n bs"
      using push_tx_ok [OF ok1] by blast
    have eq: "cn_state self' = cn_state self" "pending self' = pending self" "cn_stream self' = s"
      "fwd_cnt self' = fwd_cnt self + of_nat n" "expiry self' = expiry self"
      "local_port self' = local_port self" "peer_port self' = peer_port self"
      by (subst p(3); simp add: pending_def)+
    show ?thesis
    proof (cases "n < length bs")
      case True
      then show ?thesis using send p(1,2,4) eq n emp
        by (intro exI [of _ r] exI [of _ self'] exI [of _ n]) (auto simp: delivered_def split: sum.splits)
    next
      case False
      then show ?thesis using send ok1 n emp
        by (intro exI [of _ "Inr ()"] exI [of _ ?self1] exI [of _ n]) (auto simp: delivered_def pending_def)
    qed
  qed
qed


section \<open>Steps of a connection\<close>

text \<open>A confirmation is only due while the connection waits for it, and nothing else happens then.\<close>

definition conn_inv :: "'s VsockConnection \<Rightarrow> bool" where
  "conn_inv self \<longleftrightarrow> conn_ok self \<and> (Response \<in> pending self \<longrightarrow> cn_state self = PeerInit) \<and>
     (cn_state self = PeerInit \<longrightarrow>
        contents (tx_buf self) = [] \<and> expiry self = None \<and> Request \<notin> pending self)"

text \<open>The data a packet brings for a connection: nothing unless it is a data packet and the
  connection takes data.\<close>

definition takes_data :: "'s VsockConnection \<Rightarrow> bool" where
  "takes_data self \<longleftrightarrow> (case cn_state self of Established \<Rightarrow> True | PeerClosed _ send_off \<Rightarrow> \<not> send_off | _ \<Rightarrow> False)"

definition payload :: "'s VsockConnection \<Rightarrow> VsockPacket \<Rightarrow> u8 list" where
  "payload self pkt =
     (if takes_data self \<and> pkt_op pkt = VSOCK_OP_RW
      then (case pkt_buf pkt of None \<Rightarrow> [] | Some buf \<Rightarrow> take (unat (pkt_len pkt)) buf) else [])"

definition data_inside :: "VsockPacket \<Rightarrow> bool" where
  "data_inside pkt \<longleftrightarrow> (\<forall>buf. pkt_buf pkt = Some buf \<longrightarrow> unat (pkt_len pkt) \<le> length buf)"

text \<open>What a step may do to the bytes of the guest: it delivers \<open>p\<close>, or only a prefix of it, and then
  the connection is killed; the counter follows the stream; a killed connection stays killed.\<close>

definition delivers :: "('s \<Rightarrow> u8 list) \<Rightarrow> 's VsockConnection \<Rightarrow> u8 list \<Rightarrow> 's VsockConnection \<Rightarrow> bool" where
  "delivers accepted self p self' \<longleftrightarrow> conn_inv self' \<and>
     (\<exists>n \<le> length p. delivered accepted self' = delivered accepted self @ take n p \<and>
        (n = length p \<or> cn_state self' = Killed)) \<and>
     fwd_cnt self' + of_nat (length (accepted (cn_stream self))) =
       fwd_cnt self + of_nat (length (accepted (cn_stream self'))) \<and>
     (cn_state self = Killed \<longrightarrow> cn_state self' = Killed)"

lemma delivers_nothing:
  assumes "conn_inv self'" "contents (tx_buf self') = contents (tx_buf self)"
    "accepted (cn_stream self') = accepted (cn_stream self)" "fwd_cnt self' = fwd_cnt self"
    "cn_state self = Killed \<longrightarrow> cn_state self' = Killed"
  shows "delivers accepted self [] self'"
  using assms by (simp add: delivers_def delivered_def)

lemma conn_inv_ok: "conn_inv self \<Longrightarrow> conn_ok self"
  by (simp add: conn_inv_def)

lemma conn_inv_kill: "conn_ok self \<Longrightarrow> Response \<notin> pending self \<Longrightarrow> conn_inv (kill self)"
  by (simp add: conn_inv_def)

lemma send_rw_ok:
  assumes "conn_inv self" "stream_ok io accepted" "data_inside pkt" "takes_data self" "pkt_op pkt = VSOCK_OP_RW"
  shows "\<exists>self'. send_rw io self pkt = Some self' \<and> delivers accepted self (payload self pkt) self'"
proof (cases "pkt_buf pkt")
  case None
  then show ?thesis using assms(1)
    by (auto simp: send_rw_def payload_def intro!: delivers_nothing)
next
  case (Some buf)
  define p where "p = take (unat (pkt_len pkt)) buf"
  have np: "cn_state self \<noteq> PeerInit" "cn_state self \<noteq> Killed"
    using assms(4) by (auto simp: takes_data_def)
  have pay: "payload self pkt = p" using assms(4,5) Some by (simp add: payload_def p_def)
  have sub: "subslice buf 0 (unat (pkt_len pkt)) = Some p"
    using assms(3) Some by (simp add: data_inside_def subslice_def p_def)
  obtain r self1 n where s: "send_bytes io self p = Some (r, self1)" "conn_ok self1"
      "cn_state self1 = cn_state self" "pending self1 = pending self"
      "accepted (cn_stream self1) = accepted (cn_stream self) @ take n p" "n \<le> length p"
      "fwd_cnt self1 = fwd_cnt self + of_nat n" "expiry self1 = expiry self"
      "n = 0 \<or> contents (tx_buf self) = []"
      "case r of Inl _ \<Rightarrow> contents (tx_buf self1) = contents (tx_buf self)
       | Inr _ \<Rightarrow> delivered accepted self1 = delivered accepted self @ p"
    using send_bytes_ok [OF conn_inv_ok [OF assms(1)] assms(2), of p] by blast
  have nr: "Response \<notin> pending self" using assms(1) np by (auto simp: conn_inv_def)
  show ?thesis
  proof (cases r)
    case (Inl e)
    have "delivered accepted (kill self1) = delivered accepted self @ take n p"
      using s(5,9,10) Inl by (auto simp: delivered_def)
    moreover have "conn_inv (kill self1)" using conn_inv_kill [OF s(2)] s(4) nr by simp
    ultimately have "delivers accepted self p (kill self1)"
      using s(5-7) unfolding delivers_def by (auto simp: add.assoc)
    then show ?thesis using Some sub s(1) Inl pay by (simp add: send_rw_def)
  next
    case (Inr u)
    let ?self2 = "if peer_needs_credit_update self1 then pend CreditUpdate self1 else self1"
    have "delivers accepted self p ?self2"
      using s Inr nr np by (auto simp: delivers_def delivered_def conn_inv_def)
    then show ?thesis using Some sub s(1) Inr pay by (simp add: send_rw_def)
  qed
qed


lemma payload_other: "\<not> (takes_data self \<and> pkt_op pkt = VSOCK_OP_RW) \<Longrightarrow> payload self pkt = []"
  unfolding payload_def by (rule if_not_P)

lemma peer_update_simps [simp]:
  "conn_inv (self\<lparr>peer_buf_alloc := a, peer_fwd_cnt := f\<rparr>) = conn_inv self"
  "takes_data (self\<lparr>peer_buf_alloc := a, peer_fwd_cnt := f\<rparr>) = takes_data self"
  "payload (self\<lparr>peer_buf_alloc := a, peer_fwd_cnt := f\<rparr>) pkt = payload self pkt"
  "delivers accepted (self\<lparr>peer_buf_alloc := a, peer_fwd_cnt := f\<rparr>) p self' = delivers accepted self p self'"
  by (simp_all add: conn_inv_def conn_ok_def pending_def takes_data_def payload_def delivers_def delivered_def)

lemma delivers_refl: "conn_inv self \<Longrightarrow> delivers accepted self [] self"
  by (rule delivers_nothing) simp_all

text \<open>Changes that leave the bytes alone.\<close>

lemma quiet:
  "it \<noteq> Response \<Longrightarrow> it \<noteq> Request \<Longrightarrow> delivers accepted self [] self' \<Longrightarrow> delivers accepted self [] (pend it self')"
  "cn_state self' \<noteq> PeerInit \<Longrightarrow> st \<noteq> PeerInit \<Longrightarrow> cn_state self \<noteq> Killed \<Longrightarrow>
    delivers accepted self [] self' \<Longrightarrow> delivers accepted self [] (self'\<lparr>cn_state := st\<rparr>)"
  "cn_state self' \<noteq> PeerInit \<Longrightarrow> delivers accepted self [] self' \<Longrightarrow> delivers accepted self [] (self'\<lparr>expiry := e\<rparr>)"
  by (auto simp: delivers_def delivered_def conn_inv_def conn_ok_def pending_def pend_def)

lemma conn_send_pkt_ok:
  assumes "conn_inv self" "stream_ok io accepted" "data_inside pkt"
  shows "\<exists>self'. conn_send_pkt io now self pkt = Some (Inr (), self') \<and>
    delivers accepted self (payload self pkt) self'"
proof -
  let ?self1 = "self\<lparr>peer_buf_alloc := pkt_buf_alloc pkt, peer_fwd_cnt := pkt_fwd_cnt pkt\<rparr>"
  have inv: "conn_inv ?self1" using assms(1) by simp
  show ?thesis
  proof (cases "takes_data self \<and> pkt_op pkt = VSOCK_OP_RW")
    case True
    then obtain self' where "send_rw io ?self1 pkt = Some self'" "delivers accepted self (payload self pkt) self'"
      using send_rw_ok [OF inv assms(2,3)] by auto
    then show ?thesis using True
      by (auto simp: conn_send_pkt_def takes_data_def Let_def split: ConnState.splits)
  next
    case False
    have refl: "delivers accepted self [] ?self1" using delivers_refl [OF inv] by simp
    have "\<exists>self'. conn_send_pkt io now self pkt = Some (Inr (), self') \<and> delivers accepted self [] self'"
    proof (cases "cn_state self")
      case Established
      then show ?thesis using False refl
        by (simp add: conn_send_pkt_def takes_data_def Let_def shutdown_established_def quiet)
    next
      case (PeerClosed recv_off send_off)
      then show ?thesis using False refl
        by (cases send_off) (simp_all add: conn_send_pkt_def takes_data_def Let_def shutdown_again_def quiet)
    qed (use refl in \<open>simp_all add: conn_send_pkt_def Let_def quiet\<close>)
    then show ?thesis using payload_other [OF False] by simp
  qed
qed

lemma notify_out_eq:
  assumes "\<not> TxBuf_is_empty (tx_buf self)"
    "flush_to (stream_write io) (tx_buf self) (cn_stream self) = Some (r, b, s)"
  shows "notify_out io self =
    (let self = self\<lparr>tx_buf := b, cn_stream := s\<rparr>;
         flushed = (case r of Inr n \<Rightarrow> n | Inl _ \<Rightarrow> 0);
         self = (case r of Inr _ \<Rightarrow> self | Inl e \<Rightarrow> if e = TxBufFlush WouldBlock then self else kill self);
         self = self\<lparr>fwd_cnt := fwd_cnt self + of_nat flushed\<rparr>
     in Some (if cn_state self = PeerClosed True True \<and> TxBuf_is_empty (tx_buf self) then pend Rst self
              else if peer_needs_credit_update self then pend CreditUpdate self else self))"
  using assms unfolding notify_out_def Let_def
  by (cases r) (simp_all only: Option.bind.simps prod.case sum.case if_False)

lemma notify_out_ok:
  assumes "conn_inv self" "stream_ok io accepted"
  shows "\<exists>self'. notify_out io self = Some self' \<and> delivers accepted self [] self'"
proof (cases "TxBuf_is_empty (tx_buf self)")
  case True
  then show ?thesis using assms(1) by (auto simp: notify_out_def intro!: delivers_nothing)
next
  case False
  have ok: "conn_ok self" using assms(1) by (rule conn_inv_ok)
  obtain r b s where f: "flush_to (stream_write io) (tx_buf self) (cn_stream self) = Some (r, b, s)" "txbuf_ok b"
      "case r of
         Inl e \<Rightarrow> contents b = contents (tx_buf self) \<and> accepted s = accepted (cn_stream self) \<and> (\<exists>io. e = TxBufFlush io)
       | Inr n \<Rightarrow> n \<le> length (contents (tx_buf self)) \<and> contents b = drop n (contents (tx_buf self)) \<and>
           accepted s = accepted (cn_stream self) @ take n (contents (tx_buf self))"
    using flush_to_ok [OF _ stream_okD(1) [OF assms(2)], of "tx_buf self" "cn_stream self"] ok
    by (auto simp: conn_ok_def)
  have np: "cn_state self \<noteq> PeerInit" "Response \<notin> pending self"
    using assms(1) False empty_contents [OF ok] by (auto simp: conn_inv_def)
  define flushed where "flushed = (case r of Inr n \<Rightarrow> n | Inl _ \<Rightarrow> 0)"
  define self1 where "self1 = (let self = self\<lparr>tx_buf := b, cn_stream := s\<rparr> in
    case r of Inr _ \<Rightarrow> self | Inl e \<Rightarrow> if e = TxBufFlush WouldBlock then self else kill self)"
  define self2 where "self2 = self1\<lparr>fwd_cnt := fwd_cnt self1 + of_nat flushed\<rparr>"
  have "delivers accepted self [] self2"
    using f np ok
    by (auto simp: self2_def self1_def flushed_def delivers_def delivered_def conn_inv_def conn_ok_def pending_def
        kill_def pend_def Let_def split: sum.splits)
  moreover have "notify_out io self =
      Some (if cn_state self2 = PeerClosed True True \<and> TxBuf_is_empty (tx_buf self2) then pend Rst self2
        else if peer_needs_credit_update self2 then pend CreditUpdate self2 else self2)"
    using notify_out_eq [OF False f(1)] by (simp only: self2_def self1_def flushed_def Let_def)
  ultimately show ?thesis by (simp add: quiet)
qed

lemma conn_notify_ok:
  assumes "conn_inv self" "stream_ok io accepted"
  shows "\<exists>self'. conn_notify io self evset = Some self' \<and> delivers accepted self [] self'"
proof -
  let ?self1 = "if evset_contains evset EPOLLIN then pend Rw self else self"
  have inv: "conn_inv ?self1" using assms(1) by (auto simp: conn_inv_def)
  have eq: "delivers accepted ?self1 p self' = delivers accepted self p self'" for p self'
    by (simp add: delivers_def delivered_def)
  show ?thesis
  proof (cases "evset_contains evset EPOLLOUT")
    case True
    then show ?thesis using notify_out_ok [OF inv assms(2)] eq by (auto simp: conn_notify_def Let_def)
  next
    case False
    have "delivers accepted ?self1 [] ?self1" using inv by (intro delivers_nothing) simp_all
    then show ?thesis using False eq by (simp add: conn_notify_def Let_def)
  qed
qed

lemma kill_ok:
  assumes "conn_inv self" "has_expired now self"
  shows "delivers accepted self [] (kill self)"
  using assms by (intro delivers_nothing) (auto simp: has_expired_def conn_inv_def split: option.splits)

section \<open>Packets to the guest\<close>

lemma unpend_simps [simp]:
  "cn_state (snd (unpend it self)) = cn_state self" "cn_stream (snd (unpend it self)) = cn_stream self"
  "tx_buf (snd (unpend it self)) = tx_buf self" "fwd_cnt (snd (unpend it self)) = fwd_cnt self"
  "expiry (snd (unpend it self)) = expiry self" "rx_cnt (snd (unpend it self)) = rx_cnt self"
  "peer_fwd_cnt (snd (unpend it self)) = peer_fwd_cnt self"
  "peer_buf_alloc (snd (unpend it self)) = peer_buf_alloc self"
  "pending (snd (unpend it self)) = pending self - {it}"
  "fst (unpend it self) \<longleftrightarrow> it \<in> pending self"
  "conn_ok self \<Longrightarrow> conn_ok (snd (unpend it self))"
  by (simp_all add: unpend_eq pending_def conn_ok_def)

lemma conn_inv_unpend [simp]: "conn_inv self \<Longrightarrow> conn_inv (snd (unpend it self))"
  by (auto simp: conn_inv_def)


lemma note_credit_simps [simp]:
  "cn_state (note_credit self) = cn_state self" "cn_stream (note_credit self) = cn_stream self"
  "tx_buf (note_credit self) = tx_buf self" "fwd_cnt (note_credit self) = fwd_cnt self"
  "expiry (note_credit self) = expiry self" "rx_cnt (note_credit self) = rx_cnt self"
  "pending (note_credit self) = pending self" "conn_ok (note_credit self) = conn_ok self"
  "conn_inv (note_credit self) = conn_inv self"
  by (simp_all add: note_credit_def pending_def conn_ok_def conn_inv_def)

lemma stream_upd_simps [simp]:
  "pending (self\<lparr>cn_stream := s\<rparr>) = pending self" "conn_inv (self\<lparr>cn_stream := s\<rparr>) = conn_inv self"
  "pending (self\<lparr>rx_cnt := n\<rparr>) = pending self" "conn_inv (self\<lparr>rx_cnt := n\<rparr>) = conn_inv self"
  "pending (self\<lparr>expiry := e\<rparr>) = pending self" "pending (self\<lparr>cn_state := st\<rparr>) = pending self"
  by (simp_all add: pending_def conn_inv_def conn_ok_def)

text \<open>The header that every packet to the guest starts from.\<close>

lemma init_pkt_simps [simp]:
  "pkt_len (init_pkt self pkt) = 0" "pkt_buf (init_pkt self pkt) = pkt_buf pkt"
  "pkt_flags (init_pkt self pkt) = 0"
  "pkt_src_cid (init_pkt self pkt) = local_cid self" "pkt_dst_cid (init_pkt self pkt) = peer_cid self"
  "pkt_src_port (init_pkt self pkt) = local_port self" "pkt_dst_port (init_pkt self pkt) = peer_port self"
  "pkt_type (init_pkt self pkt) = VSOCK_TYPE_STREAM" "pkt_buf_alloc (init_pkt self pkt) = CONN_TX_BUF_SIZE"
  "pkt_fwd_cnt (init_pkt self pkt) = fwd_cnt self"
  by (simp_all add: init_pkt_def pkt_get_defs pkt_set_defs VsockPacketHdr_default_def)

lemma set_op_simps [simp]:
  "pkt_op (set_op op pkt) = op" "pkt_len (set_op op pkt) = pkt_len pkt" "pkt_buf (set_op op pkt) = pkt_buf pkt"
  "pkt_op (set_len n pkt) = pkt_op pkt" "pkt_len (set_len n pkt) = n" "pkt_buf (set_len n pkt) = pkt_buf pkt"
  "pkt_op (set_flag f pkt) = pkt_op pkt" "pkt_len (set_flag f pkt) = pkt_len pkt"
  "pkt_buf (set_flag f pkt) = pkt_buf pkt"
  "pkt_op (pkt\<lparr>pkt_buf := b\<rparr>) = pkt_op pkt" "pkt_len (pkt\<lparr>pkt_buf := b\<rparr>) = pkt_len pkt"
  by (simp_all add: pkt_get_defs pkt_set_defs)

lemma recv_credit_update_ok:
  assumes "conn_inv self"
  shows "\<exists>r self' pkt'. recv_credit_update self pkt = Some (r, self', pkt') \<and>
    delivers accepted self [] self' \<and>
    (pending self = {CreditUpdate} \<longrightarrow> r = Inr ()) \<and> pending self' = pending self - {CreditUpdate} \<and>
    rx_cnt self' = rx_cnt self \<and> pkt_len pkt' = pkt_len pkt \<and>
    (r = Inr () \<longrightarrow> pkt_op pkt' = VSOCK_OP_CREDIT_UPDATE)"
proof -
  let ?u = "snd (unpend CreditUpdate self)"
  have inv: "conn_inv ?u" using assms by simp
  have d: "delivers accepted self [] ?u" "delivers accepted self [] (note_credit ?u)"
    using inv by (auto intro!: delivers_nothing)
  have h: "has_pending_rx ?u \<longleftrightarrow> pending self - {CreditUpdate} \<noteq> {}"
    using has_pending_iff [OF conn_inv_ok [OF inv]] by simp
  show ?thesis
    using d h unfolding recv_credit_update_def
    by (cases "unpend CreditUpdate self") (use unpend_simps [where it = CreditUpdate and self = self] in auto)
qed

text \<open>Reading data for the guest: at most what the packet has room for and the guest has credit for.\<close>

definition sends_data :: "'s VsockConnection \<Rightarrow> bool" where
  "sends_data self \<longleftrightarrow>
     (case cn_state self of Established \<Rightarrow> True | PeerClosed recv_off _ \<Rightarrow> \<not> recv_off | _ \<Rightarrow> False)"

lemma recv_rw_bytes:
  assumes "conn_inv self" "stream_ok io accepted" "pkt_len pkt = 0"
    "sends_data self" "\<not> need_credit_update_from_peer self" "pkt_buf pkt = Some buf"
    "stream_read io (cn_stream self) (min (length buf) (peer_avail_credit self)) = (Inr bytes, s)"
  shows "\<exists>self' pkt'. recv_rw io now self pkt = Some (Inr (), self', pkt') \<and>
    delivers accepted self [] self' \<and> pending self' = pending self \<and>
    unat (pkt_len pkt') \<le> peer_avail_credit self \<and> rx_cnt self' = rx_cnt self + pkt_len pkt' \<and>
    unat (pkt_len pkt') = length bytes \<and> pkt_buf pkt' = Some (bytes @ drop (length bytes) buf) \<and>
    pkt_op pkt' = (if bytes = [] then VSOCK_OP_SHUTDOWN else VSOCK_OP_RW)"
proof -
  have st: "cn_state self \<noteq> PeerInit" "cn_state self \<noteq> Killed"
    using assms(4) by (auto simp: sends_data_def)
  have len: "length bytes \<le> length buf" "length bytes \<le> peer_avail_credit self"
      and acc: "accepted s = accepted (cn_stream self)"
    using stream_okD(3) [OF assms(2,7)] by auto
  then have cp: "copy_into buf 0 bytes = Some (bytes @ drop (length bytes) buf)" by (simp add: copy_into_def)
  have "peer_avail_credit self < 2 ^ 32"
    unfolding peer_avail_credit_def using unat_less_exp [where 'a = 32] by simp
  then have ub: "unat (of_nat (length bytes) :: u32) = length bytes"
    using len(2) by (simp add: unat_of_nat)
  define self1 where "self1 = (if bytes = []
    then self\<lparr>cn_stream := s, cn_state := LocalClosed, expiry := Some (now + CONN_SHUTDOWN_TIMEOUT_MS)\<rparr>
    else self\<lparr>cn_stream := s\<rparr>)"
  define pkt1 where "pkt1 = (let pkt = pkt\<lparr>pkt_buf := Some (bytes @ drop (length bytes) buf)\<rparr> in
    if bytes = [] then set_flag VSOCK_FLAGS_SHUTDOWN_SEND (set_flag VSOCK_FLAGS_SHUTDOWN_RCV (set_op VSOCK_OP_SHUTDOWN pkt))
    else set_len (of_nat (length bytes)) (set_op VSOCK_OP_RW pkt))"
  have rcv: "recv_rw io now self pkt = Some (Inr (), note_credit (self1\<lparr>rx_cnt := rx_cnt self1 + pkt_len pkt1\<rparr>), pkt1)"
    using assms(4-7) cp unfolding recv_rw_def sends_data_def [symmetric] self1_def pkt1_def by (simp add: Let_def)
  have pkt1: "unat (pkt_len pkt1) = length bytes" "pkt_buf pkt1 = Some (bytes @ drop (length bytes) buf)"
      "pkt_op pkt1 = (if bytes = [] then VSOCK_OP_SHUTDOWN else VSOCK_OP_RW)"
    using assms(3) ub by (simp_all add: pkt1_def Let_def)
  have inv: "conn_inv self1" using assms(1) st by (auto simp: self1_def conn_inv_def conn_ok_def pending_def)
  then have "delivers accepted self [] (note_credit (self1\<lparr>rx_cnt := rx_cnt self1 + pkt_len pkt1\<rparr>))"
    using acc st by (intro delivers_nothing) (simp_all add: self1_def)
  moreover have "pending self1 = pending self" "rx_cnt self1 = rx_cnt self"
    by (simp_all add: self1_def)
  ultimately show ?thesis using rcv pkt1 len(2) by auto
qed

lemma recv_rw_ok:
  assumes "conn_inv self" "stream_ok io accepted" "pkt_len pkt = 0"
  shows "\<exists>r self' pkt'. recv_rw io now self pkt = Some (r, self', pkt') \<and>
    delivers accepted self [] self' \<and> pending self' \<subseteq> pending self \<and>
    unat (pkt_len pkt') \<le> peer_avail_credit self \<and> rx_cnt self' = rx_cnt self + pkt_len pkt' \<and>
    (pkt_buf pkt \<noteq> None \<and> (\<forall>s. fst (stream_read io (cn_stream self) s) \<noteq> Inl WouldBlock) \<longrightarrow> r = Inr ())"
proof -
  have keep: "delivers accepted self [] self'" if "conn_inv self'" "tx_buf self' = tx_buf self"
      "accepted (cn_stream self') = accepted (cn_stream self)" "fwd_cnt self' = fwd_cnt self"
      "cn_state self = Killed \<longrightarrow> cn_state self' = Killed" for self'
    using that by (intro delivers_nothing) simp_all
  note def = recv_rw_def [of io now self pkt, folded sends_data_def]
  show ?thesis
  proof (cases "sends_data self \<and> \<not> need_credit_update_from_peer self")
    case False
    then show ?thesis using assms(1,3) def by (auto intro!: keep)
  next
    case True
    have st: "cn_state self \<noteq> PeerInit" "cn_state self \<noteq> Killed"
      using True by (auto simp: sends_data_def)
    show ?thesis
    proof (cases "pkt_buf pkt")
      case None
      then show ?thesis using True assms(1,3) def by (auto intro!: keep)
    next
      case (Some buf)
      define n where "n = min (length buf) (peer_avail_credit self)"
      obtain r s where rd: "stream_read io (cn_stream self) n = (r, s)" by fastforce
      show ?thesis
      proof (cases r)
        case (Inl e)
        have acc: "accepted s = accepted (cn_stream self)" using stream_okD(2) [OF assms(2)] rd Inl by blast
        let ?self1 = "self\<lparr>cn_stream := s\<rparr>"
        have inv: "conn_inv ?self1" using assms(1) by (simp add: conn_inv_def conn_ok_def pending_def)
        show ?thesis
        proof (cases "e = WouldBlock")
          case True
          obtain r' self' pkt' where c: "recv_credit_update ?self1 pkt = Some (r', self', pkt')"
              "delivers accepted ?self1 [] self'" "pending self' = pending ?self1 - {CreditUpdate}"
              "rx_cnt self' = rx_cnt ?self1" "pkt_len pkt' = pkt_len pkt"
            using recv_credit_update_ok [OF inv] by blast
          have "delivers accepted self [] self'" using c(2) acc by (simp add: delivers_def delivered_def)
          moreover have "recv_rw io now self pkt = Some (r', self', pkt')"
            using def \<open>sends_data self \<and> _\<close> Some rd Inl c(1) True by (simp add: n_def)
          moreover have "fst (stream_read io (cn_stream self) n) = Inl WouldBlock" using rd Inl True by simp
          ultimately show ?thesis using c(3,4,5) assms(3) by auto
        next
          case False
          then have "recv_rw io now self pkt = Some (Inr (), note_credit ?self1, set_op VSOCK_OP_RST pkt)"
            using def True Some rd Inl by (simp add: n_def)
          then show ?thesis using inv acc assms(3) by (auto intro!: keep)
        qed
      next
        case (Inr bytes)
        then show ?thesis
          using recv_rw_bytes [OF assms(1-3) _ _ Some rd [unfolded n_def Inr], of now] True by fastforce
      qed
    qed
  qed
qed


text \<open>\<open>recv_pkt\<close> never panics, moves no byte of the guest, takes something out of the pending set and
  stays within the credit of the guest.\<close>

lemma conn_inv_establish: "conn_inv s \<Longrightarrow> Response \<notin> pending s \<Longrightarrow> conn_inv (s\<lparr>cn_state := Established\<rparr>)"
  by (simp add: conn_inv_def conn_ok_def)

lemma conn_recv_pkt_ok:
  assumes "conn_inv self" "stream_ok io accepted"
  shows "\<exists>r self' pkt'. conn_recv_pkt io now self pkt = Some (r, self', pkt') \<and>
    delivers accepted self [] self' \<and>
    unat (pkt_len pkt') \<le> peer_avail_credit self \<and> rx_cnt self' = rx_cnt self + pkt_len pkt' \<and>
    (pending self \<noteq> {} \<longrightarrow> pending self' \<subset> pending self) \<and>
    (pending self \<noteq> {} \<and> pkt_buf pkt \<noteq> None \<and>
      (\<forall>s. fst (stream_read io (cn_stream self) s) \<noteq> Inl WouldBlock) \<longrightarrow> r = Inr ())"
proof -
  let ?pkt = "init_pkt self pkt"
  define s1 where "s1 = snd (unpend Rst self)"
  define s2 where "s2 = snd (unpend Response s1)"
  define s3 where "s3 = snd (unpend Request s2)"
  define s4 where "s4 = snd (unpend Rw s3)"
  have u: "unpend Rst self = (Rst \<in> pending self, s1)" "unpend Response s1 = (Response \<in> pending s1, s2)"
      "unpend Request s2 = (Request \<in> pending s2, s3)" "unpend Rw s3 = (Rw \<in> pending s3, s4)"
    unfolding s1_def s2_def s3_def s4_def by (simp_all add: prod_eq_iff)
  have inv: "conn_inv s1" "conn_inv s2" "conn_inv s3" "conn_inv s4"
    using assms(1) unfolding s1_def s2_def s3_def s4_def by simp_all
  have p: "pending s1 = pending self - {Rst}" "pending s2 = pending s1 - {Response}"
      "pending s3 = pending s2 - {Request}" "pending s4 = pending s3 - {Rw}"
    unfolding s1_def s2_def s3_def s4_def by simp_all
  have eq: "tx_buf s = tx_buf self" "cn_stream s = cn_stream self" "fwd_cnt s = fwd_cnt self"
      "rx_cnt s = rx_cnt self" "cn_state s = cn_state self" "peer_avail_credit s = peer_avail_credit self"
    if "s \<in> {s1, s2, s3, s4}" for s
    using that unfolding s1_def s2_def s3_def s4_def by (auto simp: peer_avail_credit_def)
  have d: "delivers accepted s x s' = delivers accepted self x s'" if "s \<in> {s1, s2, s3, s4}" for s x s'
    using eq [OF that] by (simp add: delivers_def delivered_def)
  note def = conn_recv_pkt_def [of io now self pkt, unfolded Let_def u prod.case]
  consider (rst) "Rst \<in> pending self" | (response) "Rst \<notin> pending self" "Response \<in> pending self"
    | (request) "Rst \<notin> pending self" "Response \<notin> pending self" "Request \<in> pending self"
    | (rw) "Rst \<notin> pending self" "Response \<notin> pending self" "Request \<notin> pending self" "Rw \<in> pending self"
    | (credit) "Rst \<notin> pending self" "Response \<notin> pending self" "Request \<notin> pending self" "Rw \<notin> pending self"
    by blast
  then show ?thesis
  proof cases
    case rst
    then have "conn_recv_pkt io now self pkt = Some (Inr (), s1, set_op VSOCK_OP_RST ?pkt)" using def by simp
    moreover have "delivers accepted self [] s1" using d [of s1] delivers_refl [OF inv(1), of accepted] by simp
    moreover have "pending s1 \<subset> pending self" using rst p(1) by blast
    ultimately show ?thesis using eq(4) [of s1] by simp
  next
    case response
    let ?s = "s2\<lparr>cn_state := Established\<rparr>"
    have r: "conn_recv_pkt io now self pkt = Some (Inr (), ?s, set_op VSOCK_OP_RESPONSE ?pkt)"
      using def response p(1) by simp
    have "cn_state self = PeerInit" using assms(1) response unfolding conn_inv_def by blast
    moreover have "conn_inv ?s" using conn_inv_establish [OF inv(2)] p(2) by simp
    ultimately have "delivers accepted self [] ?s"
      using eq(1-3) [of s2] by (simp add: delivers_nothing)
    moreover have "pending ?s \<subset> pending self" using response p(1,2) by auto
    ultimately show ?thesis using r eq(4) [of s2] by simp
  next
    case request
    let ?s = "s3\<lparr>expiry := Some (now + CONN_REQUEST_TIMEOUT_MS)\<rparr>"
    have "conn_recv_pkt io now self pkt = Some (Inr (), ?s, set_op VSOCK_OP_REQUEST ?pkt)"
      using def request p(1,2) by simp
    moreover have "cn_state s3 \<noteq> PeerInit" using assms(1) request eq(5) [of s3] by (auto simp: conn_inv_def)
    then have "delivers accepted self [] ?s"
      using quiet(3) [OF _ delivers_refl [OF inv(3), of accepted]] d [of s3] by simp
    moreover have "pending ?s \<subset> pending self" using request p(1-3) by auto
    ultimately show ?thesis using eq(4) [of s3] by simp
  next
    case rw
    obtain r self' pkt' where w: "recv_rw io now s4 ?pkt = Some (r, self', pkt')" "delivers accepted s4 [] self'"
        "pending self' \<subseteq> pending s4" "unat (pkt_len pkt') \<le> peer_avail_credit s4"
        "rx_cnt self' = rx_cnt s4 + pkt_len pkt'"
        "pkt_buf ?pkt \<noteq> None \<and> (\<forall>s. fst (stream_read io (cn_stream s4) s) \<noteq> Inl WouldBlock) \<longrightarrow> r = Inr ()"
      using recv_rw_ok [OF inv(4) assms(2) init_pkt_simps(1)] by blast
    have "conn_recv_pkt io now self pkt = Some (r, self', pkt')" using def rw p w(1) by simp
    moreover have "pending self' \<subset> pending self" using w(3) rw(4) unfolding p by blast
    moreover have "delivers accepted self [] self'" using w(2) d [of s4] by simp
    ultimately show ?thesis using w(4-6) eq(2,4,6) [of s4] by simp
  next
    case credit
    have sub: "pending self \<subseteq> {CreditUpdate}"
    proof
      fix x assume "x \<in> pending self"
      then show "x \<in> {CreditUpdate}" using credit by (cases x) simp_all
    qed
    obtain r self' pkt' where c: "recv_credit_update s4 ?pkt = Some (r, self', pkt')" "delivers accepted s4 [] self'"
        "pending s4 = {CreditUpdate} \<longrightarrow> r = Inr ()" "pending self' = pending s4 - {CreditUpdate}"
        "rx_cnt self' = rx_cnt s4" "pkt_len pkt' = pkt_len ?pkt"
      using recv_credit_update_ok [OF inv(4)] by blast
    have "conn_recv_pkt io now self pkt = Some (r, self', pkt')" using def credit p c(1) by simp
    moreover have "pending s4 = pending self" unfolding p using credit by blast
    moreover have "delivers accepted self [] self'" using c(2) d [of s4] by simp
    ultimately show ?thesis using c(3-6) eq(4) [of s4] sub by auto
  qed
qed

end
