(* ===== verification/Vsock_Queues.thy ===== *)
theory Vsock_Queues
  imports Vsock_Csm "HOL-Library.AList"
begin

text \<open>
  The two queues of the vsock muxer (\<open>muxer/muxer_rxq.rs\<close>, \<open>muxer/muxer_killq.rs\<close>): the connections
  and resets that have a packet for the guest, and the connections that wait to be killed. Both are
  bounded and remember whether something was left out.

  The pool of connections is a hash map in the source. Here it is an association list, whose order is
  the order the map happens to be iterated in.
\<close>

record ConnMapKey =
  key_local_port :: u32
  key_peer_port :: u32

datatype MuxerRx = ConnRx ConnMapKey | RstPkt u32 u32

type_synonym 's ConnMap = "(ConnMapKey \<times> 's VsockConnection) list"

definition MAX_CONNECTIONS :: nat where "MAX_CONNECTIONS = 1023"
definition MUXER_RXQ_SIZE :: nat where "MUXER_RXQ_SIZE = 256"
definition MUXER_KILLQ_SIZE :: nat where "MUXER_KILLQ_SIZE = 128"

section \<open>The receive queue\<close>

record MuxerRxQ =
  rxq_q :: "MuxerRx list"
  rxq_synced :: bool

definition MuxerRxQ_default :: MuxerRxQ where
  "MuxerRxQ_default = \<lparr>rxq_q = [], rxq_synced = True\<rparr>"

text \<open>The walk over the pool: it stops at the first pending connection that does not fit.\<close>

fun rxq_walk :: "'s ConnMap \<Rightarrow> MuxerRx list \<Rightarrow> MuxerRxQ" where
  "rxq_walk [] q = \<lparr>rxq_q = q, rxq_synced = True\<rparr>"
| "rxq_walk ((key, conn) # rest) q =
     (if \<not> has_pending_rx conn then rxq_walk rest q
      else if length q \<ge> MUXER_RXQ_SIZE then \<lparr>rxq_q = q, rxq_synced = False\<rparr>
      else rxq_walk rest (q @ [ConnRx key]))"

definition rxq_from_conn_map :: "'s ConnMap \<Rightarrow> MuxerRxQ" where
  "rxq_from_conn_map conn_map = rxq_walk conn_map []"

definition rxq_is_full :: "MuxerRxQ \<Rightarrow> bool" where
  "rxq_is_full self \<longleftrightarrow> length (rxq_q self) = MUXER_RXQ_SIZE"

definition rxq_is_empty :: "MuxerRxQ \<Rightarrow> bool" where
  "rxq_is_empty self \<longleftrightarrow> length (rxq_q self) = 0"

text \<open>Replace the last connection key of a queue.\<close>

fun is_conn_rx :: "MuxerRx \<Rightarrow> bool" where
  "is_conn_rx (ConnRx _) = True"
| "is_conn_rx (RstPkt _ _) = False"

fun replace_first_conn :: "MuxerRx \<Rightarrow> MuxerRx list \<Rightarrow> MuxerRx list option" where
  "replace_first_conn rx [] = None"
| "replace_first_conn rx (qi # q) =
     (if is_conn_rx qi then Some (rx # q) else map_option ((#) qi) (replace_first_conn rx q))"

definition evict_last_conn :: "MuxerRx \<Rightarrow> MuxerRx list \<Rightarrow> MuxerRx list option" where
  "evict_last_conn rx q = map_option rev (replace_first_conn rx (rev q))"

definition rxq_push :: "MuxerRxQ \<Rightarrow> MuxerRx \<Rightarrow> bool \<times> MuxerRxQ" where
  "rxq_push self rx =
     (if rxq_synced self \<and> \<not> rxq_is_full self then (True, self\<lparr>rxq_q := rxq_q self @ [rx]\<rparr>)
      else case rx of
        RstPkt _ _ \<Rightarrow>
          (case evict_last_conn rx (rxq_q self) of
             Some q \<Rightarrow> (True, self\<lparr>rxq_q := q, rxq_synced := False\<rparr>)
           | None \<Rightarrow> (False, self))
      | ConnRx _ \<Rightarrow> (False, self\<lparr>rxq_synced := False\<rparr>))"

definition rxq_peek :: "MuxerRxQ \<Rightarrow> MuxerRx option" where
  "rxq_peek self = (case rxq_q self of [] \<Rightarrow> None | rx # _ \<Rightarrow> Some rx)"

definition rxq_pop :: "MuxerRxQ \<Rightarrow> MuxerRx option \<times> MuxerRxQ" where
  "rxq_pop self = (case rxq_q self of [] \<Rightarrow> (None, self) | rx # q \<Rightarrow> (Some rx, self\<lparr>rxq_q := q\<rparr>))"

section \<open>The kill queue\<close>

record MuxerKillQItem =
  kill_key :: ConnMapKey
  kill_time :: nat

record MuxerKillQ =
  killq_q :: "MuxerKillQItem list"
  killq_synced :: bool

definition MuxerKillQ_default :: MuxerKillQ where
  "MuxerKillQ_default = \<lparr>killq_q = [], killq_synced = True\<rparr>"

text \<open>Two items are equal if their keys are and their times lie at most 10 ms apart.\<close>

definition MuxerKillQItem_eq :: "MuxerKillQItem \<Rightarrow> MuxerKillQItem \<Rightarrow> bool" where
  "MuxerKillQItem_eq self other \<longleftrightarrow>
     (if kill_time self \<ge> kill_time other then kill_time self - kill_time other \<le> 10
      else kill_time other - kill_time self \<le> 10) \<and> kill_key self = kill_key other"

fun killq_walk :: "nat \<Rightarrow> 's ConnMap \<Rightarrow> MuxerKillQItem list \<Rightarrow> MuxerKillQItem list \<times> bool" where
  "killq_walk now [] q = (q, True)"
| "killq_walk now ((key, conn) # rest) q =
     (if \<not> will_expire now conn then killq_walk now rest q
      else if length q \<ge> MUXER_KILLQ_SIZE then (q, False)
      else killq_walk now rest (q @ [\<lparr>kill_key = key, kill_time = the (expiry conn)\<rparr>]))"

definition killq_from_conn_map :: "nat \<Rightarrow> 's ConnMap \<Rightarrow> MuxerKillQ" where
  "killq_from_conn_map now conn_map =
     (let (q, synced) = killq_walk now conn_map [] in
      \<lparr>killq_q = sort_key kill_time q, killq_synced = synced\<rparr>)"

definition killq_is_full :: "MuxerKillQ \<Rightarrow> bool" where
  "killq_is_full self \<longleftrightarrow> length (killq_q self) = MUXER_KILLQ_SIZE"

definition killq_is_empty :: "MuxerKillQ \<Rightarrow> bool" where
  "killq_is_empty self \<longleftrightarrow> length (killq_q self) = 0"

definition killq_push :: "MuxerKillQ \<Rightarrow> ConnMapKey \<Rightarrow> nat \<Rightarrow> MuxerKillQ" where
  "killq_push self key t =
     (if \<not> killq_synced self \<or> killq_is_full self then self\<lparr>killq_synced := False\<rparr>
      else self\<lparr>killq_q := killq_q self @ [\<lparr>kill_key = key, kill_time = t\<rparr>]\<rparr>)"

definition killq_pop :: "nat \<Rightarrow> MuxerKillQ \<Rightarrow> ConnMapKey option \<times> MuxerKillQ" where
  "killq_pop now self =
     (case killq_q self of
        [] \<Rightarrow> (None, self)
      | item # q \<Rightarrow> if now > kill_time item then (Some (kill_key item), self\<lparr>killq_q := q\<rparr>) else (None, self))"

section \<open>Bounds and order\<close>

definition rxq_ok :: "MuxerRxQ \<Rightarrow> bool" where
  "rxq_ok self \<longleftrightarrow> length (rxq_q self) \<le> MUXER_RXQ_SIZE"

definition killq_ok :: "MuxerKillQ \<Rightarrow> bool" where
  "killq_ok self \<longleftrightarrow> length (killq_q self) \<le> MUXER_KILLQ_SIZE"

lemma replace_first_conn_Some:
  "replace_first_conn rx q = Some q' \<Longrightarrow> length q' = length q \<and> rx \<in> set q' \<and>
    (\<forall>x \<in> set q. is_conn_rx x \<or> x \<in> set q')"
  by (induction q arbitrary: q') (auto split: if_splits)

lemma replace_first_conn_None: "replace_first_conn rx q = None \<longleftrightarrow> (\<forall>x \<in> set q. \<not> is_conn_rx x)"
  by (induction q) auto

lemma rxq_push_ok:
  assumes "rxq_ok self"
  shows "rxq_ok (snd (rxq_push self rx))"
    "rxq_synced (snd (rxq_push self rx)) \<Longrightarrow> (rxq_synced self \<and> set (rxq_q self) \<subseteq> set (rxq_q (snd (rxq_push self rx))))"
    "rxq_synced (snd (rxq_push self (ConnRx key))) \<Longrightarrow> ConnRx key \<in> set (rxq_q (snd (rxq_push self (ConnRx key))))"
  using assms
  by (auto simp: rxq_push_def rxq_ok_def rxq_is_full_def evict_last_conn_def
      dest: replace_first_conn_Some split: MuxerRx.splits option.splits)

text \<open>A reset is only dropped when the queue is full of resets.\<close>

lemma rxq_push_rst:
  assumes "rxq_ok self" "rxq_push self (RstPkt lp pp) = (ok, self')"
  shows "ok \<longrightarrow> RstPkt lp pp \<in> set (rxq_q self')"
    "\<not> ok \<longrightarrow> self' = self \<and> (\<forall>x \<in> set (rxq_q self). \<not> is_conn_rx x) \<and>
      (rxq_synced self \<longrightarrow> length (rxq_q self) = MUXER_RXQ_SIZE)"
    "\<forall>x \<in> set (rxq_q self). is_conn_rx x \<or> x \<in> set (rxq_q self')"
  using assms
  by (auto simp: rxq_push_def rxq_ok_def rxq_is_full_def evict_last_conn_def replace_first_conn_None
      dest!: replace_first_conn_Some split: if_splits option.splits)

lemma rxq_walk_ok:
  "length q \<le> MUXER_RXQ_SIZE \<Longrightarrow> rxq_ok (rxq_walk cm q) \<and> set q \<subseteq> set (rxq_q (rxq_walk cm q)) \<and>
    (rxq_synced (rxq_walk cm q) \<longrightarrow>
      (\<forall>(key, conn) \<in> set cm. has_pending_rx conn \<longrightarrow> ConnRx key \<in> set (rxq_q (rxq_walk cm q)))) \<and>
    (\<not> rxq_synced (rxq_walk cm q) \<longrightarrow> length (rxq_q (rxq_walk cm q)) = MUXER_RXQ_SIZE)"
  by (induction cm q rule: rxq_walk.induct) (auto simp: rxq_ok_def)

lemma killq_walk_times:
  "\<forall>it \<in> set q. now < kill_time it \<Longrightarrow> \<forall>it \<in> set (fst (killq_walk now cm q)). now < kill_time it"
  by (induction now cm q rule: killq_walk.induct) (auto simp: will_expire_def split: option.splits)

lemma killq_walk_ok:
  assumes "length q \<le> MUXER_KILLQ_SIZE"
  shows "length (fst (killq_walk now cm q)) \<le> MUXER_KILLQ_SIZE \<and>
    set q \<subseteq> set (fst (killq_walk now cm q)) \<and>
    (snd (killq_walk now cm q) \<longrightarrow> (\<forall>(key, conn) \<in> set cm. will_expire now conn \<longrightarrow>
       \<lparr>kill_key = key, kill_time = the (expiry conn)\<rparr> \<in> set (fst (killq_walk now cm q)))) \<and>
    (\<not> snd (killq_walk now cm q) \<longrightarrow> length (fst (killq_walk now cm q)) = MUXER_KILLQ_SIZE)"
  using assms
  by (induction now cm q rule: killq_walk.induct)
    (auto simp: will_expire_def split: option.splits)

end
