(* ===== verification/Vsock_Muxer.thy ===== *)
theory Vsock_Muxer
  imports Vsock_Queues
begin

text \<open>
  The vsock muxer (\<open>muxer/muxer_impl.rs\<close>): it routes packets between the guest and the connections,
  creates and removes connections, and keeps their epoll listeners up to date.

  The host is an argument. \<open>MuxEnv\<close> collects the operations of streams and backends (the traits
  \<open>VsockStream\<close> and \<open>VsockBackend\<close>) and the system call \<open>epoll_ctl\<close> on the state of an epoll
  instance, whose results are arbitrary. The clock \<open>now\<close> does not move during one call.
\<close>

section \<open>Types\<close>

datatype VsockBackendType = UnixStreamBackend | TcpBackend | InnerBackend | HybridStreamBackend

datatype MuxError =
    EpollAdd IoError
  | EpollFdCreate IoError
  | InvalidPortRequest
  | BackendAddAfterActivated
  | BackendAccept IoError
  | BackendBind IoError
  | BackendConnect IoError
  | BackendSetNonBlock IoError
  | BackendRead IoError
  | TooManyConnections
  | BackendRegistered VsockBackendType

datatype ReadPortResult = PassFd | Connect u32

datatype 's EpollListener =
    ConnListener ConnMapKey u32 VsockBackendType
  | BackendListener VsockBackendType
  | LocalStream 's
  | PassFdStream 's

datatype CtlOp = EPOLL_CTL_ADD | EPOLL_CTL_DEL | EPOLL_CTL_MOD

record ('s, 'b, 'e) MuxEnv =
  env_io :: "'s HostStream"
  stream_fd :: "'s \<Rightarrow> int"
  stream_backend :: "'s \<Rightarrow> VsockBackendType"
  recv_data_fd :: "'s \<Rightarrow> (IoError + u8 list \<times> int list) \<times> 's"
  hybrid_stream :: "int \<Rightarrow> 's \<Rightarrow> 's"
  set_nonblocking :: "'s \<Rightarrow> (IoError + unit) \<times> 's"
  backend_accept :: "'b \<Rightarrow> (IoError + 's) \<times> 'b"
  backend_connect :: "'b \<Rightarrow> u32 \<Rightarrow> IoError + 's"
  backend_fd :: "'b \<Rightarrow> int"
  backend_type :: "'b \<Rightarrow> VsockBackendType"
  epoll_ctl :: "'e \<Rightarrow> CtlOp \<Rightarrow> int \<Rightarrow> u32 \<Rightarrow> (IoError + unit) \<times> 'e"
  epoll_wait :: "'e \<Rightarrow> (IoError + (int \<times> u32) list) \<times> 'e"

record ('s, 'b, 'e) VsockMuxer =
  mx_cid :: u64
  conn_map :: "'s ConnMap"
  listener_map :: "int \<rightharpoonup> 's EpollListener"
  rxq :: MuxerRxQ
  killq :: MuxerKillQ
  mx_epoll :: 'e
  local_port_set :: "u32 set"
  local_port_last :: u32
  backend_map :: "VsockBackendType \<rightharpoonup> 'b"
  peer_backend :: "VsockBackendType option"

definition VsockMuxer_new :: "u64 \<Rightarrow> 'e \<Rightarrow> ('s, 'b, 'e) VsockMuxer" where
  "VsockMuxer_new cid ep =
     \<lparr>mx_cid = cid, conn_map = [], listener_map = Map.empty, rxq = MuxerRxQ_default,
      killq = MuxerKillQ_default, mx_epoll = ep, local_port_set = {}, local_port_last = 2 ^ 30 - 1,
      backend_map = Map.empty, peer_backend = None\<rparr>"

section \<open>Queues and listeners\<close>

definition push_rx :: "MuxerRx \<Rightarrow> ('s, 'b, 'e) VsockMuxer \<Rightarrow> ('s, 'b, 'e) VsockMuxer" where
  "push_rx rx self = self\<lparr>rxq := snd (rxq_push (rxq self) rx)\<rparr>"

definition enq_rst :: "u32 \<Rightarrow> u32 \<Rightarrow> ('s, 'b, 'e) VsockMuxer \<Rightarrow> ('s, 'b, 'e) VsockMuxer" where
  "enq_rst lport pport self = push_rx (RstPkt lport pport) self"

fun listener_evset :: "'s EpollListener \<Rightarrow> u32" where
  "listener_evset (ConnListener _ evset _) = evset"
| "listener_evset _ = EPOLLIN"

definition add_listener ::
  "('s, 'b, 'e) MuxEnv \<Rightarrow> int \<Rightarrow> 's EpollListener \<Rightarrow> ('s, 'b, 'e) VsockMuxer \<Rightarrow>
     (MuxError + unit) \<times> ('s, 'b, 'e) VsockMuxer" where
  "add_listener env fd listener self =
     (case epoll_ctl env (mx_epoll self) EPOLL_CTL_ADD fd (listener_evset listener) of
        (Inl e, ep) \<Rightarrow> (Inl (EpollAdd e), self\<lparr>mx_epoll := ep\<rparr>)
      | (Inr _, ep) \<Rightarrow> (Inr (), self\<lparr>mx_epoll := ep, listener_map := (listener_map self)(fd \<mapsto> listener)\<rparr>))"

definition remove_listener ::
  "('s, 'b, 'e) MuxEnv \<Rightarrow> int \<Rightarrow> ('s, 'b, 'e) VsockMuxer \<Rightarrow>
     's EpollListener option \<times> ('s, 'b, 'e) VsockMuxer" where
  "remove_listener env fd self =
     (let maybe_listener = listener_map self fd;
          self = self\<lparr>listener_map := (listener_map self)(fd := None)\<rparr>
      in if maybe_listener = None then (maybe_listener, self)
         else (maybe_listener, self\<lparr>mx_epoll := snd (epoll_ctl env (mx_epoll self) EPOLL_CTL_DEL fd 0)\<rparr>))"

section \<open>Local ports\<close>

definition next_port :: "u32 \<Rightarrow> u32" where
  "next_port p = ((p + 1) AND NOT (push_bit 31 1)) OR push_bit 30 1"

text \<open>The loop ends as soon as a port is unused; with every port in use it would not end.\<close>

partial_function (option) allocate_local_port ::
  "('s, 'b, 'e) VsockMuxer \<Rightarrow> (u32 \<times> ('s, 'b, 'e) VsockMuxer) rust" where
  "allocate_local_port self = do {
     _ \<leftarrow> uadd (local_port_last self) 1;
     let p = next_port (local_port_last self);
     let self = self\<lparr>local_port_last := p\<rparr>;
     if p \<notin> local_port_set self then ret (p, self\<lparr>local_port_set := insert p (local_port_set self)\<rparr>)
     else allocate_local_port self
   }"

definition free_local_port :: "u32 \<Rightarrow> ('s, 'b, 'e) VsockMuxer \<Rightarrow> ('s, 'b, 'e) VsockMuxer" where
  "free_local_port port self = self\<lparr>local_port_set := local_port_set self - {port}\<rparr>"

section \<open>Connections\<close>

definition kill_connection :: "ConnMapKey \<Rightarrow> ('s, 'b, 'e) VsockMuxer \<Rightarrow> ('s, 'b, 'e) VsockMuxer" where
  "kill_connection key self =
     (let (had_rx, self) =
        (case map_of (conn_map self) key of
           None \<Rightarrow> (False, self)
         | Some conn \<Rightarrow> (has_pending_rx conn, self\<lparr>conn_map := AList.update key (kill conn) (conn_map self)\<rparr>))
      in if \<not> had_rx then push_rx (ConnRx key) self else self)"

definition remove_connection ::
  "('s, 'b, 'e) MuxEnv \<Rightarrow> ConnMapKey \<Rightarrow> ('s, 'b, 'e) VsockMuxer \<Rightarrow> ('s, 'b, 'e) VsockMuxer" where
  "remove_connection env key self =
     (let self = (case map_of (conn_map self) key of
         None \<Rightarrow> self
       | Some conn \<Rightarrow>
           snd (remove_listener env (stream_fd env (cn_stream conn)) (self\<lparr>conn_map := AList.delete key (conn_map self)\<rparr>)))
      in free_local_port (key_local_port key) self)"

text \<open>The loop over the expired items. Every pop shortens the queue.\<close>

lemma killq_push_rx [simp]: "killq (push_rx rx self) = killq self"
  by (simp add: push_rx_def)

lemma killq_kill_connection [simp]: "killq (kill_connection key self) = killq self"
  by (simp add: kill_connection_def split: option.splits)

function sweep_expired :: "nat \<Rightarrow> ('s, 'b, 'e) VsockMuxer \<Rightarrow> ('s, 'b, 'e) VsockMuxer" where
  "sweep_expired now self =
     (case killq_pop now (killq self) of
        (None, _) \<Rightarrow> self
      | (Some key, q) \<Rightarrow>
          (let self = self\<lparr>killq := q\<rparr> in
           sweep_expired now
             (if (case map_of (conn_map self) key of None \<Rightarrow> False | Some conn \<Rightarrow> has_expired now conn)
              then kill_connection key self else self)))"
  by auto

termination
  by (relation "measure (\<lambda>(now, self). length (killq_q (killq self)))")
    (auto simp: killq_pop_def split: list.splits if_splits)

partial_function (option) sweep_killq :: "nat \<Rightarrow> ('s, 'b, 'e) VsockMuxer \<Rightarrow> ('s, 'b, 'e) VsockMuxer rust" where
  "sweep_killq now self =
     (let self = sweep_expired now self in
      if killq_is_empty (killq self) \<and> \<not> killq_synced (killq self)
      then sweep_killq now (self\<lparr>killq := killq_from_conn_map now (conn_map self)\<rparr>)
      else ret self)"

definition add_connection ::
  "('s, 'b, 'e) MuxEnv \<Rightarrow> nat \<Rightarrow> ConnMapKey \<Rightarrow> 's VsockConnection \<Rightarrow> ('s, 'b, 'e) VsockMuxer \<Rightarrow>
     ((MuxError + unit) \<times> ('s, 'b, 'e) VsockMuxer) rust" where
  "add_connection env now key conn self = do {
     self \<leftarrow> sweep_killq now self;
     if length (conn_map self) \<ge> MAX_CONNECTIONS then ret (Inl TooManyConnections, self)
     else case add_listener env (stream_fd env (cn_stream conn))
         (ConnListener key (get_polled_evset conn) (stream_backend env (cn_stream conn))) self of
       (Inl e, self) \<Rightarrow> ret (Inl e, self)
     | (Inr _, self) \<Rightarrow>
         (let self = (if has_pending_rx conn then push_rx (ConnRx key) self else self) in
          ret (Inr (), self\<lparr>conn_map := AList.update key conn (conn_map self)\<rparr>))
   }"

section \<open>Changing a connection\<close>

text \<open>The decimal digits of a number, and the acknowledgement \<open>OK <port>\<close> to the host.\<close>

fun decimal :: "nat \<Rightarrow> u8 list" where
  "decimal n = (if n < 10 then [48 + of_nat n] else decimal (n div 10) @ [48 + of_nat (n mod 10)])"

definition ok_msg :: "u32 \<Rightarrow> u8 list" where
  "ok_msg port = [79, 75, 32] @ decimal (unat port) @ [10]"

definition ack_host ::
  "'s HostStream \<Rightarrow> ConnMapKey \<Rightarrow> ConnState \<Rightarrow> 's VsockConnection \<Rightarrow> 's VsockConnection" where
  "ack_host io key prev_state conn =
     (if prev_state = LocalInit \<and> cn_state conn = Established
      then let msg = ok_msg (key_local_port key) in
           case send_bytes_raw io conn msg of
             (Inr written, conn) \<Rightarrow> if written = length msg then conn else kill conn
           | (Inl _, conn) \<Rightarrow> kill conn
      else conn)"

definition update_listener ::
  "('s, 'b, 'e) MuxEnv \<Rightarrow> ConnMapKey \<Rightarrow> 's VsockConnection \<Rightarrow> VsockBackendType \<Rightarrow>
     ('s, 'b, 'e) VsockMuxer \<Rightarrow> ('s, 'b, 'e) VsockMuxer" where
  "update_listener env key conn bt self =
     (let fd = stream_fd env (cn_stream conn);
          new_evset = get_polled_evset conn
      in if new_evset = 0 then snd (remove_listener env fd self)
      else case listener_map self fd of
        Some (ConnListener k evset b) \<Rightarrow>
          if evset \<noteq> new_evset
          then let self = self\<lparr>listener_map := (listener_map self)(fd \<mapsto> ConnListener k new_evset b)\<rparr>;
                   (r, ep) = epoll_ctl env (mx_epoll self) EPOLL_CTL_MOD fd new_evset;
                   self = self\<lparr>mx_epoll := ep\<rparr>
               in (case r of Inr _ \<Rightarrow> self | Inl _ \<Rightarrow> kill_connection key self)
          else self
      | _ \<Rightarrow>
          (case add_listener env fd (ConnListener key new_evset bt) self of
             (Inr _, self) \<Rightarrow> self
           | (Inl _, self) \<Rightarrow> kill_connection key self))"

definition apply_conn_mutation ::
  "('s, 'b, 'e) MuxEnv \<Rightarrow> nat \<Rightarrow> ConnMapKey \<Rightarrow> ('s VsockConnection \<Rightarrow> ('r \<times> 's VsockConnection) rust) \<Rightarrow>
     ('s, 'b, 'e) VsockMuxer \<Rightarrow> ('r option \<times> ('s, 'b, 'e) VsockMuxer) rust" where
  "apply_conn_mutation env now key mut_fn self =
     (case map_of (conn_map self) key of
        None \<Rightarrow> ret (None, self)
      | Some conn \<Rightarrow> do {
          let had_rx = has_pending_rx conn;
          let was_expiring = will_expire now conn;
          let prev_state = cn_state conn;
          let bt = stream_backend env (cn_stream conn);
          (r, conn) \<leftarrow> mut_fn conn;
          let conn = ack_host (env_io env) key prev_state conn;
          let self = self\<lparr>conn_map := AList.update key conn (conn_map self)\<rparr>;
          let self = (if \<not> had_rx \<and> has_pending_rx conn then push_rx (ConnRx key) self else self);
          let self = (if \<not> was_expiring \<and> will_expire now conn
            then self\<lparr>killq := killq_push (killq self) key (the (expiry conn))\<rparr> else self);
          ret (Some r, update_listener env key conn bt self)
        })"

section \<open>Packets\<close>

definition rst_pkt :: "u64 \<Rightarrow> u32 \<Rightarrow> u32 \<Rightarrow> VsockPacket \<Rightarrow> VsockPacket" where
  "rst_pkt cid lport pport pkt =
     set_fwd_cnt 0 (set_buf_alloc 0 (set_flags 0 (set_type VSOCK_TYPE_STREAM (set_len 0
       (set_dst_port pport (set_src_port lport (set_dst_cid cid (set_src_cid VSOCK_HOST_CID
         (set_op VSOCK_OP_RST pkt)))))))))"

definition pop_rx :: "('s, 'b, 'e) VsockMuxer \<Rightarrow> ('s, 'b, 'e) VsockMuxer rust" where
  "pop_rx self = (case rxq_pop (rxq self) of (None, _) \<Rightarrow> panic | (Some _, q) \<Rightarrow> ret (self\<lparr>rxq := q\<rparr>))"

text \<open>What \<open>recv_pkt\<close> does with a connection: its result and whether the key can leave the queue.\<close>

definition recv_from_conn ::
  "('s, 'b, 'e) MuxEnv \<Rightarrow> nat \<Rightarrow> VsockPacket \<Rightarrow> 's VsockConnection \<Rightarrow>
     (((VsockError + unit) \<times> bool \<times> VsockPacket) \<times> 's VsockConnection) rust" where
  "recv_from_conn env now pkt conn = do {
     (res, conn, pkt) \<leftarrow> conn_recv_pkt (env_io env) now conn pkt;
     ret ((res, \<not> has_pending_rx conn, pkt), conn)
   }"

partial_function (option) recv_loop ::
  "('s, 'b, 'e) MuxEnv \<Rightarrow> nat \<Rightarrow> ('s, 'b, 'e) VsockMuxer \<Rightarrow> VsockPacket \<Rightarrow>
     ((VsockError + unit) \<times> ('s, 'b, 'e) VsockMuxer \<times> VsockPacket) rust" where
  "recv_loop env now self pkt =
     (case rxq_peek (rxq self) of
        None \<Rightarrow> ret (Inl NoData, self, pkt)
      | Some (RstPkt lport pport) \<Rightarrow> do {
          self \<leftarrow> pop_rx self;
          ret (Inr (), self, rst_pkt (mx_cid self) lport pport pkt)
        }
      | Some (ConnRx key) \<Rightarrow> do {
          (r, self) \<leftarrow> apply_conn_mutation env now key (recv_from_conn env now pkt) self;
          let (conn_res, do_pop, pkt) = (case r of Some x \<Rightarrow> x | None \<Rightarrow> (Inl NoData, True, pkt));
          self \<leftarrow> (if do_pop then pop_rx self else ret self);
          if conn_res = Inr () then
            ret (Inr (),
              if pkt_op pkt = VSOCK_OP_RST
              then remove_connection env \<lparr>key_local_port = pkt_src_port pkt, key_peer_port = pkt_dst_port pkt\<rparr> self
              else self, pkt)
          else recv_loop env now self pkt
        })"

definition muxer_recv_pkt ::
  "('s, 'b, 'e) MuxEnv \<Rightarrow> nat \<Rightarrow> ('s, 'b, 'e) VsockMuxer \<Rightarrow> VsockPacket \<Rightarrow>
     ((VsockError + unit) \<times> ('s, 'b, 'e) VsockMuxer \<times> VsockPacket) rust" where
  "muxer_recv_pkt env now self pkt =
     (let self = (if rxq_is_empty (rxq self) \<and> \<not> rxq_synced (rxq self)
                  then self\<lparr>rxq := rxq_from_conn_map (conn_map self)\<rparr> else self)
      in recv_loop env now self pkt)"

definition handle_peer_request_pkt ::
  "('s, 'b, 'e) MuxEnv \<Rightarrow> nat \<Rightarrow> VsockPacket \<Rightarrow> ('s, 'b, 'e) VsockMuxer \<Rightarrow> ('s, 'b, 'e) VsockMuxer rust" where
  "handle_peer_request_pkt env now pkt self =
     (case peer_backend self of
        None \<Rightarrow> ret (enq_rst (pkt_dst_port pkt) (pkt_src_port pkt) self)
      | Some bt \<Rightarrow>
          (case backend_map self bt of
             None \<Rightarrow> ret (enq_rst (pkt_dst_port pkt) (pkt_src_port pkt) self)
           | Some backend \<Rightarrow>
               (case backend_connect env backend (pkt_dst_port pkt) of
                  Inl _ \<Rightarrow> ret (enq_rst (pkt_dst_port pkt) (pkt_src_port pkt) self)
                | Inr stream \<Rightarrow> do {
                    (r, self) \<leftarrow> add_connection env now
                      \<lparr>key_local_port = pkt_dst_port pkt, key_peer_port = pkt_src_port pkt\<rparr>
                      (new_peer_init stream VSOCK_HOST_CID (mx_cid self) (pkt_dst_port pkt) (pkt_src_port pkt)
                        (pkt_buf_alloc pkt)) self;
                    (case r of
                       Inr _ \<Rightarrow> ret self
                     | Inl _ \<Rightarrow> ret (enq_rst (pkt_dst_port pkt) (pkt_src_port pkt) self))
                  })))"

definition muxer_send_pkt ::
  "('s, 'b, 'e) MuxEnv \<Rightarrow> nat \<Rightarrow> ('s, 'b, 'e) VsockMuxer \<Rightarrow> VsockPacket \<Rightarrow>
     ((VsockError + unit) \<times> ('s, 'b, 'e) VsockMuxer) rust" where
  "muxer_send_pkt env now self pkt =
     (let conn_key = \<lparr>key_local_port = pkt_dst_port pkt, key_peer_port = pkt_src_port pkt\<rparr> in
      if pkt_type pkt \<noteq> VSOCK_TYPE_STREAM
      then ret (Inr (), enq_rst (pkt_dst_port pkt) (pkt_src_port pkt) self)
      else if pkt_dst_cid pkt \<noteq> VSOCK_HOST_CID then ret (Inr (), self)
      else if map_of (conn_map self) conn_key = None
      then if pkt_op pkt = VSOCK_OP_REQUEST
           then do { self \<leftarrow> handle_peer_request_pkt env now pkt self; ret (Inr (), self) }
           else ret (Inr (), enq_rst (pkt_dst_port pkt) (pkt_src_port pkt) self)
      else if pkt_op pkt = VSOCK_OP_RST then ret (Inr (), remove_connection env conn_key self)
      else do {
        (r, self) \<leftarrow> apply_conn_mutation env now conn_key
          (\<lambda>conn. conn_send_pkt (env_io env) now conn pkt) self;
        ret (case r of Some res \<Rightarrow> res | None \<Rightarrow> Inr (), self)
      })"

definition muxer_has_pending_rx :: "('s, 'b, 'e) VsockMuxer \<Rightarrow> bool" where
  "muxer_has_pending_rx self \<longleftrightarrow> \<not> rxq_is_empty (rxq self) \<or> \<not> rxq_synced (rxq self)"

definition add_backend ::
  "('s, 'b, 'e) MuxEnv \<Rightarrow> 'b \<Rightarrow> bool \<Rightarrow> ('s, 'b, 'e) VsockMuxer \<Rightarrow>
     (MuxError + unit) \<times> ('s, 'b, 'e) VsockMuxer" where
  "add_backend env backend is_peer_backend self =
     (let bt = backend_type env backend in
      if backend_map self bt \<noteq> None then (Inl (BackendRegistered bt), self)
      else case add_listener env (backend_fd env backend) (BackendListener bt) self of
        (Inl e, self) \<Rightarrow> (Inl e, self)
      | (Inr _, self) \<Rightarrow>
          (let self = self\<lparr>backend_map := (backend_map self)(bt \<mapsto> backend)\<rparr> in
           (Inr (), if is_peer_backend then self\<lparr>peer_backend := Some bt\<rparr> else self)))"

end
