(* ===== verification/Vsock_Events.thy ===== *)
theory Vsock_Events
  imports Vsock_Muxer
begin

text \<open>
  Events on the file descriptors of the muxer (\<open>muxer/muxer_impl.rs\<close>): connections, backends that
  accept host streams, and the text command with which a host stream asks for a port of the guest.

  The command is decoded the way \<open>str::from_utf8\<close>, \<open>str::split_whitespace\<close> and \<open>str::parse::<u32>\<close> do.
\<close>

section \<open>Text\<close>

text \<open>One character of a UTF-8 string: the code point and the number of bytes.\<close>

definition cont_byte :: "nat \<Rightarrow> bool" where
  "cont_byte b \<longleftrightarrow> 0x80 \<le> b \<and> b \<le> 0xbf"

definition utf8_char :: "nat list \<Rightarrow> (nat \<times> nat) option" where
  "utf8_char bs =
     (case bs of
        [] \<Rightarrow> None
      | b0 # rest \<Rightarrow>
          if b0 < 0x80 then Some (b0, 1)
          else case rest of
            [] \<Rightarrow> None
          | b1 # rest \<Rightarrow>
              if 0xc2 \<le> b0 \<and> b0 \<le> 0xdf
              then if cont_byte b1 then Some ((b0 - 0xc0) * 64 + (b1 - 0x80), 2) else None
              else case rest of
                [] \<Rightarrow> None
              | b2 # rest \<Rightarrow>
                  if 0xe0 \<le> b0 \<and> b0 \<le> 0xef
                  then if cont_byte b1 \<and> cont_byte b2 \<and> (b0 = 0xe0 \<longrightarrow> 0xa0 \<le> b1) \<and> (b0 = 0xed \<longrightarrow> b1 \<le> 0x9f)
                       then Some ((b0 - 0xe0) * 4096 + (b1 - 0x80) * 64 + (b2 - 0x80), 3) else None
                  else case rest of
                    [] \<Rightarrow> None
                  | b3 # _ \<Rightarrow>
                      if 0xf0 \<le> b0 \<and> b0 \<le> 0xf4 \<and> cont_byte b1 \<and> cont_byte b2 \<and> cont_byte b3 \<and>
                         (b0 = 0xf0 \<longrightarrow> 0x90 \<le> b1) \<and> (b0 = 0xf4 \<longrightarrow> b1 \<le> 0x8f)
                      then Some ((b0 - 0xf0) * 262144 + (b1 - 0x80) * 4096 + (b2 - 0x80) * 64 + (b3 - 0x80), 4)
                      else None)"

lemma utf8_char_pos: "utf8_char bs = Some (c, n) \<Longrightarrow> 0 < n \<and> bs \<noteq> []"
  by (auto simp: utf8_char_def split: list.splits if_splits)

function from_utf8 :: "nat list \<Rightarrow> nat list option" where
  "from_utf8 bs =
     (if bs = [] then Some []
      else case utf8_char bs of
        None \<Rightarrow> None
      | Some (c, n) \<Rightarrow> map_option ((#) c) (from_utf8 (drop n bs)))"
  by auto

termination
  by (relation "measure length") (auto dest: utf8_char_pos)

text \<open>The code points with the property \<open>White_Space\<close>.\<close>

definition white_space :: "nat \<Rightarrow> bool" where
  "white_space c \<longleftrightarrow> 9 \<le> c \<and> c \<le> 13 \<or> c = 32 \<or> c = 0x85 \<or> c = 0xa0 \<or> c = 0x1680 \<or>
     0x2000 \<le> c \<and> c \<le> 0x200a \<or> c = 0x2028 \<or> c = 0x2029 \<or> c = 0x202f \<or> c = 0x205f \<or> c = 0x3000"

fun split_ws :: "nat list \<Rightarrow> nat list \<Rightarrow> nat list list" where
  "split_ws cur [] = (if cur = [] then [] else [cur])"
| "split_ws cur (c # cs) =
     (if white_space c then if cur = [] then split_ws [] cs else cur # split_ws [] cs
      else split_ws (cur @ [c]) cs)"

definition split_whitespace :: "nat list \<Rightarrow> nat list list" where
  "split_whitespace cs = split_ws [] cs"

text \<open>Lower case, as far as the comparison with an ASCII word can tell.\<close>

definition to_lowercase :: "nat list \<Rightarrow> nat list" where
  "to_lowercase = map (\<lambda>c. if 65 \<le> c \<and> c \<le> 90 then c + 32 else c)"

fun parse_digits :: "nat \<Rightarrow> nat list \<Rightarrow> nat option" where
  "parse_digits acc [] = Some acc"
| "parse_digits acc (c # cs) =
     (if 48 \<le> c \<and> c \<le> 57 \<and> acc * 10 + (c - 48) < 2 ^ 32 then parse_digits (acc * 10 + (c - 48)) cs else None)"

definition parse_u32 :: "nat list \<Rightarrow> u32 option" where
  "parse_u32 cs =
     (case cs of
        [] \<Rightarrow> None
      | c # rest \<Rightarrow>
          if (c = 43 \<or> c = 45) \<and> rest = [] then None
          else map_option of_nat (parse_digits 0 (if c = 43 then rest else cs)))"

definition str_connect :: "nat list" where "str_connect = [99, 111, 110, 110, 101, 99, 116]"
definition str_passfd :: "nat list" where "str_passfd = [112, 97, 115, 115, 102, 100]"

text \<open>The words of a command.\<close>

definition parse_command :: "nat list list \<Rightarrow> MuxError + ReadPortResult" where
  "parse_command words =
     (case words of
        [] \<Rightarrow> Inl InvalidPortRequest
      | word # rest \<Rightarrow>
          if to_lowercase word = str_connect
          then (case rest of
                  [] \<Rightarrow> Inl InvalidPortRequest
                | word # _ \<Rightarrow>
                    (case parse_u32 word of None \<Rightarrow> Inl InvalidPortRequest | Some port \<Rightarrow> Inr (Connect port)))
          else if to_lowercase word = str_passfd then Inr PassFd
          else Inl InvalidPortRequest)"

section \<open>Reading a command\<close>

definition MIN_READ_LEN :: nat where "MIN_READ_LEN = 7"

definition read_exact1 :: "'s HostStream \<Rightarrow> 's \<Rightarrow> (IoError + u8) \<times> 's" where
  "read_exact1 io s =
     (case stream_read io s 1 of
        (Inl e, s) \<Rightarrow> (Inl e, s)
      | (Inr [], s) \<Rightarrow> (Inl OtherIoError, s)
      | (Inr (b # _), s) \<Rightarrow> (Inr b, s))"

text \<open>The rest of the line, byte by byte.\<close>

function read_line :: "'s HostStream \<Rightarrow> u8 list \<Rightarrow> nat \<Rightarrow> 's \<Rightarrow> (MuxError + u8 list) \<times> 's" where
  "read_line io buf blen s =
     (if buf ! (blen - 1) \<noteq> 10 \<and> blen < length buf
      then (case read_exact1 io s of
              (Inl e, s) \<Rightarrow> (Inl (BackendRead e), s)
            | (Inr b, s) \<Rightarrow> read_line io (buf[blen := b]) (blen + 1) s)
      else (Inr buf, s))"
  by auto

termination
  by (relation "measure (\<lambda>(io, buf, blen, s). length buf - blen)") auto

definition read_local_stream_port ::
  "'s HostStream \<Rightarrow> 's \<Rightarrow> ((MuxError + ReadPortResult) \<times> 's) rust" where
  "read_local_stream_port io s =
     (case stream_read io s MIN_READ_LEN of
        (Inl e, s) \<Rightarrow> ret (Inl (BackendRead e), s)
      | (Inr bytes, s) \<Rightarrow> do {
          buf \<leftarrow> copy_into (replicate 32 0) 0 bytes;
          (case read_line io buf MIN_READ_LEN s of
             (Inl e, s) \<Rightarrow> ret (Inl e, s)
           | (Inr buf, s) \<Rightarrow>
               ret (case from_utf8 (map unat buf) of
                      None \<Rightarrow> Inl InvalidPortRequest
                    | Some cs \<Rightarrow> parse_command (split_whitespace cs), s))
        })"

definition passfd_read_port_and_fd ::
  "('s, 'b, 'e) MuxEnv \<Rightarrow> 's \<Rightarrow> (MuxError + int \<times> u32) \<times> 's" where
  "passfd_read_port_and_fd env s =
     (case recv_data_fd env s of
        (Inl e, s) \<Rightarrow> (Inl (BackendRead e), s)
      | (Inr (bytes, fds), s) \<Rightarrow>
          (if length fds \<noteq> 1 \<or> hd fds \<le> 0 then Inl InvalidPortRequest
           else case from_utf8 (map unat bytes) of
             None \<Rightarrow> Inl InvalidPortRequest
           | Some cs \<Rightarrow>
               (case split_whitespace cs of
                  [] \<Rightarrow> Inl InvalidPortRequest
                | word # _ \<Rightarrow>
                    (case parse_u32 word of
                       None \<Rightarrow> Inl InvalidPortRequest
                     | Some port \<Rightarrow> Inr (hd fds, port))), s))"

section \<open>Events\<close>

definition add_local_connection ::
  "('s, 'b, 'e) MuxEnv \<Rightarrow> nat \<Rightarrow> 's \<Rightarrow> u32 \<Rightarrow> u32 \<Rightarrow> ('s, 'b, 'e) VsockMuxer \<Rightarrow> ('s, 'b, 'e) VsockMuxer rust" where
  "add_local_connection env now stream lport pport self = do {
     (_, self) \<leftarrow> add_connection env now \<lparr>key_local_port = lport, key_peer_port = pport\<rparr>
       (new_local_init stream VSOCK_HOST_CID (mx_cid self) lport pport) self;
     ret self
   }"

definition handle_backend_event ::
  "('s, 'b, 'e) MuxEnv \<Rightarrow> VsockBackendType \<Rightarrow> ('s, 'b, 'e) VsockMuxer \<Rightarrow> ('s, 'b, 'e) VsockMuxer" where
  "handle_backend_event env bt self =
     (case backend_map self bt of
        None \<Rightarrow> self
      | Some backend \<Rightarrow>
          (let (r, backend) = backend_accept env backend;
               full = (length (rxq_q (rxq self)) = MAX_CONNECTIONS);
               self = self\<lparr>backend_map := (backend_map self)(bt \<mapsto> backend)\<rparr>
           in if full then self
              else case r of
                Inl _ \<Rightarrow> self
              | Inr stream \<Rightarrow> snd (add_listener env (stream_fd env stream) (LocalStream stream) self)))"

definition handle_local_stream ::
  "('s, 'b, 'e) MuxEnv \<Rightarrow> nat \<Rightarrow> int \<Rightarrow> ('s, 'b, 'e) VsockMuxer \<Rightarrow> ('s, 'b, 'e) VsockMuxer rust" where
  "handle_local_stream env now fd self =
     (case remove_listener env fd self of
        (Some (LocalStream stream), self) \<Rightarrow> do {
          (r, stream) \<leftarrow> read_local_stream_port (env_io env) stream;
          (case r of
             Inl _ \<Rightarrow> ret self
           | Inr (Connect pport) \<Rightarrow> do {
               (lport, self) \<leftarrow> allocate_local_port self;
               add_local_connection env now stream lport pport self
             }
           | Inr PassFd \<Rightarrow>
               ret (snd (add_listener env (stream_fd env stream) (PassFdStream stream) self)))
        }
      | (_, self) \<Rightarrow> ret self)"

definition handle_passfd_stream ::
  "('s, 'b, 'e) MuxEnv \<Rightarrow> nat \<Rightarrow> int \<Rightarrow> ('s, 'b, 'e) VsockMuxer \<Rightarrow> ('s, 'b, 'e) VsockMuxer rust" where
  "handle_passfd_stream env now fd self =
     (case remove_listener env fd self of
        (Some (PassFdStream stream), self) \<Rightarrow>
          (case passfd_read_port_and_fd env stream of
             (Inl _, _) \<Rightarrow> ret self
           | (Inr (nfd, pport), stream) \<Rightarrow> do {
               (lport, self) \<leftarrow> allocate_local_port self;
               (case set_nonblocking env (hybrid_stream env nfd stream) of
                  (Inl _, _) \<Rightarrow> ret self
                | (Inr _, stream) \<Rightarrow> add_local_connection env now stream lport pport self)
             })
      | (_, self) \<Rightarrow> ret self)"

definition handle_event ::
  "('s, 'b, 'e) MuxEnv \<Rightarrow> nat \<Rightarrow> int \<Rightarrow> u32 \<Rightarrow> ('s, 'b, 'e) VsockMuxer \<Rightarrow> ('s, 'b, 'e) VsockMuxer rust" where
  "handle_event env now fd event_set self =
     (case listener_map self fd of
        Some (ConnListener key _ _) \<Rightarrow> do {
          (_, self) \<leftarrow> apply_conn_mutation env now key
            (\<lambda>conn. map_option (Pair ()) (conn_notify (env_io env) conn event_set)) self;
          ret self
        }
      | Some (BackendListener bt) \<Rightarrow> ret (handle_backend_event env bt self)
      | Some (LocalStream _) \<Rightarrow> handle_local_stream env now fd self
      | Some (PassFdStream _) \<Rightarrow> handle_passfd_stream env now fd self
      | None \<Rightarrow> ret self)"

fun handle_events ::
  "('s, 'b, 'e) MuxEnv \<Rightarrow> nat \<Rightarrow> (int \<times> u32) list \<Rightarrow> ('s, 'b, 'e) VsockMuxer \<Rightarrow> ('s, 'b, 'e) VsockMuxer rust" where
  "handle_events env now [] self = ret self"
| "handle_events env now ((fd, evset) # evs) self = do {
     self \<leftarrow> handle_event env now fd evset self;
     handle_events env now evs self
   }"

definition muxer_notify ::
  "('s, 'b, 'e) MuxEnv \<Rightarrow> nat \<Rightarrow> ('s, 'b, 'e) VsockMuxer \<Rightarrow> ('s, 'b, 'e) VsockMuxer rust" where
  "muxer_notify env now self =
     (case epoll_wait env (mx_epoll self) of
        (Inl _, ep) \<Rightarrow> ret (self\<lparr>mx_epoll := ep\<rparr>)
      | (Inr evs, ep) \<Rightarrow> handle_events env now evs (self\<lparr>mx_epoll := ep\<rparr>))"

end
