(* ===== verification/Vsock_Muxer_Lemmas.thy ===== *)
theory Vsock_Muxer_Lemmas
  imports Vsock_Csm_Lemmas Vsock_Events
begin

text \<open>
  The invariant of the muxer and what its operations do to it: the pool stays within its limit and its
  keys match the connections, the queues stay within their sizes, and a receive queue in sync names
  every connection that has something for the guest.
\<close>

section \<open>Connections, without their history\<close>

text \<open>What the operations of a connection keep for a muxer that may kill it at any time.\<close>

definition ports :: "'s VsockConnection \<Rightarrow> ConnMapKey" where
  "ports self = \<lparr>key_local_port = local_port self, key_peer_port = peer_port self\<rparr>"

lemma ports_simps [simp]:
  "ports (pend it self) = ports self" "ports (kill self) = ports self" "ports (note_credit self) = ports self"
  "ports (snd (unpend it self)) = ports self"
  "ports (self\<lparr>cn_stream := s\<rparr>) = ports self" "ports (self\<lparr>cn_state := st\<rparr>) = ports self"
  "ports (self\<lparr>expiry := e\<rparr>) = ports self" "ports (self\<lparr>rx_cnt := n\<rparr>) = ports self"
  "ports (self\<lparr>fwd_cnt := f\<rparr>) = ports self" "ports (self\<lparr>tx_buf := b\<rparr>) = ports self"
  "ports (self\<lparr>peer_buf_alloc := a\<rparr>) = ports self" "ports (self\<lparr>peer_fwd_cnt := f\<rparr>) = ports self"
  by (simp_all add: ports_def pend_def kill_def note_credit_def unpend_def split: prod.splits)

lemma conn_ok_upd [simp]:
  "conn_ok (self\<lparr>cn_stream := s\<rparr>) = conn_ok self" "conn_ok (self\<lparr>cn_state := st\<rparr>) = conn_ok self"
  "conn_ok (self\<lparr>expiry := e\<rparr>) = conn_ok self" "conn_ok (self\<lparr>rx_cnt := n\<rparr>) = conn_ok self"
  "conn_ok (self\<lparr>fwd_cnt := f\<rparr>) = conn_ok self"
  "conn_ok (self\<lparr>peer_buf_alloc := a\<rparr>) = conn_ok self" "conn_ok (self\<lparr>peer_fwd_cnt := f\<rparr>) = conn_ok self"
  by (simp_all add: conn_ok_def)

text \<open>The connection after an operation: still in order, the same ports, and no new confirmation or
  request.\<close>

definition kept :: "'s VsockConnection \<Rightarrow> 's VsockConnection \<Rightarrow> bool" where
  "kept self self' \<longleftrightarrow> conn_ok self' \<and> ports self' = ports self \<and>
     (cn_state self' = LocalInit \<longrightarrow> cn_state self = LocalInit) \<and>
     (Response \<in> pending self' \<longrightarrow> Response \<in> pending self)"

lemma kept_refl [simp]: "conn_ok self \<Longrightarrow> kept self self"
  by (simp add: kept_def)

lemma kept_trans: "kept a b \<Longrightarrow> kept b c \<Longrightarrow> kept a c"
  by (auto simp: kept_def)

lemma kept_upd [simp]:
  "kept c self \<Longrightarrow> it \<noteq> Response \<Longrightarrow> kept c (pend it self)"
  "kept c self \<Longrightarrow> kept c (kill self)"
  "kept c self \<Longrightarrow> kept c (note_credit self)"
  "kept c self \<Longrightarrow> kept c (snd (unpend it self))"
  "kept c self \<Longrightarrow> kept c (self\<lparr>cn_stream := s\<rparr>)"
  "kept c self \<Longrightarrow> st \<noteq> LocalInit \<Longrightarrow> kept c (self\<lparr>cn_state := st\<rparr>)"
  "kept c self \<Longrightarrow> kept c (self\<lparr>expiry := e\<rparr>)"
  "kept c self \<Longrightarrow> kept c (self\<lparr>rx_cnt := n\<rparr>)"
  "kept c self \<Longrightarrow> kept c (self\<lparr>fwd_cnt := f\<rparr>)"
  "kept c self \<Longrightarrow> txbuf_ok b \<Longrightarrow> kept c (self\<lparr>tx_buf := b\<rparr>)"
  "kept c self \<Longrightarrow> kept c (self\<lparr>peer_buf_alloc := a\<rparr>)"
  "kept c self \<Longrightarrow> kept c (self\<lparr>peer_fwd_cnt := f\<rparr>)"
  by (simp_all add: kept_def, simp_all add: pending_def conn_ok_def)

lemma kept_stream [simp]: "kept (self\<lparr>cn_stream := s\<rparr>) self' = kept self self'"
  by (simp add: kept_def)

lemma recv_credit_update_total:
  assumes "conn_ok self"
  shows "\<exists>r self' pkt'. recv_credit_update self pkt = Some (r, self', pkt') \<and>
    kept self self' \<and> pending self' = pending self - {CreditUpdate} \<and> cn_state self' = cn_state self \<and>
    (r = Inr () \<longrightarrow> pkt_op pkt' \<noteq> VSOCK_OP_RST)"
proof -
  let ?u = "snd (unpend CreditUpdate self)"
  have "kept self ?u" "kept self (note_credit ?u)" "pending ?u = pending self - {CreditUpdate}"
      "cn_state ?u = cn_state self"
    using assms by simp_all
  then show ?thesis
    by (cases "fst (unpend CreditUpdate self) \<and> \<not> has_pending_rx ?u")
      (simp_all add: recv_credit_update_def vsock_op_defs case_prod_beta Let_def)
qed

text \<open>A reset that a connection yields carries its own ports.\<close>

definition rst_of :: "'s VsockConnection \<Rightarrow> (VsockError + unit) \<Rightarrow> VsockPacket \<Rightarrow> bool" where
  "rst_of self r pkt \<longleftrightarrow> (r = Inr () \<and> pkt_op pkt = VSOCK_OP_RST \<longrightarrow>
     \<lparr>key_local_port = pkt_src_port pkt, key_peer_port = pkt_dst_port pkt\<rparr> = ports self)"

lemma rst_of_simps:
  "op \<noteq> VSOCK_OP_RST \<Longrightarrow> pkt_op pkt = op \<Longrightarrow> rst_of self r pkt"
  "rst_of self (Inl e) pkt"
  by (auto simp: rst_of_def)

lemma set_op_ports [simp]: "pkt_src_port (set_op op pkt) = pkt_src_port pkt" "pkt_dst_port (set_op op pkt) = pkt_dst_port pkt"
  by (simp_all add: pkt_get_defs pkt_set_defs)

lemma recv_rw_total:
  assumes "conn_ok self" "stream_ok io accepted"
    "\<lparr>key_local_port = pkt_src_port pkt, key_peer_port = pkt_dst_port pkt\<rparr> = ports self"
  shows "\<exists>r self' pkt'. recv_rw io now self pkt = Some (r, self', pkt') \<and> kept self self' \<and>
    pending self' \<subseteq> pending self \<and> (cn_state self' = cn_state self \<or> cn_state self' = LocalClosed) \<and>
    rst_of self r pkt'"
proof (cases "sends_data self \<and> \<not> need_credit_update_from_peer self \<and> pkt_buf pkt \<noteq> None")
  case False
  then show ?thesis using assms(1,3)
    by (cases "sends_data self"; cases "need_credit_update_from_peer self"; cases "pkt_buf pkt")
      (simp_all add: recv_rw_def sends_data_def [symmetric] rst_of_def vsock_op_defs)
next
  case True
  then obtain buf where buf: "pkt_buf pkt = Some buf" by blast
  let ?n = "min (length buf) (peer_avail_credit self)"
  obtain res s where rd: "stream_read io (cn_stream self) ?n = (res, s)" by fastforce
  show ?thesis
  proof (cases res)
    case (Inl e)
    have "conn_ok (self\<lparr>cn_stream := s\<rparr>)" using assms(1) by simp
    from recv_credit_update_total [OF this, of pkt] obtain r self' pkt' where
      c: "recv_credit_update (self\<lparr>cn_stream := s\<rparr>) pkt = Some (r, self', pkt')" "kept self self'"
        "pending self' \<subseteq> pending self" "cn_state self' = cn_state self"
        "r = Inr () \<longrightarrow> pkt_op pkt' \<noteq> VSOCK_OP_RST"
      by auto
    have "rst_of self r pkt'" using c(5) by (auto simp: rst_of_def)
    then show ?thesis using Inl c(1-4) assms(1,3) True buf rd
      by (cases "e = WouldBlock") (simp_all add: recv_rw_def sends_data_def [symmetric], simp add: rst_of_def)
  next
    case (Inr bytes)
    have "length bytes \<le> ?n" using stream_okD(3) [OF assms(2)] rd Inr by blast
    then have "copy_into buf 0 bytes = Some (bytes @ drop (length bytes) buf)" by (simp add: copy_into_def)
    then show ?thesis using assms(1) True buf rd Inr
      by (cases "bytes = []") (simp_all add: recv_rw_def sends_data_def [symmetric] rst_of_def vsock_op_defs Let_def)
  qed
qed


lemma conn_recv_total:
  assumes "conn_ok self" "stream_ok io accepted"
  shows "\<exists>r self' pkt'. conn_recv_pkt io now self pkt = Some (r, self', pkt') \<and> kept self self' \<and>
    pending self' \<subseteq> pending self \<and>
    (pending self \<noteq> {} \<longrightarrow> pending self' \<subset> pending self) \<and> (Rst \<in> pending self \<longrightarrow> r = Inr ()) \<and>
    (Response \<notin> pending self \<longrightarrow> cn_state self' = cn_state self \<or> cn_state self' = LocalClosed) \<and>
    rst_of self r pkt'"
proof -
  let ?pkt = "init_pkt self pkt"
  define s1 where "s1 = snd (unpend Rst self)"
  define s2 where "s2 = snd (unpend Response s1)"
  define s3 where "s3 = snd (unpend Request s2)"
  define s4 where "s4 = snd (unpend Rw s3)"
  have u: "unpend Rst self = (Rst \<in> pending self, s1)" "unpend Response s1 = (Response \<in> pending s1, s2)"
      "unpend Request s2 = (Request \<in> pending s2, s3)" "unpend Rw s3 = (Rw \<in> pending s3, s4)"
    unfolding s1_def s2_def s3_def s4_def by (simp_all add: prod_eq_iff)
  have ok: "conn_ok s1" "conn_ok s2" "conn_ok s3" "conn_ok s4"
    using assms(1) unfolding s1_def s2_def s3_def s4_def by simp_all
  have kp1: "kept self s1" "kept self s2" "kept self s3" "kept self s4"
    using assms(1) unfolding s1_def s2_def s3_def s4_def by simp_all
  have pt: "ports s1 = ports self" "ports s2 = ports self" "ports s3 = ports self" "ports s4 = ports self"
    unfolding s1_def s2_def s3_def s4_def by simp_all
  have st: "cn_state s1 = cn_state self" "cn_state s2 = cn_state self" "cn_state s3 = cn_state self"
      "cn_state s4 = cn_state self"
    unfolding s1_def s2_def s3_def s4_def by simp_all
  have p: "pending s1 = pending self - {Rst}" "pending s2 = pending s1 - {Response}"
      "pending s3 = pending s2 - {Request}" "pending s4 = pending s3 - {Rw}"
    unfolding s1_def s2_def s3_def s4_def by simp_all
  have kp: "\<lparr>key_local_port = pkt_src_port ?pkt, key_peer_port = pkt_dst_port ?pkt\<rparr> = ports self"
    by (simp add: ports_def)
  note def = conn_recv_pkt_def [of io now self pkt, unfolded Let_def u prod.case]
  consider (rst) "Rst \<in> pending self" | (response) "Rst \<notin> pending self" "Response \<in> pending self"
    | (request) "Rst \<notin> pending self" "Response \<notin> pending self" "Request \<in> pending self"
    | (rw) "Rst \<notin> pending self" "Response \<notin> pending self" "Request \<notin> pending self" "Rw \<in> pending self"
    | (credit) "Rst \<notin> pending self" "Response \<notin> pending self" "Request \<notin> pending self" "Rw \<notin> pending self"
    by blast
  then show ?thesis
  proof cases
    case rst
    then have "conn_recv_pkt io now self pkt = Some (Inr (), s1, set_op VSOCK_OP_RST ?pkt)" using def by simp
    then show ?thesis using kp1(1) p(1) rst kp st(1) by (auto simp: rst_of_def)
  next
    case response
    then have "conn_recv_pkt io now self pkt = Some (Inr (), s2\<lparr>cn_state := Established\<rparr>, set_op VSOCK_OP_RESPONSE ?pkt)"
      using def p(1) by simp
    moreover have "pending s2 \<subset> pending self" using response unfolding p by blast
    ultimately show ?thesis using kp1(2) response by (auto simp: rst_of_def vsock_op_defs)
  next
    case request
    then have "conn_recv_pkt io now self pkt =
        Some (Inr (), s3\<lparr>expiry := Some (now + CONN_REQUEST_TIMEOUT_MS)\<rparr>, set_op VSOCK_OP_REQUEST ?pkt)"
      using def p(1,2) by simp
    moreover have "pending s3 \<subset> pending self" using request unfolding p by blast
    ultimately show ?thesis using kp1(3) request st(3) by (auto simp: rst_of_def vsock_op_defs)
  next
    case rw
    obtain r self' pkt' where w: "recv_rw io now s4 ?pkt = Some (r, self', pkt')" "kept s4 self'"
        "pending self' \<subseteq> pending s4" "rst_of s4 r pkt'"
        "cn_state self' = cn_state s4 \<or> cn_state self' = LocalClosed"
      using recv_rw_total [OF ok(4) assms(2) kp [folded pt(4)]] by blast
    have "conn_recv_pkt io now self pkt = Some (r, self', pkt')" using def rw p w(1) by simp
    moreover have "pending self' \<subset> pending self" using w(3) rw(4) unfolding p by blast
    moreover have "rst_of self r pkt'" using w(4) pt(4) by (simp add: rst_of_def)
    ultimately show ?thesis using kept_trans [OF kp1(4) w(2)] rw(1) w(5) st(4) by (simp add: psubset_imp_subset)
  next
    case credit
    obtain r self' pkt' where c: "recv_credit_update s4 ?pkt = Some (r, self', pkt')" "kept s4 self'"
        "pending self' = pending s4 - {CreditUpdate}" "r = Inr () \<longrightarrow> pkt_op pkt' \<noteq> VSOCK_OP_RST"
        "cn_state self' = cn_state s4"
      using recv_credit_update_total [OF ok(4)] by blast
    have "conn_recv_pkt io now self pkt = Some (r, self', pkt')" using def credit p c(1) by simp
    moreover have "pending self' = pending self - {CreditUpdate}" unfolding c(3) p using credit by blast
    moreover have "it = CreditUpdate" if "it \<in> pending self" for it
      using that credit by (cases it) simp_all
    moreover have "rst_of self r pkt'" using c(4) by (auto simp: rst_of_def)
    ultimately show ?thesis using kept_trans [OF kp1(4) c(2)] c(5) st(4) credit(1) by (simp add: psubset_eq) blast
  qed
qed


lemma send_rw_total:
  assumes "conn_ok self" "stream_ok io accepted" "data_inside pkt"
  shows "\<exists>self'. send_rw io self pkt = Some self' \<and> kept self self'"
proof (cases "pkt_buf pkt")
  case None
  then show ?thesis using assms(1) by (simp add: send_rw_def)
next
  case (Some buf)
  let ?p = "take (unat (pkt_len pkt)) buf"
  have sub: "subslice buf 0 (unat (pkt_len pkt)) = Some ?p"
    using assms(3) Some by (simp add: data_inside_def subslice_def)
  obtain r self1 where s: "send_bytes io self ?p = Some (r, self1)" "conn_ok self1"
      "local_port self1 = local_port self" "peer_port self1 = peer_port self"
      "cn_state self1 = cn_state self" "pending self1 = pending self"
    using send_bytes_ok [OF assms(1,2), of ?p] by blast
  then have "kept self self1" by (simp add: ports_def kept_def)
  then show ?thesis using Some sub s(1) by (cases r) (simp_all add: send_rw_def)
qed

lemma conn_send_total:
  assumes "conn_ok self" "stream_ok io accepted" "data_inside pkt"
  shows "\<exists>self'. conn_send_pkt io now self pkt = Some (Inr (), self') \<and> kept self self'"
proof -
  let ?self1 = "self\<lparr>peer_buf_alloc := pkt_buf_alloc pkt, peer_fwd_cnt := pkt_fwd_cnt pkt\<rparr>"
  have ok: "conn_ok ?self1" "kept self ?self1" using assms(1) by simp_all
  obtain self' where rw: "send_rw io ?self1 pkt = Some self'" "kept ?self1 self'"
    using send_rw_total [OF ok(1) assms(2,3)] by blast
  show ?thesis
    using rw(1) kept_trans [OF ok(2) rw(2)] ok(2) by (cases "cn_state self")
      (simp_all add: conn_send_pkt_def Let_def shutdown_established_def shutdown_again_def)
qed

lemma conn_notify_total:
  assumes "conn_ok self" "stream_ok io accepted"
  shows "\<exists>self'. conn_notify io self evset = Some self' \<and> kept self self'"
proof -
  have out: "\<exists>self'. notify_out io s = Some self' \<and> kept s self'" if "conn_ok s" for s
  proof (cases "TxBuf_is_empty (tx_buf s)")
    case True
    then show ?thesis using that by (simp add: notify_out_def)
  next
    case False
    have tb: "txbuf_ok (tx_buf s)" using that by (simp add: conn_ok_def)
    obtain r b t where f: "flush_to (stream_write io) (tx_buf s) (cn_stream s) = Some (r, b, t)" "txbuf_ok b"
      using flush_to_ok [OF tb stream_okD(1) [OF assms(2)]] by blast
    define s1 where "s1 = (let self = s\<lparr>tx_buf := b, cn_stream := t\<rparr> in
      case r of Inr _ \<Rightarrow> self | Inl e \<Rightarrow> if e = TxBufFlush WouldBlock then self else kill self)"
    have s1: "kept s s1" using f(2) that by (simp add: s1_def Let_def split: sum.splits)
    define n where "n = (case r of Inr n \<Rightarrow> n | Inl _ \<Rightarrow> 0)"
    define s2 where "s2 = s1\<lparr>fwd_cnt := fwd_cnt s1 + of_nat n\<rparr>"
    have s2: "kept s s2" using s1 by (simp add: s2_def)
    have "notify_out io s =
        Some (if cn_state s2 = PeerClosed True True \<and> TxBuf_is_empty (tx_buf s2) then pend Rst s2
          else if peer_needs_credit_update s2 then pend CreditUpdate s2 else s2)"
      using notify_out_eq [OF False f(1)] by (simp only: s2_def s1_def n_def Let_def)
    then show ?thesis using s2 by simp
  qed
  let ?s = "if evset_contains evset EPOLLIN then pend Rw self else self"
  have s: "conn_ok ?s" "kept self ?s" using assms(1) by simp_all
  then obtain self' where "notify_out io ?s = Some self'" "kept ?s self'" using out by blast
  then show ?thesis using s kept_trans [OF s(2)] by (auto simp: conn_notify_def Let_def simp del: kept_upd)
qed

text \<open>The acknowledgement to the host may kill the connection, and nothing else.\<close>

lemma ack_host_eq:
  "ack_host io key st conn =
     (if st = LocalInit \<and> cn_state conn = Established
      then let msg = ok_msg (key_local_port key); (r, t) = stream_write io (cn_stream conn) msg
        in if r = Inr (length msg) then conn\<lparr>cn_stream := t\<rparr> else kill (conn\<lparr>cn_stream := t\<rparr>)
      else conn)"
proof -
  obtain r t where "stream_write io (cn_stream conn) (ok_msg (key_local_port key)) = (r, t)" by fastforce
  then show ?thesis by (cases r) (simp_all add: ack_host_def send_bytes_raw_def)
qed

lemma ack_host_total:
  assumes "kept c conn"
  shows "kept c (ack_host io key st conn)"
    "pending conn \<subseteq> pending (ack_host io key st conn)"
    "st \<noteq> LocalInit \<or> cn_state conn \<noteq> Established \<Longrightarrow> ack_host io key st conn = conn"
  using assms by (auto simp: ack_host_eq Let_def split: prod.splits)

section \<open>The invariant of the muxer\<close>

text \<open>A connection under its key. One that this side opened owes the guest no confirmation.\<close>

definition conn_at :: "ConnMapKey \<Rightarrow> 's VsockConnection \<Rightarrow> bool" where
  "conn_at key conn \<longleftrightarrow> conn_ok conn \<and> ports conn = key \<and>
     (cn_state conn = LocalInit \<longrightarrow> Response \<notin> pending conn)"

definition conns_ok :: "'s ConnMap \<Rightarrow> bool" where
  "conns_ok cm \<longleftrightarrow> distinct (map fst cm) \<and> length cm \<le> MAX_CONNECTIONS \<and>
     (\<forall>key conn. map_of cm key = Some conn \<longrightarrow> conn_at key conn)"

definition insync :: "'s ConnMap \<Rightarrow> MuxerRxQ \<Rightarrow> bool" where
  "insync cm q \<longleftrightarrow> (rxq_synced q \<longrightarrow>
     (\<forall>key conn. map_of cm key = Some conn \<and> has_pending_rx conn \<longrightarrow> ConnRx key \<in> set (rxq_q q)))"

definition mux_ok :: "('s, 'b, 'e) VsockMuxer \<Rightarrow> bool" where
  "mux_ok self \<longleftrightarrow> conns_ok (conn_map self) \<and> rxq_ok (rxq self) \<and> killq_ok (killq self) \<and>
     insync (conn_map self) (rxq self)"

lemma mux_ok_upd [simp]:
  "mux_ok (self\<lparr>mx_epoll := ep\<rparr>) = mux_ok self" "mux_ok (self\<lparr>listener_map := lm\<rparr>) = mux_ok self"
  "mux_ok (self\<lparr>local_port_set := ps\<rparr>) = mux_ok self" "mux_ok (self\<lparr>local_port_last := p\<rparr>) = mux_ok self"
  "mux_ok (self\<lparr>backend_map := bm\<rparr>) = mux_ok self" "mux_ok (self\<lparr>peer_backend := pb\<rparr>) = mux_ok self"
  by (simp_all add: mux_ok_def)

lemma mux_ok_killq: "mux_ok self \<Longrightarrow> killq_ok q \<Longrightarrow> mux_ok (self\<lparr>killq := q\<rparr>)"
  by (simp add: mux_ok_def)

lemma mux_okD:
  assumes "mux_ok self"
  shows "map_of (conn_map self) key = Some conn \<Longrightarrow> conn_at key conn"
    "distinct (map fst (conn_map self))" "length (conn_map self) \<le> MAX_CONNECTIONS"
    "rxq_ok (rxq self)" "killq_ok (killq self)" "insync (conn_map self) (rxq self)"
  using assms by (auto simp: mux_ok_def conns_ok_def)

lemma mux_new_ok: "mux_ok (VsockMuxer_new cid ep)"
  by (simp add: mux_ok_def conns_ok_def VsockMuxer_new_def insync_def MuxerRxQ_default_def MuxerKillQ_default_def
      rxq_ok_def killq_ok_def)

lemma conn_at_kept: "conn_at key c \<Longrightarrow> kept c c' \<Longrightarrow> conn_at key c'"
  by (auto simp: conn_at_def kept_def)

lemma length_update: "length (AList.update k v al) = (if k \<in> fst ` set al then length al else Suc (length al))"
  by (induction al) auto

text \<open>Every change of a connection is an update of the pool together with a receive queue that has lost
  no connection.\<close>

lemma mux_put:
  assumes "mux_ok self" "conn_at key conn" "key \<in> fst ` set (conn_map self) \<or> length (conn_map self) < MAX_CONNECTIONS"
    "rxq_ok q" "rxq_synced q \<Longrightarrow> rxq_synced (rxq self) \<and> set (rxq_q (rxq self)) \<subseteq> set (rxq_q q)"
    "rxq_synced q \<Longrightarrow> has_pending_rx conn \<Longrightarrow> ConnRx key \<in> set (rxq_q q)"
  shows "mux_ok (self\<lparr>conn_map := AList.update key conn (conn_map self), rxq := q\<rparr>)"
proof -
  note m = mux_okD [OF assms(1)]
  have "conns_ok (AList.update key conn (conn_map self))"
    using m(1-3) assms(2,3) by (auto simp: conns_ok_def update_conv' length_update intro: distinct_update)
  moreover have "insync (AList.update key conn (conn_map self)) q"
    using m(6) assms(5,6) by (auto simp: insync_def update_conv' split: if_splits)
  ultimately show ?thesis using m(5) assms(4) by (simp add: mux_ok_def)
qed

lemma push_rx_ok:
  assumes "mux_ok self"
  shows "mux_ok (push_rx rx self)"
  using mux_okD(4,6) [OF assms] assms rxq_push_ok(1,2) [of "rxq self" rx]
  by (auto simp: mux_ok_def push_rx_def insync_def)

lemma mux_put_push:
  assumes "mux_ok self" "conn_at key conn" "key \<in> fst ` set (conn_map self) \<or> length (conn_map self) < MAX_CONNECTIONS"
  shows "mux_ok (push_rx (ConnRx key) (self\<lparr>conn_map := AList.update key conn (conn_map self)\<rparr>))"
  using mux_put [OF assms, of "snd (rxq_push (rxq self) (ConnRx key))"]
    rxq_push_ok(1,2) [OF mux_okD(4) [OF assms(1)], of "ConnRx key"] rxq_push_ok(3) [OF mux_okD(4) [OF assms(1)], of key]
  by (auto simp: push_rx_def)

lemma mux_put_same:
  assumes "mux_ok self" "map_of (conn_map self) key = Some c" "conn_at key conn"
    "has_pending_rx conn \<Longrightarrow> has_pending_rx c"
  shows "mux_ok (self\<lparr>conn_map := AList.update key conn (conn_map self)\<rparr>)"
proof -
  have "key \<in> fst ` set (conn_map self)" using assms(2) by (metis domI dom_map_of_conv_image_fst)
  then show ?thesis
    using mux_put [OF assms(1,3), of "rxq self"] mux_okD(4,6) [OF assms(1)] assms(2,4) by (auto simp: insync_def)
qed

lemma has_pending_kill [simp]: "conn_ok conn \<Longrightarrow> has_pending_rx (kill conn)"
  by (simp add: has_pending_iff)

lemma kill_connection_ok:
  assumes "mux_ok self"
  shows "mux_ok (kill_connection key self)"
proof (cases "map_of (conn_map self) key")
  case None
  then show ?thesis using push_rx_ok [OF assms] by (simp add: kill_connection_def)
next
  case (Some c)
  have at: "conn_at key (kill c)" using mux_okD(1) [OF assms Some] conn_at_kept by (fastforce simp: conn_at_def)
  have "key \<in> fst ` set (conn_map self)" using Some by (metis domI dom_map_of_conv_image_fst)
  then show ?thesis
    using mux_put_push [OF assms at] mux_put_same [OF assms Some at] Some by (simp add: kill_connection_def)
qed

lemma remove_listener_ok [simp]: "mux_ok (snd (remove_listener env fd self)) = mux_ok self"
  by (simp add: remove_listener_def Let_def)

lemma add_listener_ok [simp]: "mux_ok (snd (add_listener env fd l self)) = mux_ok self"
  by (simp add: add_listener_def split: prod.splits sum.splits)

lemma remove_connection_ok:
  assumes "mux_ok self"
  shows "mux_ok (remove_connection env key self)"
proof -
  have "mux_ok (self\<lparr>conn_map := AList.delete key (conn_map self)\<rparr>)"
    using assms length_delete_le [of key "conn_map self"]
    by (auto simp: mux_ok_def conns_ok_def insync_def delete_conv' distinct_delete split: if_splits)
  then show ?thesis using assms
    by (simp add: remove_connection_def free_local_port_def Let_def split: option.splits)
qed

end
