(* ===== verification/Vsock_Muxer_Ops.thy ===== *)
theory Vsock_Muxer_Ops
  imports Vsock_Muxer_Lemmas
begin

text \<open>
  The operations of the muxer keep its invariant and return: the sweep of the kill queue, adding and
  changing connections, and the packets from the guest.
\<close>

section \<open>Listeners\<close>

text \<open>The same muxer with other listeners.\<close>

definition relisten :: "('s, 'b, 'e) VsockMuxer \<Rightarrow> ('s, 'b, 'e) VsockMuxer \<Rightarrow> bool" where
  "relisten self self' \<longleftrightarrow> self' = self\<lparr>listener_map := listener_map self', mx_epoll := mx_epoll self'\<rparr>"

lemma relisten_simps [simp]:
  "relisten self self" "relisten self (self\<lparr>mx_epoll := ep\<rparr>)" "relisten self (self\<lparr>listener_map := lm\<rparr>)"
  "relisten self (self\<lparr>listener_map := lm, mx_epoll := ep\<rparr>)" "relisten self (self\<lparr>mx_epoll := ep, listener_map := lm\<rparr>)"
  by (simp_all add: relisten_def)

lemma relistenD:
  assumes "relisten self self'"
  shows "conn_map self' = conn_map self" "rxq self' = rxq self" "killq self' = killq self" "mx_cid self' = mx_cid self"
    "local_port_set self' = local_port_set self" "local_port_last self' = local_port_last self"
    "backend_map self' = backend_map self" "peer_backend self' = peer_backend self"
  using arg_cong [OF assms [unfolded relisten_def], of conn_map] arg_cong [OF assms [unfolded relisten_def], of rxq]
    arg_cong [OF assms [unfolded relisten_def], of killq] arg_cong [OF assms [unfolded relisten_def], of mx_cid]
    arg_cong [OF assms [unfolded relisten_def], of local_port_set]
    arg_cong [OF assms [unfolded relisten_def], of local_port_last]
    arg_cong [OF assms [unfolded relisten_def], of backend_map]
    arg_cong [OF assms [unfolded relisten_def], of peer_backend] by simp_all

lemma relisten_ok: "relisten self self' \<Longrightarrow> mux_ok self \<Longrightarrow> mux_ok self'"
  by (simp add: mux_ok_def relistenD)

lemma relisten_listener [simp]:
  "relisten self (snd (remove_listener env fd self))" "relisten self (snd (add_listener env fd l self))"
  by (simp_all add: remove_listener_def add_listener_def Let_def split: prod.splits sum.splits)

lemma update_listener_cases:
  "\<exists>s. relisten self s \<and> (update_listener env key conn bt self = s \<or> update_listener env key conn bt self = kill_connection key s)"
proof (cases "get_polled_evset conn = 0")
  case True
  then show ?thesis by (intro exI [of _ "update_listener env key conn bt self"]) (simp add: update_listener_def Let_def)
next
  case False
  let ?fd = "stream_fd env (cn_stream conn)" and ?ev = "get_polled_evset conn"
  show ?thesis
  proof (cases "\<exists>k evset b. listener_map self ?fd = Some (ConnListener k evset b)")
    case True
    then obtain k evset b where l: "listener_map self ?fd = Some (ConnListener k evset b)" by blast
    let ?s = "self\<lparr>listener_map := (listener_map self)(?fd \<mapsto> ConnListener k ?ev b)\<rparr>"
    obtain r ep where c: "epoll_ctl env (mx_epoll self) EPOLL_CTL_MOD ?fd ?ev = (r, ep)" by fastforce
    have "update_listener env key conn bt self =
        (if evset = ?ev then self else case r of Inr _ \<Rightarrow> ?s\<lparr>mx_epoll := ep\<rparr> | Inl _ \<Rightarrow> kill_connection key (?s\<lparr>mx_epoll := ep\<rparr>))"
      using False l c by (simp add: update_listener_def Let_def)
    then show ?thesis
      by (intro exI [of _ "if evset = ?ev then self else ?s\<lparr>mx_epoll := ep\<rparr>"]) (simp split: sum.splits)
  next
    case none: False
    let ?l = "ConnListener key ?ev bt"
    have "update_listener env key conn bt self =
        (case add_listener env ?fd ?l self of (Inr _, self) \<Rightarrow> self | (Inl _, self) \<Rightarrow> kill_connection key self)"
      using False none by (auto simp: update_listener_def Let_def split: option.splits EpollListener.splits)
    then show ?thesis
      by (intro exI [of _ "snd (add_listener env ?fd ?l self)"]) (simp split: prod.splits sum.splits)
  qed
qed

lemma update_listener_ok: "mux_ok self \<Longrightarrow> mux_ok (update_listener env key conn bt self)"
  using update_listener_cases [of self env key conn bt] relisten_ok kill_connection_ok by metis

section \<open>The kill queue\<close>

declare sweep_expired.simps [simp del]

lemma killq_from_ok: "killq_ok (killq_from_conn_map now cm)"
  using killq_walk_ok [of "[]" now cm] by (simp add: killq_from_conn_map_def killq_ok_def case_prod_beta)

lemma killq_push_ok: "killq_ok q \<Longrightarrow> killq_ok (killq_push q key t)"
  by (auto simp: killq_ok_def killq_push_def killq_is_full_def)

lemma killq_pop_ok: "killq_ok q \<Longrightarrow> killq_ok (snd (killq_pop now q))"
  by (auto simp: killq_ok_def killq_pop_def split: list.splits)

text \<open>Right after it is built, no item of the queue has expired.\<close>

lemma killq_from_pop: "fst (killq_pop now (killq_from_conn_map now cm)) = None"
proof -
  have "\<forall>it \<in> set (killq_q (killq_from_conn_map now cm)). now < kill_time it"
    using killq_walk_times [of "[]" now cm] by (simp add: killq_from_conn_map_def split: prod.splits)
  then show ?thesis by (auto simp: killq_pop_def split: list.splits)
qed

lemma killq_from_sync:
  "\<not> killq_synced (killq_from_conn_map now cm) \<Longrightarrow> \<not> killq_is_empty (killq_from_conn_map now cm)"
  using killq_walk_ok [of "[]" now cm] length_sort [of kill_time "fst (killq_walk now cm [])"]
  by (simp add: killq_from_conn_map_def killq_is_empty_def MUXER_KILLQ_SIZE_def case_prod_beta del: length_sort length_0_conv)

text \<open>What a sweep changes: connections are killed, under the same keys.\<close>

definition swept :: "('s, 'b, 'e) VsockMuxer \<Rightarrow> ('s, 'b, 'e) VsockMuxer \<Rightarrow> bool" where
  "swept self self' \<longleftrightarrow> map fst (conn_map self') = map fst (conn_map self) \<and>
     local_port_set self' = local_port_set self \<and> local_port_last self' = local_port_last self \<and>
     listener_map self' = listener_map self \<and> backend_map self' = backend_map self \<and>
     peer_backend self' = peer_backend self \<and> mx_cid self' = mx_cid self"

lemma swept_trans: "swept a b \<Longrightarrow> swept b c \<Longrightarrow> swept a c"
  by (simp add: swept_def)

lemma update_keys: "map_of cm key = Some c \<Longrightarrow> map fst (AList.update key conn cm) = map fst cm"
  by (induction cm) (auto split: if_splits)

lemma kill_connection_swept: "swept self (kill_connection key self)"
  by (simp add: swept_def kill_connection_def push_rx_def update_keys split: option.splits)

lemma sweep_expired_ok: "mux_ok self \<Longrightarrow> mux_ok (sweep_expired now self) \<and> swept self (sweep_expired now self)"
proof (induction now self rule: sweep_expired.induct)
  case (1 now self)
  show ?case
  proof (cases "killq_pop now (killq self)")
    case (Pair k q)
    show ?thesis
    proof (cases k)
      case None
      then show ?thesis using Pair 1(2) by (simp add: swept_def sweep_expired.simps [of now self])
    next
      case (Some key)
      let ?s = "self\<lparr>killq := q\<rparr>"
      let ?t = "if case map_of (conn_map ?s) key of None \<Rightarrow> False | Some conn \<Rightarrow> has_expired now conn
        then kill_connection key ?s else ?s"
      have "mux_ok ?s" using 1(2) killq_pop_ok [OF mux_okD(5) [OF 1(2)], of now] Pair by (simp add: mux_ok_killq)
      then have "mux_ok ?t" by (simp add: kill_connection_ok del: killq_kill_connection)
      moreover have "swept self ?t"
        using kill_connection_swept [of ?s key] by (simp add: swept_def)
      moreover have "sweep_expired now self = sweep_expired now ?t"
        using Pair Some by (subst sweep_expired.simps) (simp add: Let_def)
      ultimately show ?thesis using 1(1) [OF Pair [symmetric] Some refl] swept_trans by metis
    qed
  qed
qed

lemma sweep_killq_ok:
  assumes "mux_ok self"
  shows "\<exists>self'. sweep_killq now self = Some self' \<and> mux_ok self' \<and> swept self self'"
proof -
  let ?s = "sweep_expired now self"
  let ?t = "?s\<lparr>killq := killq_from_conn_map now (conn_map ?s)\<rparr>"
  have s: "mux_ok ?s" "swept self ?s" using sweep_expired_ok [OF assms] by auto
  have t: "mux_ok ?t" "swept self ?t" using s by (simp_all add: mux_ok_killq killq_from_ok swept_def)
  have "sweep_expired now ?t = ?t"
    using killq_from_pop [of now "conn_map ?s"]
    by (subst sweep_expired.simps) (simp add: case_prod_beta)
  moreover have "\<not> (killq_is_empty (killq ?t) \<and> \<not> killq_synced (killq ?t))" using killq_from_sync by auto
  ultimately have "sweep_killq now ?t = Some ?t" by (subst sweep_killq.simps) (auto simp: Let_def)
  moreover have "sweep_killq now self = (if killq_is_empty (killq ?s) \<and> \<not> killq_synced (killq ?s) then sweep_killq now ?t else Some ?s)"
    by (subst sweep_killq.simps) (simp add: Let_def)
  ultimately show ?thesis using s t by simp
qed

section \<open>Adding and changing a connection\<close>

lemma add_connection_ok:
  assumes "mux_ok self" "conn_at key conn"
  shows "\<exists>r self'. add_connection env now key conn self = Some (r, self') \<and> mux_ok self' \<and>
    local_port_set self' = local_port_set self \<and> local_port_last self' = local_port_last self \<and>
    (case r of Inr _ \<Rightarrow> map_of (conn_map self') key = Some conn \<and> fst ` set (conn_map self') = insert key (fst ` set (conn_map self))
     | Inl _ \<Rightarrow> fst ` set (conn_map self') = fst ` set (conn_map self))"
proof -
  obtain s where s: "sweep_killq now self = Some s" "mux_ok s" "swept self s"
    using sweep_killq_ok [OF assms(1)] by blast
  have keys: "fst ` set (conn_map s) = fst ` set (conn_map self)" "local_port_set s = local_port_set self"
      "local_port_last s = local_port_last self"
    using s(3) by (simp_all add: swept_def flip: set_map)
  let ?fd = "stream_fd env (cn_stream conn)"
  let ?l = "ConnListener key (get_polled_evset conn) (stream_backend env (cn_stream conn))"
  obtain r t where t: "add_listener env ?fd ?l s = (r, t)" by fastforce
  have rel: "relisten s t" using relisten_listener(2) [of s env ?fd ?l] t by simp
  note rt = relistenD [OF rel] and mt = relisten_ok [OF rel s(2)]
  show ?thesis
  proof (cases "length (conn_map s) \<ge> MAX_CONNECTIONS")
    case True
    then show ?thesis using s keys by (simp add: add_connection_def)
  next
    case False
    then have lt: "length (conn_map t) < MAX_CONNECTIONS" by (simp add: rt)
    let ?u = "(if has_pending_rx conn then push_rx (ConnRx key) t else t)\<lparr>conn_map := AList.update key conn (conn_map t)\<rparr>"
    have "mux_ok ?u"
    proof (cases "has_pending_rx conn")
      case True
      then show ?thesis using mux_put_push [OF mt assms(2)] lt by (simp add: push_rx_def mux_ok_def)
    next
      case False
      then show ?thesis using mux_put [OF mt assms(2), of "rxq t"] lt mux_okD(4) [OF mt] by simp
    qed
    moreover have "conn_map (if has_pending_rx conn then push_rx (ConnRx key) t else t) = conn_map t"
      by (simp add: push_rx_def)
    ultimately show ?thesis using False s(1) t keys rt mt
      by (cases r) (auto simp: add_connection_def Let_def update_conv' dom_update push_rx_def)
  qed
qed

text \<open>The result of a mutation: the connection it leaves in the pool, and the receive queue.\<close>

lemma apply_conn_mutation_cases:
  fixes env :: "('s, 'b, 'e) MuxEnv"
  assumes "map_of (conn_map self) key = Some c" "f c = Some (r, c1)"
  defines "c2 \<equiv> ack_host (env_io env) key (cn_state c) c1"
  defines "q2 \<equiv> if \<not> has_pending_rx c \<and> has_pending_rx c2 then snd (rxq_push (rxq self) (ConnRx key)) else rxq self"
  shows "\<exists>self' s. apply_conn_mutation env now key f self = Some (Some r, self') \<and>
    (killq s = killq self \<or> killq s = killq_push (killq self) key (the (expiry c2))) \<and>
    conn_map s = AList.update key c2 (conn_map self) \<and> rxq s = q2 \<and>
    (self' = s \<or> self' = kill_connection key s)"
proof -
  define s1 where "s1 = self\<lparr>conn_map := AList.update key c2 (conn_map self)\<rparr>"
  define s2 where "s2 = (if \<not> has_pending_rx c \<and> has_pending_rx c2 then push_rx (ConnRx key) s1 else s1)"
  define s3 where "s3 = (if \<not> will_expire now c \<and> will_expire now c2
    then s2\<lparr>killq := killq_push (killq s2) key (the (expiry c2))\<rparr> else s2)"
  let ?bt = "stream_backend env (cn_stream c)"
  have "apply_conn_mutation env now key f self = Some (Some r, update_listener env key c2 ?bt s3)"
    using assms(1,2) by (simp add: apply_conn_mutation_def Let_def s1_def s2_def s3_def c2_def)
  moreover obtain s where s: "relisten s3 s" "update_listener env key c2 ?bt s3 = s \<or> update_listener env key c2 ?bt s3 = kill_connection key s"
    using update_listener_cases by blast
  moreover have "conn_map s = AList.update key c2 (conn_map self)" "rxq s = q2"
      "killq s = killq self \<or> killq s = killq_push (killq self) key (the (expiry c2))"
    unfolding relistenD(1-3) [OF s(1)] by (simp_all add: s3_def s2_def s1_def push_rx_def q2_def)
  ultimately show ?thesis by blast
qed

lemma apply_conn_mutation_ok:
  assumes "mux_ok self" "\<And>c. map_of (conn_map self) key = Some c \<Longrightarrow> \<exists>r c'. f c = Some (r, c') \<and> kept c c' \<and> P r"
  shows "\<exists>r self'. apply_conn_mutation env now key f self = Some (r, self') \<and> mux_ok self' \<and>
    fst ` set (conn_map self') = fst ` set (conn_map self) \<and> (case r of Some r \<Rightarrow> P r | None \<Rightarrow> map_of (conn_map self) key = None)"
proof (cases "map_of (conn_map self) key")
  case None
  then show ?thesis using assms(1) by (simp add: apply_conn_mutation_def)
next
  case (Some c)
  obtain r c1 where f: "f c = Some (r, c1)" "kept c c1" "P r" using assms(2) [OF Some] by blast
  let ?c2 = "ack_host (env_io env) key (cn_state c) c1"
  have at: "conn_at key ?c2" using ack_host_total(1) [OF f(2)] conn_at_kept mux_okD(1) [OF assms(1) Some] by blast
  obtain self' s where s: "apply_conn_mutation env now key f self = Some (Some r, self')"
      "killq s = killq self \<or> killq s = killq_push (killq self) key (the (expiry ?c2))"
      "conn_map s = AList.update key ?c2 (conn_map self)"
      "rxq s = (if \<not> has_pending_rx c \<and> has_pending_rx ?c2 then snd (rxq_push (rxq self) (ConnRx key)) else rxq self)"
      "self' = s \<or> self' = kill_connection key s"
    using apply_conn_mutation_cases [of self key c f, OF Some f(1)] by blast
  have key: "key \<in> fst ` set (conn_map self)" using Some by (metis domI dom_map_of_conv_image_fst)
  have "mux_ok (self\<lparr>conn_map := conn_map s, rxq := rxq s\<rparr>)"
    using mux_put_push [OF assms(1) at] mux_put_same [OF assms(1) Some at] key s(3,4)
    by (cases "has_pending_rx ?c2") (simp_all add: push_rx_def)
  then have "mux_ok s" using s(2) killq_push_ok by (auto simp: mux_ok_def)
  moreover have "fst ` set (conn_map s) = fst ` set (conn_map self)"
    using update_keys [OF Some, of ?c2] unfolding s(3) by (metis list.set_map)
  moreover have "fst ` set (conn_map (kill_connection key s)) = fst ` set (conn_map s)"
    using kill_connection_swept [of s key] unfolding swept_def by (metis list.set_map)
  ultimately show ?thesis using s(1,5) kill_connection_ok f(3) by auto
qed

section \<open>Local ports in use\<close>

definition ports_same :: "('s, 'b, 'e) VsockMuxer \<Rightarrow> ('s, 'b, 'e) VsockMuxer \<Rightarrow> bool" where
  "ports_same self self' \<longleftrightarrow> local_port_set self' = local_port_set self \<and> local_port_last self' = local_port_last self"

lemma update_listener_ports: "ports_same self (update_listener env key conn bt self)"
proof -
  obtain s where s: "relisten self s" "update_listener env key conn bt self = s \<or> update_listener env key conn bt self = kill_connection key s"
    using update_listener_cases by blast
  then show ?thesis using relistenD(5,6) [OF s(1)] kill_connection_swept [of s key] by (auto simp: ports_same_def swept_def)
qed

lemma apply_ports:
  assumes "apply_conn_mutation env now key f self = Some (r, self')"
  shows "ports_same self self'"
proof (cases "map_of (conn_map self) key")
  case None
  then show ?thesis using assms by (simp add: apply_conn_mutation_def ports_same_def)
next
  case (Some c)
  obtain r1 c1 where "f c = Some (r1, c1)" using assms Some by (cases "f c") (auto simp: apply_conn_mutation_def Let_def)
  then obtain s conn where "self' = update_listener env key conn (stream_backend env (cn_stream c)) s" "ports_same self s"
    using assms Some by (force simp: apply_conn_mutation_def Let_def push_rx_def ports_same_def)
  then show ?thesis using update_listener_ports by (metis ports_same_def)
qed

lemma remove_connection_ports:
  "local_port_last (remove_connection env key self) = local_port_last self"
  "local_port_set (remove_connection env key self) = local_port_set self - {key_local_port key}"
  by (auto simp: remove_connection_def free_local_port_def relistenD [OF relisten_listener(1)] Let_def split: option.splits)

lemma pop_rx_ports: "pop_rx self = Some self' \<Longrightarrow> ports_same self self'"
  by (auto simp: pop_rx_def ports_same_def split: prod.splits option.splits)

definition ports_less :: "('s, 'b, 'e) VsockMuxer \<Rightarrow> ('s, 'b, 'e) VsockMuxer \<Rightarrow> bool" where
  "ports_less self self' \<longleftrightarrow> local_port_last self' = local_port_last self \<and> local_port_set self' \<subseteq> local_port_set self"

lemma ports_less_refl: "ports_same self self' \<Longrightarrow> ports_less self self'"
  by (simp add: ports_less_def ports_same_def)

lemma ports_less_trans: "ports_less a b \<Longrightarrow> ports_less b c \<Longrightarrow> ports_less a c"
  by (auto simp: ports_less_def)

section \<open>Packets from the guest\<close>

lemma remove_connection_keys:
  "fst ` set (conn_map (remove_connection env key self)) = fst ` set (conn_map self) - {key}"
proof (cases "map_of (conn_map self) key")
  case None
  moreover from None have "key \<notin> fst ` set (conn_map self)" by (simp add: map_of_eq_None_iff)
  ultimately show ?thesis by (simp add: remove_connection_def free_local_port_def)
next
  case (Some c)
  then show ?thesis
    by (auto simp: remove_connection_def free_local_port_def relistenD [OF relisten_listener(1)] AList.delete_eq)
qed

lemma enq_rst_ok: "mux_ok self \<Longrightarrow> mux_ok (enq_rst lport pport self)"
  by (simp add: enq_rst_def push_rx_ok)

lemma new_conn_at:
  "conn_at \<lparr>key_local_port = lp, key_peer_port = pp\<rparr> (new_peer_init s lc pc lp pp ba)"
  "conn_at \<lparr>key_local_port = lp, key_peer_port = pp\<rparr> (new_local_init s lc pc lp pp)"
  by (simp_all add: conn_at_def new_peer_init_def new_local_init_def ports_def conn_ok_def pending_def TxBuf_default_ok)

lemma handle_peer_request_ok:
  assumes "mux_ok self"
  shows "\<exists>self'. handle_peer_request_pkt env now pkt self = Some self' \<and> mux_ok self' \<and> ports_less self self' \<and>
    fst ` set (conn_map self') \<subseteq>
      insert \<lparr>key_local_port = pkt_dst_port pkt, key_peer_port = pkt_src_port pkt\<rparr> (fst ` set (conn_map self))"
proof -
  let ?rst = "enq_rst (pkt_dst_port pkt) (pkt_src_port pkt)"
  have rst: "mux_ok (?rst s)" "conn_map (?rst s) = conn_map s" "ports_less s (?rst s)" if "mux_ok s" for s :: "('a, 'b, 'c) VsockMuxer"
    using that by (simp_all add: enq_rst_ok) (simp_all add: enq_rst_def push_rx_def ports_less_def)
  have add: "\<exists>self'. handle_peer_request_pkt env now pkt self = Some self' \<and> mux_ok self' \<and> ports_less self self' \<and>
      fst ` set (conn_map self') \<subseteq>
        insert \<lparr>key_local_port = pkt_dst_port pkt, key_peer_port = pkt_src_port pkt\<rparr> (fst ` set (conn_map self))"
    if c: "peer_backend self = Some bt" "backend_map self bt = Some be" "backend_connect env be (pkt_dst_port pkt) = Inr st"
    for bt be st
  proof -
    let ?key = "\<lparr>key_local_port = pkt_dst_port pkt, key_peer_port = pkt_src_port pkt\<rparr>"
    let ?conn = "new_peer_init st VSOCK_HOST_CID (mx_cid self) (pkt_dst_port pkt) (pkt_src_port pkt) (pkt_buf_alloc pkt)"
    obtain r s where s: "add_connection env now ?key ?conn self = Some (r, s)" "mux_ok s"
        "local_port_set s = local_port_set self" "local_port_last s = local_port_last self"
        "case r of Inr _ \<Rightarrow> map_of (conn_map s) ?key = Some ?conn \<and> fst ` set (conn_map s) = insert ?key (fst ` set (conn_map self))
          | Inl _ \<Rightarrow> fst ` set (conn_map s) = fst ` set (conn_map self)"
      using add_connection_ok [OF assms new_conn_at(1)] by blast
    have "ports_less self s" using s(3,4) by (simp add: ports_less_def)
    then show ?thesis using c s(1,2,5) rst [OF s(2)] ports_less_trans by (cases r) (auto simp: handle_peer_request_pkt_def)
  qed
  show ?thesis
  proof (cases "\<exists>bt be st. peer_backend self = Some bt \<and> backend_map self bt = Some be \<and>
      backend_connect env be (pkt_dst_port pkt) = Inr st")
    case True
    then show ?thesis using add by blast
  next
    case False
    then have "handle_peer_request_pkt env now pkt self = Some (?rst self)"
      by (auto simp: handle_peer_request_pkt_def split: option.splits sum.splits)
    then show ?thesis using rst [OF assms] by auto
  qed
qed

lemma muxer_send_ok:
  assumes "mux_ok self" "stream_ok (env_io env) accepted" "data_inside pkt"
  shows "\<exists>self'. muxer_send_pkt env now self pkt = Some (Inr (), self') \<and> mux_ok self' \<and> ports_less self self' \<and>
    fst ` set (conn_map self') \<subseteq>
      insert \<lparr>key_local_port = pkt_dst_port pkt, key_peer_port = pkt_src_port pkt\<rparr> (fst ` set (conn_map self))"
proof -
  let ?key = "\<lparr>key_local_port = pkt_dst_port pkt, key_peer_port = pkt_src_port pkt\<rparr>"
  let ?f = "\<lambda>conn. conn_send_pkt (env_io env) now conn pkt"
  have f: "\<exists>r c'. ?f c = Some (r, c') \<and> kept c c' \<and> r = Inr ()" if "map_of (conn_map self) ?key = Some c" for c
    using conn_send_total [OF _ assms(2,3), of c now] mux_okD(1) [OF assms(1) that] by (auto simp: conn_at_def)
  obtain r s where s: "apply_conn_mutation env now ?key ?f self = Some (r, s)" "mux_ok s"
      "fst ` set (conn_map s) = fst ` set (conn_map self)" "case r of Some r \<Rightarrow> r = Inr () | None \<Rightarrow> map_of (conn_map self) ?key = None"
    using apply_conn_mutation_ok [OF assms(1), of ?key ?f "\<lambda>r. r = Inr ()", OF f] by blast
  obtain t where t: "handle_peer_request_pkt env now pkt self = Some t" "mux_ok t" "ports_less self t"
      "fst ` set (conn_map t) \<subseteq> insert ?key (fst ` set (conn_map self))"
    using handle_peer_request_ok [OF assms(1)] by blast
  have rst: "conn_map (enq_rst a b self) = conn_map self" "ports_less self (enq_rst a b self)" for a b
    by (simp_all add: enq_rst_def push_rx_def ports_less_def)
  have less: "ports_less self s" "ports_less self (remove_connection env ?key self)"
    using apply_ports [OF s(1)] by (auto simp: ports_less_def ports_same_def remove_connection_ports)
  note rm = remove_connection_keys [of env ?key self]
  define P where "P s \<longleftrightarrow> mux_ok s \<and> ports_less self s \<and> fst ` set (conn_map s) \<subseteq> insert ?key (fst ` set (conn_map self))"
    for s
  have "P self" using assms(1) by (auto simp: P_def ports_less_def)
  moreover have "P (enq_rst a b self)" for a b using rst [of a b] enq_rst_ok [OF assms(1)] by (auto simp: P_def)
  moreover have "P s" "P t" using s(2,3) t(2,3,4) less(1) by (auto simp: P_def)
  moreover have "P (remove_connection env ?key self)" using less(2) rm remove_connection_ok [OF assms(1)] by (auto simp: P_def)
  ultimately have "\<exists>self'. muxer_send_pkt env now self pkt = Some (Inr (), self') \<and> P self'"
    using s(1,4) t(1) by (cases r) (simp_all add: muxer_send_pkt_def Let_def)
  then show ?thesis by (simp add: P_def)
qed

section \<open>Packets to the guest\<close>

text \<open>A connection about to be reset weighs nothing, any other one more the more it has to say.\<close>

definition weight :: "'s VsockConnection \<Rightarrow> nat" where
  "weight c = (if Rst \<in> pending c then 0 else Suc (card (pending c)))"

definition pool_weight :: "('s, 'b, 'e) VsockMuxer \<Rightarrow> nat" where
  "pool_weight self = sum_list (map (weight \<circ> snd) (conn_map self))"

lemma weight_update:
  assumes "map_of cm key = Some c"
  shows "sum_list (map (weight \<circ> snd) (AList.update key c' cm)) + weight c = sum_list (map (weight \<circ> snd) cm) + weight c'"
  using assms by (induction cm) (auto split: if_splits)

lemma update_again: "AList.update k v' (AList.update k v al) = AList.update k v' al"
  by (induction al) auto

text \<open>One attempt to receive from a connection. Either it leaves the connection as \<open>recv_pkt\<close> did and the
  queue as it was, or the connection was killed because its listener could not be updated.\<close>

lemma apply_recv_cases:
  fixes env :: "('s, 'b, 'e) MuxEnv"
  assumes "mux_ok self" "map_of (conn_map self) key = Some c" "conn_recv_pkt (env_io env) now c pkt = Some (res, c1, pkt')"
    "kept c c1" "pending c1 \<subseteq> pending c" "Response \<notin> pending c \<longrightarrow> cn_state c1 = cn_state c \<or> cn_state c1 = LocalClosed"
  shows "\<exists>self' c3. apply_conn_mutation env now key (recv_from_conn env now pkt) self =
      Some (Some (res, \<not> has_pending_rx c1, pkt'), self') \<and> kept c c3 \<and>
    conn_map self' = AList.update key c3 (conn_map self) \<and> killq_ok (killq self') \<and>
    (c3 = c1 \<and> rxq self' = rxq self \<or>
     c3 = kill c1 \<and> rxq self' = (if has_pending_rx c1 then rxq self else snd (rxq_push (rxq self) (ConnRx key))))"
proof -
  have c: "conn_ok c" "cn_state c = LocalInit \<longrightarrow> Response \<notin> pending c"
    using mux_okD(1) [OF assms(1,2)] by (auto simp: conn_at_def)
  have c1: "conn_ok c1" using assms(4) by (simp add: kept_def)
  have ack: "ack_host (env_io env) key (cn_state c) c1 = c1"
    using ack_host_total(3) [OF assms(4)] c(2) assms(6) by (cases "cn_state c = LocalInit") auto
  have f: "recv_from_conn env now pkt c = Some ((res, \<not> has_pending_rx c1, pkt'), c1)"
    using assms(3) by (simp add: recv_from_conn_def)
  have less: "has_pending_rx c1 \<Longrightarrow> has_pending_rx c" using assms(5) by (auto simp: has_pending_iff c(1) c1)
  obtain self' s where s: "apply_conn_mutation env now key (recv_from_conn env now pkt) self = Some (Some (res, \<not> has_pending_rx c1, pkt'), self')"
      "killq s = killq self \<or> killq s = killq_push (killq self) key (the (expiry c1))"
      "conn_map s = AList.update key c1 (conn_map self)"
      "rxq s = (if \<not> has_pending_rx c \<and> has_pending_rx c1 then snd (rxq_push (rxq self) (ConnRx key)) else rxq self)"
      "self' = s \<or> self' = kill_connection key s"
    using apply_conn_mutation_cases [OF assms(2), of "recv_from_conn env now pkt", OF f, of env now] unfolding ack by blast
  have q: "rxq s = rxq self" using s(4) less by auto
  have kq: "killq_ok (killq s)" using s(2) killq_push_ok [OF mux_okD(5) [OF assms(1)]] mux_okD(5) [OF assms(1)] by auto
  show ?thesis
  proof (cases "self' = s")
    case True
    then show ?thesis using s(1,3) q kq assms(4) by blast
  next
    case False
    then have k: "self' = kill_connection key s" using s(5) by blast
    have "map_of (conn_map s) key = Some c1" by (simp add: s(3) update_conv')
    then have "conn_map self' = AList.update key (kill c1) (conn_map self)"
        "rxq self' = (if has_pending_rx c1 then rxq self else snd (rxq_push (rxq self) (ConnRx key)))"
      using k s(3) q by (simp_all add: kill_connection_def push_rx_def update_again)
    moreover have "killq_ok (killq self')" using k kq by simp
    moreover have "kept c (kill c1)" using assms(4) by simp
    ultimately show ?thesis using s(1) by blast
  qed
qed

lemma rxq_push_front:
  "rxq_q q = x # l \<Longrightarrow> \<exists>l'. rxq_q (snd (rxq_push q (ConnRx key))) = x # l' \<and>
    (rxq_synced (snd (rxq_push q (ConnRx key))) \<longrightarrow> ConnRx key \<in> set l')"
  by (simp add: rxq_push_def)

lemma pop_front_ok:
  assumes "mux_ok self" "rxq_q (rxq self) = ConnRx key # q"
    "\<And>c. map_of (conn_map self) key = Some c \<Longrightarrow> has_pending_rx c \<Longrightarrow> rxq_synced (rxq self) \<Longrightarrow> ConnRx key \<in> set q"
  shows "pop_rx self = Some (self\<lparr>rxq := (rxq self)\<lparr>rxq_q := q\<rparr>\<rparr>)" "mux_ok (self\<lparr>rxq := (rxq self)\<lparr>rxq_q := q\<rparr>\<rparr>)"
proof -
  show "pop_rx self = Some (self\<lparr>rxq := (rxq self)\<lparr>rxq_q := q\<rparr>\<rparr>)"
    using assms(2) by (simp add: pop_rx_def rxq_pop_def)
  have "insync (conn_map self) ((rxq self)\<lparr>rxq_q := q\<rparr>)"
    using mux_okD(6) [OF assms(1)] assms(2,3) by (fastforce simp: insync_def)
  then show "mux_ok (self\<lparr>rxq := (rxq self)\<lparr>rxq_q := q\<rparr>\<rparr>)"
    using assms(1,2) by (simp add: mux_ok_def rxq_ok_def)
qed

text \<open>The queue and the pool after the attempt, with the key taken off the queue if the connection had
  nothing left to say.\<close>

lemma recv_attempt:
  fixes env :: "('s, 'b, 'e) MuxEnv"
  assumes "mux_ok self" "stream_ok (env_io env) accepted" "rxq_q (rxq self) = ConnRx key # q" "map_of (conn_map self) key = Some c"
  shows "\<exists>res do_pop pkt' self' self1. apply_conn_mutation env now key (recv_from_conn env now pkt) self =
      Some (Some (res, do_pop, pkt'), self') \<and>
    (if do_pop then pop_rx self' else Some self') = Some self1 \<and> mux_ok self1 \<and> rst_of c res pkt' \<and> ports_same self self1 \<and>
    fst ` set (conn_map self1) = fst ` set (conn_map self) \<and>
    (res = Inr () \<or> pool_weight self1 < pool_weight self \<or>
      pool_weight self1 = pool_weight self \<and> length (rxq_q (rxq self1)) < length (rxq_q (rxq self)))"
proof -
  have at: "conn_at key c" using mux_okD(1) [OF assms(1,4)] .
  then have c: "conn_ok c" by (simp add: conn_at_def)
  obtain res c1 pkt' where r: "conn_recv_pkt (env_io env) now c pkt = Some (res, c1, pkt')" "kept c c1" "pending c1 \<subseteq> pending c"
      "pending c \<noteq> {} \<longrightarrow> pending c1 \<subset> pending c" "Rst \<in> pending c \<longrightarrow> res = Inr ()" "rst_of c res pkt'"
      "Response \<notin> pending c \<longrightarrow> cn_state c1 = cn_state c \<or> cn_state c1 = LocalClosed"
    using conn_recv_total [OF c assms(2)] by blast
  have c1: "conn_ok c1" using r(2) by (simp add: kept_def)
  obtain self' c3 where s: "apply_conn_mutation env now key (recv_from_conn env now pkt) self =
        Some (Some (res, \<not> has_pending_rx c1, pkt'), self')" "kept c c3"
      "conn_map self' = AList.update key c3 (conn_map self)" "killq_ok (killq self')"
      "c3 = c1 \<and> rxq self' = rxq self \<or>
       c3 = kill c1 \<and> rxq self' = (if has_pending_rx c1 then rxq self else snd (rxq_push (rxq self) (ConnRx key)))"
    using apply_recv_cases [OF assms(1,4) r(1,2,3,7)] by blast
  have at3: "conn_at key c3" using conn_at_kept [OF at s(2)] .
  have key: "key \<in> fst ` set (conn_map self)" using assms(4) by (metis domI dom_map_of_conv_image_fst)
  have less: "has_pending_rx c1 \<Longrightarrow> has_pending_rx c" using r(3) by (auto simp: has_pending_iff c c1)
  have "mux_ok (self\<lparr>conn_map := conn_map self', rxq := rxq self'\<rparr>)"
    using mux_put_push [OF assms(1) at3] mux_put_same [OF assms(1,4) at3] key s(3,5) less c1
    by (cases "has_pending_rx c1") (auto simp: push_rx_def)
  then have ok: "mux_ok self'" using s(4) by (simp add: mux_ok_def)
  have w: "pool_weight self' + weight c = pool_weight self + weight c3"
    using weight_update [OF assms(4)] s(3) by (simp add: pool_weight_def)
  have keys: "fst ` set (conn_map self') = fst ` set (conn_map self)"
    using update_keys [OF assms(4), of c3] unfolding s(3) by (metis list.set_map)
  have same: "ports_same self self'" using apply_ports [OF s(1)] .
  have lighter: "weight c3 < weight c \<or> c3 = c1 \<and> rxq self' = rxq self \<and> \<not> has_pending_rx c1 \<and> weight c3 = weight c"
    if "res \<noteq> Inr ()"
  proof (cases "Rst \<in> pending c3")
    case True
    then show ?thesis using that r(5) by (simp add: weight_def)
  next
    case False
    then have e: "c3 = c1" "rxq self' = rxq self" using s(5) by auto
    have "pending c = {} \<or> card (pending c1) < card (pending c)" using r(4) by (auto intro: psubset_card_mono)
    then show ?thesis using e False that r(3,5) c1 by (auto simp: weight_def has_pending_iff)
  qed
  show ?thesis
  proof (cases "has_pending_rx c1")
    case True
    have "res = Inr () \<or> pool_weight self' < pool_weight self" using w lighter True by fastforce
    moreover have "(if \<not> has_pending_rx c1 then pop_rx self' else Some self') = Some self'" using True by simp
    ultimately show ?thesis using s(1) ok r(6) keys same by blast
  next
    case False
    have "\<exists>q'. rxq_q (rxq self') = ConnRx key # q' \<and> (c3 = c1 \<or> \<not> rxq_synced (rxq self') \<or> ConnRx key \<in> set q') \<and>
        (c3 = c1 \<and> rxq self' = rxq self \<longrightarrow> q' = q)"
    proof (cases "c3 = c1 \<and> rxq self' = rxq self")
      case True
      then show ?thesis using assms(3) by simp
    next
      case killed: False
      then have "rxq self' = snd (rxq_push (rxq self) (ConnRx key))" using s(5) False by (simp, blast)
      moreover obtain l where "rxq_q (snd (rxq_push (rxq self) (ConnRx key))) = ConnRx key # l"
          "rxq_synced (snd (rxq_push (rxq self) (ConnRx key))) \<longrightarrow> ConnRx key \<in> set l"
        using rxq_push_front [OF assms(3)] by blast
      ultimately show ?thesis using killed by metis
    qed
    then obtain q' where q': "rxq_q (rxq self') = ConnRx key # q'"
        "c3 = c1 \<or> \<not> rxq_synced (rxq self') \<or> ConnRx key \<in> set q'" "c3 = c1 \<and> rxq self' = rxq self \<longrightarrow> q' = q" by blast
    have m: "map_of (conn_map self') key = Some c3" by (simp add: s(3) update_conv')
    let ?s1 = "self'\<lparr>rxq := (rxq self')\<lparr>rxq_q := q'\<rparr>\<rparr>"
    have p: "pop_rx self' = Some ?s1" "mux_ok ?s1" using pop_front_ok [OF ok q'(1)] m q'(2) False by auto
    have "res = Inr () \<or> pool_weight ?s1 < pool_weight self \<or>
        pool_weight ?s1 = pool_weight self \<and> length (rxq_q (rxq ?s1)) < length (rxq_q (rxq self))"
      using w lighter q'(3) assms(3) by (auto simp: pool_weight_def)
    moreover have "(if \<not> has_pending_rx c1 then pop_rx self' else Some self') = Some ?s1" using False p(1) by simp
    moreover have "fst ` set (conn_map ?s1) = fst ` set (conn_map self)" using keys by simp
    moreover have "ports_same self ?s1" using same by (simp add: ports_same_def)
    ultimately show ?thesis using s(1) p(2) r(6) by blast
  qed
qed

lemma recv_loop_ok:
  fixes env :: "('s, 'b, 'e) MuxEnv"
  assumes "stream_ok (env_io env) accepted" "mux_ok self"
  shows "\<exists>r self' pkt'. recv_loop env now self pkt = Some (r, self', pkt') \<and> mux_ok self' \<and>
    fst ` set (conn_map self') \<subseteq> fst ` set (conn_map self) \<and> ports_less self self' \<and>
    (r = Inr () \<or> r = Inl NoData \<and> rxq_q (rxq self') = [])"
  using assms(2)
proof (induction self arbitrary: pkt rule: wf_induct_rule [OF wf_measures, of "[pool_weight, \<lambda>s. length (rxq_q (rxq s))]"])
  case (1 self)
  show ?case
  proof (cases "rxq_q (rxq self)")
    case Nil
    then show ?thesis using 1(2) by (subst recv_loop.simps) (simp add: rxq_peek_def ports_less_def)
  next
    case (Cons rx q)
    have again: "\<exists>r self' pkt'. recv_loop env now s p = Some (r, self', pkt') \<and> mux_ok self' \<and>
        fst ` set (conn_map self') \<subseteq> fst ` set (conn_map self) \<and> ports_less self self' \<and> (r = Inr () \<or> r = Inl NoData \<and> rxq_q (rxq self') = [])"
      if "mux_ok s" "fst ` set (conn_map s) \<subseteq> fst ` set (conn_map self)"
        "pool_weight s < pool_weight self \<or> pool_weight s = pool_weight self \<and> length (rxq_q (rxq s)) < length (rxq_q (rxq self))"
        "ports_same self s"
      for s p
    proof -
      have "(s, self) \<in> measures [pool_weight, \<lambda>s. length (rxq_q (rxq s))]" using that(3) by simp
      from 1(1) [OF this that(1), of p] obtain r self' pkt' where "recv_loop env now s p = Some (r, self', pkt')" "mux_ok self'"
          "fst ` set (conn_map self') \<subseteq> fst ` set (conn_map s)" "ports_less s self'" "r = Inr () \<or> r = Inl NoData \<and> rxq_q (rxq self') = []" by blast
      moreover from this(3) that(2) have "fst ` set (conn_map self') \<subseteq> fst ` set (conn_map self)" by (rule subset_trans)
      moreover have "ports_less self self'" using ports_less_trans [OF ports_less_refl [OF that(4)]] calculation(4) by blast
      ultimately show ?thesis by blast
    qed
    show ?thesis
    proof (cases rx)
      case (RstPkt lp pp)
      let ?s = "self\<lparr>rxq := (rxq self)\<lparr>rxq_q := q\<rparr>\<rparr>"
      have "mux_ok ?s" using 1(2) Cons RstPkt by (auto simp: mux_ok_def rxq_ok_def insync_def)
      moreover have "recv_loop env now self pkt = Some (Inr (), ?s, rst_pkt (mx_cid self) lp pp pkt)"
        using Cons RstPkt by (simp add: recv_loop.simps [of env now self] rxq_peek_def pop_rx_def rxq_pop_def)
      moreover have "fst ` set (conn_map ?s) \<subseteq> fst ` set (conn_map self)" "ports_less self ?s" by (simp_all add: ports_less_def)
      ultimately show ?thesis by blast
    next
      case (ConnRx key)
      have q: "rxq_q (rxq self) = ConnRx key # q" using Cons ConnRx by simp
      show ?thesis
      proof (cases "map_of (conn_map self) key")
        case None
        let ?s = "self\<lparr>rxq := (rxq self)\<lparr>rxq_q := q\<rparr>\<rparr>"
        have s: "pop_rx self = Some ?s" "mux_ok ?s" using pop_front_ok [OF 1(2) q] None by simp_all
        have "recv_loop env now self pkt = recv_loop env now ?s pkt"
          using None q s(1) by (simp add: recv_loop.simps [of env now self] rxq_peek_def apply_conn_mutation_def)
        then show ?thesis using again [of ?s pkt, OF s(2)] q by (simp add: pool_weight_def ports_same_def)
      next
        case (Some c)
        obtain res do_pop pkt' self' self1 where a: "apply_conn_mutation env now key (recv_from_conn env now pkt) self =
              Some (Some (res, do_pop, pkt'), self')"
            "(if do_pop then pop_rx self' else Some self') = Some self1" "mux_ok self1" "ports_same self self1"
            "fst ` set (conn_map self1) = fst ` set (conn_map self)"
            "res = Inr () \<or> pool_weight self1 < pool_weight self \<or>
              pool_weight self1 = pool_weight self \<and> length (rxq_q (rxq self1)) < length (rxq_q (rxq self))"
          using recv_attempt [OF 1(2) assms(1) q Some] by blast
        let ?k = "\<lparr>key_local_port = pkt_src_port pkt', key_peer_port = pkt_dst_port pkt'\<rparr>"
        have eq: "recv_loop env now self pkt =
            (if res = Inr () then Some (Inr (), if pkt_op pkt' = VSOCK_OP_RST then remove_connection env ?k self1 else self1, pkt')
             else recv_loop env now self1 pkt')"
          using q a(1,2) by (simp add: recv_loop.simps [of env now self] rxq_peek_def split: if_splits)
        show ?thesis
        proof (cases "res = Inr ()")
          case True
          then show ?thesis
            using eq a(3,4,5) remove_connection_ok [OF a(3)] remove_connection_keys [of env ?k self1]
              remove_connection_ports [of env ?k self1] by (auto simp: ports_less_def ports_same_def)
        next
          case False
          then show ?thesis using eq again [OF a(3), of pkt'] a(4,5,6) by simp
        qed
      qed
    qed
  qed
qed

end
