(* ===== verification/Vsock_Ports.thy ===== *)
theory Vsock_Ports
  imports Vsock_Muxer_Ops
begin

text \<open>
  Local ports, and the events of the muxer: the search for a free port ends as long as one is left, and
  every event keeps the invariant.
\<close>

section \<open>Local ports\<close>

definition local_ports :: "u32 set" where
  "local_ports = {p. 2 ^ 30 \<le> p \<and> p < 2 ^ 31}"

lemma unat_eq_imp: "unat a = unat b \<Longrightarrow> a = b"
  by (simp add: word_unat_eq_iff)

lemma next_port_unat:
  assumes "2 ^ 30 - 1 \<le> p" "p < 2 ^ 31"
  shows "unat (next_port p) = (if unat p + 1 = 2 ^ 31 then 2 ^ 30 else unat p + 1)"
proof -
  have p: "2 ^ 30 - 1 \<le> unat p" "unat p < 2 ^ 31" using assms by (simp_all add: word_le_nat_alt word_less_nat_alt)
  then have s: "unat (p + 1) = unat p + 1" by (simp add: unat_word_ariths)
  show ?thesis
  proof (cases "unat p + 1 = 2 ^ 31")
    case True
    then have "unat (p + 1) = unat (2 ^ 31 :: u32)" using s by simp
    then have "p + 1 = 2 ^ 31" by (rule unat_eq_imp)
    then show ?thesis using True by (simp add: next_port_def)
  next
    case False
    define q where "q = p + 1"
    have q: "unat q = unat p + 1" "2 ^ 30 \<le> unat q" "unat q < 2 ^ 31" using p s False by (auto simp: q_def)
    have "unat q div 2 ^ 31 = 0" "unat q div 2 ^ 30 = 1" using q(2,3) by simp_all
    moreover have "bit q n = odd (unat q div 2 ^ n)" if "n < 32" for n
      using that bit_unsigned_iff [of q n, where 'a = nat] by (simp add: bit_iff_odd)
    ultimately have "\<not> bit q 31" "bit q 30" by simp_all
    then have "bit (next_port p) n = bit q n" if "n < 32" for n
      using that unfolding next_port_def q_def [symmetric] bit_or_iff bit_and_iff bit_not_iff bit_push_bit_iff bit_1_iff
      by (cases "n = 30"; cases "n = 31") auto
    then have "next_port p = q" by (intro bit_word_eqI) simp
    then show ?thesis using q(1) False by simp
  qed
qed

lemma next_port_range: "2 ^ 30 - 1 \<le> p \<Longrightarrow> p < 2 ^ 31 \<Longrightarrow> next_port p \<in> local_ports"
  using next_port_unat [of p] by (auto simp: local_ports_def word_le_nat_alt word_less_nat_alt)

text \<open>The ports in the order the search visits them.\<close>

lemma next_port_iter:
  assumes "p \<in> local_ports"
  shows "unat ((next_port ^^ n) p) = 2 ^ 30 + (unat p - 2 ^ 30 + n) mod 2 ^ 30"
proof (induction n)
  case 0
  have "2 ^ 30 \<le> unat p" "unat p - 2 ^ 30 < 2 ^ 30"
    using assms by (auto simp: local_ports_def word_le_nat_alt word_less_nat_alt)
  then show ?case by simp
next
  case (Suc n)
  let ?m = "unat p - 2 ^ 30 + n" and ?q = "(next_port ^^ n) p"
  have "?m mod 2 ^ 30 < (2 ^ 30 :: nat)" by simp
  then have "unat (next_port ?q) = (if unat ?q + 1 = 2 ^ 31 then 2 ^ 30 else unat ?q + 1)"
    using next_port_unat [of ?q] Suc by (simp add: word_le_nat_alt word_less_nat_alt)
  moreover have "Suc ?m mod 2 ^ 30 = (if Suc (?m mod 2 ^ 30) = 2 ^ 30 then 0 else Suc (?m mod 2 ^ 30))"
    by (rule mod_Suc)
  ultimately show ?case using Suc by auto
qed

lemma next_port_reaches:
  assumes "p \<in> local_ports" "x \<in> local_ports"
  shows "\<exists>n. (next_port ^^ n) p = x"
proof -
  have px: "2 ^ 30 \<le> unat p" "unat p < 2 ^ 31" "2 ^ 30 \<le> unat x" "unat x < 2 ^ 31"
    using assms by (simp_all add: local_ports_def word_le_nat_alt word_less_nat_alt)
  define n where "n = (if unat p \<le> unat x then unat x - unat p else 2 ^ 30 + unat x - unat p)"
  have "unat p - 2 ^ 30 + n = (if unat p \<le> unat x then unat x - 2 ^ 30 else unat x)" using px by (simp add: n_def)
  then have "(unat p - 2 ^ 30 + n) mod 2 ^ 30 = unat x - 2 ^ 30"
    using px by (cases "unat p \<le> unat x") (simp_all add: mod_if)
  then have "unat ((next_port ^^ n) p) = unat x" using next_port_iter [OF assms(1), of n] px by simp
  then show ?thesis using unat_eq_imp by blast
qed

definition ports_inv :: "('s, 'b, 'e) VsockMuxer \<Rightarrow> bool" where
  "ports_inv self \<longleftrightarrow> 2 ^ 30 - 1 \<le> local_port_last self \<and> local_port_last self < 2 ^ 31 \<and> finite (local_port_set self)"

text \<open>The search stops at the first port of the sequence that is free.\<close>

lemma allocate_walk:
  assumes "ports_inv self" "(next_port ^^ Suc n) (local_port_last self) \<notin> local_port_set self"
  shows "\<exists>p self'. allocate_local_port self = Some (p, self') \<and> p \<in> local_ports \<and> p \<notin> local_port_set self \<and>
    self' = self\<lparr>local_port_last := p, local_port_set := insert p (local_port_set self)\<rparr>"
  using assms
proof (induction n arbitrary: self)
  case 0
  have r: "next_port (local_port_last self) \<in> local_ports" using 0(1) next_port_range by (simp add: ports_inv_def)
  have "uadd (local_port_last self) 1 \<noteq> None"
    using 0(1) by (simp add: ports_inv_def checked_add_def word_less_nat_alt)
  then show ?case using 0 r by (subst allocate_local_port.simps) (auto simp: Let_def)
next
  case (Suc n)
  let ?p = "next_port (local_port_last self)"
  let ?s = "self\<lparr>local_port_last := ?p\<rparr>"
  have r: "?p \<in> local_ports" using Suc(2) next_port_range by (simp add: ports_inv_def)
  then have "2 ^ 30 - 1 \<le> ?p" "?p < 2 ^ 31" by (auto simp: local_ports_def word_le_nat_alt word_less_nat_alt)
  then have inv: "ports_inv ?s" using Suc(2) by (simp add: ports_inv_def)
  have u: "uadd (local_port_last self) 1 \<noteq> None"
    using Suc(2) by (simp add: ports_inv_def checked_add_def word_less_nat_alt)
  have "(next_port ^^ Suc n) ?p = (next_port ^^ Suc (Suc n)) (local_port_last self)" by (metis comp_apply funpow_Suc_right)
  then have "\<exists>p self'. allocate_local_port ?s = Some (p, self') \<and> p \<in> local_ports \<and> p \<notin> local_port_set self \<and>
      self' = self\<lparr>local_port_last := p, local_port_set := insert p (local_port_set self)\<rparr>"
    using Suc(1) [OF inv] Suc(3) by simp
  then show ?case using u r by (subst allocate_local_port.simps) (auto simp: Let_def)
qed

lemma card_local_ports: "card local_ports = 2 ^ 30" "finite local_ports"
proof -
  have "unat ` local_ports = {2 ^ 30..<2 ^ 31}"
  proof (intro equalityI subsetI)
    fix n :: nat assume "n \<in> {2 ^ 30..<2 ^ 31}"
    then have "n = unat (of_nat n :: u32)" "of_nat n \<in> local_ports"
      by (simp_all add: local_ports_def word_le_nat_alt word_less_nat_alt unat_of_nat)
    then show "n \<in> unat ` local_ports" by blast
  qed (auto simp: local_ports_def word_le_nat_alt word_less_nat_alt)
  moreover have "inj_on unat local_ports" by (auto intro: inj_onI unat_eq_imp)
  ultimately show "card local_ports = 2 ^ 30" "finite local_ports"
    using card_image [of unat local_ports] by (simp_all add: finite_image_iff)
qed

lemma allocate_ok:
  assumes "ports_inv self" "card (local_port_set self) < 2 ^ 30"
  shows "\<exists>p self'. allocate_local_port self = Some (p, self') \<and> p \<in> local_ports \<and> p \<notin> local_port_set self \<and>
    self' = self\<lparr>local_port_last := p, local_port_set := insert p (local_port_set self)\<rparr>"
proof -
  let ?p = "next_port (local_port_last self)"
  have "\<not> local_ports \<subseteq> local_port_set self"
    using card_mono [of "local_port_set self" local_ports] assms by (auto simp: ports_inv_def card_local_ports)
  then obtain x where "x \<in> local_ports" "x \<notin> local_port_set self" by blast
  moreover have "?p \<in> local_ports" using assms(1) next_port_range by (simp add: ports_inv_def)
  ultimately obtain n where "(next_port ^^ n) ?p \<notin> local_port_set self" using next_port_reaches by metis
  then have "(next_port ^^ Suc n) (local_port_last self) \<notin> local_port_set self" by (metis comp_apply funpow_Suc_right)
  then show ?thesis using allocate_walk [OF assms(1)] by blast
qed

section \<open>Events\<close>

declare read_line.simps [simp del] from_utf8.simps [simp del] decimal.simps [simp del]

text \<open>After an event the invariant holds, and at most one more port is taken.\<close>

definition event_ok :: "('s, 'b, 'e) VsockMuxer \<Rightarrow> ('s, 'b, 'e) VsockMuxer rust \<Rightarrow> bool" where
  "event_ok self r \<longleftrightarrow> (\<exists>self'. r = Some self' \<and> mux_ok self' \<and> ports_inv self' \<and>
     local_port_set self \<subseteq> local_port_set self' \<and> card (local_port_set self') \<le> Suc (card (local_port_set self)))"

lemma event_ok_same: "mux_ok self' \<Longrightarrow> ports_inv self \<Longrightarrow> ports_same self self' \<Longrightarrow> event_ok self (Some self')"
  by (simp add: event_ok_def ports_inv_def ports_same_def)

lemma add_local_ok:
  assumes "mux_ok s" "ports_inv s" "p \<notin> local_port_set s" "p \<in> local_ports"
  defines "s' \<equiv> s\<lparr>local_port_last := p, local_port_set := insert p (local_port_set s)\<rparr>"
  shows "event_ok s (Some s')" "event_ok s (add_local_connection env now stream p pport s')"
proof -
  have "2 ^ 30 - 1 \<le> p" "p < 2 ^ 31" using assms(4) by (auto simp: local_ports_def word_le_nat_alt word_less_nat_alt)
  then have s': "mux_ok s'" "ports_inv s'" using assms(1,2) by (simp_all add: s'_def ports_inv_def)
  have c: "local_port_set s \<subseteq> local_port_set s'" "card (local_port_set s') = Suc (card (local_port_set s))"
    using assms(2,3) by (auto simp: s'_def ports_inv_def)
  then show "event_ok s (Some s')" using s' by (simp add: event_ok_def)
  obtain r t where "add_connection env now \<lparr>key_local_port = p, key_peer_port = pport\<rparr>
      (new_local_init stream VSOCK_HOST_CID (mx_cid s') p pport) s' = Some (r, t)" "mux_ok t"
      "local_port_set t = local_port_set s'" "local_port_last t = local_port_last s'"
    using add_connection_ok [OF s'(1) new_conn_at(2)] by blast
  then show "event_ok s (add_local_connection env now stream p pport s')"
    using s'(2) c by (auto simp: add_local_connection_def event_ok_def ports_inv_def)
qed

lemma read_port_total:
  assumes "stream_ok io accepted"
  shows "read_local_stream_port io s \<noteq> None"
proof -
  have "length bytes \<le> 7" if "stream_read io s 7 = (Inr bytes, s')" for bytes s'
    using stream_okD(3) [OF assms] that by blast
  then show ?thesis
    by (auto simp: read_local_stream_port_def MIN_READ_LEN_def copy_into_def split: sum.splits prod.splits)
qed

lemma handle_local_stream_ok:
  assumes "mux_ok self" "ports_inv self" "stream_ok (env_io env) accepted" "card (local_port_set self) < 2 ^ 30"
  shows "event_ok self (handle_local_stream env now fd self)"
proof -
  obtain l s where l: "remove_listener env fd self = (l, s)" by fastforce
  have rel: "relisten self s" using relisten_listener(1) [of self env fd] l by simp
  have s: "mux_ok s" "ports_inv s" "card (local_port_set s) < 2 ^ 30" "ports_same self s"
    using assms relisten_ok [OF rel] relistenD [OF rel] by (simp_all add: ports_inv_def ports_same_def)
  have same: "event_ok self r = event_ok s r" for r using s(4) by (simp add: event_ok_def ports_same_def)
  have id: "event_ok s (Some t)" if "relisten s t" for t
    using event_ok_same [OF relisten_ok [OF that s(1)] s(2)] relistenD(5,6) [OF that] by (simp add: ports_same_def)
  show ?thesis
  proof (cases "\<exists>stream. l = Some (LocalStream stream)")
    case False
    then have "handle_local_stream env now fd self = Some s"
      using l by (simp add: handle_local_stream_def split: option.splits EpollListener.splits)
    then show ?thesis using id [of s] by (simp add: same)
  next
    case True
    then obtain stream where st: "l = Some (LocalStream stream)" by blast
    obtain r stream' where r: "read_local_stream_port (env_io env) stream = Some (r, stream')"
      using read_port_total [OF assms(3), of stream] by fastforce
    obtain p s' where a: "allocate_local_port s = Some (p, s')" "p \<in> local_ports" "p \<notin> local_port_set s"
        "s' = s\<lparr>local_port_last := p, local_port_set := insert p (local_port_set s)\<rparr>"
      using allocate_ok [OF s(2,3)] by blast
    have "handle_local_stream env now fd self = (case r of
          Inl _ \<Rightarrow> Some s
        | Inr (Connect pport) \<Rightarrow> add_local_connection env now stream' p pport s'
        | Inr PassFd \<Rightarrow> Some (snd (add_listener env (stream_fd env stream') (PassFdStream stream') s)))"
      using l st r a(1) by (simp add: handle_local_stream_def split: sum.splits ReadPortResult.splits)
    then show ?thesis unfolding same
      using id [of s] id [OF relisten_listener(2)] add_local_ok(2) [OF s(1,2) a(3,2)] a(4)
      by (simp split: sum.splits ReadPortResult.splits)
  qed
qed

lemma handle_passfd_stream_ok:
  assumes "mux_ok self" "ports_inv self" "card (local_port_set self) < 2 ^ 30"
  shows "event_ok self (handle_passfd_stream env now fd self)"
proof -
  obtain l s where l: "remove_listener env fd self = (l, s)" by fastforce
  have rel: "relisten self s" using relisten_listener(1) [of self env fd] l by simp
  have s: "mux_ok s" "ports_inv s" "card (local_port_set s) < 2 ^ 30" "ports_same self s"
    using assms relisten_ok [OF rel] relistenD [OF rel] by (simp_all add: ports_inv_def ports_same_def)
  have same: "event_ok self r = event_ok s r" for r using s(4) by (simp add: event_ok_def ports_same_def)
  have id: "event_ok s (Some s)" using event_ok_same [OF s(1,2)] by (simp add: ports_same_def)
  show ?thesis
  proof (cases "\<exists>stream nfd pport stream'. l = Some (PassFdStream stream) \<and>
      passfd_read_port_and_fd env stream = (Inr (nfd, pport), stream')")
    case False
    then have "handle_passfd_stream env now fd self = Some s"
      using l by (auto simp: handle_passfd_stream_def split: option.splits EpollListener.splits prod.splits sum.splits)
    then show ?thesis using id by (simp add: same)
  next
    case True
    then obtain stream nfd pport stream' where st: "l = Some (PassFdStream stream)"
      "passfd_read_port_and_fd env stream = (Inr (nfd, pport), stream')" by blast
    obtain p s' where a: "allocate_local_port s = Some (p, s')" "p \<in> local_ports" "p \<notin> local_port_set s"
        "s' = s\<lparr>local_port_last := p, local_port_set := insert p (local_port_set s)\<rparr>"
      using allocate_ok [OF s(2,3)] by blast
    obtain nb stream'' where "set_nonblocking env (hybrid_stream env nfd stream') = (nb, stream'')" by fastforce
    then have "handle_passfd_stream env now fd self =
        (case nb of Inl _ \<Rightarrow> Some s' | Inr _ \<Rightarrow> add_local_connection env now stream'' p pport s')"
      using l st a(1) by (simp add: handle_passfd_stream_def)
    then show ?thesis unfolding same using add_local_ok [OF s(1,2) a(3,2)] a(4) by (simp split: sum.splits)
  qed
qed

lemma handle_event_ok:
  assumes "mux_ok self" "ports_inv self" "stream_ok (env_io env) accepted" "card (local_port_set self) < 2 ^ 30"
  shows "event_ok self (handle_event env now fd evset self)"
proof -
  have self: "event_ok self (Some self)" using event_ok_same [OF assms(1,2)] by (simp add: ports_same_def)
  have conn: "event_ok self (handle_event env now fd evset self)" if l: "listener_map self fd = Some (ConnListener key ev bt)" for key ev bt
  proof -
    let ?f = "\<lambda>conn. map_option (Pair ()) (conn_notify (env_io env) conn evset)"
    have "\<exists>r c'. ?f c = Some (r, c') \<and> kept c c' \<and> True" if "map_of (conn_map self) key = Some c" for c
      using conn_notify_total [OF _ assms(3), of c evset] mux_okD(1) [OF assms(1) that] by (auto simp: conn_at_def)
    then obtain r s where s: "apply_conn_mutation env now key ?f self = Some (r, s)" "mux_ok s"
      using apply_conn_mutation_ok [OF assms(1), of key ?f "\<lambda>_. True"] by blast
    then have "handle_event env now fd evset self = Some s" using l by (simp add: handle_event_def)
    then show ?thesis using event_ok_same [OF s(2) assms(2) apply_ports [OF s(1)]] by simp
  qed
  have accept: "event_ok self (Some (handle_backend_event env bt self))" for bt
    using assms(1,2) by (intro event_ok_same)
      (simp_all add: handle_backend_event_def ports_same_def relistenD [OF relisten_listener(2)] Let_def
        split: option.splits prod.splits sum.splits)
  show ?thesis
    using self conn accept handle_local_stream_ok [OF assms] handle_passfd_stream_ok [OF assms(1,2,4)]
    by (cases "listener_map self fd") (auto simp: handle_event_def split: EpollListener.splits)
qed

lemma handle_events_ok:
  assumes "stream_ok (env_io env) accepted"
  shows "mux_ok self \<Longrightarrow> ports_inv self \<Longrightarrow> card (local_port_set self) + length evs \<le> 2 ^ 30 \<Longrightarrow>
    \<exists>self'. handle_events env now evs self = Some self' \<and> mux_ok self' \<and> ports_inv self' \<and>
      local_port_set self \<subseteq> local_port_set self' \<and> card (local_port_set self') \<le> card (local_port_set self) + length evs"
proof (induction evs arbitrary: self)
  case Nil
  then show ?case by simp
next
  case (Cons ev evs)
  obtain fd evset where ev: "ev = (fd, evset)" by fastforce
  have "card (local_port_set self) < 2 ^ 30" using Cons(4) by simp
  then obtain s where s: "handle_event env now fd evset self = Some s" "mux_ok s" "ports_inv s"
      "local_port_set self \<subseteq> local_port_set s" "card (local_port_set s) \<le> Suc (card (local_port_set self))"
    using handle_event_ok [OF Cons(2,3) assms] unfolding event_ok_def by blast
  have "card (local_port_set s) + length evs \<le> 2 ^ 30" using s(5) Cons(4) by simp
  from Cons(1) [OF s(2,3) this] show ?case using ev s(1,4,5) by fastforce
qed

end
