(* ===== verification/Vsock_Conn_Props.thy ===== *)
theory Vsock_Conn_Props
  imports Vsock_Csm_Lemmas
begin

text \<open>
  The properties of the packets, the ring buffer and the connection state machine of the vsock device.
\<close>

section \<open>Runs of a connection\<close>

text \<open>Everything that can happen to a connection: a packet from the guest's transmit queue, a request
  for a packet, an event on the host stream, the expiry of its timer. \<open>sent\<close> collects the data of the
  packets the connection took.\<close>

inductive conn_run :: "'s HostStream \<Rightarrow> 's VsockConnection \<Rightarrow> u8 list \<Rightarrow> 's VsockConnection \<Rightarrow> bool"
  for io self0 where
  start: "conn_run io self0 [] self0"
| send: "conn_run io self0 sent self \<Longrightarrow> memory_reads mem \<Longrightarrow> from_tx_virtq_head mem descs = Inr pkt \<Longrightarrow>
    conn_send_pkt io now self pkt = Some (r, self') \<Longrightarrow> conn_run io self0 (sent @ payload self pkt) self'"
| recv: "conn_run io self0 sent self \<Longrightarrow> conn_recv_pkt io now self pkt = Some (r, self', pkt') \<Longrightarrow>
    conn_run io self0 sent self'"
| event: "conn_run io self0 sent self \<Longrightarrow> conn_notify io self evset = Some self' \<Longrightarrow>
    conn_run io self0 sent self'"
| expire: "conn_run io self0 sent self \<Longrightarrow> has_expired now self \<Longrightarrow> conn_run io self0 sent (kill self)"

definition fresh :: "'s \<Rightarrow> 's VsockConnection \<Rightarrow> bool" where
  "fresh s self \<longleftrightarrow> (\<exists>lcid pcid lport pport. self = new_local_init s lcid pcid lport pport \<or>
     (\<exists>alloc. self = new_peer_init s lcid pcid lport pport alloc))"

lemma fresh_inv:
  assumes "fresh s self"
  shows "conn_inv self" "cn_stream self = s" "contents (tx_buf self) = []" "fwd_cnt self = 0"
    "cn_state self \<noteq> Killed"
  using assms TxBuf_default_ok
  by (auto simp: fresh_def conn_inv_def conn_ok_def pending_def new_local_init_def new_peer_init_def)

lemma data_inside_tx: "tx_packet_ok pkt \<Longrightarrow> data_inside pkt"
  by (auto simp: tx_packet_ok_def data_inside_def)

lemma conn_run_step:
  assumes "delivers accepted self p self'"
    "\<exists>n. delivered accepted self = base @ take n sent" "cn_state self \<noteq> Killed \<longrightarrow> delivered accepted self = base @ sent"
    "cn_state self = Killed \<longrightarrow> p = []"
  shows "\<exists>n. delivered accepted self' = base @ take n (sent @ p)"
    "cn_state self' \<noteq> Killed \<longrightarrow> delivered accepted self' = base @ sent @ p"
proof -
  obtain n where n: "delivered accepted self' = delivered accepted self @ take n p"
      "n = length p \<or> cn_state self' = Killed" "cn_state self = Killed \<longrightarrow> cn_state self' = Killed"
    using assms(1) by (auto simp: delivers_def)
  show "cn_state self' \<noteq> Killed \<longrightarrow> delivered accepted self' = base @ sent @ p"
    using n assms(3) by auto
  show "\<exists>n. delivered accepted self' = base @ take n (sent @ p)"
  proof (cases "cn_state self = Killed")
    case True
    then show ?thesis using n assms(2,4) by auto
  next
    case False
    then have "delivered accepted self' = base @ take (length sent + n) (sent @ p)" using n assms(3) by simp
    then show ?thesis by blast
  qed
qed

lemma counter_step:
  assumes "delivers accepted self p self'"
    "fwd_cnt self + c = of_nat (length (accepted (cn_stream self)))"
  shows "fwd_cnt self' + c = of_nat (length (accepted (cn_stream self')))"
proof -
  have "fwd_cnt self' + (fwd_cnt self + c) = fwd_cnt self + of_nat (length (accepted (cn_stream self')))"
    using assms by (simp add: delivers_def)
  then show ?thesis by (simp add: add.left_commute [of "fwd_cnt self'"])
qed

lemma conn_run_inv:
  assumes "conn_run io self0 sent self" "stream_ok io accepted" "fresh s self0"
  shows "conn_inv self \<and> (\<exists>n. delivered accepted self = accepted s @ take n sent) \<and>
    (cn_state self \<noteq> Killed \<longrightarrow> delivered accepted self = accepted s @ sent) \<and>
    fwd_cnt self + of_nat (length (accepted s)) = of_nat (length (accepted (cn_stream self)))"
  using assms(1)
proof induction
  case start
  then show ?case using fresh_inv [OF assms(3)] by (simp add: delivered_def)
next
  case (send sent self mem descs pkt now r self')
  note data = data_inside_tx [OF from_tx_ok [OF send.hyps(2,3)]]
  have d: "delivers accepted self (payload self pkt) self'"
    using conn_send_pkt_ok [OF conjunct1 [OF send.IH] assms(2) data, of now] send.hyps(4) by auto
  have k: "cn_state self = Killed \<longrightarrow> payload self pkt = []" by (simp add: payload_def takes_data_def)
  show ?case using conn_run_step [OF d, of "accepted s" sent] counter_step [OF d] k send.IH d
    by (simp add: delivers_def)
next
  case (recv sent self now pkt r self' pkt')
  have d: "delivers accepted self [] self'"
    using conn_recv_pkt_ok [OF conjunct1 [OF recv.IH] assms(2), of now pkt] recv.hyps(2) by auto
  show ?case using conn_run_step [OF d, of "accepted s" sent] counter_step [OF d] recv.IH d
    by (simp add: delivers_def)
next
  case (event sent self evset self')
  have d: "delivers accepted self [] self'"
    using conn_notify_ok [OF conjunct1 [OF event.IH] assms(2), of evset] event.hyps(2) by auto
  show ?case using conn_run_step [OF d, of "accepted s" sent] counter_step [OF d] event.IH d
    by (simp add: delivers_def)
next
  case (expire sent self now)
  have d: "delivers accepted self [] (kill self)" using kill_ok [OF conjunct1 [OF expire.IH] expire.hyps(2)] .
  show ?case using conn_run_step [OF d, of "accepted s" sent] counter_step [OF d] expire.IH d
    by (simp add: delivers_def)
qed


section \<open>Draining\<close>

text \<open>Asking a connection for packets, as the device does while there is something pending.\<close>

fun recv_n :: "'s HostStream \<Rightarrow> nat \<Rightarrow> VsockPacket \<Rightarrow> nat \<Rightarrow> 's VsockConnection \<Rightarrow>
  ((VsockError + unit) list \<times> 's VsockConnection) rust" where
  "recv_n io now pkt 0 self = ret ([], self)"
| "recv_n io now pkt (Suc n) self = do {
     (r, self, _) \<leftarrow> conn_recv_pkt io now self pkt;
     (rs, self) \<leftarrow> recv_n io now pkt n self;
     ret (r # rs, self)
   }"

lemma card_pending: "card (pending self) \<le> 5"
proof -
  have "card (pending self) \<le> card {Request, Response, Rst, Rw, CreditUpdate}"
    using PendingRx.exhaust by (intro card_mono) blast+
  then show ?thesis by simp
qed

lemma recv_n_drains:
  assumes "conn_inv self" "stream_ok io accepted" "pkt_buf pkt \<noteq> None"
    "\<forall>s n. fst (stream_read io s n) \<noteq> Inl WouldBlock" "card (pending self) \<le> k"
  shows "\<exists>n \<le> k. \<exists>rs self'. recv_n io now pkt n self = Some (rs, self') \<and> (\<forall>r \<in> set rs. r = Inr ()) \<and>
    \<not> has_pending_rx self'"
  using assms(1,5)
proof (induction k arbitrary: self)
  case 0
  then have "pending self = {}" using finite_pending [of self] by simp
  then show ?case using has_pending_iff [OF conn_inv_ok [OF 0(1)]] by simp
next
  case (Suc k)
  show ?case
  proof (cases "pending self = {}")
    case True
    then show ?thesis using has_pending_iff [OF conn_inv_ok [OF Suc.prems(1)]] by (intro exI [of _ 0]) simp
  next
    case False
    obtain r self1 pkt1 where r: "conn_recv_pkt io now self pkt = Some (r, self1, pkt1)" "conn_inv self1"
        "pending self1 \<subset> pending self" "r = Inr ()"
      using conn_recv_pkt_ok [OF Suc.prems(1) assms(2), of now pkt] assms(3,4) False
      by (auto simp: delivers_def)
    have "card (pending self1) < card (pending self)"
      using r(3) by (intro psubset_card_mono finite_pending)
    then obtain n rs self' where "n \<le> k" "recv_n io now pkt n self1 = Some (rs, self')"
        "\<forall>r \<in> set rs. r = Inr ()" "\<not> has_pending_rx self'"
      using Suc.IH [OF r(2)] Suc.prems(2) by auto
    then show ?thesis using r(1,4) by (intro exI [of _ "Suc n"]) auto
  qed
qed

section \<open>A host stream for the examples\<close>

text \<open>A stream that takes at most three bytes at a time and always has two bytes to read.\<close>

definition demo_io :: "u8 list HostStream" where
  "demo_io = \<lparr>stream_read = (\<lambda>s n. (Inr (take n [7, 8]), s)),
     stream_write = (\<lambda>s bs. (Inr (min 3 (length bs)), s @ take 3 bs))\<rparr>"

lemma demo_io_ok: "stream_ok demo_io id"
  by (auto simp: stream_ok_def demo_io_def sink_ok_def min_def)

definition demo_conn :: "u8 list VsockConnection" where
  "demo_conn = new_peer_init [] 2 3 1024 5000 4096"

lemma demo_conn_fresh: "fresh [] demo_conn"
  unfolding fresh_def demo_conn_def by blast

definition demo_pkt :: VsockPacket where
  "demo_pkt = \<lparr>pkt_hdr = VsockPacketHdr_default, pkt_buf = Some [0, 0, 0, 0]\<rparr>"

text \<open>A guest memory with a data packet of five bytes, and the two descriptors that point to it.\<close>

definition demo_hdr :: VsockPacketHdr where
  "demo_hdr = VsockPacketHdr_default\<lparr>h_op := VSOCK_OP_RW, h_len := 5, h_buf_alloc := 4096\<rparr>"

definition demo_mem :: GuestMemory where
  "demo_mem = \<lparr>checked_offset = (\<lambda>a n. Some a), get_host_address = (\<lambda>a. Inr (unat a)),
     host_bytes = (\<lambda>p n. take n ((if p = 0 then hdr_as_slice demo_hdr else []) @ replicate n 9))\<rparr>"

definition demo_descs :: "Descriptor list" where
  "demo_descs = [\<lparr>desc_addr = 0, desc_len = 44, desc_write_only = False\<rparr>,
     \<lparr>desc_addr = 4096, desc_len = 5, desc_write_only = False\<rparr>]"

definition demo_tx :: VsockPacket where
  "demo_tx = \<lparr>pkt_hdr = demo_hdr, pkt_buf = Some (replicate 5 9)\<rparr>"

lemma demo_mem_reads: "memory_reads demo_mem"
  by (auto simp: memory_reads_def demo_mem_def min_def)

lemma demo_from_tx: "from_tx_virtq_head demo_mem demo_descs = Inr demo_tx"
proof -
  have "length (hdr_as_slice demo_hdr) = 44" by (simp add: hdr_as_slice_def)
  then have "hdr_from_virtq_desc demo_mem (hd demo_descs) = Inr demo_hdr"
    by (simp add: hdr_from_virtq_desc_def demo_descs_def demo_mem_def VSOCK_PKT_HDR_SIZE_def hdr_deref_as_slice)
  moreover have "h_len demo_hdr = 5" by (simp add: demo_hdr_def)
  ultimately show ?thesis
    by (simp add: from_tx_virtq_head_def demo_descs_def demo_tx_def buf_from_virtq_desc_def demo_mem_def
        MAX_PKT_BUF_SIZE_def)
qed

text \<open>The connection after the guest got its confirmation, and after it sent the packet.\<close>

lemma demo_established:
  "\<exists>self. conn_run demo_io demo_conn [] self \<and> cn_state self = Established"
proof -
  have p: "pending demo_conn = {Response}" by (simp add: pending_def demo_conn_def new_peer_init_def)
  obtain r self pkt where r: "conn_recv_pkt demo_io 0 demo_conn demo_pkt = Some (r, self, pkt)"
      "cn_state self = Established"
    using p by (auto simp: conn_recv_pkt_def unpend_eq pending_def)
  show ?thesis using conn_run.recv [OF conn_run.start r(1)] r(2) by blast
qed

lemma demo_run: "\<exists>self. conn_run demo_io demo_conn (replicate 5 9) self"
proof -
  obtain self where s: "conn_run demo_io demo_conn [] self" "cn_state self = Established"
    using demo_established by blast
  have inv: "conn_inv self" using conn_run_inv [OF s(1) demo_io_ok demo_conn_fresh] by blast
  have pay: "payload self demo_tx = replicate 5 9"
    using s(2) by (simp add: payload_def takes_data_def demo_tx_def demo_hdr_def pkt_op_def pkt_len_def)
  obtain self' where "conn_send_pkt demo_io 0 self demo_tx = Some (Inr (), self')"
    using conn_send_pkt_ok [OF inv demo_io_ok data_inside_tx [OF from_tx_ok [OF demo_mem_reads demo_from_tx]]] by blast
  from conn_run.send [OF s(1) demo_mem_reads demo_from_tx this] pay show ?thesis by auto
qed

section \<open>Properties\<close>



text \<open>no operation of a reachable connection panics, whatever chain of descriptors the guest
  presents, and a packet of the guest is always consumed.\<close>

theorem conn_never_panics:
  assumes "stream_ok io accepted" "fresh s self0" "conn_run io self0 sent self"
    "memory_reads mem" "from_tx_virtq_head mem descs = Inr pkt"
  shows "(\<exists>self'. conn_send_pkt io now self pkt = Some (Inr (), self')) \<and>
    conn_recv_pkt io now self pkt' \<noteq> None \<and> conn_notify io self evset \<noteq> None"
proof -
  have inv: "conn_inv self" using conn_run_inv [OF assms(3,1,2)] by blast
  show ?thesis
    using conn_send_pkt_ok [OF inv assms(1) data_inside_tx [OF from_tx_ok [OF assms(4,5)]], of now]
      conn_recv_pkt_ok [OF inv assms(1), of now pkt'] conn_notify_ok [OF inv assms(1), of evset]
    by auto
qed

theorem conn_never_panics_witness:
  "\<exists>self. conn_run demo_io demo_conn (replicate 5 9) self \<and>
    conn_send_pkt demo_io 0 self demo_tx \<noteq> None \<and> conn_notify demo_io self 5 \<noteq> None"
  using demo_run conn_never_panics [OF demo_io_ok demo_conn_fresh _ demo_mem_reads demo_from_tx] by fastforce





text \<open>C19: the ring buffer is a bounded queue of bytes: a slice that fits is appended, whatever the
  position of the wrapping offsets, and one that does not is refused and changes nothing.\<close>

theorem txbuf_push_queue:
  assumes "txbuf_ok self"
  shows "\<exists>result self'. TxBuf_push self src = Some (result, self') \<and> txbuf_ok self' \<and>
    (if length (contents self) + length src \<le> TxBuf_SIZE
     then result = Inr () \<and> contents self' = contents self @ src
     else result = Inl TxBufFull \<and> self' = self)"
  using TxBuf_push_ok [OF assms] .

theorem txbuf_push_queue_witness:
  "\<exists>self'. TxBuf_push TxBuf_default [1, 2, 3] = Some (Inr (), self') \<and> contents self' = [1, 2, 3]"
  using txbuf_push_queue [OF TxBuf_default_ok(1), of "[1, 2, 3]"] TxBuf_default_ok(2) by auto

text \<open>C20: flushing the ring buffer returns, for every sink that never claims to have written more
  than it was given; the reported number of bytes left the front of the queue and arrived at the
  sink in order, and an error means that nothing moved.\<close>

theorem txbuf_flush_queue:
  assumes "txbuf_ok self" "sink_ok wr accepted"
  shows "\<exists>result self' sink'. flush_to wr self sink = Some (result, self', sink') \<and> txbuf_ok self' \<and>
    (case result of
       Inl e \<Rightarrow> contents self' = contents self \<and> accepted sink' = accepted sink \<and> (\<exists>io. e = TxBufFlush io)
     | Inr n \<Rightarrow> n \<le> length (contents self) \<and> contents self' = drop n (contents self) \<and>
         accepted sink' = accepted sink @ take n (contents self))"
  using flush_to_ok [OF assms] .

theorem txbuf_flush_queue_witness:
  "\<exists>b result b' s. TxBuf_push TxBuf_default [1, 2, 3, 4] = Some (Inr (), b) \<and>
    flush_to (stream_write demo_io) b [] = Some (result, b', s) \<and>
    (\<forall>n. result = Inr n \<longrightarrow> n \<le> 4 \<and> s = take n [1, 2, 3, 4] \<and> contents b' = drop n [1, 2, 3, 4])"
proof -
  obtain b where b: "TxBuf_push TxBuf_default [1, 2, 3, 4] = Some (Inr (), b)" "txbuf_ok b" "contents b = [1, 2, 3, 4]"
    using TxBuf_push_ok [OF TxBuf_default_ok(1), of "[1, 2, 3, 4]"] TxBuf_default_ok(2) by auto
  show ?thesis
    using txbuf_flush_queue [OF b(2) stream_okD(1) [OF demo_io_ok], of "[]"] b(1,3) by fastforce
qed

text \<open>the bytes of a header in guest memory determine the header: reading back what was stored
  yields every field.\<close>

theorem hdr_roundtrip: "length (hdr_as_slice h) = VSOCK_PKT_HDR_SIZE \<and> hdr_deref (hdr_as_slice h) = h"
  using hdr_deref_as_slice by (simp add: hdr_as_slice_def VSOCK_PKT_HDR_SIZE_def)

end
