(* ===== verification/Vsock_Muxer_Props.thy ===== *)
theory Vsock_Muxer_Props
  imports Vsock_Ports Vsock_Conn_Props
begin

text \<open>
  The properties of the vsock muxer: runs of packets and events, progress of the receive loop, local
  ports, and the text command of the host.
\<close>

section \<open>The command of the host\<close>

lemma parse_digits_append:
  "parse_digits acc (xs @ ys) = Option.bind (parse_digits acc xs) (\<lambda>a. parse_digits a ys)"
  by (induction acc xs rule: parse_digits.induct) auto

lemma unat_digit: "d < 10 \<Longrightarrow> unat (48 + of_nat d :: u8) = 48 + d"
  by (simp add: unat_word_ariths unat_of_nat)

lemma parse_decimal: "n < 2 ^ 32 \<Longrightarrow> parse_digits 0 (map unat (decimal n)) = Some n"
proof (induction n rule: decimal.induct)
  case (1 n)
  then show ?case
  proof (cases "n < 10")
    case True
    then show ?thesis by (simp add: decimal.simps [of n] unat_digit)
  next
    case False
    then have "parse_digits 0 (map unat (decimal (n div 10))) = Some (n div 10)" using 1 by simp
    then show ?thesis using False 1(2) by (simp add: decimal.simps [of n] parse_digits_append unat_digit)
  qed
qed

lemma decimal_digits: "\<forall>b \<in> set (decimal n). 48 \<le> unat b \<and> unat b \<le> 57"
proof (induction n rule: decimal.induct)
  case (1 n)
  have "n mod 10 < 10" by simp
  then have d: "unat (48 + of_nat (n mod 10) :: u8) = 48 + n mod 10" by (rule unat_digit)
  show ?case
  proof (cases "n < 10")
    case True
    then show ?thesis by (simp add: decimal.simps [of n] unat_digit)
  next
    case False
    then show ?thesis using 1 d \<open>n mod 10 < 10\<close> by (auto simp: decimal.simps [of n])
  qed
qed

lemma decimal_length: "decimal n \<noteq> [] \<and> (n < 10 ^ k \<longrightarrow> 0 < k \<longrightarrow> length (decimal n) \<le> k)"
proof (induction n arbitrary: k rule: decimal.induct)
  case (1 n)
  show ?case
  proof (cases "n < 10")
    case True
    then show ?thesis by (simp add: decimal.simps [of n])
  next
    case False
    have "length (decimal (n div 10)) \<le> k - 1" if "n < 10 ^ k" "0 < k"
    proof -
      have "k \<noteq> 1" using that False by auto
      then have "0 < k - 1" using that(2) by simp
      moreover have "n div 10 < 10 ^ (k - 1)" using that by (cases k) (auto simp: div_less_iff_less_mult mult.commute)
      ultimately show ?thesis using 1 [OF False] by blast
    qed
    then show ?thesis using False by (auto simp: decimal.simps [of n])
  qed
qed

lemma from_utf8_ascii: "\<forall>b \<in> set bs. b < 128 \<Longrightarrow> from_utf8 bs = Some bs"
proof (induction bs)
  case (Cons b bs)
  then have "utf8_char (b # bs) = Some (b, 1)" by (simp add: utf8_char_def)
  then show ?case using Cons by (simp add: from_utf8.simps [of "b # bs"])
qed (simp add: from_utf8.simps)

lemma split_ws_word:
  "\<forall>c \<in> set w. \<not> white_space c \<Longrightarrow> white_space c \<Longrightarrow> cur @ w \<noteq> [] \<Longrightarrow> split_ws cur (w @ c # cs) = (cur @ w) # split_ws [] cs"
  by (induction w arbitrary: cur) auto

text \<open>A stream that hands out its input without pausing.\<close>

definition eager :: "u8 list HostStream \<Rightarrow> bool" where
  "eager io \<longleftrightarrow> (\<forall>s n. stream_read io s n = (Inr (take n s), drop n s))"

lemma read_line_eager:
  assumes "eager io"
  shows "10 \<notin> set xs \<Longrightarrow> pre \<noteq> [] \<Longrightarrow> last pre \<noteq> 10 \<Longrightarrow> length xs < k \<Longrightarrow>
    read_line io (pre @ replicate k 0) (length pre) (xs @ 10 # rest) =
      (Inr (pre @ xs @ 10 # replicate (k - Suc (length xs)) 0), rest)"
proof (induction xs arbitrary: pre k)
  case Nil
  have "pre \<noteq> []" using Nil by simp
  then have "(pre @ replicate k 0) ! (length pre - 1) = last pre" by (simp add: nth_append last_conv_nth)
  moreover obtain k' where "k = Suc k'" using Nil by (cases k) auto
  ultimately show ?case using Nil assms
    by (simp add: read_line.simps [of io "pre @ 0 # replicate k' 0"] read_exact1_def eager_def list_update_append
        read_line.simps [of io "pre @ 10 # replicate k' 0"] nth_append)
next
  case (Cons x xs)
  obtain k' where k: "k = Suc k'" using Cons by (cases k) auto
  have "(pre @ replicate k 0) ! (length pre - 1) = last pre" using Cons by (simp add: nth_append last_conv_nth)
  then have "read_line io (pre @ replicate k 0) (length pre) ((x # xs) @ 10 # rest) =
      read_line io ((pre @ [x]) @ replicate k' 0) (length (pre @ [x])) (xs @ 10 # rest)"
    using Cons assms k
    by (simp add: read_line.simps [of io "pre @ 0 # replicate k' 0" "length pre"] read_exact1_def eager_def list_update_append)
  also have "\<dots> = (Inr ((pre @ [x]) @ xs @ 10 # replicate (k' - Suc (length xs)) 0), rest)"
    using Cons k by (intro Cons(1)) auto
  finally show ?case by (simp add: k)
qed

definition connect_msg :: "u32 \<Rightarrow> u8 list" where
  "connect_msg port = [99, 111, 110, 110, 101, 99, 116, 32] @ decimal (unat port) @ [10]"

lemma parse_connect:
  "parse_command (split_whitespace (map unat (connect_msg port) @ replicate k 0)) = Inr (Connect port)"
proof -
  let ?d = "map unat (decimal (unat port))"
  have d: "\<forall>c \<in> set ?d. 48 \<le> c \<and> c \<le> 57" using decimal_digits by auto
  then have ws: "\<forall>c \<in> set ?d. \<not> white_space c" by (auto simp: white_space_def)
  have ne: "?d \<noteq> []" using decimal_length by simp
  have "split_whitespace (map unat (connect_msg port) @ replicate k 0) =
      str_connect # split_ws [] (?d @ 10 # replicate k 0)"
    using split_ws_word [of str_connect 32 "[]"]
    by (simp add: split_whitespace_def connect_msg_def str_connect_def white_space_def)
  also have "split_ws [] (?d @ 10 # replicate k 0) = ?d # split_ws [] (replicate k 0)"
    using split_ws_word [of ?d 10 "[]"] ws ne by (simp add: white_space_def)
  finally have "split_whitespace (map unat (connect_msg port) @ replicate k 0) = str_connect # ?d # split_ws [] (replicate k 0)" .
  moreover have "parse_u32 ?d = Some port"
  proof -
    obtain c cs where c: "?d = c # cs" using ne by (cases ?d) auto
    then have "48 \<le> c" using d by simp
    moreover have "parse_digits 0 (c # cs) = Some (unat port)"
      using parse_decimal [of "unat port"] c unsigned_less [of port, where ?'a = nat] by simp
    ultimately show ?thesis using c by (simp add: parse_u32_def)
  qed
  ultimately show ?thesis by (simp add: parse_command_def to_lowercase_def str_connect_def)
qed

lemma read_connect:
  assumes "eager io"
  shows "read_local_stream_port io (connect_msg port @ rest) = Some (Inr (Connect port), rest)"
proof -
  let ?pre = "[99, 111, 110, 110, 101, 99, 116] :: u8 list" and ?xs = "32 # decimal (unat port)"
  have len: "length (decimal (unat port)) \<le> 10" using decimal_length [of "unat port" 10] unsigned_less [of port, where ?'a = nat] by simp
  have xs: "10 \<notin> set ?xs" using decimal_digits [of "unat port"] by auto
  have msg: "connect_msg port @ rest = ?pre @ ?xs @ 10 # rest" by (simp add: connect_msg_def)
  have rd: "stream_read io (connect_msg port @ rest) 7 = (Inr ?pre, ?xs @ 10 # rest)"
    using assms by (simp add: eager_def msg)
  have buf: "copy_into (replicate 32 0) 0 ?pre = Some (?pre @ replicate 25 0)"
    by (simp add: copy_into_def)
  have seven: "7 = length ?pre" by simp
  have line: "read_line io (?pre @ replicate 25 0) 7 (?xs @ 10 # rest) =
      (Inr (?pre @ ?xs @ 10 # replicate (25 - Suc (length ?xs)) 0), rest)"
    using read_line_eager [OF assms xs, of ?pre 25 rest] len unfolding seven by simp
  let ?buf = "?pre @ ?xs @ 10 # replicate (25 - Suc (length ?xs)) 0"
  have eq: "map unat ?buf = map unat (connect_msg port) @ replicate (25 - Suc (length ?xs)) 0"
    by (simp add: connect_msg_def)
  have "\<forall>b \<in> set (map unat ?buf). b < 128" using decimal_digits [of "unat port"] by auto
  then have "from_utf8 (map unat ?buf) = Some (map unat ?buf)" by (rule from_utf8_ascii)
  then have "(case from_utf8 (map unat ?buf) of None \<Rightarrow> Inl InvalidPortRequest
      | Some cs \<Rightarrow> parse_command (split_whitespace cs)) = Inr (Connect port)"
    unfolding eq by (simp add: parse_connect)
  then show ?thesis using rd buf line by (simp add: read_local_stream_port_def MIN_READ_LEN_def)
qed

section \<open>Runs of the muxer\<close>

text \<open>Packets from the guest's transmit queue, requests for packets and events, from a new muxer. The
  clock may move between the steps.\<close>

inductive muxer_run :: "('s, 'b, 'e) MuxEnv \<Rightarrow> ('s, 'b, 'e) VsockMuxer \<Rightarrow> bool" for env where
  start: "muxer_run env (VsockMuxer_new cid ep)"
| backend: "muxer_run env self \<Longrightarrow> add_backend env b is_peer self = (r, self') \<Longrightarrow> muxer_run env self'"
| send: "muxer_run env self \<Longrightarrow> memory_reads mem \<Longrightarrow> from_tx_virtq_head mem descs = Inr pkt \<Longrightarrow>
    muxer_send_pkt env now self pkt = Some (r, self') \<Longrightarrow> muxer_run env self'"
| recv: "muxer_run env self \<Longrightarrow> muxer_recv_pkt env now self pkt = Some (r, self', pkt') \<Longrightarrow> muxer_run env self'"
| event: "muxer_run env self \<Longrightarrow> card (local_port_set self) < 2 ^ 30 \<Longrightarrow>
    handle_event env now fd evset self = Some self' \<Longrightarrow> muxer_run env self'"

lemma rxq_from_ok: "mux_ok self \<Longrightarrow> mux_ok (self\<lparr>rxq := rxq_from_conn_map (conn_map self)\<rparr>)"
proof -
  assume ok: "mux_ok self"
  note w = rxq_walk_ok [of "[]" "conn_map self", folded rxq_from_conn_map_def]
  have "insync (conn_map self) (rxq_from_conn_map (conn_map self))"
    using w unfolding insync_def by (auto dest!: map_of_SomeD)
  then show ?thesis using ok w by (simp add: mux_ok_def)
qed

lemma muxer_recv_ok:
  fixes env :: "('s, 'b, 'e) MuxEnv"
  assumes "stream_ok (env_io env) accepted" "mux_ok self"
  shows "\<exists>r self' pkt'. muxer_recv_pkt env now self pkt = Some (r, self', pkt') \<and> mux_ok self' \<and>
    fst ` set (conn_map self') \<subseteq> fst ` set (conn_map self) \<and> ports_less self self' \<and>
    (r = Inr () \<or> r = Inl NoData \<and> rxq_q (rxq self') = [])"
proof -
  let ?s = "if rxq_is_empty (rxq self) \<and> \<not> rxq_synced (rxq self) then self\<lparr>rxq := rxq_from_conn_map (conn_map self)\<rparr> else self"
  have "mux_ok ?s" "conn_map ?s = conn_map self" using assms(2) rxq_from_ok by auto
  moreover have "ports_less ?s s = ports_less self s" for s by (simp add: ports_less_def)
  ultimately show ?thesis using recv_loop_ok [OF assms(1), of ?s now pkt] by (simp only: muxer_recv_pkt_def Let_def)
qed

lemma ports_less_inv: "ports_less self self' \<Longrightarrow> ports_inv self \<Longrightarrow> ports_inv self'"
  by (auto simp: ports_less_def ports_inv_def intro: finite_subset)

lemma add_backend_same: "mux_ok self \<Longrightarrow> mux_ok (snd (add_backend env b is_peer self)) \<and> ports_same self (snd (add_backend env b is_peer self))"
proof -
  assume ok: "mux_ok self"
  obtain r s where a: "add_listener env (backend_fd env b) (BackendListener (backend_type env b)) self = (r, s)" by fastforce
  then have rel: "relisten self s" using relisten_listener(2) by (metis snd_conv)
  then show ?thesis using ok a relisten_ok [OF rel ok] relistenD(5,6) [OF rel]
    by (cases r) (simp_all add: add_backend_def Let_def ports_same_def)
qed

lemma ports_new: "ports_inv (VsockMuxer_new cid ep)"
  by (simp add: ports_inv_def VsockMuxer_new_def word_le_nat_alt word_less_nat_alt)

lemma muxer_run_ok:
  fixes env :: "('s, 'b, 'e) MuxEnv"
  assumes "stream_ok (env_io env) accepted" "muxer_run env self"
  shows "mux_ok self \<and> ports_inv self"
  using assms(2)
proof induction
  case (start cid ep)
  show ?case by (simp add: mux_new_ok ports_new)
next
  case (backend self b is_peer r self')
  then show ?case using add_backend_same [of self env b is_peer] by (simp add: ports_same_def ports_inv_def)
next
  case (send self mem descs pkt now r self')
  have "data_inside pkt" using data_inside_tx [OF from_tx_ok [OF send(2,3)]] .
  then obtain s where "muxer_send_pkt env now self pkt = Some (Inr (), s)" "mux_ok s" "ports_less self s"
    using muxer_send_ok [OF _ assms(1)] send(5) by blast
  then show ?case using send(4,5) ports_less_inv by auto
next
  case (recv self now pkt r self' pkt')
  then obtain r1 s p where "muxer_recv_pkt env now self pkt = Some (r1, s, p)" "mux_ok s" "ports_less self s"
    using muxer_recv_ok [OF assms(1)] by blast
  then show ?case using recv(2,3) ports_less_inv by auto
next
  case (event self now fd evset self')
  then have "event_ok self (handle_event env now fd evset self)" using handle_event_ok [OF _ _ assms(1)] by blast
  then show ?case using event(3) by (simp add: event_ok_def)
qed

section \<open>An example\<close>

text \<open>A host that accepts everything, with one backend that connects.\<close>

definition demo_env :: "(u8 list, unit, unit) MuxEnv" where
  "demo_env = \<lparr>env_io = demo_io, stream_fd = (\<lambda>_. 7), stream_backend = (\<lambda>_. UnixStreamBackend),
     recv_data_fd = (\<lambda>s. (Inl WouldBlock, s)), hybrid_stream = (\<lambda>_ s. s), set_nonblocking = (\<lambda>s. (Inr (), s)),
     backend_accept = (\<lambda>b. (Inl WouldBlock, b)), backend_connect = (\<lambda>b p. Inr []), backend_fd = (\<lambda>_. 3),
     backend_type = (\<lambda>_. UnixStreamBackend), epoll_ctl = (\<lambda>e _ _ _. (Inr (), e)), epoll_wait = (\<lambda>e. (Inr [], e))\<rparr>"

lemma demo_env_ok: "stream_ok (env_io demo_env) id"
  by (simp add: demo_env_def demo_io_ok)

definition demo_mux :: "(u8 list, unit, unit) VsockMuxer" where
  "demo_mux = VsockMuxer_new 3 ()"

lemma demo_mux_run: "muxer_run demo_env demo_mux"
  unfolding demo_mux_def by (rule muxer_run.start)

lemma demo_mux_no_ports: "local_port_set demo_mux = {}"
  by (simp add: demo_mux_def VsockMuxer_new_def)

definition eager_io :: "u8 list HostStream" where
  "eager_io = \<lparr>stream_read = \<lambda>s n. (Inr (take n s), drop n s), stream_write = \<lambda>s bs. (Inr (length bs), s)\<rparr>"

lemma eager_io: "eager eager_io"
  by (simp add: eager_def eager_io_def)

section \<open>Properties\<close>

text \<open>C15: in every run of packets, events and backends, the pool holds at most 1023 connections under
  their own ports, the receive queue at most 256 and the kill queue at most 128 entries, and a receive
  queue that is in sync names every connection that has something for the guest.\<close>

theorem muxer_invariant:
  assumes "stream_ok (env_io env) accepted" "muxer_run env self"
  shows "distinct (map fst (conn_map self)) \<and> length (conn_map self) \<le> 1023 \<and>
    length (rxq_q (rxq self)) \<le> 256 \<and> length (killq_q (killq self)) \<le> 128 \<and>
    (\<forall>key conn. map_of (conn_map self) key = Some conn \<longrightarrow>
       key_local_port key = local_port conn \<and> key_peer_port key = peer_port conn \<and>
       (has_pending_rx conn \<and> rxq_synced (rxq self) \<longrightarrow> ConnRx key \<in> set (rxq_q (rxq self))))"
proof -
  note m = mux_okD [OF conjunct1 [OF muxer_run_ok [OF assms]]]
  have "key_local_port key = local_port conn \<and> key_peer_port key = peer_port conn"
    if "map_of (conn_map self) key = Some conn" for key conn
    using m(1) [OF that] by (auto simp: conn_at_def ports_def)
  then show ?thesis
    using m(2-6) by (simp add: MAX_CONNECTIONS_def rxq_ok_def MUXER_RXQ_SIZE_def killq_ok_def MUXER_KILLQ_SIZE_def insync_def) blast
qed

theorem muxer_invariant_witness:
  "length (conn_map demo_mux) \<le> 1023 \<and> length (rxq_q (rxq demo_mux)) \<le> 256"
  using muxer_invariant [OF demo_env_ok demo_mux_run] by blast



text \<open>C16: in every run, a request for a packet ends: it yields a packet, or it reports that there is no
  data, and then the receive queue is empty and, if it is in sync, no connection has anything for the
  guest. No connection is added by it.\<close>

theorem muxer_recv_terminates:
  assumes "stream_ok (env_io env) accepted" "muxer_run env self"
  shows "\<exists>r self' pkt'. muxer_recv_pkt env now self pkt = Some (r, self', pkt') \<and>
    fst ` set (conn_map self') \<subseteq> fst ` set (conn_map self) \<and>
    (r = Inr () \<or> r = Inl NoData \<and> rxq_q (rxq self') = [] \<and>
      (rxq_synced (rxq self') \<longrightarrow> (\<forall>key conn. map_of (conn_map self') key = Some conn \<longrightarrow> \<not> has_pending_rx conn)))"
proof -
  obtain r self' pkt' where "muxer_recv_pkt env now self pkt = Some (r, self', pkt')" "mux_ok self'"
      "fst ` set (conn_map self') \<subseteq> fst ` set (conn_map self)" "r = Inr () \<or> r = Inl NoData \<and> rxq_q (rxq self') = []"
    using muxer_recv_ok [OF assms(1) conjunct1 [OF muxer_run_ok [OF assms]]] by blast
  moreover from mux_okD(6) [OF this(2)] have "rxq_q (rxq self') = [] \<longrightarrow> rxq_synced (rxq self') \<longrightarrow>
      (\<forall>key conn. map_of (conn_map self') key = Some conn \<longrightarrow> \<not> has_pending_rx conn)" by (auto simp: insync_def)
  ultimately show ?thesis by blast
qed

theorem muxer_recv_terminates_witness:
  "\<exists>r self' pkt'. muxer_recv_pkt demo_env 0 demo_mux demo_pkt = Some (r, self', pkt')"
  using muxer_recv_terminates [OF demo_env_ok demo_mux_run] by blast

text \<open>C22: as long as not all \<open>2 ^ 30\<close> local ports are in use, the search for one ends; the port has bit 30
  set and bit 31 clear, was not in use, and is in use afterwards.\<close>

theorem local_port_fresh:
  assumes "stream_ok (env_io env) accepted" "muxer_run env self" "card (local_port_set self) < 2 ^ 30"
  shows "\<exists>p self'. allocate_local_port self = Some (p, self') \<and> 2 ^ 30 \<le> p \<and> p < 2 ^ 31 \<and>
    p \<notin> local_port_set self \<and> local_port_set self' = insert p (local_port_set self)"
  using allocate_ok [OF conjunct2 [OF muxer_run_ok [OF assms(1,2)]] assms(3)] unfolding local_ports_def by fastforce

theorem local_port_fresh_witness:
  "\<exists>p self'. allocate_local_port demo_mux = Some (p, self') \<and> 2 ^ 30 \<le> p \<and> local_port_set self' = {p}"
  using local_port_fresh [OF demo_env_ok demo_mux_run] by (simp add: demo_mux_no_ports) blast

text \<open>the command \<open>connect <port>\<close> and a newline, with the port in decimal, is read back as a request for
  that port, and what follows the newline stays in the stream.\<close>

theorem connect_roundtrip:
  assumes "eager io"
  shows "read_local_stream_port io (connect_msg port @ rest) = Some (Inr (Connect port), rest)"
  using read_connect [OF assms] .

theorem connect_roundtrip_witness:
  "read_local_stream_port eager_io (connect_msg 1024 @ []) = Some (Inr (Connect 1024), [])"
  using connect_roundtrip [OF eager_io] .


end
