(* ===== verification/Rate_Limiter.thy ===== *)
theory Rate_Limiter
  imports Complex_Main Rust_Prelude "HOL-Library.Log_Nat"
begin

text \<open>
  Token buckets and the rate limiter of the block and network devices (\<open>dbs_utils/rate_limiter.rs\<close>).

  An \<open>Instant\<close> is a number of nanoseconds, and the clock is an argument that does not move during one
  call. A value of type \<open>f64\<close> that occurs here is positive and far from the limits of the format; it is
  the rational number it stands for. The timer is an argument: the operations of \<open>TimerFd\<close> on a state.
\<close>

section \<open>Floating point\<close>

type_synonym f64 = rat

definition round_half_even :: "rat \<Rightarrow> int" where
  "round_half_even y =
     (let f = \<lfloor>y\<rfloor>; d = y - of_int f in
      if d < 1 / 2 then f else if d > 1 / 2 then f + 1 else if even f then f else f + 1)"

text \<open>The exponent of a positive number: \<open>2 ^ e \<le> x < 2 ^ (e + 1)\<close>.\<close>

definition pow2 :: "int \<Rightarrow> rat" where
  "pow2 e = (if e \<ge> 0 then 2 ^ nat e else 1 / 2 ^ nat (- e))"

definition f64_exponent :: "rat \<Rightarrow> int" where
  "f64_exponent x =
     (let (p, q) = quotient_of x; e = bitlen p - bitlen q in if x < pow2 e then e - 1 else e)"

definition f64_round :: "rat \<Rightarrow> f64" where
  "f64_round x =
     (if x \<le> 0 then 0
      else let ulp = pow2 (f64_exponent x - 52) in of_int (round_half_even (x / ulp)) * ulp)"

definition f64_of_u64 :: "u64 \<Rightarrow> f64" where
  "f64_of_u64 n = f64_round (of_nat (unat n))"

definition f64_div :: "f64 \<Rightarrow> f64 \<Rightarrow> f64" where "f64_div a b = f64_round (a / b)"
definition f64_mul :: "f64 \<Rightarrow> f64 \<Rightarrow> f64" where "f64_mul a b = f64_round (a * b)"

text \<open>The cast back truncates and saturates.\<close>

definition u64_of_f64 :: "f64 \<Rightarrow> u64" where
  "u64_of_f64 x = (if \<lfloor>x\<rfloor> \<ge> 2 ^ 64 then u64_MAX else of_int \<lfloor>x\<rfloor>)"

section \<open>Token buckets\<close>

definition REFILL_TIMER_INTERVAL_MS :: u64 where "REFILL_TIMER_INTERVAL_MS = 10"
definition NANOSEC_IN_ONE_MILLISEC :: u64 where "NANOSEC_IN_ONE_MILLISEC = 1000000"

function gcd_u64 :: "u64 \<Rightarrow> u64 \<Rightarrow> u64" where
  "gcd_u64 x y = (if y \<noteq> 0 then gcd_u64 y (x mod y) else x)"
  by auto

termination
  by (relation "measure (\<lambda>(x, y). unat y)")
    (auto simp: unat_mod word_neq_0_conv word_less_nat_alt)

declare gcd_u64.simps [simp del]

datatype BucketReduction = Failure | Success | OverConsumption f64

record TokenBucket =
  tb_size :: u64
  initial_one_time_burst :: u64
  refill_time :: u64
  one_time_burst :: u64
  budget :: u64
  last_update :: nat
  processed_capacity :: u64
  processed_refill_time :: u64

definition TokenBucket_new :: "nat \<Rightarrow> u64 \<Rightarrow> u64 \<Rightarrow> u64 \<Rightarrow> TokenBucket rust" where
  "TokenBucket_new now sz burst complete_refill_time_ms =
     (if sz = 0 \<or> complete_refill_time_ms = 0 then panic
      else do {
        complete_refill_time_ns \<leftarrow> umul complete_refill_time_ms NANOSEC_IN_ONE_MILLISEC;
        let common_factor = gcd_u64 sz complete_refill_time_ns;
        ret \<lparr>tb_size = sz, initial_one_time_burst = burst, refill_time = complete_refill_time_ms,
             one_time_burst = burst, budget = sz, last_update = now,
             processed_capacity = sz div common_factor,
             processed_refill_time = complete_refill_time_ns div common_factor\<rparr>
      })"

definition auto_replenish :: "nat \<Rightarrow> TokenBucket \<Rightarrow> TokenBucket rust" where
  "auto_replenish now self = do {
     let time_delta = of_nat (now - last_update self);
     let self = self\<lparr>last_update := now\<rparr>;
     n \<leftarrow> umul time_delta (processed_capacity self);
     tokens \<leftarrow> (if processed_refill_time self = 0 then panic else ret (n div processed_refill_time self));
     b \<leftarrow> uadd (budget self) tokens;
     ret (self\<lparr>budget := min b (tb_size self)\<rparr>)
   }"

text \<open>The second half of \<open>reduce\<close>: what the one-time burst does not pay for.\<close>

definition reduce_budget :: "nat \<Rightarrow> u64 \<Rightarrow> TokenBucket \<Rightarrow> (BucketReduction \<times> TokenBucket) rust" where
  "reduce_budget now tokens self =
     (if tokens > budget self
      then do {
        self \<leftarrow> auto_replenish now self;
        if tokens > tb_size self
        then do {
          excess \<leftarrow> usub tokens (budget self);
          ret (OverConsumption (f64_div (f64_of_u64 excess) (f64_of_u64 (tb_size self))), self\<lparr>budget := 0\<rparr>)
        }
        else if tokens > budget self then ret (Failure, self)
        else do { b \<leftarrow> usub (budget self) tokens; ret (Success, self\<lparr>budget := b\<rparr>) }
      }
      else do { b \<leftarrow> usub (budget self) tokens; ret (Success, self\<lparr>budget := b\<rparr>) })"

definition reduce :: "nat \<Rightarrow> u64 \<Rightarrow> TokenBucket \<Rightarrow> (BucketReduction \<times> TokenBucket) rust" where
  "reduce now tokens self =
     (if one_time_burst self > 0
      then if one_time_burst self \<ge> tokens
           then do {
             b \<leftarrow> usub (one_time_burst self) tokens;
             ret (Success, self\<lparr>one_time_burst := b, last_update := now\<rparr>)
           }
           else do {
             tokens \<leftarrow> usub tokens (one_time_burst self);
             reduce_budget now tokens (self\<lparr>one_time_burst := 0\<rparr>)
           }
      else reduce_budget now tokens self)"

definition force_replenish :: "u64 \<Rightarrow> TokenBucket \<Rightarrow> TokenBucket rust" where
  "force_replenish tokens self =
     (if one_time_burst self > 0
      then do { b \<leftarrow> uadd (one_time_burst self) tokens; ret (self\<lparr>one_time_burst := b\<rparr>) }
      else do { b \<leftarrow> uadd (budget self) tokens; ret (self\<lparr>budget := min b (tb_size self)\<rparr>) })"

definition capacity :: "TokenBucket \<Rightarrow> u64" where "capacity self = tb_size self"
definition refill_time_ms :: "TokenBucket \<Rightarrow> u64" where "refill_time_ms self = refill_time self"

section \<open>The limiter\<close>

datatype TokenType = Bytes | Ops

datatype BucketUpdate = NoUpdate | Disabled | Update TokenBucket

datatype RateLimiterError = SpuriousRateLimiterEvent

record 't TimerEnv =
  timer_set :: "u64 \<Rightarrow> 't \<Rightarrow> 't"
  timer_read :: "'t \<Rightarrow> u64 \<times> 't"

record 't RateLimiter =
  rl_bandwidth :: "TokenBucket option"
  rl_ops :: "TokenBucket option"
  timer_fd :: 't
  timer_active :: bool

definition make_bucket :: "nat \<Rightarrow> u64 \<Rightarrow> u64 \<Rightarrow> u64 \<Rightarrow> TokenBucket option rust" where
  "make_bucket now total_capacity burst complete_refill_time_ms =
     (if total_capacity \<noteq> 0 \<and> complete_refill_time_ms \<noteq> 0
      then do { b \<leftarrow> TokenBucket_new now total_capacity burst complete_refill_time_ms; ret (Some b) }
      else ret None)"

text \<open>\<open>timer\<close> is the result of the creation of the timer.\<close>

definition RateLimiter_new ::
  "nat \<Rightarrow> 'e + 't \<Rightarrow> u64 \<Rightarrow> u64 \<Rightarrow> u64 \<Rightarrow> u64 \<Rightarrow> u64 \<Rightarrow> u64 \<Rightarrow> ('e + 't RateLimiter) rust" where
  "RateLimiter_new now timer bytes_capacity bytes_burst bytes_refill ops_capacity ops_burst ops_refill = do {
     bw \<leftarrow> make_bucket now bytes_capacity bytes_burst bytes_refill;
     ops \<leftarrow> make_bucket now ops_capacity ops_burst ops_refill;
     (case timer of
        Inl e \<Rightarrow> ret (Inl e)
      | Inr t \<Rightarrow> ret (Inr \<lparr>rl_bandwidth = bw, rl_ops = ops, timer_fd = t, timer_active = False\<rparr>))
   }"

definition RateLimiter_default :: "nat \<Rightarrow> 'e + 't \<Rightarrow> 't RateLimiter rust" where
  "RateLimiter_default now timer = do {
     result \<leftarrow> RateLimiter_new now timer 0 0 0 0 0 0;
     (case result of Inl e \<Rightarrow> panic | Inr self \<Rightarrow> ret self)
   }"

definition activate_timer :: "'t TimerEnv \<Rightarrow> u64 \<Rightarrow> 't RateLimiter \<Rightarrow> 't RateLimiter" where
  "activate_timer env ms self = self\<lparr>timer_fd := timer_set env ms (timer_fd self), timer_active := True\<rparr>"

primrec get_bucket :: "TokenType \<Rightarrow> 't RateLimiter \<Rightarrow> TokenBucket option" where
  "get_bucket Bytes self = rl_bandwidth self"
| "get_bucket Ops self = rl_ops self"

primrec put_bucket :: "TokenType \<Rightarrow> TokenBucket \<Rightarrow> 't RateLimiter \<Rightarrow> 't RateLimiter" where
  "put_bucket Bytes b self = self\<lparr>rl_bandwidth := Some b\<rparr>"
| "put_bucket Ops b self = self\<lparr>rl_ops := Some b\<rparr>"

definition consume ::
  "'t TimerEnv \<Rightarrow> nat \<Rightarrow> u64 \<Rightarrow> TokenType \<Rightarrow> 't RateLimiter \<Rightarrow> (bool \<times> 't RateLimiter) rust" where
  "consume env now tokens ty self =
     (if timer_active self then ret (False, self)
      else case get_bucket ty self of
        None \<Rightarrow> ret (True, self)
      | Some bucket \<Rightarrow> do {
          let refill = refill_time_ms bucket;
          (r, bucket) \<leftarrow> reduce now tokens bucket;
          let self = put_bucket ty bucket self;
          (case r of
             Failure \<Rightarrow>
               ret (False, if \<not> timer_active self then activate_timer env REFILL_TIMER_INTERVAL_MS self else self)
           | Success \<Rightarrow> ret (True, self)
           | OverConsumption ratio \<Rightarrow>
               ret (True, activate_timer env (u64_of_f64 (f64_mul ratio (f64_of_u64 refill))) self))
        })"

definition manual_replenish :: "u64 \<Rightarrow> TokenType \<Rightarrow> 't RateLimiter \<Rightarrow> 't RateLimiter rust" where
  "manual_replenish tokens ty self =
     (case get_bucket ty self of
        None \<Rightarrow> ret self
      | Some bucket \<Rightarrow> do { bucket \<leftarrow> force_replenish tokens bucket; ret (put_bucket ty bucket self) })"

definition is_blocked :: "'t RateLimiter \<Rightarrow> bool" where "is_blocked self = timer_active self"

definition event_handler :: "'t TimerEnv \<Rightarrow> 't RateLimiter \<Rightarrow> (RateLimiterError + unit) \<times> 't RateLimiter" where
  "event_handler env self =
     (case timer_read env (timer_fd self) of (n, t) \<Rightarrow>
        if n = 0 then (Inl SpuriousRateLimiterEvent, self\<lparr>timer_fd := t\<rparr>)
        else (Inr (), self\<lparr>timer_fd := t, timer_active := False\<rparr>))"

definition update_buckets :: "BucketUpdate \<Rightarrow> BucketUpdate \<Rightarrow> 't RateLimiter \<Rightarrow> 't RateLimiter" where
  "update_buckets bytes ops self =
     (let self = (case bytes of
          Disabled \<Rightarrow> self\<lparr>rl_bandwidth := None\<rparr>
        | Update tb \<Rightarrow> self\<lparr>rl_bandwidth := Some tb\<rparr>
        | NoUpdate \<Rightarrow> self)
      in case ops of
          Disabled \<Rightarrow> self\<lparr>rl_ops := None\<rparr>
        | Update tb \<Rightarrow> self\<lparr>rl_ops := Some tb\<rparr>
        | NoUpdate \<Rightarrow> self)"

end
