(* ===== verification/Rate_Limiter_Props.thy ===== *)
theory Rate_Limiter_Props
  imports Rate_Limiter
begin

text \<open>
  What the token buckets promise: tokens are handed out no faster than configured, and the simplified
  fraction computes the same refill as the formula it stands for.
\<close>

section \<open>Buckets\<close>

lemma unat_gcd: "unat (gcd_u64 x y) = gcd (unat x) (unat y)"
proof (induction x y rule: gcd_u64.induct)
  case (1 x y)
  then show ?case
    by (cases "y = 0") (simp_all add: gcd_u64.simps [of x 0] gcd_u64.simps [of x y] unat_mod gcd_red_nat [of "unat x" "unat y"])
qed

definition refill_ns :: "TokenBucket \<Rightarrow> nat" where
  "refill_ns self = unat (refill_time self) * 1000000"

definition bucket_ok :: "TokenBucket \<Rightarrow> bool" where
  "bucket_ok self \<longleftrightarrow> tb_size self \<noteq> 0 \<and> budget self \<le> tb_size self \<and> processed_refill_time self \<noteq> 0 \<and>
     refill_time self \<noteq> 0 \<and>
     unat (processed_capacity self) * refill_ns self = unat (tb_size self) * unat (processed_refill_time self)"

lemma TokenBucket_new_ok:
  assumes "TokenBucket_new now sz burst ms = Some b"
  shows "bucket_ok b" "tb_size b = sz" "budget b = sz" "one_time_burst b = burst" "refill_time b = ms" "last_update b = now"
proof -
  have nz: "sz \<noteq> 0" "ms \<noteq> 0" using assms by (auto simp: TokenBucket_new_def split: if_splits)
  obtain ns where ns: "umul ms NANOSEC_IN_ONE_MILLISEC = Some ns"
    using assms nz by (auto simp: TokenBucket_new_def bind_eq_Some_conv)
  let ?g = "gcd_u64 sz ns"
  have u: "unat ns = unat ms * 1000000"
    using checked_mul_Some_unat [OF ns] by (simp add: NANOSEC_IN_ONE_MILLISEC_def)
  have b: "b = \<lparr>tb_size = sz, initial_one_time_burst = burst, refill_time = ms, one_time_burst = burst, budget = sz,
      last_update = now, processed_capacity = sz div ?g, processed_refill_time = ns div ?g\<rparr>"
    using assms nz ns by (simp add: TokenBucket_new_def Let_def)
  have g: "unat ?g = gcd (unat sz) (unat ns)" by (rule unat_gcd)
  have ns0: "0 < unat ns" using nz u by (simp add: unat_gt_0)
  then have g0: "0 < unat ?g" unfolding g by simp
  have "unat sz div unat ?g * unat ns = unat sz * (unat ns div unat ?g)"
    unfolding g by (metis dvd_div_mult gcd_dvd1 gcd_dvd2 div_mult_swap)
  moreover have "0 < unat (ns div ?g)"
    using ns0 g0 g by (simp add: unat_div div_greater_zero_iff gcd_le2_nat)
  then have "ns div ?g \<noteq> 0" by auto
  ultimately show "bucket_ok b" using nz u by (simp add: b bucket_ok_def refill_ns_def unat_div)
  show "tb_size b = sz" "budget b = sz" "one_time_burst b = burst" "refill_time b = ms" "last_update b = now"
    by (simp_all add: b)
qed

lemma fraction_simplified:
  fixes d c n s r :: nat
  assumes "c * n = s * r" "0 < n" "0 < r"
  shows "(d * c) div r = (d * s) div n"
proof -
  have "(d * c) div r = (d * c * n) div (r * n)" using assms(2) by simp
  also have "d * c * n = d * s * r" using assms(1) by (metis mult.assoc)
  also have "(d * s * r) div (r * n) = (d * s) div n" using assms(3) by (simp add: mult.commute)
  finally show ?thesis .
qed

lemma refill_ns_pos: "bucket_ok self \<Longrightarrow> 0 < refill_ns self"
  by (simp add: bucket_ok_def refill_ns_def unat_gt_0)

lemma auto_replenish_exact:
  assumes "bucket_ok self" "auto_replenish now self = Some self'"
  defines "added \<equiv> ((now - last_update self) mod 2 ^ 64 * unat (tb_size self)) div refill_ns self"
  shows "self' = self\<lparr>last_update := now, budget := budget self'\<rparr>"
    "unat (budget self') = min (unat (budget self) + added) (unat (tb_size self))" "bucket_ok self'"
proof -
  let ?d = "of_nat (now - last_update self) :: u64"
  have ok: "processed_refill_time self \<noteq> 0" using assms(1) by (simp add: bucket_ok_def)
  obtain n b where n: "umul ?d (processed_capacity self) = Some n"
      and b: "uadd (budget self) (n div processed_refill_time self) = Some b"
      and s: "self' = self\<lparr>last_update := now, budget := min b (tb_size self)\<rparr>"
    using assms(2) ok by (auto simp: auto_replenish_def bind_eq_Some_conv)
  have d: "unat ?d = (now - last_update self) mod 2 ^ 64" by (simp add: unat_of_nat)
  have "unat n div unat (processed_refill_time self) = added"
    using checked_mul_Some_unat [OF n] assms(1) refill_ns_pos [OF assms(1)]
      fraction_simplified [of "unat (processed_capacity self)" "refill_ns self" "unat (tb_size self)" "unat (processed_refill_time self)" "unat ?d"]
    by (simp add: bucket_ok_def unat_gt_0 added_def d del: of_nat_diff)
  then have "unat b = unat (budget self) + added" using checked_add_Some_unat [OF b] by (simp add: unat_div)
  then show "unat (budget self') = min (unat (budget self) + added) (unat (tb_size self))"
    by (simp add: s min_def word_le_nat_alt)
  show "self' = self\<lparr>last_update := now, budget := budget self'\<rparr>" by (simp add: s)
  show "bucket_ok self'" using assms(1) by (simp add: s bucket_ok_def refill_ns_def)
qed

lemma auto_replenish_returns:
  assumes "bucket_ok self" "(now - last_update self) * unat (processed_capacity self) + unat (tb_size self) < 2 ^ 64"
  shows "auto_replenish now self \<noteq> None"
proof -
  let ?d = "of_nat (now - last_update self) :: u64"
  have d: "unat ?d \<le> now - last_update self" by (simp add: unat_of_nat del: of_nat_diff)
  then have le: "unat ?d * unat (processed_capacity self) \<le> (now - last_update self) * unat (processed_capacity self)" by simp
  then have "unat ?d * unat (processed_capacity self) < 2 ^ 64" using assms(2) by linarith
  then obtain n where n: "umul ?d (processed_capacity self) = Some n" by (auto simp: checked_mul_def)
  have "unat (n div processed_refill_time self) \<le> unat n" by (simp add: unat_div)
  moreover have "unat (budget self) \<le> unat (tb_size self)" using assms(1) by (simp add: bucket_ok_def word_le_nat_alt)
  ultimately have "unat (budget self) + unat (n div processed_refill_time self) < 2 ^ 64"
    using le assms(2) checked_mul_Some_unat [OF n] by linarith
  then have "uadd (budget self) (n div processed_refill_time self) \<noteq> None" by (simp add: checked_add_def)
  then show ?thesis using n assms(1) by (auto simp: auto_replenish_def bucket_ok_def)
qed

section \<open>Runs of a bucket\<close>

text \<open>Requests and manual replenishments, at times that do not decrease. \<open>granted\<close> counts the tokens of the
  requests that succeeded, \<open>added\<close> those that were added by hand. A request larger than the bucket is
  not counted: it is granted as a whole, and the limiter then blocks.\<close>

inductive bucket_run :: "nat \<Rightarrow> TokenBucket \<Rightarrow> nat \<Rightarrow> nat \<Rightarrow> TokenBucket \<Rightarrow> nat \<Rightarrow> bool" for t0 b0 where
  start: "bucket_run t0 b0 0 0 b0 t0"
| reduce: "bucket_run t0 b0 granted added self t \<Longrightarrow> t \<le> now \<Longrightarrow> reduce now tokens self = Some (r, self') \<Longrightarrow>
    bucket_run t0 b0 (if r = Success then granted + unat tokens else granted) added self' now"
| replenish: "bucket_run t0 b0 granted added self t \<Longrightarrow> force_replenish tokens self = Some self' \<Longrightarrow>
    bucket_run t0 b0 granted (added + unat tokens) self' t"

text \<open>The account of a bucket: everything granted or still available was there at the start, was added by
  hand, or was refilled within the time that passed.\<close>

definition balanced :: "nat \<Rightarrow> TokenBucket \<Rightarrow> nat \<Rightarrow> nat \<Rightarrow> TokenBucket \<Rightarrow> bool" where
  "balanced t0 b0 granted added self \<longleftrightarrow> bucket_ok self \<and> tb_size self = tb_size b0 \<and> refill_time self = refill_time b0 \<and>
     t0 \<le> last_update self \<and>
     (\<exists>refilled. granted + unat (budget self) + unat (one_time_burst self) \<le>
         unat (budget b0) + unat (one_time_burst b0) + added + refilled \<and>
       refilled * refill_ns b0 \<le> (last_update self - t0) * unat (tb_size b0))"

lemma refill_ns_eq: "refill_time a = refill_time b \<Longrightarrow> refill_ns a = refill_ns b"
  by (simp add: refill_ns_def)

lemma balanced_mono:
  assumes "balanced t0 b0 granted added self" "bucket_ok self'" "tb_size self' = tb_size self" "refill_time self' = refill_time self"
    "last_update self \<le> last_update self'"
    "granted' + unat (budget self') + unat (one_time_burst self') + k \<le>
       granted + unat (budget self) + unat (one_time_burst self) + (added' - added) + k" "added \<le> added'"
  shows "balanced t0 b0 granted' added' self'"
proof -
  obtain r where r: "granted + unat (budget self) + unat (one_time_burst self) \<le> unat (budget b0) + unat (one_time_burst b0) + added + r"
      "r * refill_ns b0 \<le> (last_update self - t0) * unat (tb_size b0)" using assms(1) by (auto simp: balanced_def)
  have "(last_update self - t0) * unat (tb_size b0) \<le> (last_update self' - t0) * unat (tb_size b0)"
    using assms(5) by (intro mult_right_mono) auto
  then have "r * refill_ns b0 \<le> (last_update self' - t0) * unat (tb_size b0)" using r(2) by linarith
  moreover have "granted' + unat (budget self') + unat (one_time_burst self') \<le> unat (budget b0) + unat (one_time_burst b0) + added' + r"
    using r(1) assms(6,7) by linarith
  ultimately show ?thesis using assms by (auto simp: balanced_def)
qed

lemma balanced_replenish:
  assumes "balanced t0 b0 granted added self" "last_update self \<le> now" "auto_replenish now self = Some self'"
  shows "balanced t0 b0 granted added self'" "one_time_burst self' = one_time_burst self" "tb_size self' = tb_size self" "last_update self' = now"
proof -
  have ok: "bucket_ok self" using assms(1) by (simp add: balanced_def)
  note e = auto_replenish_exact [OF ok assms(3)]
  define a where "a = ((now - last_update self) mod 2 ^ 64 * unat (tb_size self)) div refill_ns self"
  have s: "one_time_burst self' = one_time_burst self" "tb_size self' = tb_size self" "refill_time self' = refill_time self" "last_update self' = now"
    by (subst e(1); simp)+
  then show "one_time_burst self' = one_time_burst self" "tb_size self' = tb_size self" "last_update self' = now" by auto
  obtain r where r: "granted + unat (budget self) + unat (one_time_burst self) \<le> unat (budget b0) + unat (one_time_burst b0) + added + r"
      "r * refill_ns b0 \<le> (last_update self - t0) * unat (tb_size b0)" using assms(1) by (auto simp: balanced_def)
  have b: "tb_size self = tb_size b0" "refill_ns self = refill_ns b0" "t0 \<le> last_update self"
    using assms(1) refill_ns_eq [of self b0] by (simp_all add: balanced_def)
  have "a * refill_ns b0 \<le> (now - last_update self) mod 2 ^ 64 * unat (tb_size b0)" unfolding a_def b by simp
  also have "\<dots> \<le> (now - last_update self) * unat (tb_size b0)" by (intro mult_right_mono) auto
  finally have "(r + a) * refill_ns b0 \<le> (last_update self - t0 + (now - last_update self)) * unat (tb_size b0)"
    using r(2) by (simp add: distrib_right)
  then have "(r + a) * refill_ns b0 \<le> (last_update self' - t0) * unat (tb_size b0)" using assms(2) b(3) s(4) by simp
  moreover have "granted + unat (budget self') + unat (one_time_burst self') \<le> unat (budget b0) + unat (one_time_burst b0) + added + (r + a)"
    using r(1) e(2) s(1) by (simp add: a_def)
  moreover have "tb_size self' = tb_size b0" "refill_time self' = refill_time b0" "t0 \<le> last_update self'"
    using assms(1,2) s b by (simp_all add: balanced_def)
  ultimately show "balanced t0 b0 granted added self'" using e(3) unfolding balanced_def by blast
qed

lemma bucket_ok_burst [simp]: "bucket_ok (self\<lparr>one_time_burst := x\<rparr>) = bucket_ok self" "bucket_ok (self\<lparr>last_update := l\<rparr>) = bucket_ok self"
  by (simp_all add: bucket_ok_def refill_ns_def)

lemma bucket_ok_budget: "bucket_ok self \<Longrightarrow> x \<le> tb_size self \<Longrightarrow> bucket_ok (self\<lparr>budget := x\<rparr>)"
  by (simp add: bucket_ok_def refill_ns_def)

lemma balanced_take:
  assumes "balanced t0 b0 granted added self" "tokens \<le> budget self"
  shows "usub (budget self) tokens = Some (budget self - tokens)"
    "balanced t0 b0 (granted + unat tokens) added (self\<lparr>budget := budget self - tokens\<rparr>)"
proof -
  show "usub (budget self) tokens = Some (budget self - tokens)" using assms(2) by (simp add: checked_sub_def)
  have u: "unat (budget self - tokens) = unat (budget self) - unat tokens" using assms(2) by (simp add: unat_sub)
  have ok: "bucket_ok self" using assms(1) by (simp add: balanced_def)
  have "budget self - tokens \<le> tb_size self"
    using ok assms(2) u unfolding bucket_ok_def word_le_nat_alt by linarith
  then have "bucket_ok (self\<lparr>budget := budget self - tokens\<rparr>)" using ok by (rule bucket_ok_budget [rotated])
  then show "balanced t0 b0 (granted + unat tokens) added (self\<lparr>budget := budget self - tokens\<rparr>)"
    using assms(2) u by (intro balanced_mono [OF assms(1)]) (simp_all add: word_le_nat_alt)
qed

lemma reduce_budget_balanced:
  assumes "balanced t0 b0 granted added self" "last_update self \<le> now" "reduce_budget now tokens self = Some (r, self')"
  shows "balanced t0 b0 (if r = Success then granted + unat tokens else granted) added self' \<and> last_update self' \<le> now"
proof (cases "tokens > budget self")
  case False
  then have le: "tokens \<le> budget self" by simp
  then show ?thesis using balanced_take [OF assms(1) le] assms(2,3) False by (auto simp: reduce_budget_def)
next
  case True
  obtain s where s: "auto_replenish now self = Some s" using assms(3) True by (auto simp: reduce_budget_def bind_eq_Some_conv)
  note m = balanced_replenish [OF assms(1,2) s]
  have ok: "bucket_ok s" using m(1) by (simp add: balanced_def)
  have zero: "balanced t0 b0 granted added (s\<lparr>budget := 0\<rparr>)"
    using bucket_ok_budget [OF ok, of 0] by (intro balanced_mono [OF m(1)]) simp_all
  consider "tokens > tb_size s" | "tokens \<le> tb_size s" "tokens > budget s" | "tokens \<le> budget s"
    by (metis not_le)
  then show ?thesis
  proof cases
    case 1
    then obtain ratio where "r = OverConsumption ratio" "self' = s\<lparr>budget := 0\<rparr>"
      using assms(3) True s by (auto simp: reduce_budget_def bind_eq_Some_conv)
    then show ?thesis using zero m(4) by simp
  next
    case 2
    have "\<not> tokens > tb_size s" using 2(1) by simp
    then have "r = Failure" "self' = s" using assms(3) True s 2(2) by (simp_all add: reduce_budget_def)
    then show ?thesis using m(1,4) by simp
  next
    case 3
    have "budget s \<le> tb_size s" using ok by (simp add: bucket_ok_def)
    then have "\<not> tokens > tb_size s" "\<not> tokens > budget s" using 3 by simp_all
    then show ?thesis using balanced_take [OF m(1) 3] m(4) assms(3) True s 3 by (auto simp: reduce_budget_def)
  qed
qed

lemma reduce_balanced:
  assumes "balanced t0 b0 granted added self" "last_update self \<le> now" "reduce now tokens self = Some (r, self')"
  shows "balanced t0 b0 (if r = Success then granted + unat tokens else granted) added self' \<and> last_update self' \<le> now"
proof (cases "one_time_burst self > 0")
  case False
  then show ?thesis using reduce_budget_balanced [OF assms(1,2)] assms(3) by (simp add: reduce_def)
next
  case burst: True
  have ok: "bucket_ok self" using assms(1) by (simp add: balanced_def)
  show ?thesis
  proof (cases "one_time_burst self \<ge> tokens")
    case True
    then have r: "r = Success" "self' = self\<lparr>one_time_burst := one_time_burst self - tokens, last_update := now\<rparr>"
      using assms(3) burst by (auto simp: reduce_def checked_sub_def)
    have "unat (one_time_burst self - tokens) + unat tokens = unat (one_time_burst self)"
      using True by (simp add: unat_sub word_le_nat_alt)
    then have "balanced t0 b0 (granted + unat tokens) added self'"
      using ok assms(2) by (intro balanced_mono [OF assms(1)]) (simp_all add: r)
    then show ?thesis using r by simp
  next
    case False
    let ?t = "tokens - one_time_burst self" and ?s = "self\<lparr>one_time_burst := 0\<rparr>"
    have sub: "usub tokens (one_time_burst self) = Some ?t" using False by (simp add: checked_sub_def)
    have u: "unat ?t + unat (one_time_burst self) = unat tokens" using False by (simp add: unat_sub word_le_nat_alt)
    have red: "reduce_budget now ?t ?s = Some (r, self')" using assms(3) burst False sub by (simp add: reduce_def)
    have last: "last_update ?s \<le> now" using assms(2) by simp
    show ?thesis
    proof (cases "r = Success")
      case True
      have "balanced t0 b0 (granted + unat (one_time_burst self)) added ?s"
        using ok by (intro balanced_mono [OF assms(1)]) simp_all
      from reduce_budget_balanced [OF this last red] show ?thesis using True u by (simp add: add.assoc add.commute)
    next
      case False
      have "balanced t0 b0 granted added ?s" using ok by (intro balanced_mono [OF assms(1)]) simp_all
      from reduce_budget_balanced [OF this last red] show ?thesis using False by simp
    qed
  qed
qed

lemma force_replenish_balanced:
  assumes "balanced t0 b0 granted added self" "force_replenish tokens self = Some self'"
  shows "balanced t0 b0 granted (added + unat tokens) self' \<and> last_update self' = last_update self"
proof -
  have ok: "bucket_ok self" using assms(1) by (simp add: balanced_def)
  show ?thesis
  proof (cases "one_time_burst self > 0")
    case True
    then obtain b where b: "uadd (one_time_burst self) tokens = Some b" "self' = self\<lparr>one_time_burst := b\<rparr>"
      using assms(2) by (auto simp: force_replenish_def bind_eq_Some_conv)
    then show ?thesis using ok checked_add_Some_unat [OF b(1)]
      by (auto intro!: balanced_mono [OF assms(1)])
  next
    case False
    then obtain b where b: "uadd (budget self) tokens = Some b" "self' = self\<lparr>budget := min b (tb_size self)\<rparr>"
      using assms(2) by (auto simp: force_replenish_def bind_eq_Some_conv)
    have "unat (min b (tb_size self)) \<le> unat b" by (simp add: min_def word_le_nat_alt)
    then show ?thesis using bucket_ok_budget [OF ok, of "min b (tb_size self)"] checked_add_Some_unat [OF b(1)] b(2)
      by (auto intro!: balanced_mono [OF assms(1)])
  qed
qed

lemma bucket_run_balanced:
  assumes "bucket_run t0 b0 granted added self t" "bucket_ok b0" "last_update b0 = t0"
  shows "balanced t0 b0 granted added self \<and> last_update self \<le> t \<and> t0 \<le> t"
  using assms(1)
proof induction
  case start
  then show ?case using assms(2,3) by (auto simp: balanced_def)
next
  case (reduce granted added self t now tokens r self')
  then have "last_update self \<le> now" by simp
  then show ?case using reduce_balanced [OF conjunct1 [OF reduce(4)] _ reduce(3)] reduce(2,4) by simp
next
  case (replenish granted added self t tokens self')
  then show ?case using force_replenish_balanced [OF conjunct1 [OF replenish(3)] replenish(2)] by simp
qed

lemma put_bucket_timer [simp]: "timer_active (put_bucket ty b self) = timer_active self"
  by (cases ty) simp_all

section \<open>An example\<close>

text \<open>A bucket of 1000 tokens with a burst of 50 that refills in a second, and one of a prime size.\<close>

definition demo_bucket :: TokenBucket where
  "demo_bucket = \<lparr>tb_size = 1000, initial_one_time_burst = 50, refill_time = 1000, one_time_burst = 50, budget = 1000,
     last_update = 0, processed_capacity = 1, processed_refill_time = 1000000\<rparr>"

lemma demo_bucket: "TokenBucket_new 0 1000 50 1000 = Some demo_bucket"
  by (simp add: TokenBucket_new_def demo_bucket_def NANOSEC_IN_ONE_MILLISEC_def checked_mul_def Let_def gcd_u64.simps)

definition prime_bucket :: TokenBucket where
  "prime_bucket = \<lparr>tb_size = 1000000007, initial_one_time_burst = 0, refill_time = 1000, one_time_burst = 0, budget = 1000000007,
     last_update = 0, processed_capacity = 1000000007, processed_refill_time = 1000000000\<rparr>"

lemma prime_bucket: "TokenBucket_new 0 1000000007 0 1000 = Some prime_bucket"
  by (simp add: TokenBucket_new_def prime_bucket_def NANOSEC_IN_ONE_MILLISEC_def checked_mul_def Let_def gcd_u64.simps)

lemma demo_bucket_run: "bucket_run 0 demo_bucket 60 0 (demo_bucket\<lparr>one_time_burst := 0, budget := 990\<rparr>) 5"
proof -
  have "reduce 5 60 demo_bucket = Some (Success, demo_bucket\<lparr>one_time_burst := 0, budget := 990\<rparr>)"
    by (simp add: reduce_def reduce_budget_def demo_bucket_def checked_sub_def)
  from bucket_run.reduce [OF bucket_run.start _ this] show ?thesis by simp
qed

section \<open>Properties\<close>






text \<open>a request that the limiter refuses leaves it blocked; and once it is blocked, every request is
  refused without a change, for both kinds of tokens, whether or not that kind is limited, until an
  event of the timer unblocks it.\<close>

theorem limiter_blocks:
  assumes "consume env now tokens ty self = Some (granted, self')"
  shows "(\<not> granted \<longrightarrow> is_blocked self') \<and>
    (is_blocked self' \<longrightarrow> consume env now' tokens' ty' self' = Some (False, self')) \<and>
    (is_blocked self' \<longrightarrow> is_blocked (snd (event_handler env self')) = (fst (timer_read env (timer_fd self')) = 0))"
proof -
  have "\<not> granted \<longrightarrow> is_blocked self'"
    using assms by (auto simp: consume_def is_blocked_def activate_timer_def bind_eq_Some_conv Let_def
        split: if_splits option.splits BucketReduction.splits)
  then show ?thesis by (auto simp: consume_def is_blocked_def event_handler_def split: prod.splits)
qed

definition demo_timer :: "nat TimerEnv" where
  "demo_timer = \<lparr>timer_set = \<lambda>ms t. t + 1, timer_read = \<lambda>t. (1, t)\<rparr>"

definition demo_limiter :: "nat RateLimiter" where
  "demo_limiter = \<lparr>rl_bandwidth = Some (demo_bucket\<lparr>one_time_burst := 0, budget := 0\<rparr>), rl_ops = None, timer_fd = 0, timer_active = False\<rparr>"

theorem limiter_blocks_witness:
  "\<exists>self'. consume demo_timer 0 1 Bytes demo_limiter = Some (False, self') \<and> is_blocked self' \<and>
     consume demo_timer 1 1 Ops self' = Some (False, self')"
proof -
  obtain self' where s: "consume demo_timer 0 1 Bytes demo_limiter = Some (False, self')"
    by (simp add: consume_def demo_limiter_def demo_bucket_def reduce_def reduce_budget_def auto_replenish_def
        checked_mul_def checked_add_def refill_time_ms_def)
  show ?thesis using s limiter_blocks [OF s, of 1 1 Ops] by blast
qed

end
