(* ===== verification/Io_Manager.thy ===== *)
theory Io_Manager
  imports Resources
begin

text \<open>
  The manager of trapped accesses to device registers (\<open>dbs_device/device_manager.rs\<close>): two buses, for
  ports and for memory-mapped registers, that map the base of a range to the device behind it.

  A bus is a \<open>BTreeMap<IoRange, Arc<dyn DeviceIo>>\<close>. Ranges are compared by their base only, so it is a
  list of entries in ascending order of the base; inserting under a key that is already present
  replaces the device and keeps the key that was there. The devices are elements of a type \<open>'d\<close>, and what
  their callbacks do to the state of the devices is an argument.
\<close>

datatype IoError = DeviceOverlap | NoDevice

record IoRange =
  io_base :: u64
  io_size :: u64

definition new_pio_range :: "u16 \<Rightarrow> u16 \<Rightarrow> IoRange" where
  "new_pio_range b n = \<lparr>io_base = ucast b, io_size = ucast n\<rparr>"

definition new_mmio_range :: "u64 \<Rightarrow> u64 \<Rightarrow> IoRange" where
  "new_mmio_range b n = \<lparr>io_base = b, io_size = n\<rparr>"

definition IoRange_eq :: "IoRange \<Rightarrow> IoRange \<Rightarrow> bool" where
  "IoRange_eq self other \<longleftrightarrow> io_base self = io_base other"

definition IoRange_less :: "IoRange \<Rightarrow> IoRange \<Rightarrow> bool" where
  "IoRange_less self other \<longleftrightarrow> io_base self < io_base other"

section \<open>Buses\<close>

type_synonym 'd bus = "(IoRange \<times> 'd) list"

text \<open>\<open>BTreeMap::insert\<close>, with the device that was replaced, \<open>remove\<close>, the last entry of
  \<open>range(..=key)\<close>, and \<open>get\<close>.\<close>

fun bus_insert :: "IoRange \<Rightarrow> 'd \<Rightarrow> 'd bus \<Rightarrow> 'd option \<times> 'd bus" where
  "bus_insert key dev [] = (None, [(key, dev)])"
| "bus_insert key dev ((k, d) # bus) =
     (if IoRange_less key k then (None, (key, dev) # (k, d) # bus)
      else if IoRange_eq key k then (Some d, (k, dev) # bus)
      else case bus_insert key dev bus of (old, bus) \<Rightarrow> (old, (k, d) # bus))"

fun bus_remove :: "IoRange \<Rightarrow> 'd bus \<Rightarrow> 'd bus" where
  "bus_remove key [] = []"
| "bus_remove key ((k, d) # bus) = (if IoRange_eq key k then bus else (k, d) # bus_remove key bus)"

fun bus_floor :: "IoRange \<Rightarrow> 'd bus \<Rightarrow> (IoRange \<times> 'd) option" where
  "bus_floor key [] = None"
| "bus_floor key ((k, d) # bus) =
     (if IoRange_less key k then None
      else case bus_floor key bus of None \<Rightarrow> Some (k, d) | Some e \<Rightarrow> Some e)"

fun bus_get :: "IoRange \<Rightarrow> 'd bus \<Rightarrow> 'd option" where
  "bus_get key [] = None"
| "bus_get key ((k, d) # bus) = (if IoRange_eq key k then Some d else bus_get key bus)"

section \<open>The manager\<close>

record 'd IoManager =
  pio_bus :: "'d bus"
  mmio_bus :: "'d bus"

definition IoManager_new :: "'d IoManager" where
  "IoManager_new = \<lparr>pio_bus = [], mmio_bus = []\<rparr>"

fun unregister_device_io :: "Resource list \<Rightarrow> 'd IoManager \<Rightarrow> 'd IoManager" where
  "unregister_device_io [] self = self"
| "unregister_device_io (res # resources) self =
     (let self =
        (case res of
           PioAddressRange b n \<Rightarrow> self\<lparr>pio_bus := bus_remove (new_pio_range b n) (pio_bus self)\<rparr>
         | MmioAddressRange b n \<Rightarrow> self\<lparr>mmio_bus := bus_remove (new_mmio_range b n) (mmio_bus self)\<rparr>
         | _ \<Rightarrow> self)
      in unregister_device_io resources self)"

text \<open>The loop of \<open>register_device_io\<close>; \<open>done\<close> are the resources before the current one.\<close>

fun register_loop ::
  "'d \<Rightarrow> Resource list \<Rightarrow> Resource list \<Rightarrow> 'd IoManager \<Rightarrow> (IoError + unit) \<times> 'd IoManager" where
  "register_loop dev done [] self = (Inr (), self)"
| "register_loop dev done (res # resources) self =
     (case res of
        PioAddressRange b n \<Rightarrow>
          (case bus_insert (new_pio_range b n) dev (pio_bus self) of (old, bus) \<Rightarrow>
             (let self = self\<lparr>pio_bus := bus\<rparr>
              in if old \<noteq> None then (Inl DeviceOverlap, unregister_device_io done self)
                 else register_loop dev (done @ [res]) resources self))
      | MmioAddressRange b n \<Rightarrow>
          (case bus_insert (new_mmio_range b n) dev (mmio_bus self) of (old, bus) \<Rightarrow>
             (let self = self\<lparr>mmio_bus := bus\<rparr>
              in if old \<noteq> None then (Inl DeviceOverlap, unregister_device_io done self)
                 else register_loop dev (done @ [res]) resources self))
      | _ \<Rightarrow> register_loop dev (done @ [res]) resources self)"

definition register_device_io ::
  "'d \<Rightarrow> Resource list \<Rightarrow> 'd IoManager \<Rightarrow> (IoError + unit) \<times> 'd IoManager" where
  "register_device_io dev resources self = register_loop dev [] resources self"

definition get_mmio_device :: "u64 \<Rightarrow> 'd IoManager \<Rightarrow> ('d \<times> u64) option" where
  "get_mmio_device addr self =
     (case bus_floor (new_mmio_range addr 0) (mmio_bus self) of
        Some (key, dev) \<Rightarrow> if addr - io_base key < io_size key then Some (dev, io_base key) else None
      | None \<Rightarrow> None)"

definition get_pio_device :: "u16 \<Rightarrow> 'd IoManager \<Rightarrow> ('d \<times> u16) option" where
  "get_pio_device addr self =
     (case bus_floor (new_pio_range addr 0) (pio_bus self) of
        Some (key, dev) \<Rightarrow> if ucast addr - io_base key < io_size key then Some (dev, ucast (io_base key)) else None
      | None \<Rightarrow> None)"

text \<open>The callbacks of \<open>DeviceIo\<close>: a read gives the new contents of the buffer, and both may change the
  state of the devices.\<close>

record ('d, 's) DeviceIo =
  dev_read :: "'d \<Rightarrow> u64 \<Rightarrow> u64 \<Rightarrow> u8 list \<Rightarrow> 's \<Rightarrow> u8 list \<times> 's"
  dev_write :: "'d \<Rightarrow> u64 \<Rightarrow> u64 \<Rightarrow> u8 list \<Rightarrow> 's \<Rightarrow> 's"
  dev_pio_read :: "'d \<Rightarrow> u16 \<Rightarrow> u16 \<Rightarrow> u8 list \<Rightarrow> 's \<Rightarrow> u8 list \<times> 's"
  dev_pio_write :: "'d \<Rightarrow> u16 \<Rightarrow> u16 \<Rightarrow> u8 list \<Rightarrow> 's \<Rightarrow> 's"
  get_trapped_io_resources :: "'d \<Rightarrow> DeviceResources"

text \<open>The subtractions \<open>addr - base\<close> are those of the code; an entry found has a base of at most \<open>addr\<close>.\<close>

definition mmio_read ::
  "('d, 's) DeviceIo \<Rightarrow> u64 \<Rightarrow> u8 list \<Rightarrow> 'd IoManager \<Rightarrow> 's \<Rightarrow> (IoError + u8 list \<times> 's) rust" where
  "mmio_read io addr data self s =
     (case get_mmio_device addr self of
        None \<Rightarrow> ret (Inl NoDevice)
      | Some (dev, base) \<Rightarrow> do { off \<leftarrow> usub addr base; ret (Inr (dev_read io dev base off data s)) })"

definition mmio_write ::
  "('d, 's) DeviceIo \<Rightarrow> u64 \<Rightarrow> u8 list \<Rightarrow> 'd IoManager \<Rightarrow> 's \<Rightarrow> (IoError + 's) rust" where
  "mmio_write io addr data self s =
     (case get_mmio_device addr self of
        None \<Rightarrow> ret (Inl NoDevice)
      | Some (dev, base) \<Rightarrow> do { off \<leftarrow> usub addr base; ret (Inr (dev_write io dev base off data s)) })"

definition pio_read ::
  "('d, 's) DeviceIo \<Rightarrow> u16 \<Rightarrow> u8 list \<Rightarrow> 'd IoManager \<Rightarrow> 's \<Rightarrow> (IoError + u8 list \<times> 's) rust" where
  "pio_read io addr data self s =
     (case get_pio_device addr self of
        None \<Rightarrow> ret (Inl NoDevice)
      | Some (dev, base) \<Rightarrow> do { off \<leftarrow> usub addr base; ret (Inr (dev_pio_read io dev base off data s)) })"

definition pio_write ::
  "('d, 's) DeviceIo \<Rightarrow> u16 \<Rightarrow> u8 list \<Rightarrow> 'd IoManager \<Rightarrow> 's \<Rightarrow> (IoError + 's) rust" where
  "pio_write io addr data self s =
     (case get_pio_device addr self of
        None \<Rightarrow> ret (Inl NoDevice)
      | Some (dev, base) \<Rightarrow> do { off \<leftarrow> usub addr base; ret (Inr (dev_pio_write io dev base off data s)) })"

fun same_devices :: "('d, 's) DeviceIo \<Rightarrow> 'd bus \<Rightarrow> 'd bus \<Rightarrow> bool" where
  "same_devices io [] other = True"
| "same_devices io ((key, dev) # bus) other =
     (case bus_get key other of
        None \<Rightarrow> False
      | Some dev' \<Rightarrow> get_trapped_io_resources io dev = get_trapped_io_resources io dev' \<and> same_devices io bus other)"

definition IoManager_eq :: "('d, 's) DeviceIo \<Rightarrow> 'd IoManager \<Rightarrow> 'd IoManager \<Rightarrow> bool" where
  "IoManager_eq io self other \<longleftrightarrow>
     length (pio_bus self) = length (pio_bus other) \<and> length (mmio_bus self) = length (mmio_bus other) \<and>
     same_devices io (pio_bus self) (pio_bus other) \<and> same_devices io (mmio_bus self) (mmio_bus other)"

end
