(* ===== verification/Io_Manager_Lemmas.thy ===== *)
theory Io_Manager_Lemmas
  imports Io_Manager
begin

text \<open>
  What a bus promises, as the locale \<open>range_index\<close>: an index of ranges by their base, with the entry
  at or below an address. Its consequence is that an address is looked up correctly if the
  registered ranges do not overlap. The buses of the manager are an instance. Then the effect of
  registering and unregistering a device on the entries of both buses.
\<close>

section \<open>The interface\<close>

text \<open>No range of the index reaches the base of another one.\<close>

definition separate :: "(u64 \<rightharpoonup> u64 \<times> 'd) \<Rightarrow> bool" where
  "separate m \<longleftrightarrow> (\<forall>b n d b'. m b = Some (n, d) \<longrightarrow> b' \<in> dom m \<longrightarrow> b < b' \<longrightarrow> unat n \<le> unat b' - unat b)"

locale range_index =
  fixes ok :: "'bus \<Rightarrow> bool"
    and entries :: "'bus \<Rightarrow> u64 \<rightharpoonup> u64 \<times> 'd"
    and ins :: "IoRange \<Rightarrow> 'd \<Rightarrow> 'bus \<Rightarrow> 'd option \<times> 'bus"
    and rem :: "IoRange \<Rightarrow> 'bus \<Rightarrow> 'bus"
    and flo :: "IoRange \<Rightarrow> 'bus \<Rightarrow> (IoRange \<times> 'd) option"
  assumes ins_ok: "ok bus \<Longrightarrow> ok (snd (ins key dev bus))"
    and ins_old: "ok bus \<Longrightarrow> fst (ins key dev bus) = map_option snd (entries bus (io_base key))"
    and ins_entries: "ok bus \<Longrightarrow> entries (snd (ins key dev bus)) =
      (entries bus)(io_base key \<mapsto> (case entries bus (io_base key) of None \<Rightarrow> io_size key | Some (n, _) \<Rightarrow> n, dev))"
    and rem_ok: "ok bus \<Longrightarrow> ok (rem key bus)"
    and rem_entries: "ok bus \<Longrightarrow> entries (rem key bus) = (entries bus)(io_base key := None)"
    and flo_Some: "ok bus \<Longrightarrow> flo key bus = Some (k, d) \<Longrightarrow> entries bus (io_base k) = Some (io_size k, d) \<and>
      io_base k \<le> io_base key \<and> (\<forall>b \<in> dom (entries bus). b \<le> io_base key \<longrightarrow> b \<le> io_base k)"
    and flo_None: "ok bus \<Longrightarrow> flo key bus = None \<Longrightarrow> b \<in> dom (entries bus) \<Longrightarrow> io_base key < b"
begin

lemma floor_owner:
  assumes "ok bus" "separate (entries bus)"
  shows "(\<exists>k. flo key bus = Some (k, d) \<and> io_base key - io_base k < io_size k \<and> io_base k = b) \<longleftrightarrow>
    (\<exists>n. entries bus b = Some (n, d) \<and> b \<le> io_base key \<and> io_base key - b < n)"
proof
  assume "\<exists>k. flo key bus = Some (k, d) \<and> io_base key - io_base k < io_size k \<and> io_base k = b"
  then show "\<exists>n. entries bus b = Some (n, d) \<and> b \<le> io_base key \<and> io_base key - b < n"
    using flo_Some [OF assms(1)] by blast
next
  assume "\<exists>n. entries bus b = Some (n, d) \<and> b \<le> io_base key \<and> io_base key - b < n"
  then obtain n where n: "entries bus b = Some (n, d)" "b \<le> io_base key" "io_base key - b < n" by blast
  then have b: "b \<in> dom (entries bus)" by blast
  then obtain k d' where k: "flo key bus = Some (k, d')"
    using flo_None [OF assms(1), of key b] n(2) by (cases "flo key bus") auto
  note f = flo_Some [OF assms(1) k]
  have "\<not> b < io_base k"
  proof
    assume lt: "b < io_base k"
    have "io_base k \<in> dom (entries bus)" using f by blast
    then have "unat n \<le> unat (io_base k) - unat b" using assms(2) n(1) lt unfolding separate_def by blast
    moreover have "unat (io_base key - b) < unat n" using n(3) by (simp add: word_less_nat_alt)
    moreover have "unat (io_base key - b) = unat (io_base key) - unat b" using n(2) by (rule unat_sub)
    moreover have "unat (io_base k) \<le> unat (io_base key)" using f by (simp add: word_le_nat_alt)
    ultimately show False by linarith
  qed
  then have "io_base k = b" using f b n(2) by (meson antisym_conv2 leD le_less_linear)
  then show "\<exists>k. flo key bus = Some (k, d) \<and> io_base key - io_base k < io_size k \<and> io_base k = b"
    using f k n by auto
qed

end

section \<open>The buses\<close>

definition bus_ok :: "'d bus \<Rightarrow> bool" where
  "bus_ok bus \<longleftrightarrow> sorted_wrt (<) (map (io_base \<circ> fst) bus)"

definition bus_entries :: "'d bus \<Rightarrow> u64 \<rightharpoonup> u64 \<times> 'd" where
  "bus_entries bus = map_of (map (\<lambda>(k, d). (io_base k, io_size k, d)) bus)"

lemma bus_entries_simps [simp]:
  "bus_entries [] = Map.empty"
  "bus_entries ((k, d) # bus) = (bus_entries bus)(io_base k \<mapsto> (io_size k, d))"
  by (simp_all add: bus_entries_def)

lemma bus_ok_simps [simp]:
  "bus_ok []"
  "bus_ok ((k, d) # bus) \<longleftrightarrow> bus_ok bus \<and> (\<forall>b \<in> dom (bus_entries bus). io_base k < b)"
  by (auto simp: bus_ok_def bus_entries_def dom_map_of_conv_image_fst image_image case_prod_beta)

lemma bus_below: "\<forall>b \<in> dom (bus_entries bus). k < b \<Longrightarrow> x \<le> k \<Longrightarrow> bus_entries bus x = None"
  by (meson domIff leD)

lemmas io_order = IoRange_eq_def IoRange_less_def

lemma bus_insert_entries:
  "bus_ok bus \<Longrightarrow> bus_ok (snd (bus_insert key dev bus)) \<and>
    fst (bus_insert key dev bus) = map_option snd (bus_entries bus (io_base key)) \<and>
    bus_entries (snd (bus_insert key dev bus)) = (bus_entries bus)(io_base key \<mapsto>
      (case bus_entries bus (io_base key) of None \<Rightarrow> io_size key | Some (n, _) \<Rightarrow> n, dev))"
proof (induction key dev bus rule: bus_insert.induct)
  case (2 key dev k d bus)
  consider "io_base key < io_base k" | "io_base key = io_base k" | "io_base k < io_base key" by fastforce
  then show ?case
  proof cases
    case 1
    then have "bus_entries bus (io_base key) = None" using bus_below [of bus "io_base k" "io_base key"] 2(2) by simp
    then show ?thesis using 1 2(2) by (auto simp: io_order intro: less_trans)
  next
    case 2
    then show ?thesis using \<open>bus_ok ((k, d) # bus)\<close> by (auto simp: io_order)
  next
    case 3
    then show ?thesis using 2 by (auto simp: io_order fun_upd_twist case_prod_beta domI split: if_splits)
  qed
qed simp

lemma bus_remove_entries:
  "bus_ok bus \<Longrightarrow> bus_ok (bus_remove key bus) \<and> bus_entries (bus_remove key bus) = (bus_entries bus)(io_base key := None)"
proof (induction key bus rule: bus_remove.induct)
  case (2 key k d bus)
  show ?case
  proof (cases "io_base key = io_base k")
    case True
    then have "bus_entries bus (io_base k) = None" using bus_below [of bus "io_base k"] 2(2) by simp
    then show ?thesis using True 2(2) by (auto simp: io_order)
  next
    case False
    then show ?thesis using 2 by (auto simp: io_order fun_upd_twist domI split: if_splits)
  qed
qed simp

lemma bus_floor_entries:
  "bus_ok bus \<Longrightarrow> case bus_floor key bus of
     None \<Rightarrow> \<forall>b \<in> dom (bus_entries bus). io_base key < b
   | Some (k, d) \<Rightarrow> bus_entries bus (io_base k) = Some (io_size k, d) \<and> io_base k \<le> io_base key \<and>
       (\<forall>b \<in> dom (bus_entries bus). b \<le> io_base key \<longrightarrow> b \<le> io_base k)"
proof (induction key bus rule: bus_floor.induct)
  case (2 key k d bus)
  then have ih: "\<not> IoRange_less key k \<Longrightarrow> case bus_floor key bus of
     None \<Rightarrow> \<forall>b \<in> dom (bus_entries bus). io_base key < b
   | Some (k, d) \<Rightarrow> bus_entries bus (io_base k) = Some (io_size k, d) \<and> io_base k \<le> io_base key \<and>
       (\<forall>b \<in> dom (bus_entries bus). b \<le> io_base key \<longrightarrow> b \<le> io_base k)" by simp
  have above: "\<forall>b \<in> dom (bus_entries bus). io_base k < b" using 2(2) by simp
  show ?case
  proof (cases "io_base key < io_base k")
    case True
    then show ?thesis using above by (auto simp: io_order intro: less_trans)
  next
    case False
    note ih = ih [unfolded io_order, OF False]
    show ?thesis
    proof (cases "bus_floor key bus")
      case None
      then show ?thesis using False ih by (auto simp: io_order not_less domI dest!: leD)
    next
      case (Some e)
      obtain k' d' where e: "e = (k', d')" by (cases e)
      then have "io_base k' \<in> dom (bus_entries bus)" using ih Some by auto
      then have "io_base k < io_base k'" using above by blast
      then show ?thesis using False ih Some e by (auto simp: io_order)
    qed
  qed
qed simp

interpretation io_bus: range_index bus_ok bus_entries bus_insert bus_remove bus_floor
proof unfold_locales
  show "bus_ok bus \<Longrightarrow> bus_floor key bus = Some (k, d) \<Longrightarrow> bus_entries bus (io_base k) = Some (io_size k, d) \<and>
      io_base k \<le> io_base key \<and> (\<forall>b \<in> dom (bus_entries bus). b \<le> io_base key \<longrightarrow> b \<le> io_base k)"
    for bus :: "'d bus" and key k d
    using bus_floor_entries [of bus key] by simp
  show "bus_ok bus \<Longrightarrow> bus_floor key bus = None \<Longrightarrow> b \<in> dom (bus_entries bus) \<Longrightarrow> io_base key < b"
    for bus :: "'d bus" and key b
    using bus_floor_entries [of bus key] by simp
qed (simp_all add: bus_insert_entries bus_remove_entries)

section \<open>Registration\<close>

datatype bus_kind = Ports | Registers

primrec bus_of :: "bus_kind \<Rightarrow> 'd IoManager \<Rightarrow> 'd bus" where
  "bus_of Ports self = pio_bus self"
| "bus_of Registers self = mmio_bus self"

primrec set_bus :: "bus_kind \<Rightarrow> 'd bus \<Rightarrow> 'd IoManager \<Rightarrow> 'd IoManager" where
  "set_bus Ports bus self = self\<lparr>pio_bus := bus\<rparr>"
| "set_bus Registers bus self = self\<lparr>mmio_bus := bus\<rparr>"

fun trapped_at :: "Resource \<Rightarrow> (bus_kind \<times> IoRange) option" where
  "trapped_at (PioAddressRange b n) = Some (Ports, new_pio_range b n)"
| "trapped_at (MmioAddressRange b n) = Some (Registers, new_mmio_range b n)"
| "trapped_at _ = None"

text \<open>Where the resources of a device are on the buses, and what is registered.\<close>

definition places :: "Resource list \<Rightarrow> (bus_kind \<times> u64) list" where
  "places rs = map (\<lambda>(k, r). (k, io_base r)) (List.map_filter trapped_at rs)"

definition placed :: "'d \<Rightarrow> Resource list \<Rightarrow> bus_kind \<times> u64 \<rightharpoonup> u64 \<times> 'd" where
  "placed dev rs = map_of (map (\<lambda>(k, r). ((k, io_base r), (io_size r, dev))) (List.map_filter trapped_at rs))"

definition io_entries :: "'d IoManager \<Rightarrow> bus_kind \<times> u64 \<rightharpoonup> u64 \<times> 'd" where
  "io_entries self = (\<lambda>(k, b). bus_entries (bus_of k self) b)"

definition io_ok :: "'d IoManager \<Rightarrow> bool" where
  "io_ok self \<longleftrightarrow> (\<forall>k. bus_ok (bus_of k self))"

lemma bus_of_set_bus [simp]: "bus_of k' (set_bus k bus self) = (if k' = k then bus else bus_of k' self)"
  by (cases k; cases k') auto

declare List.map_filter_simps [simp]

lemma places_simps [simp]:
  "places [] = []"
  "places (r # rs) = (case trapped_at r of None \<Rightarrow> places rs | Some (k, x) \<Rightarrow> (k, io_base x) # places rs)"
  "placed dev [] = Map.empty"
  "placed dev (r # rs) = (case trapped_at r of None \<Rightarrow> placed dev rs
     | Some (k, x) \<Rightarrow> (placed dev rs)((k, io_base x) \<mapsto> (io_size x, dev)))"
  by (simp_all add: places_def placed_def split: option.split)

lemma dom_placed: "dom (placed dev rs) = set (places rs)"
  by (induction rs) (auto split: option.split)

lemma io_ok_set_bus: "io_ok self \<Longrightarrow> bus_ok bus \<Longrightarrow> io_ok (set_bus k bus self)"
  by (simp add: io_ok_def)

lemma io_entries_set_bus:
  "bus_entries bus = (bus_entries (bus_of k self))(b := e) \<Longrightarrow> io_entries (set_bus k bus self) = (io_entries self)((k, b) := e)"
  by (auto simp: io_entries_def fun_eq_iff)

lemma unregister_Cons:
  "unregister_device_io (res # rs) self = unregister_device_io rs
     (case trapped_at res of None \<Rightarrow> self | Some (k, r) \<Rightarrow> set_bus k (bus_remove r (bus_of k self)) self)"
  by (cases res) auto

lemma register_Cons:
  "register_loop dev dn (res # rs) self =
     (case trapped_at res of
        None \<Rightarrow> register_loop dev (dn @ [res]) rs self
      | Some (k, r) \<Rightarrow>
          (case bus_insert r dev (bus_of k self) of (old, bus) \<Rightarrow>
             if old \<noteq> None then (Inl DeviceOverlap, unregister_device_io dn (set_bus k bus self))
             else register_loop dev (dn @ [res]) rs (set_bus k bus self)))"
  by (cases res) (auto simp: Let_def split: prod.splits)

declare unregister_device_io.simps(2) [simp del] register_loop.simps(2) [simp del]

lemma unregister_entries:
  "io_ok self \<Longrightarrow> io_ok (unregister_device_io rs self) \<and>
    io_entries (unregister_device_io rs self) = io_entries self |` (- set (places rs))"
proof (induction rs arbitrary: self)
  case (Cons res rs)
  show ?case
  proof (cases "trapped_at res")
    case None
    then show ?thesis using Cons by (simp add: unregister_Cons)
  next
    case (Some e)
    obtain k r where e: "e = (k, r)" by (cases e)
    let ?self = "set_bus k (bus_remove r (bus_of k self)) self"
    have b: "bus_ok (bus_of k self)" using Cons.prems by (simp add: io_ok_def)
    have "io_ok ?self" "io_entries ?self = (io_entries self)((k, io_base r) := None)"
      using io_ok_set_bus [OF Cons.prems] io_entries_set_bus io_bus.rem_ok [OF b] io_bus.rem_entries [OF b] by blast+
    then show ?thesis using Cons.IH [of ?self] Some e
      by (auto simp: unregister_Cons restrict_map_def fun_eq_iff)
  qed
qed (simp add: restrict_map_def)

lemma insert_fresh:
  assumes "io_ok self" "(k, io_base r) \<notin> dom (io_entries self)"
  shows "\<exists>bus. bus_insert r dev (bus_of k self) = (None, bus) \<and> io_ok (set_bus k bus self) \<and>
    io_entries (set_bus k bus self) = (io_entries self)((k, io_base r) \<mapsto> (io_size r, dev))"
proof -
  have b: "bus_ok (bus_of k self)" using assms(1) by (simp add: io_ok_def)
  have n: "bus_entries (bus_of k self) (io_base r) = None" using assms(2) by (auto simp: io_entries_def)
  obtain old bus where i: "bus_insert r dev (bus_of k self) = (old, bus)" by fastforce
  have "old = None" using io_bus.ins_old [OF b, of r dev] i n by simp
  moreover have "bus_ok bus" using io_bus.ins_ok [OF b, of r dev] i by simp
  moreover have "bus_entries bus = (bus_entries (bus_of k self))(io_base r \<mapsto> (io_size r, dev))"
    using io_bus.ins_entries [OF b, of r dev] i n by simp
  ultimately show ?thesis using i io_ok_set_bus [OF assms(1)] io_entries_set_bus by blast
qed

lemma register_fresh:
  assumes "io_ok self" "distinct (places rs)" "set (places rs) \<inter> dom (io_entries self) = {}"
  shows "\<exists>self'. register_loop dev dn rs self = (Inr (), self') \<and> io_ok self' \<and>
    io_entries self' = io_entries self ++ placed dev rs"
  using assms
proof (induction rs arbitrary: self dn)
  case (Cons res rs)
  show ?case
  proof (cases "trapped_at res")
    case None
    then show ?thesis using Cons by (simp add: register_Cons)
  next
    case (Some e)
    obtain k r where e: "e = (k, r)" by (cases e)
    have fresh: "(k, io_base r) \<notin> dom (io_entries self)" "(k, io_base r) \<notin> dom (placed dev rs)"
      using Cons.prems Some e by (auto simp: dom_placed)
    obtain bus where bus: "bus_insert r dev (bus_of k self) = (None, bus)" "io_ok (set_bus k bus self)"
        "io_entries (set_bus k bus self) = (io_entries self)((k, io_base r) \<mapsto> (io_size r, dev))"
      using insert_fresh [OF Cons.prems(1) fresh(1)] by blast
    have dist: "distinct (places rs)" using Cons.prems(2) Some e by simp
    have "set (places rs) \<inter> dom ((io_entries self)((k, io_base r) \<mapsto> (io_size r, dev))) = {}"
      using Cons.prems Some e bus(3) by auto
    then obtain self' where "register_loop dev (dn @ [res]) rs (set_bus k bus self) = (Inr (), self')" "io_ok self'"
        "io_entries self' = (io_entries self)((k, io_base r) \<mapsto> (io_size r, dev)) ++ placed dev rs"
      using Cons.IH [OF bus(2) dist, of "dn @ [res]"] unfolding bus(3) by blast
    moreover have "(io_entries self)((k, io_base r) \<mapsto> (io_size r, dev)) ++ placed dev rs = io_entries self ++ placed dev (res # rs)"
      using Some e map_add_upd_left [OF fresh(2), of "io_entries self"] by simp
    moreover have "register_loop dev dn (res # rs) self = register_loop dev (dn @ [res]) rs (set_bus k bus self)"
      using bus(1) Some e by (simp add: register_Cons)
    ultimately show ?thesis by metis
  qed
qed (simp)

lemma register_append:
  "register_loop dev dn (xs @ ys) self =
     (case register_loop dev dn xs self of
        (Inl e, self') \<Rightarrow> (Inl e, self')
      | (Inr _, self') \<Rightarrow> register_loop dev (dn @ xs) ys self')"
proof (induction xs arbitrary: dn self)
  case (Cons x xs)
  then show ?case
    by (cases "trapped_at x") (simp_all add: register_Cons case_prod_beta cong: sum.case_cong)
qed simp

lemma rollback_map:
  assumes "dom p = S" "S \<inter> dom m = {}" "x \<notin> S"
  shows "(m ++ p)(x \<mapsto> v) |` (- S) = m(x \<mapsto> v)"
proof (rule ext)
  fix y
  show "((m ++ p)(x \<mapsto> v) |` (- S)) y = (m(x \<mapsto> v)) y"
  proof (cases "y \<in> S")
    case True
    then have "m y = None" using assms(2) by blast
    then show ?thesis using True assms(3) by (auto simp: restrict_map_def)
  next
    case False
    then have "p y = None" using assms(1) by blast
    then show ?thesis using False assms(3) by (auto simp: map_add_def restrict_map_def)
  qed
qed

lemma register_overlap:
  assumes "io_ok self" "distinct (places pre)" "set (places pre) \<inter> dom (io_entries self) = {}"
    "trapped_at res = Some (k, r)" "io_entries self (k, io_base r) = Some (n, d)"
  shows "\<exists>self'. register_device_io dev (pre @ res # post) self = (Inl DeviceOverlap, self') \<and> io_ok self' \<and>
    io_entries self' = (io_entries self)((k, io_base r) \<mapsto> (n, dev))"
proof -
  obtain self1 where s1: "register_loop dev [] pre self = (Inr (), self1)" "io_ok self1"
      "io_entries self1 = io_entries self ++ placed dev pre"
    using register_fresh [OF assms(1-3)] by blast
  have new: "(k, io_base r) \<notin> set (places pre)" using assms(3,5) by blast
  then have e1: "bus_entries (bus_of k self1) (io_base r) = Some (n, d)"
    using s1(3) assms(5) dom_placed [of dev pre] by (auto simp: io_entries_def map_add_dom_app_simps fun_eq_iff)
  have b: "bus_ok (bus_of k self1)" using s1(2) by (simp add: io_ok_def)
  obtain old bus where i: "bus_insert r dev (bus_of k self1) = (old, bus)" by fastforce
  have old: "old = Some d" using io_bus.ins_old [OF b, of r dev] i e1 by simp
  have "bus_entries bus = (bus_entries (bus_of k self1))(io_base r \<mapsto> (n, dev))" "bus_ok bus"
    using io_bus.ins_entries [OF b, of r dev] io_bus.ins_ok [OF b, of r dev] i e1 by simp_all
  then have s2: "io_ok (set_bus k bus self1)"
      "io_entries (set_bus k bus self1) = (io_entries self1)((k, io_base r) \<mapsto> (n, dev))"
    using io_ok_set_bus [OF s1(2)] io_entries_set_bus by blast+
  have "register_device_io dev (pre @ res # post) self = (Inl DeviceOverlap, unregister_device_io pre (set_bus k bus self1))"
    using s1(1) i old assms(4) by (simp add: register_device_io_def register_append register_Cons)
  moreover have "(io_entries self1)((k, io_base r) \<mapsto> (n, dev)) |` (- set (places pre)) =
      (io_entries self)((k, io_base r) \<mapsto> (n, dev))"
    unfolding s1(3) by (rule rollback_map [OF dom_placed assms(3) new])
  ultimately show ?thesis using unregister_entries [OF s2(1), of pre] s2(2) by simp
qed

end
