(* ===== verification/Io_Manager_Props.thy ===== *)
theory Io_Manager_Props
  imports ResourceManager_Props Io_Manager_Lemmas
begin

text \<open>
  The properties of the manager of trapped accesses, together with the resource manager that hands
  out the ranges: a device gets the accesses to the ranges it was granted and no others. And what a
  failed registration does to the device that was there before.
\<close>

section \<open>Devices of a machine\<close>

text \<open>A machine with its devices: a device is attached with resources that the resource manager
  granted for it, and detached before they are given back.\<close>

inductive vm_run :: "u64 \<Rightarrow> ResourceManager \<Rightarrow> ResourceManager \<Rightarrow> 'd IoManager \<Rightarrow> ('d \<times> DeviceResources) list \<Rightarrow> bool"
  for pe rm0 where
  boot: "vm_run pe rm0 rm0 IoManager_new []"
| attach: "vm_run pe rm0 rm io devs \<Longrightarrow> \<forall>req \<in> set reqs. single_slot req \<Longrightarrow>
    allocate_device_resources pe rm reqs shared_irq = Some (Inr rs, rm') \<Longrightarrow>
    register_device_io dev rs io = (result, io') \<Longrightarrow>
    vm_run pe rm0 rm' io' ((dev, rs) # devs)"
| no_resource: "vm_run pe rm0 rm io devs \<Longrightarrow> \<forall>req \<in> set reqs. single_slot req \<Longrightarrow>
    allocate_device_resources pe rm reqs shared_irq = Some (Inl NoAvailResource, rm') \<Longrightarrow>
    vm_run pe rm0 rm' io devs"
| detach: "vm_run pe rm0 rm io (xs @ (dev, rs) # ys) \<Longrightarrow>
    free_device_resources pe rm rs = Some (Inr (), rm') \<Longrightarrow>
    vm_run pe rm0 rm' (unregister_device_io rs io) (xs @ ys)"

text \<open>The device that owns an address, and the base of its range.\<close>

definition mmio_owner :: "('d \<times> DeviceResources) list \<Rightarrow> u64 \<Rightarrow> 'd \<Rightarrow> u64 \<Rightarrow> bool" where
  "mmio_owner devs addr dev b \<longleftrightarrow>
     (\<exists>rs n. (dev, rs) \<in> set devs \<and> MmioAddressRange b n \<in> set rs \<and> b \<le> addr \<and> addr - b < n)"

definition pio_owner :: "('d \<times> DeviceResources) list \<Rightarrow> u16 \<Rightarrow> 'd \<Rightarrow> u16 \<Rightarrow> bool" where
  "pio_owner devs addr dev b \<longleftrightarrow>
     (\<exists>rs n. (dev, rs) \<in> set devs \<and> PioAddressRange b n \<in> set rs \<and> b \<le> addr \<and> addr - b < n)"

section \<open>Ranges of devices on the buses\<close>

definition exclusive :: "(pool_id \<times> Range) list \<Rightarrow> bool" where
  "exclusive ks \<longleftrightarrow> distinct ks \<and> (\<forall>(i, r) \<in> set ks. valid_range r) \<and>
     (\<forall>(i, r) \<in> set ks. \<forall>(j, r') \<in> set ks. i = j \<longrightarrow> r \<noteq> r' \<longrightarrow> addrs r \<inter> addrs r' = {})"

lemma run_exclusive:
  assumes "manager_run pe rm0 rm owned" "rm_ok rm0"
  shows "exclusive (owned_keys owned)"
proof -
  have ok: "rm_ok rm" and h: "holds rm0 (owned_keys owned) rm" using manager_run_holds [OF assms] by auto
  note hD = holdsD [OF h]
  have "valid_range r" if "(i, r) \<in> set (owned_keys owned)" for i r
    using held_valid [OF ok] hD(2) [OF that] by blast
  moreover have "addrs r \<inter> addrs r' = {}"
    if "(i, r) \<in> set (owned_keys owned)" "(i, r') \<in> set (owned_keys owned)" "r \<noteq> r'" for i r r'
    using tree_pool.given_disjoint [OF pool_inv_atD [OF rm_ok_pool [OF ok]]] hD(2) that by blast
  ultimately show ?thesis using hD(1) unfolding exclusive_def by blast
qed

primrec pool_of :: "bus_kind \<Rightarrow> pool_id" where
  "pool_of Ports = PioPool"
| "pool_of Registers = MmioPool"

definition io_key :: "bus_kind \<times> IoRange \<Rightarrow> pool_id \<times> Range" where
  "io_key = (\<lambda>(k, r). (pool_of k, \<lparr>rmin = io_base r, rmax = io_base r + io_size r - 1\<rparr>))"

lemma trapped_key: "trapped_at res = Some e \<Longrightarrow> res_key res = Some (io_key e)"
  by (cases res) (auto simp: io_key_def new_pio_range_def new_mmio_range_def)

lemma trapped_key_None: "trapped_at res = None \<Longrightarrow> res_key res = Some (i, r) \<Longrightarrow> i \<noteq> PioPool \<and> i \<noteq> MmioPool"
  by (cases res) (auto split: if_splits)

lemma trapped_keys:
  "map io_key (List.map_filter trapped_at rs) = filter (\<lambda>(i, r). i = PioPool \<or> i = MmioPool) (res_keys rs)"
proof (induction rs)
  case (Cons res rs)
  show ?case
  proof (cases "trapped_at res")
    case None
    then show ?thesis using Cons trapped_key_None by (cases "res_key res") auto
  next
    case (Some e)
    then show ?thesis using Cons trapped_key [OF Some] by (cases e; cases "fst e") (auto simp: io_key_def)
  qed
qed simp

lemma pool_of_inj [simp]: "pool_of k = pool_of k' \<longleftrightarrow> k = k'"
  by (cases k; cases k') auto

text \<open>Two trapped ranges of the same kind do not reach each other.\<close>

lemma exclusive_separate:
  assumes "exclusive (res_keys rs)" "(k, r) \<in> set (List.map_filter trapped_at rs)"
    "(k, r') \<in> set (List.map_filter trapped_at rs)"
  shows "io_base r < io_base r' \<Longrightarrow> unat (io_size r) \<le> unat (io_base r') - unat (io_base r)"
    "io_base r = io_base r' \<Longrightarrow> r = r'"
proof -
  let ?a = "snd (io_key (k, r))" and ?b = "snd (io_key (k, r'))"
  have in_keys: "io_key e \<in> set (res_keys rs)" if "e \<in> set (List.map_filter trapped_at rs)" for e
  proof -
    have "io_key e \<in> set (map io_key (List.map_filter trapped_at rs))" using that by simp
    then show ?thesis unfolding trapped_keys by simp
  qed
  have pairs: "(pool_of k, ?a) \<in> set (res_keys rs)" "(pool_of k, ?b) \<in> set (res_keys rs)"
    using in_keys [OF assms(2)] in_keys [OF assms(3)] by (simp_all add: io_key_def)
  then have valid: "valid_range ?a" "valid_range ?b" and disj: "?a \<noteq> ?b \<Longrightarrow> addrs ?a \<inter> addrs ?b = {}"
    using assms(1) unfolding exclusive_def by blast+
  have n: "io_size r \<noteq> 0" using valid_end valid(1) by (simp add: io_key_def)
  have le: "io_base r \<le> io_base r + io_size r - 1" "io_base r' \<le> io_base r' + io_size r' - 1"
    using valid by (simp_all add: io_key_def valid_range_def)
  show "r = r'" if "io_base r = io_base r'"
  proof -
    have "io_base r \<in> addrs ?a \<inter> addrs ?b" using le that by (simp add: io_key_def addrs_def)
    then have "?a = ?b" using disj by blast
    then show ?thesis using that by (simp add: io_key_def)
  qed
  show "unat (io_size r) \<le> unat (io_base r') - unat (io_base r)" if lt: "io_base r < io_base r'"
  proof -
    have "?a \<noteq> ?b" using lt by (auto simp: io_key_def)
    moreover have "io_base r' \<in> addrs ?b" using le by (simp add: io_key_def addrs_def)
    ultimately have "io_base r' \<notin> addrs ?a" using disj by blast
    then have "io_base r + (io_size r - 1) < io_base r'" using lt by (simp add: io_key_def addrs_def algebra_simps not_le less_imp_le)
    moreover have "unat (io_base r + (io_size r - 1)) = unat (io_base r) + unat (io_size r - 1)"
      using le(1) by (intro unat_plus_simple [THEN iffD1]) (simp add: algebra_simps)
    moreover have "unat (io_size r - 1) = unat (io_size r) - 1" using n by (simp add: unat_minus_one)
    ultimately show ?thesis by (simp add: word_less_nat_alt)
  qed
qed

lemma exclusive_places: "exclusive (res_keys rs) \<Longrightarrow> distinct (places rs)"
proof -
  assume x: "exclusive (res_keys rs)"
  then have "distinct (map io_key (List.map_filter trapped_at rs))"
    unfolding trapped_keys exclusive_def by simp
  then have "distinct (List.map_filter trapped_at rs)" by (simp add: distinct_map)
  moreover have "inj_on (\<lambda>(k, r). (k, io_base r)) (set (List.map_filter trapped_at rs))"
    using exclusive_separate(2) [OF x] by (auto intro!: inj_onI)
  ultimately show ?thesis by (simp add: places_def distinct_map)
qed

text \<open>What the devices have on the buses.\<close>

definition listed :: "('d \<times> DeviceResources) list \<Rightarrow> ((bus_kind \<times> u64) \<times> u64 \<times> 'd) list" where
  "listed devs = concat (map (\<lambda>(dev, rs).
     map (\<lambda>(k, r). ((k, io_base r), (io_size r, dev))) (List.map_filter trapped_at rs)) devs)"

lemma listed_simps [simp]:
  "listed [] = []" "listed (xs @ ys) = listed xs @ listed ys" "map_of (listed [(dev, rs)]) = placed dev rs"
  by (simp_all add: listed_def placed_def)

lemma listed_Cons: "listed (x # xs) = listed [x] @ listed xs"
  by (simp add: listed_def)

lemma listed_places: "map fst (listed devs) = places (concat (map snd devs))"
  by (induction devs) (auto simp: listed_def places_def case_prod_beta comp_def)

lemma listed_one: "fst ` set (listed [(dev, rs)]) = set (places rs)"
  using arg_cong [OF listed_places [of "[(dev, rs)]"], of set] by simp

lemma listed_iff:
  "((k, b), (n, dev)) \<in> set (listed devs) \<longleftrightarrow>
    (\<exists>rs. (dev, rs) \<in> set devs \<and> (k, \<lparr>io_base = b, io_size = n\<rparr>) \<in> set (List.map_filter trapped_at rs))"
proof
  assume "((k, b), (n, dev)) \<in> set (listed devs)"
  then obtain rs r where "(dev, rs) \<in> set devs" "(k, r) \<in> set (List.map_filter trapped_at rs)" "b = io_base r" "n = io_size r"
    by (auto simp: listed_def)
  then have r: "\<lparr>io_base = b, io_size = n\<rparr> = r" and "\<exists>rs. (dev, rs) \<in> set devs \<and> (k, r) \<in> set (List.map_filter trapped_at rs)"
    by auto
  then show "\<exists>rs. (dev, rs) \<in> set devs \<and> (k, \<lparr>io_base = b, io_size = n\<rparr>) \<in> set (List.map_filter trapped_at rs)"
    unfolding r by blast
next
  assume "\<exists>rs. (dev, rs) \<in> set devs \<and> (k, \<lparr>io_base = b, io_size = n\<rparr>) \<in> set (List.map_filter trapped_at rs)"
  then show "((k, b), (n, dev)) \<in> set (listed devs)"
    by (auto simp: listed_def intro!: bexI rev_image_eqI)
qed

lemma map_of_remove:
  assumes "distinct (map fst (xs @ ys @ zs))"
  shows "map_of (xs @ ys @ zs) |` (- fst ` set ys) = map_of (xs @ zs)"
proof (rule ext)
  fix a
  show "(map_of (xs @ ys @ zs) |` (- fst ` set ys)) a = map_of (xs @ zs) a"
  proof (cases "a \<in> fst ` set ys")
    case True
    then have "map_of xs a = None" "map_of zs a = None" using assms by (auto simp: map_of_eq_None_iff)
    then show ?thesis using True by (simp add: map_add_def)
  next
    case False
    then have "map_of ys a = None" by (simp add: map_of_eq_None_iff)
    then show ?thesis using False by (auto simp: map_add_def split: option.split)
  qed
qed

text \<open>The run of a machine is a run of its resource manager, and the buses hold what the devices own.\<close>

lemma attach_registers:
  assumes "exclusive (owned_keys (rs # map snd devs))" "io_ok io" "io_entries io = map_of (listed devs)"
  shows "\<exists>io'. register_device_io dev rs io = (Inr (), io') \<and> io_ok io' \<and> io_entries io' = map_of (listed ((dev, rs) # devs))"
proof -
  have "distinct (map fst (listed ((dev, rs) # devs)))"
    using exclusive_places [OF assms(1)] by (simp add: listed_places)
  then have d: "distinct (map fst (listed [(dev, rs)]))" "set (places rs) \<inter> fst ` set (listed devs) = {}"
    unfolding listed_Cons [of "(dev, rs)" devs] using listed_one [of dev rs] by auto
  have "distinct (places rs)" using d(1) by (simp add: listed_places)
  moreover have "set (places rs) \<inter> dom (io_entries io) = {}" using d(2) assms(3) by (simp add: dom_map_of_conv_image_fst)
  ultimately obtain io' where "register_loop dev [] rs io = (Inr (), io')" "io_ok io'"
      "io_entries io' = io_entries io ++ placed dev rs"
    using register_fresh [OF assms(2)] by blast
  then show ?thesis using assms(3) by (subst listed_Cons [of _ devs]) (simp add: register_device_io_def)
qed

lemma vm_run_inv:
  assumes "vm_run pe rm0 rm io devs" "rm_ok rm0"
  shows "manager_run pe rm0 rm (map snd devs) \<and> io_ok io \<and> io_entries io = map_of (listed devs)"
  using assms(1)
proof induction
  case boot
  have "io_ok IoManager_new" unfolding io_ok_def by (metis (full_types) IoManager.select_convs IoManager_new_def
      bus_kind.exhaust bus_of.simps bus_ok_simps(1))
  moreover have "io_entries IoManager_new (k, b) = None" for k b
    by (cases k) (simp_all add: io_entries_def IoManager_new_def)
  ultimately show ?case using manager_run.start by (auto simp: fun_eq_iff)
next
  case (attach rm io devs reqs shared_irq rs rm' dev result io')
  have run: "manager_run pe rm0 rm' (rs # map snd devs)"
    using manager_run.granted_all attach.IH attach.hyps by blast
  show ?case using attach_registers [OF run_exclusive [OF run assms(2)], of io dev] attach.IH attach.hyps(4) run by auto
next
  case (no_resource rm io devs reqs shared_irq rm')
  then show ?case using manager_run.unavailable by blast
next
  case (detach rm io xs dev rs ys rm')
  have run: "manager_run pe rm0 rm (map snd xs @ rs # map snd ys)" using detach.IH by simp
  have "distinct (map fst (listed xs @ listed [(dev, rs)] @ listed ys))"
    using exclusive_places [OF run_exclusive [OF run assms(2)]] listed_places [of "xs @ (dev, rs) # ys"]
    by (simp add: listed_Cons [of "(dev, rs)" ys])
  from map_of_remove [OF this] have "io_entries (unregister_device_io rs io) = map_of (listed (xs @ ys))"
    using unregister_entries [of io rs] detach.IH listed_one [of dev rs] by (simp add: listed_Cons [of "(dev, rs)" ys])
  then show ?case
    using manager_run.given_back_all [OF run detach.hyps(2)] unregister_entries [of io rs] detach.IH by simp
qed

section \<open>Lookups\<close>

lemma trapped_registers:
  "(Registers, \<lparr>io_base = b, io_size = n\<rparr>) \<in> set (List.map_filter trapped_at rs) \<longleftrightarrow> MmioAddressRange b n \<in> set rs"
proof (induction rs)
  case (Cons res rs)
  then show ?case by (cases res) (auto simp: new_pio_range_def new_mmio_range_def)
qed simp

lemma trapped_ports:
  "(Ports, r) \<in> set (List.map_filter trapped_at rs) \<longleftrightarrow> (\<exists>b n. PioAddressRange b n \<in> set rs \<and> r = new_pio_range b n)"
proof (induction rs)
  case (Cons res rs)
  then show ?case by (cases res) auto
qed simp

lemma run_entries:
  assumes "vm_run pe rm0 rm io devs" "rm_ok rm0"
  shows "bus_entries (bus_of k io) b = Some (n, dev) \<longleftrightarrow>
      (\<exists>rs. (dev, rs) \<in> set devs \<and> (k, \<lparr>io_base = b, io_size = n\<rparr>) \<in> set (List.map_filter trapped_at rs))"
    "separate (bus_entries (bus_of k io))" "bus_ok (bus_of k io)"
proof -
  note inv = vm_run_inv [OF assms]
  then have x: "exclusive (owned_keys (map snd devs))" using run_exclusive assms(2) by blast
  have d: "distinct (map fst (listed devs))" unfolding listed_places by (rule exclusive_places [OF x])
  have e: "bus_entries (bus_of k io) b = Some (n, dev) \<longleftrightarrow>
      (\<exists>rs. (dev, rs) \<in> set devs \<and> (k, \<lparr>io_base = b, io_size = n\<rparr>) \<in> set (List.map_filter trapped_at rs))" for b n dev
  proof -
    have "bus_entries (bus_of k io) b = map_of (listed devs) (k, b)" using inv by (metis io_entries_def case_prod_conv)
    then show ?thesis using map_of_eq_Some_iff [OF d] listed_iff by metis
  qed
  show "bus_entries (bus_of k io) b = Some (n, dev) \<longleftrightarrow>
      (\<exists>rs. (dev, rs) \<in> set devs \<and> (k, \<lparr>io_base = b, io_size = n\<rparr>) \<in> set (List.map_filter trapped_at rs))" by (rule e)
  show "bus_ok (bus_of k io)" using inv by (simp add: io_ok_def)
  have all: "r \<in> set (List.map_filter trapped_at (concat (map snd devs)))"
    if "(dev, rs) \<in> set devs" "r \<in> set (List.map_filter trapped_at rs)" for dev rs r
    using that by (induction devs) auto
  show "separate (bus_entries (bus_of k io))"
    unfolding separate_def
  proof (intro allI impI)
    fix b n d b'
    assume b: "bus_entries (bus_of k io) b = Some (n, d)" "b' \<in> dom (bus_entries (bus_of k io))" "b < b'"
    then obtain n' d' where b': "bus_entries (bus_of k io) b' = Some (n', d')" by auto
    have "(k, \<lparr>io_base = b, io_size = n\<rparr>) \<in> set (List.map_filter trapped_at (concat (map snd devs)))"
      "(k, \<lparr>io_base = b', io_size = n'\<rparr>) \<in> set (List.map_filter trapped_at (concat (map snd devs)))"
      using e [THEN iffD1, OF b(1)] e [THEN iffD1, OF b'] all by blast+
    from exclusive_separate(1) [OF x this] b(3) show "unat n \<le> unat b' - unat b" by simp
  qed
qed

lemma mmio_lookup:
  assumes "vm_run pe rm0 rm io devs" "rm_ok rm0"
  shows "get_mmio_device addr io = Some (dev, b) \<longleftrightarrow> mmio_owner devs addr dev b"
proof -
  note e = run_entries [OF assms, of Registers]
  have "get_mmio_device addr io = Some (dev, b) \<longleftrightarrow>
      (\<exists>k. bus_floor (new_mmio_range addr 0) (mmio_bus io) = Some (k, dev) \<and> addr - io_base k < io_size k \<and> io_base k = b)"
    by (auto simp: get_mmio_device_def split: option.splits)
  also have "\<dots> \<longleftrightarrow> (\<exists>n. bus_entries (mmio_bus io) b = Some (n, dev) \<and> b \<le> addr \<and> addr - b < n)"
    using io_bus.floor_owner [OF e(3,2), of "new_mmio_range addr 0" dev b] by (simp add: new_mmio_range_def)
  also have "\<dots> \<longleftrightarrow> mmio_owner devs addr dev b"
    using e(1) unfolding bus_of.simps trapped_registers mmio_owner_def by blast
  finally show ?thesis .
qed

lemma pio_lookup:
  assumes "vm_run pe rm0 rm io devs" "rm_ok rm0"
  shows "get_pio_device addr io = Some (dev, b) \<longleftrightarrow> pio_owner devs addr dev b"
proof -
  note e = run_entries [OF assms, of Ports]
  have cast: "(ucast b :: u64) \<le> ucast addr \<longleftrightarrow> b \<le> addr"
    "b \<le> addr \<Longrightarrow> (ucast addr - ucast b < (ucast n :: u64)) \<longleftrightarrow> addr - b < n" for b n :: u16
    by (simp_all add: word_le_nat_alt word_less_nat_alt unat_sub unat_up)
  have entry: "bus_entries (pio_bus io) c = Some (n, dev) \<longleftrightarrow>
      (\<exists>rs b m. (dev, rs) \<in> set devs \<and> PioAddressRange b m \<in> set rs \<and> c = ucast b \<and> n = ucast m)" for c n
    using e(1) [of c n dev] unfolding bus_of.simps trapped_ports new_pio_range_def by auto
  have "get_pio_device addr io = Some (dev, b) \<longleftrightarrow> (\<exists>c. (\<exists>k. bus_floor (new_pio_range addr 0) (pio_bus io) = Some (k, dev) \<and>
      ucast addr - io_base k < io_size k \<and> io_base k = c) \<and> ucast c = b)"
    by (auto simp: get_pio_device_def split: option.splits)
  also have "\<dots> \<longleftrightarrow> (\<exists>c n. bus_entries (pio_bus io) c = Some (n, dev) \<and> c \<le> ucast addr \<and> ucast addr - c < n \<and> ucast c = b)"
    using io_bus.floor_owner [OF e(3,2), of "new_pio_range addr 0" dev] by (simp add: new_pio_range_def) blast
  also have "\<dots> \<longleftrightarrow> (\<exists>rs c n. (dev, rs) \<in> set devs \<and> PioAddressRange c n \<in> set rs \<and>
      (ucast c :: u64) \<le> ucast addr \<and> ucast addr - ucast c < (ucast n :: u64) \<and> ucast (ucast c :: u64) = b)"
    unfolding entry by blast
  also have "\<dots> \<longleftrightarrow> pio_owner devs addr dev b"
    unfolding pio_owner_def cast(1) by (simp add: ucast_up_down) (use cast(2) in blast)
  finally show ?thesis .
qed

lemma new_manager_ok:
  assumes "GUEST_PHYS_END w = Some pe" "\<forall>m. slots = Some m \<longrightarrow> m \<le> 0xffffffff" "ResourceManager_new pe slots = Some rm0"
  shows "rm_ok rm0"
  using initially_free_iff [OF assms(1,2)] assms(3) by auto

section \<open>Examples\<close>

text \<open>A first device with a page of registers.\<close>

lemma demo_mmio:
  "\<exists>rm rm' b. ResourceManager_new demo_pe None = Some rm \<and> rm_ok rm \<and>
    allocate_device_resources demo_pe rm [MmioAddress None 1 0x1000] False = Some (Inr [MmioAddressRange b 0x1000], rm')"
proof -
  obtain rm where rm: "ResourceManager_new demo_pe None = Some rm" "rm_ok rm"
    "\<forall>i x. state_at (pool rm i) x = Some Free \<longleftrightarrow> initially_free demo_pe None i x"
    using demo_manager by blast
  let ?c = "windowed 0x1000 1 None" and ?r = "\<lparr>rmin = 0xc0000000, rmax = 0xc0000fff\<rparr>"
  have "satisfies ?c ?r"
    by (simp add: satisfies_def windowed_def Constraint_defs valid_range_def align_ok_trivial)
  moreover have "free_range (pool rm MmioPool) ?r"
    unfolding free_range_def rm(3) [rule_format] by (auto simp: addrs_def word_le_nat_alt word_less_nat_alt)
  moreover obtain res t where a: "IntervalTree_allocate (pool rm MmioPool) ?c = Some (res, t)"
      "res = None \<Longrightarrow> \<not> (\<exists>r. satisfies ?c r \<and> free_range (pool rm MmioPool) r)"
    using allocate_pool [of "pool rm MmioPool" ?c] pool_inv_atD [OF rm_ok_pool [OF rm(2)], of MmioPool] by fastforce
  ultimately obtain r where "IntervalTree_allocate (pool rm MmioPool) ?c = Some (Some r, t)" by (cases res) blast+
  then have "allocate_device_resources demo_pe rm [MmioAddress None 1 0x1000] False =
      Some (Inr [MmioAddressRange (rmin r) 0x1000], rm\<lparr>mmio_pool := t\<rparr>)"
    by (simp add: allocate_device_resources_def allocate_mmio_address_def DeviceResources_append_def
        DeviceResources_new_def)
  with rm show ?thesis by blast
qed

text \<open>Devices that answer a read with the byte of their offset and count the writes.\<close>

definition demo_devices :: "(nat, nat) DeviceIo" where
  "demo_devices = \<lparr>dev_read = \<lambda>dev b off data s. ([ucast off], s), dev_write = \<lambda>dev b off data s. s + 1,
     dev_pio_read = \<lambda>dev b off data s. ([ucast off], s), dev_pio_write = \<lambda>dev b off data s. s + 1,
     get_trapped_io_resources = \<lambda>dev. []\<rparr>"

section \<open>Properties\<close>

text \<open>C27: in every machine whose devices got their resources from the manager, an access to an
  address that a device owns reaches that device, with the base of its range and the offset in it,
  and an access to any other address is refused, for registers and for ports alike. No access
  panics.\<close>

theorem io_dispatch:
  assumes "GUEST_PHYS_END w = Some pe" "\<forall>m. slots = Some m \<longrightarrow> m \<le> 0xffffffff" "ResourceManager_new pe slots = Some rm0"
    "vm_run pe rm0 rm io devs"
  shows "(mmio_owner devs addr dev b \<longrightarrow>
      mmio_read env addr buf io s = Some (Inr (dev_read env dev b (addr - b) buf s)) \<and>
      mmio_write env addr buf io s = Some (Inr (dev_write env dev b (addr - b) buf s))) \<and>
    ((\<nexists>dev b. mmio_owner devs addr dev b) \<longrightarrow>
      mmio_read env addr buf io s = Some (Inl NoDevice) \<and> mmio_write env addr buf io s = Some (Inl NoDevice)) \<and>
    (pio_owner devs port dev p \<longrightarrow>
      pio_read env port buf io s = Some (Inr (dev_pio_read env dev p (port - p) buf s)) \<and>
      pio_write env port buf io s = Some (Inr (dev_pio_write env dev p (port - p) buf s))) \<and>
    ((\<nexists>dev p. pio_owner devs port dev p) \<longrightarrow>
      pio_read env port buf io s = Some (Inl NoDevice) \<and> pio_write env port buf io s = Some (Inl NoDevice))"
proof -
  note m = mmio_lookup [OF assms(4) new_manager_ok [OF assms(1-3)], of addr]
  note p = pio_lookup [OF assms(4) new_manager_ok [OF assms(1-3)], of port]
  have "get_mmio_device addr io = None" if "\<nexists>dev b. mmio_owner devs addr dev b"
    using that m by (cases "get_mmio_device addr io") auto
  moreover have "get_pio_device port io = None" if "\<nexists>dev p. pio_owner devs port dev p"
    using that p by (cases "get_pio_device port io") auto
  moreover have "usub addr b = Some (addr - b)" if "mmio_owner devs addr dev b"
    using that by (auto simp: mmio_owner_def checked_sub_def)
  moreover have "usub port p = Some (port - p)" if "pio_owner devs port dev p"
    using that by (auto simp: pio_owner_def checked_sub_def)
  ultimately show ?thesis
    using m [of dev b] p [of dev p] by (auto simp: mmio_read_def mmio_write_def pio_read_def pio_write_def)
qed

theorem io_dispatch_witness:
  "\<exists>rm rm' io b. ResourceManager_new demo_pe None = Some rm \<and>
     vm_run demo_pe rm rm' io [(7, [MmioAddressRange b 0x1000])] \<and>
     mmio_read demo_devices b [0] io 0 = Some (Inr ([0], 0))"
proof -
  obtain rm rm' b where rm: "ResourceManager_new demo_pe None = Some rm"
    "allocate_device_resources demo_pe rm [MmioAddress None 1 0x1000] False = Some (Inr [MmioAddressRange b 0x1000], rm')"
    using demo_mmio by blast
  obtain result io where io: "register_device_io (7 :: nat) [MmioAddressRange b 0x1000] IoManager_new = (result, io)"
    by fastforce
  have run: "vm_run demo_pe rm rm' io [(7, [MmioAddressRange b 0x1000])]"
    using vm_run.attach [OF vm_run.boot _ rm(2) io] by simp
  have own: "mmio_owner [(7 :: nat, [MmioAddressRange b 0x1000])] b 7 b" by (simp add: mmio_owner_def)
  have "mmio_read demo_devices b [0] io 0 = Some (Inr ([0], 0))"
    using io_dispatch [OF demo_phys_end _ rm(1) run, of b 7 b demo_devices "[0]" 0, THEN conjunct1, rule_format, OF _ own]
    by (simp add: demo_devices_def)
  with rm(1) run show ?thesis by blast
qed



text \<open>C29: a registration that fails because the base of a range is taken does not leave the buses as
  they were: the ranges of the new device before it are removed again, but the device that was
  registered there has been replaced by the new one, which keeps its accesses.\<close>

theorem overlap_evicts:
  assumes "io_ok io" "distinct (places pre)" "set (places pre) \<inter> dom (io_entries io) = {}"
    "io_entries io (Registers, b) = Some (n, old)" "0 < n"
  shows "\<exists>io'. register_device_io dev (pre @ MmioAddressRange b m # post) io = (Inl DeviceOverlap, io') \<and>
    io_entries io' = (io_entries io)((Registers, b) \<mapsto> (n, dev)) \<and>
    get_mmio_device b io = Some (old, b) \<and> get_mmio_device b io' = Some (dev, b)"
proof -
  have at: "get_mmio_device b self = Some (d, b)" if self: "io_ok self" "io_entries self (Registers, b) = Some (n, d)"
    for self :: "'a IoManager" and d
  proof -
    have ok: "bus_ok (mmio_bus self)" using self(1) unfolding io_ok_def by (metis bus_of.simps(2))
    have e: "bus_entries (mmio_bus self) b = Some (n, d)" using self(2) by (simp add: io_entries_def)
    obtain k d' where k: "bus_floor (new_mmio_range b 0) (mmio_bus self) = Some (k, d')"
      using io_bus.flo_None [OF ok, of "new_mmio_range b 0" b] e
      by (cases "bus_floor (new_mmio_range b 0) (mmio_bus self)") (auto simp: new_mmio_range_def)
    have "io_base k = b" "bus_entries (mmio_bus self) (io_base k) = Some (io_size k, d')"
      using io_bus.flo_Some [OF ok k] e by (auto simp: new_mmio_range_def)
    then show ?thesis using k e assms(5) by (auto simp: get_mmio_device_def)
  qed
  obtain io' where "register_device_io dev (pre @ MmioAddressRange b m # post) io = (Inl DeviceOverlap, io')" "io_ok io'"
      "io_entries io' = (io_entries io)((Registers, b) \<mapsto> (n, dev))"
    using register_overlap [OF assms(1-3), of "MmioAddressRange b m" Registers "new_mmio_range b m" n old dev post] assms(4)
    by (auto simp: new_mmio_range_def)
  then show ?thesis using at [OF assms(1,4)] at [of io' dev] by simp
qed

theorem overlap_evicts_witness:
  "\<exists>io io'. register_device_io 1 [MmioAddressRange 0x1000 0x100] IoManager_new = (Inr (), io) \<and>
     register_device_io (2 :: nat) [PioAddressRange 0x40 4, MmioAddressRange 0x1000 8] io = (Inl DeviceOverlap, io') \<and>
     get_mmio_device 0x1000 io = Some (1, 0x1000) \<and> get_mmio_device 0x1000 io' = Some (2, 0x1000)"
proof -
  let ?io = "\<lparr>pio_bus = [], mmio_bus = [(\<lparr>io_base = 0x1000, io_size = 0x100\<rparr>, 1 :: nat)]\<rparr>"
  have reg: "register_device_io 1 [MmioAddressRange 0x1000 0x100] IoManager_new = (Inr (), ?io)"
    by (simp add: register_device_io_def register_Cons IoManager_new_def new_mmio_range_def)
  have e: "io_entries ?io (k, b) = (if k = Registers \<and> b = 0x1000 then Some (0x100, 1) else None)" for k b
    by (cases k) (auto simp: io_entries_def)
  have "bus_ok (bus_of k ?io)" for k by (cases k) auto
  then have "io_ok ?io" unfolding io_ok_def by blast
  moreover have "set (places [PioAddressRange 0x40 4]) \<inter> dom (io_entries ?io) = {}"
    using e by (auto simp: new_pio_range_def)
  moreover have "io_entries ?io (Registers, 0x1000) = Some (0x100, 1)" using e by simp
  moreover have "distinct (places [PioAddressRange 0x40 4])" by simp
  ultimately obtain io' where "register_device_io 2 ([PioAddressRange 0x40 4] @ MmioAddressRange 0x1000 8 # []) ?io = (Inl DeviceOverlap, io')"
      "get_mmio_device 0x1000 ?io = Some (1, 0x1000)" "get_mmio_device 0x1000 io' = Some (2, 0x1000)"
    using overlap_evicts [where io = ?io and pre = "[PioAddressRange 0x40 4]" and dev = 2 and m = 8 and post = "[]"] by fastforce
  with reg show ?thesis by (simp only: append_Cons append_Nil) blast
qed

end
