(* ===== verification/Op_Monad.thy ===== *)
theory Op_Monad
  imports Rust_Prelude
begin

text \<open>
  Operations with effects. An operation that changes a state, may fail with an error and may panic
  is a function from the state to a result with the new state; \<open>attempt\<close> is the operator \<open>?\<close> on it. Two
  judgements on it: it succeeds, and it does not panic.
\<close>

section \<open>Operations with errors\<close>

type_synonym ('s, 'e, 'a) op = "'s \<Rightarrow> (('e + 'a) \<times> 's) rust"

definition attempt :: "('s, 'e, 'a) op \<Rightarrow> ('a \<Rightarrow> ('s, 'e, 'b) op) \<Rightarrow> ('s, 'e, 'b) op" where
  "attempt m f = (\<lambda>s. do {
     (r, s) \<leftarrow> m s;
     (case r of Inl e \<Rightarrow> ret (Inl e, s) | Inr a \<Rightarrow> f a s)
   })"

definition ok :: "'a \<Rightarrow> ('s, 'e, 'a) op" where "ok a = (\<lambda>s. ret (Inr a, s))"
definition fail :: "'e \<Rightarrow> ('s, 'e, 'a) op" where "fail e = (\<lambda>s. ret (Inl e, s))"

text \<open>A computation that may panic but does not touch the state, and a system call with its error.\<close>

definition pure :: "'a rust \<Rightarrow> ('s, 'e, 'a) op" where
  "pure r = (\<lambda>s. do { a \<leftarrow> r; ret (Inr a, s) })"

definition call :: "(nat \<Rightarrow> 'e) \<Rightarrow> ('s \<Rightarrow> (nat + 'a) \<times> 's) \<Rightarrow> ('s, 'e, 'a) op" where
  "call err f = (\<lambda>s. case f s of (Inl n, s) \<Rightarrow> ret (Inl (err n), s) | (Inr a, s) \<Rightarrow> ret (Inr a, s))"

definition or_fail :: "'e \<Rightarrow> 'a option \<Rightarrow> ('s, 'e, 'a) op" where
  "or_fail e x = (case x of None \<Rightarrow> fail e | Some a \<Rightarrow> ok a)"

text \<open>\<open>or_else\<close> of \<open>Result\<close>.\<close>

definition or_else :: "('s, 'e, 'a) op \<Rightarrow> ('e \<Rightarrow> ('s, 'e, 'a) op) \<Rightarrow> ('s, 'e, 'a) op" where
  "or_else m h = (\<lambda>s. do {
     (r, s) \<leftarrow> m s;
     (case r of Inl e \<Rightarrow> h e s | Inr a \<Rightarrow> ret (Inr a, s))
   })"

text \<open>Access to a vector by a number of the machine, which panics outside of it.\<close>

definition vec_index :: "'a list \<Rightarrow> u64 \<Rightarrow> 'a rust" where
  "vec_index xs i = (if unat i < length xs then ret (xs ! unat i) else panic)"

section \<open>Success\<close>

text \<open>\<open>gives m s P\<close>: the operation \<open>m\<close> returns from \<open>s\<close> without panic or error, with a result and a state that
  satisfy \<open>P\<close>.\<close>

definition gives :: "('s, 'e, 'a) op \<Rightarrow> 's \<Rightarrow> ('a \<Rightarrow> 's \<Rightarrow> bool) \<Rightarrow> bool" where
  "gives m s P \<longleftrightarrow> (\<exists>a s'. m s = Some (Inr a, s') \<and> P a s')"

lemma attempt_pure: "attempt (pure (Some a)) f = f a"
  by (simp add: attempt_def pure_def)

lemma gives_attempt: "gives m s P \<Longrightarrow> (\<And>a s'. P a s' \<Longrightarrow> gives (f a) s' Q) \<Longrightarrow> gives (attempt m f) s Q"
  by (fastforce simp: gives_def attempt_def)

lemma gives_weaken: "gives m s P \<Longrightarrow> (\<And>a s'. P a s' \<Longrightarrow> Q a s') \<Longrightarrow> gives m s Q"
  by (fastforce simp: gives_def)

lemma gives_ok: "P a s \<Longrightarrow> gives (ok a) s P"
  by (simp add: gives_def ok_def)

lemma gives_pure: "r = Some a \<Longrightarrow> P a s \<Longrightarrow> gives (pure r) s P"
  by (simp add: gives_def pure_def)

lemma gives_call: "\<not> isl (fst (f s)) \<Longrightarrow> (\<And>a s'. P a s') \<Longrightarrow> gives (call err f) s P"
  by (cases "f s"; cases "fst (f s)") (auto simp: gives_def call_def)

lemma gives_if: "(b \<Longrightarrow> gives m s P) \<Longrightarrow> (\<not> b \<Longrightarrow> gives m' s P) \<Longrightarrow> gives (if b then m else m') s P"
  by simp

lemma gives_option:
  "(x = None \<Longrightarrow> gives m s P) \<Longrightarrow> (\<And>a. x = Some a \<Longrightarrow> gives (f a) s P) \<Longrightarrow> gives (case x of None \<Rightarrow> m | Some a \<Rightarrow> f a) s P"
  by (cases x) auto

lemma gives_or_fail: "x = Some a \<Longrightarrow> P a s \<Longrightarrow> gives (or_fail e x) s P"
  by (simp add: gives_def or_fail_def ok_def)

section \<open>Absence of panics\<close>

text \<open>\<open>safely m s P\<close>: the operation \<open>m\<close> returns from \<open>s\<close> without panic, with a result or an error and a state that
  satisfy \<open>P\<close>.\<close>

definition safely :: "('s, 'e, 'a) op \<Rightarrow> 's \<Rightarrow> ('e + 'a \<Rightarrow> 's \<Rightarrow> bool) \<Rightarrow> bool" where
  "safely m s P \<longleftrightarrow> (\<exists>r s'. m s = Some (r, s') \<and> P r s')"

lemma safely_attempt:
  "safely m s P \<Longrightarrow> (\<And>e s'. P (Inl e) s' \<Longrightarrow> Q (Inl e) s') \<Longrightarrow> (\<And>a s'. P (Inr a) s' \<Longrightarrow> safely (f a) s' Q) \<Longrightarrow>
    safely (attempt m f) s Q"
  by (fastforce simp: safely_def attempt_def split: sum.split)

lemma safely_or_else:
  "safely m s P \<Longrightarrow> (\<And>e s'. P (Inl e) s' \<Longrightarrow> safely (h e) s' Q) \<Longrightarrow> (\<And>a s'. P (Inr a) s' \<Longrightarrow> Q (Inr a) s') \<Longrightarrow>
    safely (or_else m h) s Q"
  by (fastforce simp: safely_def or_else_def split: sum.split)

lemma safely_weaken: "safely m s P \<Longrightarrow> (\<And>r s'. P r s' \<Longrightarrow> Q r s') \<Longrightarrow> safely m s Q"
  by (fastforce simp: safely_def)

lemma safely_ok: "P (Inr a) s \<Longrightarrow> safely (ok a) s P"
  by (simp add: safely_def ok_def)

lemma safely_fail: "P (Inl e) s \<Longrightarrow> safely (fail e) s P"
  by (simp add: safely_def fail_def)

lemma safely_pure: "r = Some a \<Longrightarrow> P (Inr a) s \<Longrightarrow> safely (pure r) s P"
  by (simp add: safely_def pure_def)

lemma gives_safely: "gives m s P \<Longrightarrow> (\<And>a s'. P a s' \<Longrightarrow> Q (Inr a) s') \<Longrightarrow> safely m s Q"
  by (fastforce simp: safely_def gives_def)

text \<open>What holds if the operation succeeds.\<close>

definition ensures :: "('s, 'e, 'a) op \<Rightarrow> 's \<Rightarrow> ('a \<Rightarrow> 's \<Rightarrow> bool) \<Rightarrow> bool" where
  "ensures m s P \<longleftrightarrow> (\<forall>a s'. m s = Some (Inr a, s') \<longrightarrow> P a s')"

lemma ensures_attempt:
  assumes "ensures m s P" "\<And>a s'. P a s' \<Longrightarrow> ensures (f a) s' Q"
  shows "ensures (attempt m f) s Q"
proof (cases "m s")
  case (Some rs)
  then show ?thesis
    using assms by (cases rs; cases "fst rs") (auto simp: ensures_def attempt_def)
qed (simp add: ensures_def attempt_def)

lemma ensures_basic: "P a s \<Longrightarrow> ensures (ok a) s P" "ensures (fail e) s P" "(\<And>a. r = Some a \<Longrightarrow> P a s) \<Longrightarrow> ensures (pure r) s P"
  by (auto simp: ensures_def ok_def fail_def pure_def bind_eq_Some_conv)

lemma ensures_weaken: "ensures m s P \<Longrightarrow> (\<And>a s'. P a s' \<Longrightarrow> Q a s') \<Longrightarrow> ensures m s Q"
  unfolding ensures_def by blast

lemma ensuresD: "ensures m s P \<Longrightarrow> m s = Some (Inr a, s') \<Longrightarrow> P a s'"
  unfolding ensures_def by blast

lemma vec_index_ok: "unat i < length xs \<Longrightarrow> vec_index xs i = Some (xs ! unat i)"
  by (simp add: vec_index_def)

end
