(* ===== verification/Address_Space.thy ===== *)
theory Address_Space
  imports Op_Monad
begin

text \<open>
  The guest physical address space (\<open>dbs_address_space\<close>): regions with their backing memory
  (\<open>region.rs\<close>, \<open>memory/mod.rs\<close>), the layout that says where they may lie (\<open>layout.rs\<close>), the set of regions
  (\<open>address_space.rs\<close>) and the record of memory per NUMA node (\<open>numa.rs\<close>).

  The calls to the operating system are an argument, the record \<open>MemSys\<close>, on a state of type \<open>'w\<close>. A file
  is the number of its descriptor, an error of a system call its number.
\<close>

section \<open>Regions\<close>

datatype AddressSpaceError =
    InvalidRegionType
  | InvalidAddressRange u64 u64
  | InvalidMemorySourceType string
  | CreateMemFd nat
  | OpenFile nat
  | CreateDir nat
  | SetFileSize nat
  | UnlinkFile nat

datatype MemorySourceType =
  FileOnHugeTlbFs | MmapAnonymous | MmapAnonymousHugeTlbFs | MemFdShared | MemFdOnHugeTlbFs

definition source_is_hugepage :: "MemorySourceType \<Rightarrow> bool" where
  "source_is_hugepage self \<longleftrightarrow>
     self = FileOnHugeTlbFs \<or> self = MmapAnonymousHugeTlbFs \<or> self = MemFdOnHugeTlbFs"

definition source_is_mmap_anonymous :: "MemorySourceType \<Rightarrow> bool" where
  "source_is_mmap_anonymous self \<longleftrightarrow> self = MmapAnonymous \<or> self = MmapAnonymousHugeTlbFs"

definition source_from_str :: "string \<Rightarrow> MemorySourceType option" where
  "source_from_str s =
     (if s = ''hugetlbfs'' then Some FileOnHugeTlbFs
      else if s = ''memfd'' then Some MemFdShared
      else if s = ''shmem'' then Some MemFdShared
      else if s = ''hugememfd'' then Some MemFdOnHugeTlbFs
      else if s = ''hugeshmem'' then Some MemFdOnHugeTlbFs
      else if s = ''anon'' then Some MmapAnonymous
      else if s = ''mmap'' then Some MmapAnonymous
      else if s = ''hugeanon'' then Some MmapAnonymousHugeTlbFs
      else if s = ''hugemmap'' then Some MmapAnonymousHugeTlbFs
      else None)"

datatype AddressSpaceRegionType = DefaultMemory | DeviceMemory | DAXMemory

type_synonym i32 = "32 word"

text \<open>The flags of \<open>mmap\<close> on Linux.\<close>

definition MAP_SHARED :: i32 where "MAP_SHARED = 0x01"
definition MAP_PRIVATE :: i32 where "MAP_PRIVATE = 0x02"
definition MAP_ANONYMOUS :: i32 where "MAP_ANONYMOUS = 0x20"
definition MAP_POPULATE :: i32 where "MAP_POPULATE = 0x8000"
definition PROT_READ :: i32 where "PROT_READ = 1"
definition PROT_WRITE :: i32 where "PROT_WRITE = 2"

record AddressSpaceRegion =
  rg_ty :: AddressSpaceRegionType
  rg_base :: u64
  rg_size :: u64
  host_numa_node_id :: "u32 option"
  file_offset :: "(nat \<times> u64) option"
  perm_flags :: i32
  prot_flags :: i32
  is_hugepage :: bool
  is_hotplug :: bool
  is_anon :: bool

definition region_new :: "AddressSpaceRegionType \<Rightarrow> u64 \<Rightarrow> u64 \<Rightarrow> AddressSpaceRegion" where
  "region_new ty base sz =
     \<lparr>rg_ty = ty, rg_base = base, rg_size = sz, host_numa_node_id = None, file_offset = None,
      perm_flags = MAP_SHARED, prot_flags = PROT_READ OR PROT_WRITE,
      is_hugepage = False, is_hotplug = False, is_anon = False\<rparr>"

definition region_build ::
  "AddressSpaceRegionType \<Rightarrow> u64 \<Rightarrow> u64 \<Rightarrow> u32 option \<Rightarrow> (nat \<times> u64) option \<Rightarrow> i32 \<Rightarrow> i32 \<Rightarrow> bool \<Rightarrow> AddressSpaceRegion" where
  "region_build ty base sz numa file perm prot hotplug =
     (let region = (region_new ty base sz)\<lparr>host_numa_node_id := numa, file_offset := file,
                     perm_flags := perm, prot_flags := prot\<rparr>
      in if hotplug then region\<lparr>is_hotplug := True\<rparr> else region)"

record 'w MemSys =
  memfd_create :: "string \<Rightarrow> 'w \<Rightarrow> (nat + nat) \<times> 'w"
  set_file_len :: "nat \<Rightarrow> u64 \<Rightarrow> 'w \<Rightarrow> (nat + unit) \<times> 'w"
  create_dir_all :: "string \<Rightarrow> 'w \<Rightarrow> (nat + unit) \<times> 'w"
  open_create :: "string \<Rightarrow> 'w \<Rightarrow> (nat + nat) \<times> 'w"
  unlink :: "string \<Rightarrow> 'w \<Rightarrow> (nat + unit) \<times> 'w"

text \<open>\<open>Path::parent\<close>: the path without its last component. Empty components, and \<open>.\<close> except at the start
  of a relative path, are no components; the result is spelled without them.\<close>

fun split_slash :: "string \<Rightarrow> string list" where
  "split_slash [] = [[]]"
| "split_slash (c # s) =
     (if c = CHR ''/'' then [] # split_slash s
      else case split_slash s of w # ws \<Rightarrow> (c # w) # ws | [] \<Rightarrow> [[c]])"

fun join_slash :: "string list \<Rightarrow> string" where
  "join_slash [] = []"
| "join_slash [w] = w"
| "join_slash (w # ws) = w @ ''/'' @ join_slash ws"

definition path_components :: "string \<Rightarrow> string list" where
  "path_components s =
     (case split_slash s of
        [] \<Rightarrow> []
      | w # ws \<Rightarrow> (if w = [] then [] else [w]) @ filter (\<lambda>x. x \<noteq> [] \<and> x \<noteq> ''.'') ws)"

definition path_parent :: "string \<Rightarrow> string option" where
  "path_parent s =
     (let cs = path_components s; root = (s \<noteq> [] \<and> hd s = CHR ''/'') in
      if cs = [] then None
      else Some ((if root then ''/'' else []) @ join_slash (butlast cs)))"

definition create_memory_region ::
  "'w MemSys \<Rightarrow> u64 \<Rightarrow> u64 \<Rightarrow> u32 option \<Rightarrow> string \<Rightarrow> string \<Rightarrow> bool \<Rightarrow> i32 \<Rightarrow> bool \<Rightarrow>
    ('w, AddressSpaceError, AddressSpaceRegion) op" where
  "create_memory_region sys base sz numa mem_type mem_file_path mem_prealloc prot hotplug =
     (let perm = (if mem_prealloc then MAP_SHARED OR MAP_POPULATE else MAP_SHARED) in
      case source_from_str mem_type of
        None \<Rightarrow> fail (InvalidMemorySourceType mem_type)
      | Some source_type \<Rightarrow>
          attempt
            (if source_type = MemFdShared \<or> source_type = MemFdOnHugeTlbFs
             then attempt (call CreateMemFd (memfd_create sys (if source_type = MemFdShared then ''shmem'' else ''hugeshmem''))) (\<lambda>fd.
                  attempt (call SetFileSize (set_file_len sys fd sz)) (\<lambda>_.
                  ok (region_build DefaultMemory base sz numa (Some (fd, 0)) perm prot hotplug)))
             else if source_type = MmapAnonymous \<or> source_type = MmapAnonymousHugeTlbFs
             then let perm = MAP_PRIVATE OR MAP_ANONYMOUS;
                      perm = (if mem_prealloc then perm OR MAP_POPULATE else perm)
                  in ok (region_build DefaultMemory base sz numa None perm prot hotplug)
             else attempt (case path_parent mem_file_path of
                             Some parent_dir \<Rightarrow> call CreateDir (create_dir_all sys parent_dir)
                           | None \<Rightarrow> ok ()) (\<lambda>_.
                  attempt (call OpenFile (open_create sys mem_file_path)) (\<lambda>fd.
                  attempt (call UnlinkFile (unlink sys mem_file_path)) (\<lambda>_.
                  attempt (call SetFileSize (set_file_len sys fd sz)) (\<lambda>_.
                  ok (region_build DefaultMemory base sz numa (Some (fd, 0)) perm prot hotplug))))))
            (\<lambda>reg.
               let reg = (if source_is_hugepage source_type then reg\<lparr>is_hugepage := True\<rparr> else reg);
                   reg = (if source_is_mmap_anonymous source_type then reg\<lparr>is_anon := True\<rparr> else reg)
               in ok reg))"

definition create_default_memory_region ::
  "'w MemSys \<Rightarrow> u64 \<Rightarrow> u64 \<Rightarrow> u32 option \<Rightarrow> string \<Rightarrow> string \<Rightarrow> bool \<Rightarrow> bool \<Rightarrow>
    ('w, AddressSpaceError, AddressSpaceRegion) op" where
  "create_default_memory_region sys base sz numa mem_type mem_file_path mem_prealloc hotplug =
     create_memory_region sys base sz numa mem_type mem_file_path mem_prealloc (PROT_READ OR PROT_WRITE) hotplug"

definition create_device_region :: "u64 \<Rightarrow> u64 \<Rightarrow> AddressSpaceRegion" where
  "create_device_region base sz = region_build DeviceMemory base sz None None 0 0 False"

definition region_last_addr :: "AddressSpaceRegion \<Rightarrow> u64 rust" where
  "region_last_addr self =
     (if \<not> (rg_size self > 0 \<and> checked_add (rg_base self) (rg_size self) \<noteq> None) then panic
      else do { e \<leftarrow> uadd (rg_base self) (rg_size self); usub e 1 })"

definition has_file :: "AddressSpaceRegion \<Rightarrow> bool" where
  "has_file self \<longleftrightarrow> file_offset self \<noteq> None"

definition region_is_valid :: "AddressSpaceRegion \<Rightarrow> bool" where
  "region_is_valid self \<longleftrightarrow> rg_size self > 0 \<and> checked_add (rg_base self) (rg_size self) \<noteq> None"

definition intersect_with :: "AddressSpaceRegion \<Rightarrow> AddressSpaceRegion \<Rightarrow> bool" where
  "intersect_with self other =
     (case checked_add (rg_base self) (rg_size self) of
        None \<Rightarrow> True
      | Some end1 \<Rightarrow>
          (case checked_add (rg_base other) (rg_size other) of
             None \<Rightarrow> True
           | Some end2 \<Rightarrow> \<not> (end1 \<le> rg_base other \<or> rg_base self \<ge> end2)))"

section \<open>Layout\<close>

record AddressSpaceLayout =
  phys_end :: u64
  mem_start :: u64
  mem_end :: u64
  usable_end :: u64

text \<open>The total memory of the host, read from \<open>/proc/meminfo\<close> by the source, is an argument.\<close>

definition layout_new :: "u64 \<Rightarrow> u64 \<Rightarrow> u64 \<Rightarrow> u64 \<Rightarrow> AddressSpaceLayout" where
  "layout_new host_end phys start end_addr =
     \<lparr>phys_end = phys, mem_start = start, mem_end = end_addr, usable_end = host_end\<rparr>"

definition is_region_valid :: "AddressSpaceLayout \<Rightarrow> AddressSpaceRegion \<Rightarrow> bool" where
  "is_region_valid self region =
     (case checked_add (rg_base region) (rg_size region) of
        None \<Rightarrow> False
      | Some region_end \<Rightarrow>
          (case rg_ty region of
             DefaultMemory \<Rightarrow> \<not> (rg_base region < mem_start self \<or> region_end > mem_end self)
           | _ \<Rightarrow> \<not> (rg_base region < mem_end self \<or> region_end > phys_end self)))"

section \<open>Address spaces\<close>

record AddressSpaceBase =
  regions :: "AddressSpaceRegion list"
  layout :: AddressSpaceLayout

text \<open>The sort of the source need not be stable; regions with the same base intersect unless one of
  them is empty.\<close>

fun adjacent_intersect :: "AddressSpaceRegion list \<Rightarrow> bool" where
  "adjacent_intersect (r # s # rs) \<longleftrightarrow> intersect_with s r \<or> adjacent_intersect (s # rs)"
| "adjacent_intersect _ \<longleftrightarrow> False"

definition base_from_regions :: "AddressSpaceRegion list \<Rightarrow> AddressSpaceLayout \<Rightarrow> AddressSpaceBase rust" where
  "base_from_regions rs lay =
     (let rs = sort_key rg_base rs in
      if \<not> (\<forall>region \<in> set rs. is_region_valid lay region) then panic
      else if adjacent_intersect rs then panic
      else ret \<lparr>regions = rs, layout = lay\<rparr>)"

definition base_insert_region ::
  "AddressSpaceRegion \<Rightarrow> AddressSpaceBase \<Rightarrow> (AddressSpaceError + unit) \<times> AddressSpaceBase" where
  "base_insert_region region self =
     (if \<not> is_region_valid (layout self) region
      then (Inl (InvalidAddressRange (rg_base region) (rg_size region)), self)
      else if \<exists>r \<in> set (regions self). intersect_with r region
      then (Inl (InvalidAddressRange (rg_base region) (rg_size region)), self)
      else (Inr (), self\<lparr>regions := regions self @ [region]\<rparr>))"

fun walk_list ::
  "(AddressSpaceRegion \<Rightarrow> 's \<Rightarrow> (AddressSpaceError + unit) \<times> 's) \<Rightarrow> AddressSpaceRegion list \<Rightarrow> 's \<Rightarrow>
    (AddressSpaceError + unit) \<times> 's" where
  "walk_list cb [] s = (Inr (), s)"
| "walk_list cb (reg # rs) s = (case cb reg s of (Inl e, s) \<Rightarrow> (Inl e, s) | (Inr _, s) \<Rightarrow> walk_list cb rs s)"

definition walk_regions ::
  "AddressSpaceBase \<Rightarrow> (AddressSpaceRegion \<Rightarrow> 's \<Rightarrow> (AddressSpaceError + unit) \<times> 's) \<Rightarrow> 's \<Rightarrow>
    (AddressSpaceError + unit) \<times> 's" where
  "walk_regions self cb s = walk_list cb (regions self) s"

fun last_addr_from :: "u64 \<Rightarrow> AddressSpaceRegion list \<Rightarrow> u64 rust" where
  "last_addr_from a [] = ret a"
| "last_addr_from a (reg # rs) =
     (if rg_ty reg \<noteq> DAXMemory
      then do {
        e \<leftarrow> region_last_addr reg;
        (if e > a then do { e \<leftarrow> region_last_addr reg; last_addr_from e rs } else last_addr_from a rs)
      }
      else last_addr_from a rs)"

definition last_addr :: "AddressSpaceBase \<Rightarrow> u64 rust" where
  "last_addr self = last_addr_from (mem_start (layout self)) (regions self)"

text \<open>Whether a region covers an address, with the addition of the source.\<close>

definition covers :: "u64 \<Rightarrow> AddressSpaceRegion \<Rightarrow> bool rust" where
  "covers addr reg =
     (if rg_base reg \<le> addr then do { e \<leftarrow> uadd (rg_base reg) (rg_size reg); ret (e > addr) } else ret False)"

fun find_dax :: "u64 \<Rightarrow> AddressSpaceRegion list \<Rightarrow> bool rust" where
  "find_dax addr [] = ret False"
| "find_dax addr (reg # rs) =
     (if rg_ty reg = DAXMemory
      then do { c \<leftarrow> covers addr reg; (if c then ret True else find_dax addr rs) }
      else find_dax addr rs)"

definition is_dax_region :: "AddressSpaceBase \<Rightarrow> u64 \<Rightarrow> bool rust" where
  "is_dax_region self addr = find_dax addr (regions self)"

fun find_region :: "u64 \<Rightarrow> AddressSpaceRegion list \<Rightarrow> AddressSpaceRegion option rust" where
  "find_region addr [] = ret None"
| "find_region addr (reg # rs) = do {
     c \<leftarrow> covers addr reg;
     (if c then ret (Some reg) else find_region addr rs)
   }"

definition region_prot_flags :: "AddressSpaceBase \<Rightarrow> u64 \<Rightarrow> (AddressSpaceError + i32) rust" where
  "region_prot_flags self addr = do {
     r \<leftarrow> find_region addr (regions self);
     (case r of Some reg \<Rightarrow> ret (Inr (prot_flags reg)) | None \<Rightarrow> ret (Inl InvalidRegionType))
   }"

definition numa_node_id :: "AddressSpaceBase \<Rightarrow> u64 \<Rightarrow> u32 option rust" where
  "numa_node_id self gpa = do {
     r \<leftarrow> find_region gpa (regions self);
     (case r of Some reg \<Rightarrow> ret (host_numa_node_id reg) | None \<Rightarrow> ret None)
   }"

text \<open>\<open>AddressSpace\<close> shares an \<open>AddressSpaceBase\<close> that is replaced as a whole; its queries are those of the
  current one.\<close>

record AddressSpace =
  as_state :: AddressSpaceBase

definition AddressSpace_from_regions :: "AddressSpaceRegion list \<Rightarrow> AddressSpaceLayout \<Rightarrow> AddressSpace rust" where
  "AddressSpace_from_regions rs lay = do {
     base \<leftarrow> base_from_regions rs lay;
     ret \<lparr>as_state = base\<rparr>
   }"

definition AddressSpace_insert_region ::
  "AddressSpaceRegion \<Rightarrow> AddressSpace \<Rightarrow> ((AddressSpaceError + unit) \<times> AddressSpace) rust" where
  "AddressSpace_insert_region region self = do {
     let curr = regions (as_state self);
     let lay = layout (as_state self);
     base \<leftarrow> base_from_regions curr lay;
     (case base_insert_region region base of
        (Inl e, _) \<Rightarrow> ret (Inl e, self)
      | (Inr _, base) \<Rightarrow> ret (Inr (), self\<lparr>as_state := base\<rparr>))
   }"

definition AddressSpace_layout :: "AddressSpace \<Rightarrow> AddressSpaceLayout" where
  "AddressSpace_layout self = layout (as_state self)"

definition AddressSpace_last_addr :: "AddressSpace \<Rightarrow> u64 rust" where
  "AddressSpace_last_addr self = last_addr (as_state self)"

definition AddressSpace_is_dax_region :: "AddressSpace \<Rightarrow> u64 \<Rightarrow> bool rust" where
  "AddressSpace_is_dax_region self addr = is_dax_region (as_state self) addr"

definition AddressSpace_prot_flags :: "AddressSpace \<Rightarrow> u64 \<Rightarrow> (AddressSpaceError + i32) rust" where
  "AddressSpace_prot_flags self addr = region_prot_flags (as_state self) addr"

definition AddressSpace_numa_node_id :: "AddressSpace \<Rightarrow> u64 \<Rightarrow> u32 option rust" where
  "AddressSpace_numa_node_id self gpa = numa_node_id (as_state self) gpa"

definition AddressSpace_walk_regions ::
  "AddressSpace \<Rightarrow> (AddressSpaceRegion \<Rightarrow> 's \<Rightarrow> (AddressSpaceError + unit) \<times> 's) \<Rightarrow> 's \<Rightarrow>
    (AddressSpaceError + unit) \<times> 's" where
  "AddressSpace_walk_regions self cb s = walk_regions (as_state self) cb s"

section \<open>NUMA nodes\<close>

record NumaNodeInfo =
  ni_base :: u64
  ni_size :: u64

record NumaNode =
  region_infos :: "NumaNodeInfo list"
  nn_vcpu_ids :: "u32 list"

definition NumaNode_new :: NumaNode where "NumaNode_new = \<lparr>region_infos = [], nn_vcpu_ids = []\<rparr>"

definition add_info :: "NumaNodeInfo \<Rightarrow> NumaNode \<Rightarrow> NumaNode" where
  "add_info info self = self\<lparr>region_infos := region_infos self @ [info]\<rparr>"

definition add_vcpu_ids :: "u32 list \<Rightarrow> NumaNode \<Rightarrow> NumaNode" where
  "add_vcpu_ids ids self = self\<lparr>nn_vcpu_ids := nn_vcpu_ids self @ ids\<rparr>"

end
