(* ===== verification/Address_Space_Lemmas.thy ===== *)
theory Address_Space_Lemmas
  imports Address_Space
begin

text \<open>
  The addresses of a region, and what the address space keeps true: its regions lie where the
  layout allows and share no address. How regions are found by an address.
\<close>

section \<open>Addresses of a region\<close>

definition region_addrs :: "AddressSpaceRegion \<Rightarrow> nat set" where
  "region_addrs r = {unat (rg_base r)..<unat (rg_base r) + unat (rg_size r)}"

definition apart :: "AddressSpaceRegion \<Rightarrow> AddressSpaceRegion \<Rightarrow> bool" where
  "apart r s \<longleftrightarrow> region_addrs r \<inter> region_addrs s = {}"

lemma apart_sym: "apart r s \<Longrightarrow> apart s r"
  unfolding apart_def by blast

lemma apart_iff:
  "apart r s \<longleftrightarrow> rg_size r = 0 \<or> rg_size s = 0 \<or>
    unat (rg_base r) + unat (rg_size r) \<le> unat (rg_base s) \<or> unat (rg_base s) + unat (rg_size s) \<le> unat (rg_base r)"
proof -
  have "apart r s \<longleftrightarrow> \<not> (max (unat (rg_base r)) (unat (rg_base s)) <
      min (unat (rg_base r) + unat (rg_size r)) (unat (rg_base s) + unat (rg_size s)))"
    by (simp add: apart_def region_addrs_def)
  also have "\<dots> \<longleftrightarrow> unat (rg_size r) = 0 \<or> unat (rg_size s) = 0 \<or>
      unat (rg_base r) + unat (rg_size r) \<le> unat (rg_base s) \<or> unat (rg_base s) + unat (rg_size s) \<le> unat (rg_base r)"
    by linarith
  finally show ?thesis by (simp add: unat_eq_0)
qed

lemma valid_fits: "is_region_valid lay r \<Longrightarrow> unat (rg_base r) + unat (rg_size r) < 2 ^ 64"
  by (auto simp: is_region_valid_def checked_add_def split: option.splits if_splits)

lemma valid_window:
  assumes "is_region_valid lay r"
  shows "rg_ty r = DefaultMemory \<Longrightarrow> region_addrs r \<subseteq> {unat (mem_start lay)..<unat (mem_end lay)}"
    "rg_ty r \<noteq> DefaultMemory \<Longrightarrow> region_addrs r \<subseteq> {unat (mem_end lay)..<unat (phys_end lay)}"
  using assms
  by (auto simp: is_region_valid_def region_addrs_def word_nat dest: checked_add_Some_unat
      split: option.splits AddressSpaceRegionType.splits)

lemma intersect_with_iff:
  assumes "unat (rg_base r) + unat (rg_size r) < 2 ^ 64" "unat (rg_base s) + unat (rg_size s) < 2 ^ 64"
    "rg_size r > 0" "rg_size s > 0"
  shows "intersect_with r s \<longleftrightarrow> \<not> apart r s"
proof -
  obtain e f where "checked_add (rg_base r) (rg_size r) = Some e" "checked_add (rg_base s) (rg_size s) = Some f"
    using assms(1,2) by (simp add: checked_add_def)
  then show ?thesis
    using assms(3,4) checked_add_Some_unat [of "rg_base r" "rg_size r" e] checked_add_Some_unat [of "rg_base s" "rg_size s" f]
    by (auto simp: intersect_with_def apart_iff word_le_nat_alt)
qed

section \<open>Well-formed address spaces\<close>

definition separate_regions :: "AddressSpaceRegion list \<Rightarrow> bool" where
  "separate_regions rs \<longleftrightarrow> distinct rs \<and> (\<forall>r \<in> set rs. \<forall>s \<in> set rs. r \<noteq> s \<longrightarrow> apart r s)"

definition as_ok :: "AddressSpaceBase \<Rightarrow> bool" where
  "as_ok self \<longleftrightarrow> (\<forall>r \<in> set (regions self). is_region_valid (layout self) r \<and> rg_size r > 0) \<and>
     separate_regions (regions self)"

lemma adjacent_apart:
  assumes "\<forall>r \<in> set rs. unat (rg_base r) + unat (rg_size r) < 2 ^ 64 \<and> rg_size r > 0"
    "sorted (map rg_base rs)" "\<not> adjacent_intersect rs"
  shows "sorted_wrt (\<lambda>r s. unat (rg_base r) + unat (rg_size r) \<le> unat (rg_base s)) rs"
  using assms
proof (induction rs rule: adjacent_intersect.induct)
  case (1 r s rs)
  have IH: "sorted_wrt (\<lambda>r s. unat (rg_base r) + unat (rg_size r) \<le> unat (rg_base s)) (s # rs)"
    using 1 by simp
  have "apart s r" using intersect_with_iff [of s r] "1.prems" by simp
  moreover have "rg_base r \<le> rg_base s" "rg_size r > 0" "rg_size s > 0" using "1.prems" by simp_all
  ultimately have step: "unat (rg_base r) + unat (rg_size r) \<le> unat (rg_base s)"
    by (auto simp: apart_iff word_nat)
  have "unat (rg_base r) + unat (rg_size r) \<le> unat (rg_base t)" if "t \<in> set rs" for t
    using IH that step by (fastforce dest: le_trans)
  then show ?case using IH step by simp
qed auto

lemma ordered_separate:
  "sorted_wrt (\<lambda>r s. unat (rg_base r) + unat (rg_size r) \<le> unat (rg_base s)) rs \<Longrightarrow> \<forall>r \<in> set rs. rg_size r > 0 \<Longrightarrow>
    separate_regions rs"
proof (induction rs)
  case (Cons r rs)
  have later: "unat (rg_base r) + unat (rg_size r) \<le> unat (rg_base s)" if "s \<in> set rs" for s
    using Cons.prems(1) that by simp
  have "r \<notin> set rs" using later [of r] Cons.prems(2) by (auto simp: word_less_nat_alt)
  moreover have "apart r s" "apart s r" if "s \<in> set rs" for s using later [OF that] by (simp_all add: apart_iff)
  ultimately show ?case using Cons by (auto simp: separate_regions_def)
qed (simp add: separate_regions_def)

lemma separate_adjacent:
  "\<forall>r \<in> set rs. unat (rg_base r) + unat (rg_size r) < 2 ^ 64 \<and> rg_size r > 0 \<Longrightarrow> separate_regions rs \<Longrightarrow>
    \<not> adjacent_intersect rs"
proof (induction rs rule: adjacent_intersect.induct)
  case (1 r s rs)
  then have "apart s r" "separate_regions (s # rs)" by (auto simp: separate_regions_def)
  then show ?case using 1 intersect_with_iff [of s r] by auto
qed auto

lemma separate_sort: "separate_regions (sort_key f rs) \<longleftrightarrow> separate_regions rs"
  by (simp add: separate_regions_def)

lemma base_from_regions_iff:
  assumes "\<forall>r \<in> set rs. rg_size r > 0"
  shows "base_from_regions rs lay = (if (\<forall>r \<in> set rs. is_region_valid lay r) \<and> separate_regions rs
    then Some \<lparr>regions = sort_key rg_base rs, layout = lay\<rparr> else None)"
proof (cases "\<forall>r \<in> set rs. is_region_valid lay r")
  case True
  then have fits: "\<forall>r \<in> set (sort_key rg_base rs). unat (rg_base r) + unat (rg_size r) < 2 ^ 64 \<and> rg_size r > 0"
    unfolding set_sort using valid_fits [of lay] assms by blast
  have "adjacent_intersect (sort_key rg_base rs) \<longleftrightarrow> \<not> separate_regions rs"
    using separate_adjacent [OF fits] ordered_separate [OF adjacent_apart [OF fits]] assms
    by (auto simp: separate_sort)
  then show ?thesis using True by (simp add: base_from_regions_def)
qed (simp add: base_from_regions_def)

lemma base_from_regions_ok:
  "\<forall>r \<in> set rs. rg_size r > 0 \<Longrightarrow> base_from_regions rs lay = Some self \<Longrightarrow>
    as_ok self \<and> layout self = lay \<and> set (regions self) = set rs"
  by (auto simp: base_from_regions_iff as_ok_def separate_sort split: if_splits)

lemma base_insert_ok:
  assumes "as_ok self" "rg_size region > 0"
  shows "base_insert_region region self =
    (if is_region_valid (layout self) region \<and> (\<forall>r \<in> set (regions self). apart r region)
     then (Inr (), self\<lparr>regions := regions self @ [region]\<rparr>)
     else (Inl (InvalidAddressRange (rg_base region) (rg_size region)), self))"
proof (cases "is_region_valid (layout self) region")
  case True
  have "intersect_with r region \<longleftrightarrow> \<not> apart r region" if "r \<in> set (regions self)" for r
    using intersect_with_iff [of r region] valid_fits [of "layout self" r] valid_fits [OF True] assms that
    by (auto simp: as_ok_def)
  then show ?thesis using True by (auto simp: base_insert_region_def)
qed (simp add: base_insert_region_def)

lemma as_ok_insert:
  assumes "as_ok self" "rg_size region > 0" "is_region_valid (layout self) region"
    "\<forall>r \<in> set (regions self). apart r region"
  shows "as_ok (self\<lparr>regions := regions self @ [region]\<rparr>)"
proof -
  have "\<not> apart region region" using assms(2) by (auto simp: apart_iff word_gt_0 unat_eq_0)
  then have "region \<notin> set (regions self)" using assms(4) by blast
  then show ?thesis using assms apart_sym by (auto simp: as_ok_def separate_regions_def)
qed

section \<open>Finding regions\<close>

lemma covers_iff:
  assumes "unat (rg_base r) + unat (rg_size r) < 2 ^ 64"
  shows "covers addr r = Some (unat addr \<in> region_addrs r)"
proof -
  obtain e where e: "checked_add (rg_base r) (rg_size r) = Some e" using assms by (simp add: checked_add_def)
  show ?thesis using e checked_add_Some_unat [OF e] by (auto simp: covers_def region_addrs_def word_nat)
qed

lemma find_region_ok:
  assumes "\<forall>r \<in> set rs. unat (rg_base r) + unat (rg_size r) < 2 ^ 64"
  shows "find_region addr rs = Some (find (\<lambda>r. unat addr \<in> region_addrs r) rs)"
    "find_dax addr rs = Some (\<exists>r \<in> set rs. rg_ty r = DAXMemory \<and> unat addr \<in> region_addrs r)"
  using assms by (induction rs) (auto simp: covers_iff)

lemma find_separate:
  assumes "separate_regions rs" "r \<in> set rs" "a \<in> region_addrs r"
  shows "find (\<lambda>r. a \<in> region_addrs r) rs = Some r" "r' \<in> set rs \<Longrightarrow> a \<in> region_addrs r' \<Longrightarrow> r' = r"
proof -
  show uniq: "r' = r" if "r' \<in> set rs" "a \<in> region_addrs r'" for r'
    using assms that unfolding separate_regions_def apart_def by blast
  obtain r' where "find (\<lambda>r. a \<in> region_addrs r) rs = Some r'"
    using assms(2,3) by (metis find_None_iff not_Some_eq)
  then show "find (\<lambda>r. a \<in> region_addrs r) rs = Some r"
    using uniq [of r'] by (auto simp: find_Some_iff)
qed

lemma region_last_addr_ok:
  assumes "unat (rg_base r) + unat (rg_size r) < 2 ^ 64" "rg_size r > 0"
  shows "\<exists>e. region_last_addr r = Some e \<and> unat e + 1 = unat (rg_base r) + unat (rg_size r)"
proof -
  obtain e where e: "checked_add (rg_base r) (rg_size r) = Some e" using assms by (simp add: checked_add_def)
  have n: "unat e = unat (rg_base r) + unat (rg_size r)" using checked_add_Some_unat [OF e] .
  then have pos: "0 < unat e" using assms(2) by (simp add: word_less_nat_alt)
  then have "usub e 1 = Some (e - 1)" by (simp add: checked_sub_def word_le_nat_alt)
  moreover have "unat (e - 1) = unat e - 1" using pos by (simp add: unat_pred word_less_nat_alt)
  ultimately show ?thesis using e n pos assms(2) by (simp add: region_last_addr_def)
qed

lemma last_addr_ok:
  assumes "\<forall>r \<in> set rs. unat (rg_base r) + unat (rg_size r) < 2 ^ 64 \<and> rg_size r > 0"
  shows "\<exists>e. last_addr_from a rs = Some e \<and> a \<le> e \<and>
    (\<forall>r \<in> set rs. rg_ty r \<noteq> DAXMemory \<longrightarrow> (\<forall>x \<in> region_addrs r. x \<le> unat e)) \<and>
    (e = a \<or> (\<exists>r \<in> set rs. rg_ty r \<noteq> DAXMemory \<and> unat e \<in> region_addrs r))"
  using assms
proof (induction rs arbitrary: a)
  case (Cons r rs)
  obtain e where e: "region_last_addr r = Some e" "unat e + 1 = unat (rg_base r) + unat (rg_size r)"
    using region_last_addr_ok [of r] Cons.prems by auto
  have mem: "unat e \<in> region_addrs r" "\<forall>x \<in> region_addrs r. x \<le> unat e"
    using e(2) Cons.prems by (auto simp: region_addrs_def word_less_nat_alt)
  let ?a = "if rg_ty r \<noteq> DAXMemory \<and> e > a then e else a"
  have step: "last_addr_from a (r # rs) = last_addr_from ?a rs" using e(1) by simp
  obtain e' where e': "last_addr_from ?a rs = Some e'" "?a \<le> e'"
      "\<forall>r \<in> set rs. rg_ty r \<noteq> DAXMemory \<longrightarrow> (\<forall>x \<in> region_addrs r. x \<le> unat e')"
      "e' = ?a \<or> (\<exists>r \<in> set rs. rg_ty r \<noteq> DAXMemory \<and> unat e' \<in> region_addrs r)"
    using Cons.IH [of ?a] Cons.prems by auto
  have "rg_ty r \<noteq> DAXMemory \<longrightarrow> (\<forall>x \<in> region_addrs r. x \<le> unat e')"
    using mem(2) e'(2) by (fastforce simp: word_nat split: if_splits)
  moreover have "a \<le> e'" using e'(2) by (auto split: if_splits)
  moreover have "e' = a \<or> (\<exists>r \<in> set (r # rs). rg_ty r \<noteq> DAXMemory \<and> unat e' \<in> region_addrs r)"
    using e'(4) mem(1) by (auto split: if_splits)
  ultimately show ?case unfolding step using e'(1,3) by auto
qed simp

end
