(* ===== verification/Address_Space_Mgr.thy ===== *)
theory Address_Space_Mgr
  imports Address_Space ResourceManager
begin

text \<open>
  The manager of guest memory (\<open>dragonball/src/address_space_manager.rs\<close>): it lays out the memory of a
  virtual machine around the hole for memory-mapped registers, takes the addresses and the memory
  slots from the resource manager, maps the memory and registers it with KVM.

  The operations run on a context: the manager itself, the resource manager, the parameters of the
  builder, and the state of the operating system and of KVM, whose calls are the record \<open>VmSys\<close>. A guest
  memory object is the list of regions that were inserted; whether an insertion fails is for the
  library that provides it. Log messages are taken to be enabled, so their arguments are computed.
\<close>

section \<open>Parameters\<close>

definition MAX_PRE_ALLOC_THREAD :: u64 where "MAX_PRE_ALLOC_THREAD = 16"
definition PRE_ALLOC_GRANULARITY :: nat where "PRE_ALLOC_GRANULARITY = 32"
definition MAX_NODE :: u32 where "MAX_NODE = 64"
definition MINIMAL_SPLIT_SPACE :: u64 where "MINIMAL_SPLIT_SPACE = 0x8000000"

datatype AddressManagerError =
    AmInvalidOperation
  | AmInvalidAddressRange u64 u64
  | NoAvailableMemAddress
  | NoAvailableKvmSlot
  | AmCreateMemFd nat
  | AmOpenFile nat
  | FileInvalid string
  | TypeInvalid string
  | AmSetFileSize nat
  | AmUnlinkFile nat
  | DupFd nat
  | AccessGuestMemory u64 nat
  | CreateGuestMemory nat
  | GuestMemoryNotInitialized
  | MmapGuestMemory nat
  | KvmSetMemorySlot nat
  | Madvise nat
  | JoinFail
  | CreateAddressSpaceRegion AddressSpaceError

record NumaRegionInfo =
  info_size :: u64
  info_host_node :: "u32 option"
  info_guest_node :: "u32 option"
  info_vcpu_ids :: "u32 list"

record AddressSpaceMgrBuilder =
  mem_type :: string
  mem_file :: string
  mem_index :: u32
  mem_suffix :: bool
  mem_prealloc :: bool
  dirty_page_logging :: bool
  vmfd :: "nat option"

definition builder_new :: "string \<Rightarrow> string \<Rightarrow> AddressManagerError + AddressSpaceMgrBuilder" where
  "builder_new ty file =
     (if ty = [] then Inl (TypeInvalid ty)
      else Inr \<lparr>mem_type = ty, mem_file = file, mem_index = 0, mem_suffix = True, mem_prealloc = False,
                dirty_page_logging = False, vmfd = None\<rparr>)"

definition toggle_file_suffix :: "bool \<Rightarrow> AddressSpaceMgrBuilder \<Rightarrow> AddressSpaceMgrBuilder" where
  "toggle_file_suffix enabled self = self\<lparr>mem_suffix := enabled\<rparr>"

definition toggle_prealloc :: "bool \<Rightarrow> AddressSpaceMgrBuilder \<Rightarrow> AddressSpaceMgrBuilder" where
  "toggle_prealloc prealloc self = self\<lparr>mem_prealloc := prealloc\<rparr>"

definition toggle_dirty_page_logging :: "bool \<Rightarrow> AddressSpaceMgrBuilder \<Rightarrow> AddressSpaceMgrBuilder" where
  "toggle_dirty_page_logging logging self = self\<lparr>dirty_page_logging := logging\<rparr>"

definition set_kvm_vm_fd :: "nat \<Rightarrow> AddressSpaceMgrBuilder \<Rightarrow> nat option \<times> AddressSpaceMgrBuilder" where
  "set_kvm_vm_fd fd self = (vmfd self, self\<lparr>vmfd := Some fd\<rparr>)"

fun show_nat :: "nat \<Rightarrow> string" where
  "show_nat n = (if n < 10 then [char_of (48 + n)] else show_nat (n div 10) @ [char_of (48 + n mod 10)])"

declare show_nat.simps [simp del]

definition get_next_mem_file :: "AddressSpaceMgrBuilder \<Rightarrow> (string \<times> AddressSpaceMgrBuilder) rust" where
  "get_next_mem_file self =
     (if mem_suffix self
      then do {
        let path = mem_file self @ show_nat (unat (mem_index self));
        i \<leftarrow> uadd (mem_index self) 1;
        ret (path, self\<lparr>mem_index := i\<rparr>)
      }
      else ret (mem_file self, self))"

section \<open>The manager and its context\<close>

record MmapRegion =
  mm_ptr :: u64
  mm_size :: u64

record GuestRegion =
  gr_mmap :: MmapRegion
  gr_base :: u64

text \<open>A thread that touches pages is its first and last page and its start address.\<close>

record AddressSpaceMgr =
  mgr_address_space :: "AddressSpace option"
  vm_as :: "GuestRegion list option"
  base_to_slot :: "u64 \<rightharpoonup> u32"
  prealloc_handlers :: "(u64 \<times> u64 \<times> u64) list"
  prealloc_exit :: bool
  numa_nodes :: "u32 \<rightharpoonup> NumaNode"

definition AddressSpaceMgr_default :: AddressSpaceMgr where
  "AddressSpaceMgr_default = \<lparr>mgr_address_space = None, vm_as = None, base_to_slot = Map.empty,
     prealloc_handlers = [], prealloc_exit = False, numa_nodes = Map.empty\<rparr>"

datatype MmapAdvise = MADV_DONTFORK | MADV_HUGEPAGE

record 'w VmSys = "'w MemSys" +
  dup_fd :: "nat \<Rightarrow> 'w \<Rightarrow> (nat + nat) \<times> 'w"
  mmap_build :: "(nat \<times> u64) option \<Rightarrow> u64 \<Rightarrow> i32 \<Rightarrow> i32 \<Rightarrow> 'w \<Rightarrow> (nat + u64) \<times> 'w"
  madvise :: "u64 \<Rightarrow> u64 \<Rightarrow> MmapAdvise \<Rightarrow> 'w \<Rightarrow> (nat + unit) \<times> 'w"
  mbind :: "u64 \<Rightarrow> u64 \<Rightarrow> u64 \<Rightarrow> 'w \<Rightarrow> 'w"
  guest_region_new :: "MmapRegion \<Rightarrow> u64 \<Rightarrow> nat option"
  vm_insert_region :: "GuestRegion list \<Rightarrow> GuestRegion \<Rightarrow> nat option"
  get_host_address :: "GuestRegion \<Rightarrow> u64 option"
  set_user_memory_region :: "nat \<Rightarrow> u32 \<Rightarrow> u64 \<Rightarrow> u64 \<Rightarrow> u64 \<Rightarrow> 'w \<Rightarrow> (nat + unit) \<times> 'w"
  spawn_thread :: "'w \<Rightarrow> bool \<times> 'w"

record 'w AsCtx =
  ctx_mgr :: AddressSpaceMgr
  ctx_res :: ResourceManager
  ctx_param :: AddressSpaceMgrBuilder
  ctx_sys :: 'w

text \<open>An operation on the system, with the conversion of its error; a call that cannot fail.\<close>

definition on_sys :: "('e \<Rightarrow> 'f) \<Rightarrow> ('w, 'e, 'a) op \<Rightarrow> ('w AsCtx, 'f, 'a) op" where
  "on_sys err m = (\<lambda>ctx. do {
     (r, w) \<leftarrow> m (ctx_sys ctx);
     let ctx = ctx\<lparr>ctx_sys := w\<rparr>;
     (case r of Inl e \<Rightarrow> ret (Inl (err e), ctx) | Inr a \<Rightarrow> ret (Inr a, ctx))
   })"

definition sys_call :: "(nat \<Rightarrow> 'e) \<Rightarrow> ('w \<Rightarrow> (nat + 'a) \<times> 'w) \<Rightarrow> ('w AsCtx, 'e, 'a) op" where
  "sys_call err f = on_sys id (call err f)"

definition modify_mgr :: "(AddressSpaceMgr \<Rightarrow> AddressSpaceMgr) \<Rightarrow> ('w AsCtx, 'e, unit) op" where
  "modify_mgr f = (\<lambda>ctx. ret (Inr (), ctx\<lparr>ctx_mgr := f (ctx_mgr ctx)\<rparr>))"

definition insert_into_numa_nodes ::
  "AddressSpaceRegion \<Rightarrow> u32 \<Rightarrow> u32 list \<Rightarrow> AddressSpaceMgr \<Rightarrow> AddressSpaceMgr" where
  "insert_into_numa_nodes region guest_numa_node_id vcpu_ids self =
     (let node = (case numa_nodes self guest_numa_node_id of Some n \<Rightarrow> n | None \<Rightarrow> NumaNode_new);
          node = add_info \<lparr>ni_base = rg_base region, ni_size = rg_size region\<rparr> node;
          node = add_vcpu_ids vcpu_ids node
      in self\<lparr>numa_nodes := (numa_nodes self)(guest_numa_node_id \<mapsto> node)\<rparr>)"

definition next_mem_file :: "('w AsCtx, 'e, string) op" where
  "next_mem_file = (\<lambda>ctx. do {
     (path, param) \<leftarrow> get_next_mem_file (ctx_param ctx);
     ret (Inr path, ctx\<lparr>ctx_param := param\<rparr>)
   })"

definition create_region ::
  "('w, 'z) VmSys_scheme \<Rightarrow> u64 \<Rightarrow> u64 \<Rightarrow> NumaRegionInfo \<Rightarrow> ('w AsCtx, AddressManagerError, AddressSpaceRegion) op" where
  "create_region sys start_addr size_bytes info =
     attempt next_mem_file (\<lambda>mem_file_path ctx.
     attempt (on_sys CreateAddressSpaceRegion
       (create_default_memory_region (MemSys.truncate sys) start_addr size_bytes (info_host_node info)
          (mem_type (ctx_param ctx)) mem_file_path (mem_prealloc (ctx_param ctx)) False)) (\<lambda>region.
     attempt (modify_mgr (insert_into_numa_nodes region
       (case info_guest_node info of Some n \<Rightarrow> n | None \<Rightarrow> 0) (info_vcpu_ids info))) (\<lambda>_.
     attempt (pure (uadd start_addr size_bytes)) (\<lambda>_.
     ok region))) ctx)"

section \<open>Mapping\<close>

definition configure_anon_mem :: "('w, 'z) VmSys_scheme \<Rightarrow> MmapRegion \<Rightarrow> ('w AsCtx, AddressManagerError, unit) op" where
  "configure_anon_mem sys mmap_reg = sys_call Madvise (madvise sys (mm_ptr mmap_reg) (mm_size mmap_reg) MADV_DONTFORK)"

text \<open>A failure of \<open>mbind\<close> is only logged.\<close>

definition configure_numa ::
  "('w, 'z) VmSys_scheme \<Rightarrow> MmapRegion \<Rightarrow> u32 \<Rightarrow> ('w AsCtx, AddressManagerError, unit) op" where
  "configure_numa sys mmap_reg node_id =
     (if node_id < 64
      then \<lambda>ctx. ret (Inr (), ctx\<lparr>ctx_sys := mbind sys (mm_ptr mmap_reg) (mm_size mmap_reg) (push_bit (unat node_id) 1) (ctx_sys ctx)\<rparr>)
      else fail AmInvalidOperation)"

definition PAGE_SIZE :: u64 where "PAGE_SIZE = 4096"
definition PAGE_SHIFT :: nat where "PAGE_SHIFT = 12"

definition touch_threads :: "u64 \<Rightarrow> u64 rust" where
  "touch_threads sz = do {
     n \<leftarrow> uadd (drop_bit PRE_ALLOC_GRANULARITY sz) 1;
     ret (if n > MAX_PRE_ALLOC_THREAD then MAX_PRE_ALLOC_THREAD else n)
   }"

text \<open>The pages of thread \<open>n\<close> and the address where it starts.\<close>

definition thread_range :: "u64 \<Rightarrow> u64 \<Rightarrow> u64 \<Rightarrow> u64 \<Rightarrow> u64 \<Rightarrow> (u64 \<times> u64 \<times> u64) rust" where
  "thread_range addr npage per_npage touch_thread n = do {
     start_npage \<leftarrow> umul per_npage n;
     last_thread \<leftarrow> usub touch_thread 1;
     end_npage \<leftarrow> (if n = last_thread then ret npage else do { m \<leftarrow> uadd n 1; umul per_npage m });
     off \<leftarrow> umul start_npage PAGE_SIZE;
     per_addr \<leftarrow> uadd addr off;
     ret (start_npage, end_npage, per_addr)
   }"

fun spawn_loop ::
  "('w, 'z) VmSys_scheme \<Rightarrow> u64 \<Rightarrow> u64 \<Rightarrow> u64 \<Rightarrow> u64 \<Rightarrow> nat list \<Rightarrow> ('w AsCtx, AddressManagerError, unit) op" where
  "spawn_loop sys addr npage per_npage touch_thread [] = ok ()"
| "spawn_loop sys addr npage per_npage touch_thread (n # ns) =
     attempt (pure (thread_range addr npage per_npage touch_thread (of_nat n))) (\<lambda>job ctx.
       (case spawn_thread sys (ctx_sys ctx) of (started, w) \<Rightarrow>
          let ctx = ctx\<lparr>ctx_sys := w\<rparr>;
              ctx = (if started
                     then ctx\<lparr>ctx_mgr := (ctx_mgr ctx)\<lparr>prealloc_handlers := prealloc_handlers (ctx_mgr ctx) @ [job]\<rparr>\<rparr>
                     else ctx)
          in spawn_loop sys addr npage per_npage touch_thread ns ctx))"

definition configure_thp_and_prealloc ::
  "('w, 'z) VmSys_scheme \<Rightarrow> AddressSpaceRegion \<Rightarrow> MmapRegion \<Rightarrow> ('w AsCtx, AddressManagerError, unit) op" where
  "configure_thp_and_prealloc sys region mmap_reg =
     attempt (sys_call Madvise (madvise sys (mm_ptr mmap_reg) (mm_size mmap_reg) MADV_HUGEPAGE)) (\<lambda>_.
     if perm_flags region AND MAP_POPULATE \<noteq> 0
     then let npage = drop_bit PAGE_SHIFT (mm_size mmap_reg) in
          attempt (pure (touch_threads (mm_size mmap_reg))) (\<lambda>touch_thread.
          spawn_loop sys (mm_ptr mmap_reg) npage (npage div touch_thread) touch_thread [0..<unat touch_thread])
     else ok ())"

text \<open>The pages that a thread touches if it is not stopped: its start address, then in steps of a page.\<close>

definition touched :: "u64 \<times> u64 \<times> u64 \<Rightarrow> u64 list" where
  "touched = (\<lambda>(start_npage, end_npage, per_addr).
     map (\<lambda>i. per_addr + of_nat i * PAGE_SIZE) [0..<unat end_npage - unat start_npage])"

definition create_mmap_region ::
  "('w, 'z) VmSys_scheme \<Rightarrow> AddressSpaceRegion \<Rightarrow> ('w AsCtx, AddressManagerError, GuestRegion) op" where
  "create_mmap_region sys region =
     (if rg_ty region = DeviceMemory then fail AmInvalidOperation
      else
        attempt (case file_offset region of
                   Some (fd, start) \<Rightarrow> attempt (sys_call DupFd (dup_fd sys fd)) (\<lambda>fd. ok (Some (fd, start)))
                 | None \<Rightarrow> ok None) (\<lambda>file.
        let perm = (if perm_flags region AND MAP_POPULATE \<noteq> 0 \<and> is_hugepage region
                    then perm_flags region AND NOT MAP_POPULATE else perm_flags region) in
        attempt (sys_call MmapGuestMemory (mmap_build sys file (rg_size region) (PROT_READ OR PROT_WRITE) perm)) (\<lambda>ptr.
        let mmap_reg = \<lparr>mm_ptr = ptr, mm_size = rg_size region\<rparr> in
        attempt (if is_anon region then configure_anon_mem sys mmap_reg else ok ()) (\<lambda>_.
        attempt (case host_numa_node_id region of Some node_id \<Rightarrow> configure_numa sys mmap_reg node_id | None \<Rightarrow> ok ()) (\<lambda>_.
        attempt (if is_hugepage region then configure_thp_and_prealloc sys region mmap_reg else ok ()) (\<lambda>_.
        case guest_region_new sys mmap_reg (rg_base region) of
          Some n \<Rightarrow> fail (CreateGuestMemory n)
        | None \<Rightarrow> ok \<lparr>gr_mmap = mmap_reg, gr_base = rg_base region\<rparr>))))))"

definition map_to_kvm ::
  "('w, 'z) VmSys_scheme \<Rightarrow> AddressSpaceRegion \<Rightarrow> GuestRegion \<Rightarrow> ('w AsCtx, AddressManagerError, unit) op" where
  "map_to_kvm sys reg mmap_reg ctx = do {
     (slot, res) \<leftarrow> allocate_kvm_mem_slot (ctx_res ctx) 1 None;
     attempt (or_fail NoAvailableKvmSlot slot) (\<lambda>slot ctx.
       attempt (case vmfd (ctx_param ctx) of
                  Some fd \<Rightarrow>
                    attempt (or_fail AmInvalidOperation (get_host_address sys mmap_reg)) (\<lambda>host_addr.
                      sys_call KvmSetMemorySlot (set_user_memory_region sys fd slot (rg_base reg) (rg_size reg) host_addr))
                | None \<Rightarrow> ok ()) (\<lambda>_.
       modify_mgr (\<lambda>self. self\<lparr>base_to_slot := (base_to_slot self)(rg_base reg \<mapsto> slot)\<rparr>)) ctx)
       (ctx\<lparr>ctx_res := res\<rparr>)
   }"

section \<open>Layout of the memory\<close>

text \<open>Where the memory of one node goes: one region, or two around the hole; with the address for the
  next node. The shift by 20 cannot exceed the width, so it never gives an error.\<close>

definition place_whole ::
  "('w, 'z) VmSys_scheme \<Rightarrow> u64 \<Rightarrow> u64 \<Rightarrow> NumaRegionInfo \<Rightarrow> ('w AsCtx, AddressManagerError, AddressSpaceRegion list \<times> u64) op" where
  "place_whole sys start_addr sz info =
     attempt (create_region sys start_addr sz info) (\<lambda>region.
     attempt (or_fail AmInvalidOperation (checked_add start_addr sz)) (\<lambda>next.
     ok ([region], next)))"

definition place_above ::
  "('w, 'z) VmSys_scheme \<Rightarrow> u64 \<Rightarrow> NumaRegionInfo \<Rightarrow> u64 \<Rightarrow> AddressSpaceRegion list \<Rightarrow>
    ('w AsCtx, AddressManagerError, AddressSpaceRegion list \<times> u64) op" where
  "place_above sys sz info below_size below =
     attempt (pure (uadd MMIO_LOW_END 1)) (\<lambda>above_start.
     attempt (or_fail AmInvalidOperation (checked_sub sz below_size)) (\<lambda>above_size.
     attempt (create_region sys above_start above_size info) (\<lambda>region.
     attempt (or_fail AmInvalidOperation (checked_add above_start above_size)) (\<lambda>next.
     ok (below @ [region], next)))))"

definition place_split ::
  "('w, 'z) VmSys_scheme \<Rightarrow> u64 \<Rightarrow> u64 \<Rightarrow> NumaRegionInfo \<Rightarrow> ('w AsCtx, AddressManagerError, AddressSpaceRegion list \<times> u64) op" where
  "place_split sys start_addr sz info =
     attempt (or_fail AmInvalidOperation (checked_sub MMIO_LOW_START start_addr)) (\<lambda>below_size.
     if below_size < MINIMAL_SPLIT_SPACE then place_above sys sz info 0 []
     else attempt (create_region sys start_addr below_size info) (\<lambda>region.
          place_above sys sz info below_size [region]))"

definition place_region ::
  "('w, 'z) VmSys_scheme \<Rightarrow> u64 \<Rightarrow> NumaRegionInfo \<Rightarrow> ('w AsCtx, AddressManagerError, AddressSpaceRegion list \<times> u64) op" where
  "place_region sys start_addr info =
     (let sz = push_bit 20 (info_size info) in
      if start_addr > MMIO_LOW_END then place_whole sys start_addr sz info
      else attempt (pure (uadd start_addr sz)) (\<lambda>e.
           if e \<le> MMIO_LOW_START then place_whole sys start_addr sz info else place_split sys start_addr sz info))"

fun place_regions ::
  "('w, 'z) VmSys_scheme \<Rightarrow> u64 \<Rightarrow> NumaRegionInfo list \<Rightarrow> ('w AsCtx, AddressManagerError, AddressSpaceRegion list) op" where
  "place_regions sys start_addr [] = ok []"
| "place_regions sys start_addr (info # infos) =
     attempt (place_region sys start_addr info) (\<lambda>(rs, next).
     attempt (place_regions sys next infos) (\<lambda>rest.
     ok (rs @ rest)))"

text \<open>The loop that takes the addresses and maps the regions.\<close>

fun map_regions ::
  "('w, 'z) VmSys_scheme \<Rightarrow> GuestRegion list \<Rightarrow> AddressSpaceRegion list \<Rightarrow> ('w AsCtx, AddressManagerError, GuestRegion list) op" where
  "map_regions sys vm [] = ok vm"
| "map_regions sys vm (reg # regs) =
     attempt (pure (region_last_addr reg)) (\<lambda>last ctx. do {
       let c = Constraint_max (Constraint_min (Constraint_new (rg_size reg)) (rg_base reg)) last;
       (key, res) \<leftarrow> allocate_mem_address (ctx_res ctx) c;
       attempt (or_fail NoAvailableMemAddress key) (\<lambda>_.
       attempt (create_mmap_region sys reg) (\<lambda>mmap_reg.
       case vm_insert_region sys vm mmap_reg of
         Some n \<Rightarrow> fail (CreateGuestMemory n)
       | None \<Rightarrow>
           attempt (map_to_kvm sys reg mmap_reg) (\<lambda>_.
           map_regions sys (vm @ [mmap_reg]) regs))) (ctx\<lparr>ctx_res := res\<rparr>)
     })"

definition create_address_space ::
  "('w, 'z) VmSys_scheme \<Rightarrow> u64 \<Rightarrow> u64 \<Rightarrow> NumaRegionInfo list \<Rightarrow> ('w AsCtx, AddressManagerError, unit) op" where
  "create_address_space sys host_end pe numa_region_infos =
     attempt (place_regions sys GUEST_MEM_START numa_region_infos) (\<lambda>regions.
     attempt (map_regions sys [] regions) (\<lambda>vm.
     attempt (modify_mgr (\<lambda>self. self\<lparr>vm_as := Some vm\<rparr>)) (\<lambda>_.
     attempt (pure (AddressSpace_from_regions regions (layout_new host_end pe GUEST_MEM_START (GUEST_MEM_END pe)))) (\<lambda>space.
     modify_mgr (\<lambda>self. self\<lparr>mgr_address_space := Some space\<rparr>)))))"

definition builder_build ::
  "('w, 'z) VmSys_scheme \<Rightarrow> u64 \<Rightarrow> u64 \<Rightarrow> AddressSpaceMgrBuilder \<Rightarrow> NumaRegionInfo list \<Rightarrow> ResourceManager \<Rightarrow> 'w \<Rightarrow>
    ((AddressManagerError + unit) \<times> 'w AsCtx) rust" where
  "builder_build sys host_end pe self numa_region_infos res w =
     create_address_space sys host_end pe numa_region_infos
       \<lparr>ctx_mgr = AddressSpaceMgr_default, ctx_res = res, ctx_param = self, ctx_sys = w\<rparr>"

section \<open>Queries\<close>

definition is_initialized :: "AddressSpaceMgr \<Rightarrow> bool" where
  "is_initialized self \<longleftrightarrow> mgr_address_space self \<noteq> None"

definition get_layout :: "AddressSpaceMgr \<Rightarrow> AddressManagerError + AddressSpaceLayout" where
  "get_layout self =
     (case mgr_address_space self of
        Some space \<Rightarrow> Inr (AddressSpace_layout space)
      | None \<Rightarrow> Inl GuestMemoryNotInitialized)"

text \<open>The handlers are joined from the last one; \<open>joins\<close> says whether the thread ended normally.\<close>

function wait_prealloc_loop :: "(u64 \<times> u64 \<times> u64 \<Rightarrow> bool) \<Rightarrow> AddressSpaceMgr \<Rightarrow> (AddressManagerError + unit) \<times> AddressSpaceMgr" where
  "wait_prealloc_loop joins self =
     (if prealloc_handlers self = [] then (Inr (), self)
      else let handler = last (prealloc_handlers self);
               self = self\<lparr>prealloc_handlers := butlast (prealloc_handlers self)\<rparr>
           in if joins handler then wait_prealloc_loop joins self else (Inl JoinFail, self))"
  by auto

termination
  by (relation "measure (\<lambda>(joins, self). length (prealloc_handlers self))") auto

declare wait_prealloc_loop.simps [simp del]

definition wait_prealloc ::
  "(u64 \<times> u64 \<times> u64 \<Rightarrow> bool) \<Rightarrow> bool \<Rightarrow> AddressSpaceMgr \<Rightarrow> (AddressManagerError + unit) \<times> AddressSpaceMgr" where
  "wait_prealloc joins stop self = wait_prealloc_loop joins (if stop then self\<lparr>prealloc_exit := True\<rparr> else self)"

end
