(* ===== verification/Address_Space_Mgr_Lemmas.thy ===== *)
theory Address_Space_Mgr_Lemmas
  imports Address_Space_Lemmas Address_Space_Mgr ResourceManager_Props
begin

text \<open>
  How the memory of a machine is laid out, what the two loops of the creation of an address space
  do when the calls to the system succeed, and how they use the pools of the resource manager.
\<close>

section \<open>The layout as a function of the sizes\<close>

text \<open>The places of memory blocks one after the other, around the hole from 3 GiB to 4 GiB; a block that
  reaches the hole is split unless less than 128 MiB would be below.\<close>

fun spans :: "nat \<Rightarrow> nat list \<Rightarrow> (nat \<times> nat) list" where
  "spans a [] = []"
| "spans a (n # ns) =
     (if a \<ge> 2 ^ 32 \<or> a + n \<le> 3 * 2 ^ 30 then (a, n) # spans (a + n) ns
      else if 3 * 2 ^ 30 - a < 2 ^ 27 then (2 ^ 32, n) # spans (2 ^ 32 + n) ns
      else (a, 3 * 2 ^ 30 - a) # (2 ^ 32, n - (3 * 2 ^ 30 - a)) # spans (2 ^ 32 + n - (3 * 2 ^ 30 - a)) ns)"

definition span_end :: "nat \<Rightarrow> (nat \<times> nat) list \<Rightarrow> nat" where
  "span_end a sp = (if sp = [] then a else fst (last sp) + snd (last sp))"

lemma span_end_simps [simp]:
  "span_end a [] = a" "span_end a ((b, n) # sp) = span_end (b + n) sp"
  by (simp_all add: span_end_def)

lemma spans_total: "sum_list (map snd (spans a ns)) = sum_list ns"
  by (induction a ns rule: spans.induct) auto

lemma spans_sorted:
  "a \<le> 3 * 2 ^ 30 \<or> 2 ^ 32 \<le> a \<Longrightarrow> sorted_wrt (\<lambda>(b, n) (c, m). b + n \<le> c) (spans a ns) \<and> (\<forall>(b, n) \<in> set (spans a ns). a \<le> b)"
proof (induction a ns rule: spans.induct)
  case (2 a n ns)
  consider "a \<ge> 2 ^ 32 \<or> a + n \<le> 3 * 2 ^ 30" | "\<not> (a \<ge> 2 ^ 32 \<or> a + n \<le> 3 * 2 ^ 30)" "3 * 2 ^ 30 - a < 2 ^ 27"
    | "\<not> (a \<ge> 2 ^ 32 \<or> a + n \<le> 3 * 2 ^ 30)" "\<not> 3 * 2 ^ 30 - a < 2 ^ 27" by blast
  then show ?case
  proof cases
    case 1
    then have "a + n \<le> 3 * 2 ^ 30 \<or> 2 ^ 32 \<le> a + n" by linarith
    from "2.IH"(1) [OF 1 this] show ?thesis using 1 by fastforce
  next
    case 2
    from "2.IH"(2) [OF 2] show ?thesis using 2 "2.prems" by fastforce
  next
    case 3
    from "2.IH"(3) [OF 3] show ?thesis using 3 "2.prems" by fastforce
  qed
qed simp

lemma spans_hole:
  "a \<le> 3 * 2 ^ 30 \<or> 2 ^ 32 \<le> a \<Longrightarrow> (b, n) \<in> set (spans a ns) \<Longrightarrow> b + n \<le> 3 * 2 ^ 30 \<or> 2 ^ 32 \<le> b"
  by (induction a ns rule: spans.induct) (auto split: if_splits)

lemma spans_pos:
  "\<forall>n \<in> set ns. 0 < n \<Longrightarrow> a \<le> 3 * 2 ^ 30 \<or> 2 ^ 32 \<le> a \<Longrightarrow> (b, n) \<in> set (spans a ns) \<Longrightarrow> 0 < n"
  by (induction a ns rule: spans.induct) (auto split: if_splits)

lemma spans_below_end:
  "(b, n) \<in> set (spans a ns) \<Longrightarrow> a \<le> 3 * 2 ^ 30 \<or> 2 ^ 32 \<le> a \<Longrightarrow> b + n \<le> span_end a (spans a ns)"
proof (induction a ns rule: spans.induct)
  case (2 a n' ns)
  have mono: "x \<le> span_end x (spans x ns)" if "x \<le> 3 * 2 ^ 30 \<or> 2 ^ 32 \<le> x" for x
    using spans_sorted [OF that, of ns] by (cases "spans x ns" rule: rev_cases) (auto simp: span_end_def)
  show ?case using 2 mono [of "a + n'"] mono [of "2 ^ 32 + n'"] mono [of "2 ^ 32 + n' - (3 * 2 ^ 30 - a)"]
    by (auto split: if_splits)
qed simp

lemma length_spans: "length (spans a ns) \<le> length ns + (if a < 2 ^ 32 then 1 else 0)"
  by (induction a ns rule: spans.induct) (auto split: if_splits)

section \<open>When the system works\<close>

text \<open>No call fails, a mapping lies inside the address space of the process, and the library refuses a guest memory region only where it is documented to: if it
  does not fit below the end of the address space or overlaps another one.\<close>

definition sys_works :: "('w, 'z) VmSys_scheme \<Rightarrow> bool" where
  "sys_works sys \<longleftrightarrow>
     (\<forall>name w. \<not> isl (fst (memfd_create sys name w))) \<and> (\<forall>fd n w. \<not> isl (fst (set_file_len sys fd n w))) \<and>
     (\<forall>name w. \<not> isl (fst (create_dir_all sys name w))) \<and> (\<forall>name w. \<not> isl (fst (open_create sys name w))) \<and>
     (\<forall>name w. \<not> isl (fst (unlink sys name w))) \<and> (\<forall>fd w. \<not> isl (fst (dup_fd sys fd w))) \<and>
     (\<forall>file n prot perm w. \<exists>p w'. mmap_build sys file n prot perm w = (Inr p, w') \<and> unat p + unat n \<le> 2 ^ 64) \<and>
     (\<forall>p n adv w. \<not> isl (fst (madvise sys p n adv w))) \<and>
     (\<forall>fd slot base n p w. \<not> isl (fst (set_user_memory_region sys fd slot base n p w))) \<and>
     (\<forall>g. get_host_address sys g \<noteq> None) \<and>
     (\<forall>m base. unat base + unat (mm_size m) \<le> 2 ^ 64 \<longrightarrow> guest_region_new sys m base = None) \<and>
     (\<forall>gs g. (\<forall>h \<in> set gs. unat (gr_base h) + unat (mm_size (gr_mmap h)) \<le> unat (gr_base g) \<or>
        unat (gr_base g) + unat (mm_size (gr_mmap g)) \<le> unat (gr_base h)) \<longrightarrow> vm_insert_region sys gs g = None)"

lemma sys_worksD:
  assumes "sys_works sys"
  shows "\<not> isl (fst (memfd_create sys name w))" "\<not> isl (fst (set_file_len sys fd n w))"
    "\<not> isl (fst (create_dir_all sys name w))" "\<not> isl (fst (open_create sys name w))"
    "\<not> isl (fst (unlink sys name w))" "\<not> isl (fst (dup_fd sys fd w))"
    "\<exists>p w'. mmap_build sys file n prot perm w = (Inr p, w') \<and> unat p + unat n \<le> 2 ^ 64" "\<not> isl (fst (madvise sys p n adv w))"
    "\<not> isl (fst (set_user_memory_region sys fd slot base n p w))" "get_host_address sys g \<noteq> None"
    "unat base + unat (mm_size m) \<le> 2 ^ 64 \<Longrightarrow> guest_region_new sys m base = None"
    "\<forall>h \<in> set gs. unat (gr_base h) + unat (mm_size (gr_mmap h)) \<le> unat (gr_base g) \<or>
        unat (gr_base g) + unat (mm_size (gr_mmap g)) \<le> unat (gr_base h) \<Longrightarrow> vm_insert_region sys gs g = None"
  using assms by (simp_all add: sys_works_def)

lemma truncate_simps:
  "memfd_create (MemSys.truncate sys) = memfd_create sys" "set_file_len (MemSys.truncate sys) = set_file_len sys"
  "create_dir_all (MemSys.truncate sys) = create_dir_all sys" "open_create (MemSys.truncate sys) = open_create sys"
  "unlink (MemSys.truncate sys) = unlink sys"
  by (simp_all add: MemSys.truncate_def)

definition default_region :: "u64 \<Rightarrow> u64 \<Rightarrow> u32 option \<Rightarrow> AddressSpaceRegion \<Rightarrow> bool" where
  "default_region base n numa r \<longleftrightarrow> rg_ty r = DefaultMemory \<and> rg_base r = base \<and> rg_size r = n \<and> host_numa_node_id r = numa"

lemma region_build_default [simp]: "default_region base n numa (region_build DefaultMemory base n numa file perm prot hotplug)"
  by (simp add: default_region_def region_build_def region_new_def Let_def)

lemma default_region_flags [simp]:
  "default_region base n numa (r\<lparr>is_hugepage := b\<rparr>) \<longleftrightarrow> default_region base n numa r"
  "default_region base n numa (r\<lparr>is_anon := b\<rparr>) \<longleftrightarrow> default_region base n numa r"
  by (simp_all add: default_region_def)

lemma create_memory_works:
  assumes "sys_works sys" "source_from_str ty \<noteq> None"
  shows "gives (create_default_memory_region (MemSys.truncate sys) base n numa ty path prealloc hotplug) w
    (\<lambda>r w'. default_region base n numa r)"
proof -
  obtain st where st: "source_from_str ty = Some st" using assms(2) by blast
  note works = sys_worksD(1-5) [OF assms(1)]
  let ?P = "\<lambda>r w. default_region base n numa r"
  have on_file: "gives (attempt (call OpenFile (open_create sys path)) (\<lambda>fd. attempt (call UnlinkFile (unlink sys path))
      (\<lambda>_. attempt (call SetFileSize (set_file_len sys fd n)) (\<lambda>_. ok (region_build DefaultMemory base n numa (Some (fd, 0)) perm prot hotplug))))) w ?P"
    for perm prot w
    by (intro gives_attempt [OF gives_call [OF works(4), of "\<lambda>_ _. True"]]
        gives_attempt [OF gives_call [OF works(5), of "\<lambda>_ _. True"]]
        gives_attempt [OF gives_call [OF works(2), of "\<lambda>_ _. True"]] gives_ok) simp_all
  have dir: "gives (case path_parent path of None \<Rightarrow> ok () | Some d \<Rightarrow> call CreateDir (create_dir_all sys d)) w (\<lambda>_ _. True)" for w
    by (intro gives_option gives_ok gives_call works) simp_all
  have memfd: "gives (attempt (call CreateMemFd (memfd_create sys name)) (\<lambda>fd. attempt (call SetFileSize (set_file_len sys fd n))
      (\<lambda>_. ok (region_build DefaultMemory base n numa (Some (fd, 0)) perm prot hotplug)))) w ?P" for name perm prot w
    by (intro gives_attempt [OF gives_call [OF works(1), of "\<lambda>_ _. True"]]
        gives_attempt [OF gives_call [OF works(2), of "\<lambda>_ _. True"]] gives_ok) simp_all
  show ?thesis
    unfolding create_default_memory_region_def create_memory_region_def Let_def st option.case truncate_simps
    by (rule gives_attempt [of _ _ ?P], intro gives_if memfd gives_attempt [OF dir] on_file)
      (auto intro!: gives_ok)
qed

text \<open>What the creation of regions keeps of the context.\<close>

definition same_but_param :: "nat \<Rightarrow> 'w AsCtx \<Rightarrow> 'w AsCtx \<Rightarrow> bool" where
  "same_but_param k ctx ctx' \<longleftrightarrow> ctx_res ctx' = ctx_res ctx \<and> base_to_slot (ctx_mgr ctx') = base_to_slot (ctx_mgr ctx) \<and>
     mem_type (ctx_param ctx') = mem_type (ctx_param ctx) \<and> vmfd (ctx_param ctx') = vmfd (ctx_param ctx) \<and>
     unat (mem_index (ctx_param ctx')) \<le> unat (mem_index (ctx_param ctx)) + k"

lemma same_but_param_trans:
  "same_but_param j ctx ctx' \<Longrightarrow> same_but_param k ctx' ctx'' \<Longrightarrow> same_but_param (j + k) ctx ctx''"
  by (simp add: same_but_param_def)

lemma gives_on_sys: "gives m (ctx_sys ctx) (\<lambda>a w. P a (ctx\<lparr>ctx_sys := w\<rparr>)) \<Longrightarrow> gives (on_sys err m) ctx P"
  by (fastforce simp: gives_def on_sys_def)

lemma gives_sys_call: "\<not> isl (fst (f (ctx_sys ctx))) \<Longrightarrow> (\<And>a w. P a (ctx\<lparr>ctx_sys := w\<rparr>)) \<Longrightarrow> gives (sys_call err f) ctx P"
  unfolding sys_call_def by (intro gives_on_sys gives_call)

lemma gives_modify: "P () (ctx\<lparr>ctx_mgr := f (ctx_mgr ctx)\<rparr>) \<Longrightarrow> gives (modify_mgr f) ctx P"
  by (simp add: gives_def modify_mgr_def)

lemma gives_next_file:
  assumes "unat (mem_index (ctx_param ctx)) + 1 < 2 ^ 32"
  shows "gives next_mem_file ctx (\<lambda>_. same_but_param 1 ctx)"
proof -
  obtain i where i: "uadd (mem_index (ctx_param ctx)) 1 = Some i" using assms by (simp add: checked_add_def)
  then show ?thesis using checked_add_Some_unat [OF i]
    by (simp add: gives_def next_mem_file_def get_next_mem_file_def same_but_param_def)
qed

lemma gives_create_region:
  assumes "sys_works sys" "source_from_str (mem_type (ctx_param ctx)) \<noteq> None" "unat (mem_index (ctx_param ctx)) + 1 < 2 ^ 32"
    "unat a + unat n < 2 ^ 64"
  shows "gives (create_region sys a n info) ctx (\<lambda>r ctx'. default_region a n (info_host_node info) r \<and> same_but_param 1 ctx ctx')"
proof -
  obtain e where e: "uadd a n = Some e" using assms(4) by (simp add: checked_add_def)
  let ?Q = "\<lambda>r ctx'. default_region a n (info_host_node info) r \<and> same_but_param 1 ctx ctx'"
  have rest: "gives (attempt (on_sys CreateAddressSpaceRegion
       (create_default_memory_region (MemSys.truncate sys) a n (info_host_node info)
          (mem_type (ctx_param ctx')) path (mem_prealloc (ctx_param ctx')) False)) (\<lambda>region.
         attempt (modify_mgr (insert_into_numa_nodes region
           (case info_guest_node info of None \<Rightarrow> 0 | Some n \<Rightarrow> n) (info_vcpu_ids info))) (\<lambda>_.
         attempt (pure (uadd a n)) (\<lambda>_. ok region)))) ctx' ?Q" if same: "same_but_param 1 ctx ctx'" for path ctx'
  proof (rule gives_attempt [of _ _ ?Q])
    have ty: "source_from_str (mem_type (ctx_param ctx')) \<noteq> None" using assms(2) same by (simp add: same_but_param_def)
    show "gives (on_sys CreateAddressSpaceRegion
       (create_default_memory_region (MemSys.truncate sys) a n (info_host_node info)
          (mem_type (ctx_param ctx')) path (mem_prealloc (ctx_param ctx')) False)) ctx' ?Q"
      by (rule gives_on_sys [OF gives_weaken [OF create_memory_works [OF assms(1) ty]]]) (use same in \<open>simp add: same_but_param_def\<close>)
    show "gives (attempt (modify_mgr (insert_into_numa_nodes r (case info_guest_node info of None \<Rightarrow> 0 | Some n \<Rightarrow> n) (info_vcpu_ids info)))
        (\<lambda>_. attempt (pure (uadd a n)) (\<lambda>_. ok r))) s ?Q" if "?Q r s" for r s
      by (rule gives_attempt [of _ _ "\<lambda>_. ?Q r"], rule gives_modify)
        (use that in \<open>auto simp: same_but_param_def insert_into_numa_nodes_def Let_def intro!: gives_attempt [OF gives_pure [OF e, of "\<lambda>_. ?Q r"]] gives_ok\<close>)
  qed
  show ?thesis unfolding create_region_def
    by (rule gives_attempt [OF gives_next_file [OF assms(3)]]) (use rest in \<open>simp add: gives_def\<close>)
qed

section \<open>Placing the regions\<close>

definition region_span :: "AddressSpaceRegion \<Rightarrow> nat \<times> nat" where
  "region_span r = (unat (rg_base r), unat (rg_size r))"

definition plain :: "u32 option set \<Rightarrow> AddressSpaceRegion \<Rightarrow> bool" where
  "plain nodes r \<longleftrightarrow> rg_ty r = DefaultMemory \<and> host_numa_node_id r \<in> nodes"

definition info_bytes :: "NumaRegionInfo \<Rightarrow> nat" where
  "info_bytes info = unat (info_size info) * 2 ^ 20"

lemma default_region_span: "default_region a n numa r \<Longrightarrow> region_span r = (unat a, unat n) \<and> plain {numa} r"
  by (simp add: default_region_def region_span_def plain_def)

lemma unat_shift: "unat (info_size info) < 2 ^ 44 \<Longrightarrow> unat (push_bit 20 (info_size info)) = info_bytes info"
  by (simp add: info_bytes_def push_bit_eq_mult unat_word_ariths)

lemma spans_Cons: "spans a (n # ns) = spans a [n] @ spans (span_end a (spans a [n])) ns"
  by simp

lemma hole_defs: "unat MMIO_LOW_START = 3 * 2 ^ 30" "unat MMIO_LOW_END = 2 ^ 32 - 1" "unat MINIMAL_SPLIT_SPACE = 2 ^ 27"
  "uadd MMIO_LOW_END 1 = Some (2 ^ 32)" "unat (2 ^ 32 :: u64) = 2 ^ 32"
  by (simp_all add: MMIO_LOW_START_def MMIO_LOW_END_def MINIMAL_SPLIT_SPACE_def checked_add_def)

lemma gives_steps:
  "gives (attempt (ok x) f) s P = gives (f x) s P" "gives (attempt (pure (Some x)) f) s P = gives (f x) s P"
  "gives (attempt (or_fail e (Some x)) f) s P = gives (f x) s P" "gives (ok y) s P = P y s"
  by (simp_all add: gives_def attempt_def ok_def pure_def or_fail_def)

definition creates :: "('w, 'z) VmSys_scheme \<Rightarrow> nat \<Rightarrow> 'w AsCtx \<Rightarrow> bool" where
  "creates sys k ctx \<longleftrightarrow> sys_works sys \<and> source_from_str (mem_type (ctx_param ctx)) \<noteq> None \<and>
     unat (mem_index (ctx_param ctx)) + k < 2 ^ 32"

lemma creates_mono: "creates sys k ctx \<Longrightarrow> same_but_param j ctx ctx' \<Longrightarrow> i + j \<le> k \<Longrightarrow> creates sys i ctx'"
  by (auto simp: creates_def same_but_param_def)

lemma gives_create_next:
  assumes "creates sys 1 ctx" "unat b + unat n < 2 ^ 64"
    "\<And>r next ctx'. default_region b n (info_host_node info) r \<Longrightarrow> same_but_param 1 ctx ctx' \<Longrightarrow>
      unat next = unat b + unat n \<Longrightarrow> P (f r next) ctx'"
  shows "gives (attempt (create_region sys b n info) (\<lambda>r. attempt (or_fail AmInvalidOperation (checked_add b n)) (\<lambda>next. ok (f r next)))) ctx P"
proof -
  obtain e where e: "checked_add b n = Some e" using assms(2) by (simp add: checked_add_def)
  have "gives (create_region sys b n info) ctx (\<lambda>r ctx''. default_region b n (info_host_node info) r \<and> same_but_param 1 ctx ctx'')"
    using assms(1,2) by (intro gives_create_region) (auto simp: creates_def)
  then show ?thesis
    by (rule gives_attempt) (use checked_add_Some_unat [OF e] assms(3) in \<open>simp add: gives_steps e\<close>)
qed

definition placed_as :: "nat \<Rightarrow> nat list \<Rightarrow> u32 option set \<Rightarrow> AddressSpaceRegion list \<Rightarrow> bool" where
  "placed_as a ns nodes rs \<longleftrightarrow> map region_span rs = spans a ns \<and> (\<forall>r \<in> set rs. plain nodes r)"

end
