(* ===== verification/Address_Space_Place.thy ===== *)
theory Address_Space_Place
  imports Address_Space_Mgr_Lemmas
begin

text \<open>
  The first loop of the creation of an address space puts the regions where \<open>spans\<close> says.
\<close>

text \<open>The outcome of placing the memory of one node.\<close>

definition node_placed :: "u64 \<Rightarrow> NumaRegionInfo \<Rightarrow> 'w AsCtx \<Rightarrow> AddressSpaceRegion list \<times> u64 \<Rightarrow> 'w AsCtx \<Rightarrow> bool" where
  "node_placed a info ctx out ctx' \<longleftrightarrow> placed_as (unat a) [info_bytes info] {info_host_node info} (fst out) \<and>
     unat (snd out) = span_end (unat a) (spans (unat a) [info_bytes info]) \<and> same_but_param 2 ctx ctx'"

lemma same_but_param_refl [simp]: "same_but_param k ctx ctx"
  by (simp add: same_but_param_def)

lemma same_but_param_mono: "same_but_param j ctx ctx' \<Longrightarrow> j \<le> k \<Longrightarrow> same_but_param k ctx ctx'"
  by (auto simp: same_but_param_def)

lemma gives_place_whole:
  assumes "creates sys 2 ctx" "unat a + unat sz < 2 ^ 64" "unat sz = info_bytes info"
    "spans (unat a) [info_bytes info] = [(unat a, info_bytes info)]"
  shows "gives (place_whole sys a sz info) ctx (node_placed a info ctx)"
  unfolding place_whole_def
proof (rule gives_create_next)
  show "creates sys 1 ctx" using creates_mono [OF assms(1), of 0 ctx 1] by simp
  show "unat a + unat sz < 2 ^ 64" by (rule assms(2))
  fix r and nxt :: u64 and ctx' assume *: "default_region a sz (info_host_node info) r" "same_but_param 1 ctx ctx'" "unat nxt = unat a + unat sz"
  then show "node_placed a info ctx ([r], nxt) ctx'"
    using default_region_span [OF *(1)] assms(3,4) same_but_param_mono [OF *(2), of 2] by (simp add: node_placed_def placed_as_def)
qed

lemma gives_place_above:
  assumes "creates sys 1 ctx'" "same_but_param 1 ctx ctx'" "unat sz = info_bytes info" "b \<le> sz" "2 ^ 32 + (unat sz - unat b) < (2 ^ 64 :: nat)"
    "spans (unat a) [info_bytes info] = map region_span below @ [(2 ^ 32, unat sz - unat b)]"
    "\<forall>r \<in> set below. plain {info_host_node info} r"
  shows "gives (place_above sys sz info b below) ctx' (node_placed a info ctx)"
proof -
  have m: "checked_sub sz b = Some (sz - b)" "unat (sz - b) = unat sz - unat b"
    using assms(4) by (simp_all add: checked_sub_def unat_sub)
  show ?thesis unfolding place_above_def hole_defs(4) gives_steps m(1)
  proof (rule gives_create_next [OF assms(1)])
    show "unat (2 ^ 32 :: u64) + unat (sz - b) < 2 ^ 64" using assms(5) unfolding m(2) hole_defs(5) .
    fix r and nxt :: u64 and ctx'' assume *: "default_region (2 ^ 32) (sz - b) (info_host_node info) r" "same_but_param 1 ctx' ctx''"
      "unat nxt = unat (2 ^ 32 :: u64) + unat (sz - b)"
    have "span_end (unat a) (spans (unat a) [info_bytes info]) = 2 ^ 32 + (unat sz - unat b)"
      unfolding assms(6) by (simp add: span_end_def)
    then show "node_placed a info ctx (below @ [r], nxt) ctx''"
      using default_region_span [OF *(1)] *(3) same_but_param_trans [OF assms(2) *(2)] assms(6,7) m(2) hole_defs(5)
      by (simp add: node_placed_def placed_as_def numeral_2_eq_2)
  qed
qed

lemma gives_place_split:
  assumes "creates sys 2 ctx" "unat a < 2 ^ 32" "unat a \<le> 3 * 2 ^ 30" "3 * 2 ^ 30 < unat a + info_bytes info"
    "unat sz = info_bytes info" "span_end (unat a) (spans (unat a) [info_bytes info]) < 2 ^ 64"
  shows "gives (place_split sys a sz info) ctx (node_placed a info ctx)"
proof -
  have le: "a \<le> MMIO_LOW_START" using assms(3) by (simp add: word_le_nat_alt hole_defs)
  let ?b = "MMIO_LOW_START - a"
  have b: "checked_sub MMIO_LOW_START a = Some ?b" "unat ?b = 3 * 2 ^ 30 - unat a"
    using le unat_sub [OF le] by (simp_all add: checked_sub_def hole_defs)
  have bsz: "?b \<le> sz" using b(2) assms(4,5) by (simp add: word_le_nat_alt)
  have weak: "creates sys 1 ctx" using creates_mono [OF assms(1), of 0 ctx 1] by simp
  show ?thesis
  proof (cases "?b < MINIMAL_SPLIT_SPACE")
    case True
    then have sp: "spans (unat a) [info_bytes info] = [(2 ^ 32, info_bytes info)]"
      using assms(2-4) b(2) by (simp add: word_less_nat_alt hole_defs)
    have "gives (place_above sys sz info 0 []) ctx (node_placed a info ctx)"
      by (rule gives_place_above [OF weak]) (use assms(5,6) sp in \<open>simp_all add: span_end_def\<close>)
    then show ?thesis using True by (simp add: place_split_def b(1) gives_steps)
  next
    case False
    then have sp: "spans (unat a) [info_bytes info] = [(unat a, unat ?b), (2 ^ 32, unat sz - unat ?b)]"
      using assms(2-5) b(2) by (simp add: word_less_nat_alt hole_defs)
    have "gives (create_region sys a ?b info) ctx (\<lambda>r ctx'. default_region a ?b (info_host_node info) r \<and> same_but_param 1 ctx ctx')"
      using assms(1,3) b(2) by (intro gives_create_region) (auto simp: creates_def)
    then have "gives (attempt (create_region sys a ?b info) (\<lambda>r. place_above sys sz info ?b [r])) ctx (node_placed a info ctx)"
    proof (rule gives_attempt)
      fix r ctx' assume *: "default_region a ?b (info_host_node info) r \<and> same_but_param 1 ctx ctx'"
      show "gives (place_above sys sz info ?b [r]) ctx' (node_placed a info ctx)"
        by (rule gives_place_above [OF creates_mono [OF assms(1)] conjunct2 [OF *] assms(5) bsz])
          (use * default_region_span [of a ?b _ r] sp assms(6) in \<open>auto simp: span_end_def\<close>)
    qed
    then show ?thesis using False by (simp add: place_split_def b(1) gives_steps)
  qed
qed

lemma gives_place_region:
  assumes "creates sys 2 ctx" "unat a \<le> 3 * 2 ^ 30 \<or> 2 ^ 32 \<le> unat a" "unat (info_size info) < 2 ^ 44"
    "span_end (unat a) (spans (unat a) [info_bytes info]) < 2 ^ 64"
  shows "gives (place_region sys a info) ctx (node_placed a info ctx)"
proof -
  let ?sz = "push_bit 20 (info_size info)"
  have sz: "unat ?sz = info_bytes info" using unat_shift [OF assms(3)] .
  have fits: "unat a + unat ?sz < 2 ^ 64" using assms(2,4) sz by (auto split: if_splits)
  then obtain e where e: "uadd a ?sz = Some e" by (simp add: checked_add_def)
  have ue: "unat e = unat a + info_bytes info" using checked_add_Some_unat [OF e] sz by simp
  consider "2 ^ 32 \<le> unat a" | "unat a < 2 ^ 32" "unat a + info_bytes info \<le> 3 * 2 ^ 30"
    | "unat a < 2 ^ 32" "3 * 2 ^ 30 < unat a + info_bytes info" by linarith
  then show ?thesis
  proof cases
    case 1
    then have "a > MMIO_LOW_END" by (simp add: word_less_nat_alt hole_defs)
    then show ?thesis using gives_place_whole [OF assms(1) fits sz] 1 by (simp add: place_region_def Let_def)
  next
    case 2
    then have "\<not> a > MMIO_LOW_END" "e \<le> MMIO_LOW_START" by (auto simp: word_less_nat_alt word_le_nat_alt hole_defs ue)
    then show ?thesis using gives_place_whole [OF assms(1) fits sz] 2(2) by (simp add: place_region_def Let_def e gives_steps)
  next
    case 3
    then have "\<not> a > MMIO_LOW_END" "\<not> e \<le> MMIO_LOW_START" by (auto simp: word_less_nat_alt word_le_nat_alt hole_defs ue)
    then show ?thesis using gives_place_split [OF assms(1) 3(1) _ 3(2) sz assms(4)] assms(2) 3(1)
      by (simp add: place_region_def Let_def e gives_steps)
  qed
qed

lemma span_end_append: "span_end a (sp @ sp') = span_end (span_end a sp) sp'"
  by (simp add: span_end_def)

lemma span_end_outside:
  "a \<le> 3 * 2 ^ 30 \<or> 2 ^ 32 \<le> a \<Longrightarrow> span_end a (spans a [n]) \<le> 3 * 2 ^ 30 \<or> 2 ^ 32 \<le> span_end a (spans a [n])"
  by auto

lemma span_end_ge:
  assumes "a \<le> 3 * 2 ^ 30 \<or> 2 ^ 32 \<le> a"
  shows "a \<le> span_end a (spans a ns)"
  using spans_sorted [OF assms, of ns] by (cases "spans a ns" rule: rev_cases) (auto simp: span_end_def)

lemma gives_place_regions:
  assumes "creates sys (2 * length infos) ctx" "unat a \<le> 3 * 2 ^ 30 \<or> 2 ^ 32 \<le> unat a"
    "\<forall>info \<in> set infos. unat (info_size info) < 2 ^ 44"
    "span_end (unat a) (spans (unat a) (map info_bytes infos)) < 2 ^ 64"
  shows "gives (place_regions sys a infos) ctx (\<lambda>rs ctx'. placed_as (unat a) (map info_bytes infos) (info_host_node ` set infos) rs \<and>
    same_but_param (2 * length infos) ctx ctx')"
  using assms
proof (induction infos arbitrary: a ctx)
  case Nil
  then show ?case by (simp add: gives_steps placed_as_def)
next
  case (Cons info infos)
  let ?n = "info_bytes info" and ?ns = "map info_bytes infos" and ?a' = "span_end (unat a) (spans (unat a) [info_bytes info])"
  note split = spans_Cons [of "unat a" ?n ?ns]
  have outside: "?a' \<le> 3 * 2 ^ 30 \<or> 2 ^ 32 \<le> ?a'" by (rule span_end_outside [OF Cons.prems(2)])
  have total: "span_end ?a' (spans ?a' ?ns) < 2 ^ 64"
    using Cons.prems(4) by (simp only: list.map split span_end_append)
  have "?a' < 2 ^ 64" using span_end_ge [OF outside, of ?ns] total by linarith
  then have "gives (place_region sys a info) ctx (node_placed a info ctx)"
    using creates_mono [OF Cons.prems(1), of 0 ctx 2] Cons.prems(2,3) by (intro gives_place_region) auto
  then show ?case unfolding place_regions.simps
  proof (rule gives_attempt)
    fix out ctx' assume out: "node_placed a info ctx out ctx'"
    have nxt: "unat (snd out) = ?a'" and same: "same_but_param 2 ctx ctx'"
      and now: "placed_as (unat a) [?n] {info_host_node info} (fst out)" using out by (simp_all only: node_placed_def)
    have "gives (place_regions sys (snd out) infos) ctx' (\<lambda>rs ctx''. placed_as ?a' ?ns (info_host_node ` set infos) rs \<and>
        same_but_param (2 * length infos) ctx' ctx'')"
      using Cons.IH [of ctx' "snd out"] creates_mono [OF Cons.prems(1) same] outside total Cons.prems(3) unfolding nxt by simp
    then have "gives (attempt (place_regions sys (snd out) infos) (\<lambda>rest. ok (fst out @ rest))) ctx' (\<lambda>rs ctx''.
        placed_as (unat a) (map info_bytes (info # infos)) (info_host_node ` set (info # infos)) rs \<and>
        same_but_param (2 * length (info # infos)) ctx ctx'')"
    proof (rule gives_attempt, elim conjE)
      fix rest ctx'' assume *: "placed_as ?a' ?ns (info_host_node ` set infos) rest" "same_but_param (2 * length infos) ctx' ctx''"
      have "placed_as (unat a) (?n # ?ns) (info_host_node ` set (info # infos)) (fst out @ rest)"
        using now *(1) unfolding placed_as_def split by (auto simp: plain_def)
      then show "gives (ok (fst out @ rest)) ctx'' (\<lambda>rs ctx''. placed_as (unat a) (map info_bytes (info # infos)) (info_host_node ` set (info # infos)) rs \<and>
          same_but_param (2 * length (info # infos)) ctx ctx'')"
        using same_but_param_trans [OF same *(2)] by (simp add: gives_steps del: spans.simps)
    qed
    then show "gives (case out of (rs, next) \<Rightarrow> attempt (place_regions sys next infos) (\<lambda>rest. ok (rs @ rest))) ctx' (\<lambda>rs ctx''.
        placed_as (unat a) (map info_bytes (info # infos)) (info_host_node ` set (info # infos)) rs \<and>
        same_but_param (2 * length (info # infos)) ctx ctx'')" by (cases out) simp
  qed
qed

end
