(* ===== verification/Address_Space_Map.thy ===== *)
theory Address_Space_Map
  imports Address_Space_Place
begin

text \<open>
  The second loop of the creation of an address space: it takes the addresses of each region and a
  memory slot from the resource manager and maps the region.
\<close>

section \<open>Addresses and slots\<close>

definition pools :: "u64 set \<Rightarrow> nat \<Rightarrow> nat \<Rightarrow> ResourceManager \<Rightarrow> bool" where
  "pools A m k self \<longleftrightarrow> rm_ok self \<and> (\<forall>x. state_at (mem_pool self) x = Some Free \<longleftrightarrow> x \<in> A) \<and>
     (\<forall>x. state_at (kvm_mem_slot_pool self) x = Some Free \<longleftrightarrow> k \<le> unat x \<and> unat x \<le> m)"

abbreviation fixed_at :: "u64 \<Rightarrow> u64 \<Rightarrow> u64 \<Rightarrow> Constraint" where
  "fixed_at b n e \<equiv> Constraint_max (Constraint_min (Constraint_new n) b) e"

lemma satisfies_fixed:
  assumes "unat e + 1 = unat b + unat n" "n \<noteq> 0" "\<not> (b = 0 \<and> e = u64_MAX)"
  shows "satisfies (fixed_at b n e) r \<longleftrightarrow> r = \<lparr>rmin = b, rmax = e\<rparr>"
proof
  have be: "b \<le> e" using assms(1,2) by (simp add: word_le_nat_alt unat_gt_0 [symmetric])
  show "satisfies (fixed_at b n e) r" if "r = \<lparr>rmin = b, rmax = e\<rparr>"
    using that assms be by (auto simp: satisfies_def Constraint_defs valid_range_def align_ok_trivial)
  assume r: "satisfies (fixed_at b n e) r"
  then have "b \<le> rmin r" "rmax r \<le> e" "unat (rmax r) + 1 = unat (rmin r) + unat n"
    by (auto simp: satisfies_def Constraint_defs)
  then have "unat (rmin r) = unat b" "unat (rmax r) = unat e" using assms(1) by (simp_all add: word_le_nat_alt)
  then show "r = \<lparr>rmin = b, rmax = e\<rparr>" by (cases r) (simp add: word_unat_eq_iff)
qed

definition region_words :: "AddressSpaceRegion \<Rightarrow> u64 set" where
  "region_words r = {x. unat x \<in> region_addrs r}"

lemma region_words_range:
  assumes "unat e + 1 = unat (rg_base r) + unat (rg_size r)"
  shows "addrs \<lparr>rmin = rg_base r, rmax = e\<rparr> = region_words r"
  using assms by (auto simp: addrs_def region_words_def region_addrs_def word_le_nat_alt)

lemma mem_take:
  assumes "pools A m k self" "unat (rg_base r) + unat (rg_size r) < 2 ^ 64" "rg_size r > 0"
    "unat e + 1 = unat (rg_base r) + unat (rg_size r)"
  shows "region_words r \<subseteq> A \<Longrightarrow> \<exists>self'. allocate_mem_address self (fixed_at (rg_base r) (rg_size r) e) = Some (Some (rg_base r), self') \<and>
      pools (A - region_words r) m k self'"
    "\<not> region_words r \<subseteq> A \<Longrightarrow> allocate_mem_address self (fixed_at (rg_base r) (rg_size r) e) = Some (None, self)"
proof -
  let ?c = "fixed_at (rg_base r) (rg_size r) e" and ?r = "\<lparr>rmin = rg_base r, rmax = e\<rparr>"
  have p: "rm_ok self" "\<And>x. state_at (mem_pool self) x = Some Free \<longleftrightarrow> x \<in> A"
      "\<And>x. state_at (kvm_mem_slot_pool self) x = Some Free \<longleftrightarrow> k \<le> unat x \<and> unat x \<le> m"
    using assms(1) by (simp_all add: pools_def)
  have "e \<noteq> u64_MAX" using assms(2,4) by auto
  then have sat: "satisfies ?c r' \<longleftrightarrow> r' = ?r" for r' using assms(3,4) by (intro satisfies_fixed) auto
  have free: "free_range (mem_pool self) ?r \<longleftrightarrow> region_words r \<subseteq> A"
    unfolding free_range_def p(2) region_words_range [OF assms(4)] by blast
  obtain res t where a: "IntervalTree_allocate (mem_pool self) ?c = Some (res, t)" "pool_ok t" "merged t"
    "case res of None \<Rightarrow> t = mem_pool self \<and> \<not> (\<exists>r'. satisfies ?c r' \<and> free_range (mem_pool self) r')
     | Some r' \<Rightarrow> satisfies ?c r' \<and> free_range (mem_pool self) r' \<and>
         (\<forall>r''. satisfies ?c r'' \<and> free_range (mem_pool self) r'' \<longrightarrow> rmin r' \<le> rmin r'') \<and>
         state_at t = (\<lambda>x. if x \<in> addrs r' then Some Allocated else state_at (mem_pool self) x) \<and>
         held t = (held (mem_pool self))(r' \<mapsto> Allocated)"
    using allocate_pool [of "mem_pool self" ?c] pool_inv_atD [OF rm_ok_pool [OF p(1), of MemPool]] by auto
  obtain v self' where ok: "allocate_mem_address self ?c = Some (v, self')" "rm_ok self'"
    using allocate_mem_address_ok [OF p(1), of ?c] by (auto simp: outcome_def)
  show "allocate_mem_address self ?c = Some (None, self)" if "\<not> region_words r \<subseteq> A"
    using a that by (cases res) (auto simp: allocate_mem_address_def sat free)
  show "\<exists>self'. allocate_mem_address self ?c = Some (Some (rg_base r), self') \<and> pools (A - region_words r) m k self'"
    if "region_words r \<subseteq> A"
  proof (cases res)
    case None
    then show ?thesis using a(4) that sat free by auto
  next
    case (Some r')
    then have r': "r' = ?r" and st: "state_at t = (\<lambda>x. if x \<in> addrs r' then Some Allocated else state_at (mem_pool self) x)"
      using a(4) sat by auto
    have s: "allocate_mem_address self ?c = Some (Some (rg_base r), self\<lparr>mem_pool := t\<rparr>)"
      using a(1) Some r' by (simp add: allocate_mem_address_def)
    then have "rm_ok (self\<lparr>mem_pool := t\<rparr>)" using ok by simp
    then have "pools (A - region_words r) m k (self\<lparr>mem_pool := t\<rparr>)"
      using p st unfolding pools_def r' region_words_range [OF assms(4)] by auto
    then show ?thesis using s by blast
  qed
qed

lemma slot_take:
  assumes "pools A m k self" "k \<le> m" "m < 2 ^ 32"
  shows "\<exists>self'. allocate_kvm_mem_slot self 1 None = Some (Some (of_nat k), self') \<and> pools A m (Suc k) self'"
proof -
  let ?c = "Constraint_new 1" and ?k = "of_nat k :: u64"
  have p: "rm_ok self" "\<And>x. state_at (mem_pool self) x = Some Free \<longleftrightarrow> x \<in> A"
      "\<And>x. state_at (kvm_mem_slot_pool self) x = Some Free \<longleftrightarrow> k \<le> unat x \<and> unat x \<le> m"
    using assms(1) by (simp_all add: pools_def)
  have uk: "unat ?k = k" using assms(2,3) by (simp add: unat_of_nat)
  have sat: "satisfies ?c \<lparr>rmin = x, rmax = x\<rparr>" if "x < u64_MAX" for x
    using that by (auto simp: satisfies_def Constraint_defs valid_range_def align_ok_trivial)
  have kmax: "?k < u64_MAX" using uk assms(2,3) by (simp add: word_less_nat_alt)
  have free: "free_range (pool self KvmSlotPool) \<lparr>rmin = ?k, rmax = ?k\<rparr>"
    using p(3) [of ?k] uk assms(2) by (simp add: free_range_def addrs_def)
  note inv = rm_ok_pool [OF p(1), of KvmSlotPool]
  obtain r t where a: "allocate_valued (pool self KvmSlotPool) ?c = Some (Some r, t)"
    using valued_succeeds [OF inv sat [OF kmax] free] by blast
  have low: "rmin r \<le> ?k" using allocate_valued_lowest [OF inv a sat [OF kmax] free] by simp
  have s: "satisfies ?c r" using allocate_valued_Some(1) [OF inv a] .
  have one: "r = \<lparr>rmin = rmin r, rmax = rmin r\<rparr>" using satisfies_range [OF s] by simp
  obtain v self' where ok: "allocate_kvm_mem_slot self 1 None = Some (v, self')" "outcome self (map_option KvmMemSlot v) self'"
    using allocate_kvm_mem_slot_ok [OF p(1), of 1 None] by auto
  have v: "v = Some (ucast (rmin r))" "self' = set_pool self KvmSlotPool t"
    using ok(1) a by (auto simp: allocate_kvm_mem_slot_def)
  obtain t' where t': "self' = set_pool self KvmSlotPool t'"
      "granted (pool self KvmSlotPool) \<lparr>rmin = ucast (ucast (rmin r) :: u32), rmax = ucast (ucast (rmin r) :: u32)\<rparr> t'"
    using ok(2) v(1) by (auto simp: outcome_def taken_def)
  have "unat (rmin r) < 2 ^ 32" using low uk assms(2,3) by (simp add: word_le_nat_alt)
  then have "ucast (ucast (rmin r) :: u32) = rmin r" using ucast_down_up [where 'a = 32 and 'b = 64] by simp
  then have g: "granted (pool self KvmSlotPool) \<lparr>rmin = rmin r, rmax = rmin r\<rparr> t'" using t'(2) by simp
  then have "k \<le> unat (rmin r)" using p(3) [of "rmin r"] by (auto simp: granted_def free_range_def addrs_def)
  then have rk: "rmin r = ?k" using low uk by (simp add: word_le_nat_alt word_unat_eq_iff)
  obtain st where "st \<noteq> Free" "state_at t' = (\<lambda>x. if x = ?k then Some st else state_at (pool self KvmSlotPool) x)"
    using g unfolding granted_def rk by (auto simp: addrs_def)
  then have "state_at t' x = Some Free \<longleftrightarrow> Suc k \<le> unat x \<and> unat x \<le> m" for x
    using p(3) [of x] uk by (auto simp: word_unat_eq_iff)
  moreover have "ucast ?k = (of_nat k :: u32)" unfolding word_unat_eq_iff unsigned_ucast_eq uk by (simp add: take_bit_nat_def unat_of_nat)
  moreover have "t = t'" using v(2) t'(1) by (metis pool_set_pool)
  ultimately show ?thesis using ok v rk p by (simp add: pools_def outcome_def)
qed

section \<open>Touching pages\<close>

lemma touch_threads_ok: "\<exists>t. touch_threads sz = Some t \<and> 1 \<le> unat t \<and> unat t \<le> 16"
proof -
  have "unat (drop_bit 32 sz) < 2 ^ 32"
    unfolding unat_drop_bit_eq using unat_less_exp [of sz] by (simp add: drop_bit_eq_div less_mult_imp_div_less)
  then obtain n where n: "uadd (drop_bit 32 sz) 1 = Some n" using checked_ok(1) [of "drop_bit 32 sz" 1] by auto
  then have "unat n = unat (drop_bit 32 sz) + 1" using checked_add_Some_unat by fastforce
  then show ?thesis
    by (simp add: touch_threads_def PRE_ALLOC_GRANULARITY_def n MAX_PRE_ALLOC_THREAD_def word_less_nat_alt)
qed

lemma thread_range_ok:
  assumes "1 \<le> unat t" "unat t \<le> 16" "n < unat t" "unat addr + unat sz \<le> 2 ^ 64" "npage = drop_bit PAGE_SHIFT sz"
  shows "\<exists>s e p. thread_range addr npage (npage div t) t (of_nat n) = Some (s, e, p) \<and>
    unat s = unat npage div unat t * n \<and> unat e = (if n = unat t - 1 then unat npage else unat npage div unat t * Suc n) \<and>
    p = addr + s * PAGE_SIZE"
proof -
  let ?N = "unat npage" and ?P = "unat npage div unat t"
  have N: "?N * 4096 \<le> unat sz" unfolding assms(5) PAGE_SHIFT_def unat_drop_bit_eq by (simp add: drop_bit_eq_div)
  have P: "unat (npage div t) = ?P" by (simp add: unat_div)
  have PT: "?P * unat t \<le> ?N" by (simp add: mult.commute)
  have mono: "?P * i \<le> ?N" if "i \<le> unat t" for i using mult_le_mono2 [OF that, of ?P] PT by linarith
  have small: "?N < 2 ^ 52" using N unat_less_exp [of sz] by simp
  have un: "unat (of_nat n :: u64) = n" using assms(2,3) by (simp add: unat_of_nat)
  have "?P * n < 2 ^ 64" using mono [of n] assms(3) small by simp
  then obtain s where s: "umul (npage div t) (of_nat n) = Some s" "unat s = ?P * n"
    using checked_ok(3) [of "npage div t" "of_nat n"] unfolding P un by auto
  obtain l where l: "usub t 1 = Some l" "unat l = unat t - 1" using checked_ok(2) [of 1 t] assms(1) by auto
  have "unat (of_nat n :: u64) = unat l \<longleftrightarrow> n = unat t - 1" unfolding un l(2) ..
  then have isl: "of_nat n = l \<longleftrightarrow> n = unat t - 1" by (simp only: word_unat_eq_iff)
  have "\<exists>e. (if of_nat n = l then Some npage else do { m \<leftarrow> uadd (of_nat n) 1; umul (npage div t) m }) = Some e \<and>
      unat e = (if n = unat t - 1 then ?N else ?P * Suc n)"
  proof (cases "n = unat t - 1")
    case False
    have "n + 1 < 2 ^ 64" using assms(2,3) by simp
    then obtain m where m: "uadd (of_nat n) (1 :: u64) = Some m" "unat m = Suc n"
      using checked_ok(1) [of "of_nat n :: u64" 1] unfolding un by auto
    have "?P * Suc n < 2 ^ 64" using mono [of "Suc n"] assms(3) small by simp
    then obtain e where "umul (npage div t) m = Some e" "unat e = ?P * Suc n"
      using checked_ok(3) [of "npage div t" m] unfolding P m(2) by auto
    then show ?thesis using False isl m(1) by simp
  qed (use isl in simp)
  then obtain e where e: "(if of_nat n = l then Some npage else do { m \<leftarrow> uadd (of_nat n) 1; umul (npage div t) m }) = Some e"
      "unat e = (if n = unat t - 1 then ?N else ?P * Suc n)" by blast
  have "?P * n < ?N \<or> ?P * n = 0"
  proof (cases "?P = 0")
    case False
    then have "?P * n < ?P * unat t" using assms(3) by simp
    then show ?thesis using PT by linarith
  qed simp
  then have inside: "unat addr + unat s * 4096 < 2 ^ 64"
    using N assms(4) unat_less_exp [of addr] unfolding s(2) by fastforce
  then obtain off where off: "umul s PAGE_SIZE = Some off" "unat off = unat s * 4096"
    using checked_ok(3) [of s PAGE_SIZE] by (auto simp: PAGE_SIZE_def)
  then have "uadd addr off = Some (addr + off)" "off = s * PAGE_SIZE"
    using inside by (auto simp: checked_add_def checked_mul_def split: if_splits)
  then show ?thesis using s l(1) e off(1) by (simp add: thread_range_def)
qed

text \<open>The pages of the threads, one after the other, are the pages of the mapping.\<close>

lemma touched_range:
  assumes "unat s \<le> unat e"
  shows "touched (s, e, addr + s * PAGE_SIZE) = map (\<lambda>i. addr + of_nat i * PAGE_SIZE) [unat s..<unat e]"
proof -
  have "[unat s..<unat e] = map (\<lambda>i. i + unat s) [0..<unat e - unat s]" using assms by (simp add: map_add_upt)
  then show ?thesis by (simp add: touched_def algebra_simps)
qed

lemma concat_pieces:
  assumes "0 < (t :: nat)" "p * (t - 1) \<le> N"
  shows "concat (map (\<lambda>n. [p * n..<if n = t - 1 then N else p * Suc n]) [0..<t]) = [0..<N]"
proof -
  have a: "concat (map (\<lambda>n. [p * n..<p * Suc n]) [0..<m]) = [0..<p * m]" for m
  proof (induction m)
    case (Suc m)
    then show ?case using upt_add_eq_append [of 0 "p * m" p] by (simp add: add.commute)
  qed simp
  have b: "[0..<t] = [0..<t - 1] @ [t - 1]" using assms(1) by (metis Suc_pred' upt_Suc_append zero_le)
  have c: "map (\<lambda>n. [p * n..<if n = t - 1 then N else p * Suc n]) [0..<t - 1] = map (\<lambda>n. [p * n..<p * Suc n]) [0..<t - 1]"
    by auto
  have d: "[0..<N] = [0..<p * (t - 1)] @ [p * (t - 1)..<N]"
    using upt_add_eq_append [of 0 "p * (t - 1)" "N - p * (t - 1)"] assms(2) by simp
  show ?thesis unfolding b map_append concat_append c a by (simp add: d)
qed

lemma threads_cover:
  assumes "touch_threads sz = Some t" "unat addr + unat sz \<le> 2 ^ 64" "npage = drop_bit PAGE_SHIFT sz"
  shows "\<exists>jobs. map (\<lambda>n. thread_range addr npage (npage div t) t (of_nat n)) [0..<unat t] = map Some jobs \<and>
    concat (map touched jobs) = map (\<lambda>i. addr + of_nat i * PAGE_SIZE) [0..<unat npage]"
proof -
  have t: "1 \<le> unat t" "unat t \<le> 16" using touch_threads_ok [of sz] assms(1) by auto
  let ?P = "unat npage div unat t" and ?e = "\<lambda>n. if n = unat t - 1 then unat npage else unat npage div unat t * Suc n"
  let ?job = "\<lambda>n. the (thread_range addr npage (npage div t) t (of_nat n))"
  have fits: "?P * (unat t - 1) \<le> unat npage"
    by (metis div_times_less_eq_dividend diff_le_self le_trans mult.commute mult_le_mono2)
  have job: "thread_range addr npage (npage div t) t (of_nat n) = Some (?job n) \<and>
      touched (?job n) = map (\<lambda>i. addr + of_nat i * PAGE_SIZE) [?P * n..<?e n]" if n: "n < unat t" for n
  proof -
    obtain s e p where j: "thread_range addr npage (npage div t) t (of_nat n) = Some (s, e, p)" "unat s = ?P * n" "unat e = ?e n"
        "p = addr + s * PAGE_SIZE"
      using thread_range_ok [OF t n assms(2,3)] by blast
    have "unat s \<le> unat e" using fits n by (auto simp: j(2,3))
    then show ?thesis using j touched_range [of s e addr] by simp
  qed
  let ?jobs = "map ?job [0..<unat t]"
  have "map (\<lambda>n. thread_range addr npage (npage div t) t (of_nat n)) [0..<unat t] = map Some ?jobs" using job by simp
  moreover have "map touched ?jobs = map (map (\<lambda>i. addr + of_nat i * PAGE_SIZE)) (map (\<lambda>n. [?P * n..<?e n]) [0..<unat t])"
    using job by simp
  then have "concat (map touched ?jobs) = map (\<lambda>i. addr + of_nat i * PAGE_SIZE) (concat (map (\<lambda>n. [?P * n..<?e n]) [0..<unat t]))"
    by (simp only: map_concat)
  moreover have "concat (map (\<lambda>n. [?P * n..<?e n]) [0..<unat t]) = [0..<unat npage]"
    using t(1) by (intro concat_pieces fits) simp
  ultimately show ?thesis by (intro exI [of _ ?jobs]) (simp only:)
qed

section \<open>Mapping one region\<close>

definition same_pools :: "'w AsCtx \<Rightarrow> 'w AsCtx \<Rightarrow> bool" where
  "same_pools ctx ctx' \<longleftrightarrow> ctx_res ctx' = ctx_res ctx \<and> ctx_param ctx' = ctx_param ctx \<and>
     base_to_slot (ctx_mgr ctx') = base_to_slot (ctx_mgr ctx)"

lemma same_pools_sys [simp]: "same_pools ctx (ctx'\<lparr>ctx_sys := w\<rparr>) \<longleftrightarrow> same_pools ctx ctx'"
  by (simp add: same_pools_def)

lemma same_pools_refl [simp]: "same_pools ctx ctx"
  by (simp add: same_pools_def)

lemma spawn_loop_ok:
  assumes "map (\<lambda>n. thread_range addr npage per t (of_nat n)) ns = map Some jobs"
  shows "gives (spawn_loop sys addr npage per t ns) ctx (\<lambda>_ ctx'. (same_pools ctx0 ctx \<longrightarrow> same_pools ctx0 ctx') \<and>
    ((\<forall>w. fst (spawn_thread sys w)) \<longrightarrow> prealloc_handlers (ctx_mgr ctx') = prealloc_handlers (ctx_mgr ctx) @ jobs))"
  using assms
proof (induction ns arbitrary: jobs ctx)
  case Nil
  then show ?case by (simp add: gives_steps)
next
  case (Cons n ns)
  then obtain job jobs' where j: "jobs = job # jobs'" "thread_range addr npage per t (of_nat n) = Some job"
      "map (\<lambda>n. thread_range addr npage per t (of_nat n)) ns = map Some jobs'"
    by (cases jobs) auto
  obtain started w where sp: "spawn_thread sys (ctx_sys ctx) = (started, w)" by fastforce
  let ?ctx = "if started then ctx\<lparr>ctx_sys := w, ctx_mgr := (ctx_mgr ctx)\<lparr>prealloc_handlers := prealloc_handlers (ctx_mgr ctx) @ [job]\<rparr>\<rparr>
    else ctx\<lparr>ctx_sys := w\<rparr>"
  have "gives (spawn_loop sys addr npage per t (n # ns)) ctx P \<longleftrightarrow> gives (spawn_loop sys addr npage per t ns) ?ctx P" for P
    using j(2) sp by (simp add: gives_def attempt_def pure_def Let_def)
  moreover have "same_pools ctx0 ?ctx \<longleftrightarrow> same_pools ctx0 ctx" by (simp add: same_pools_def)
  moreover have "(\<forall>w. fst (spawn_thread sys w)) \<longrightarrow> started" using sp by (metis fst_conv)
  ultimately show ?case using Cons.IH [OF j(3), of ?ctx] j(1) by (auto elim!: gives_weaken)
qed

lemma gives_thp:
  assumes "\<And>w. \<not> isl (fst (madvise sys (mm_ptr m) (mm_size m) MADV_HUGEPAGE w))" "unat (mm_ptr m) + unat (mm_size m) \<le> 2 ^ 64"
    "same_pools ctx0 ctx"
  shows "gives (configure_thp_and_prealloc sys region m) ctx (\<lambda>_. same_pools ctx0)"
  unfolding configure_thp_and_prealloc_def
proof (rule gives_attempt [OF gives_sys_call [where P = "\<lambda>_. same_pools ctx0"]])
  show "same_pools ctx0 (ctx\<lparr>ctx_sys := w\<rparr>)" for w using assms(3) by simp
  fix ctx' assume c: "same_pools ctx0 ctx'"
  obtain t where t: "touch_threads (mm_size m) = Some t" using touch_threads_ok by blast
  obtain jobs where "map (\<lambda>n. thread_range (mm_ptr m) (drop_bit PAGE_SHIFT (mm_size m)) (drop_bit PAGE_SHIFT (mm_size m) div t) t (of_nat n))
      [0..<unat t] = map Some jobs"
    using threads_cover [OF t assms(2) refl] by blast
  from spawn_loop_ok [OF this, of sys ctx' ctx0] c
  show "gives (if perm_flags region AND MAP_POPULATE \<noteq> 0
     then let npage = drop_bit PAGE_SHIFT (mm_size m) in attempt (pure (touch_threads (mm_size m)))
        (\<lambda>touch_thread. spawn_loop sys (mm_ptr m) npage (npage div touch_thread) touch_thread [0..<unat touch_thread])
     else ok ()) ctx' (\<lambda>_. same_pools ctx0)"
    by (auto simp: t gives_steps Let_def elim!: gives_weaken)
qed (rule assms(1))

definition guest_span :: "GuestRegion \<Rightarrow> nat \<times> nat" where
  "guest_span g = (unat (gr_base g), unat (mm_size (gr_mmap g)))"

lemma gives_mmap:
  assumes "sys_works sys" "plain nodes r" "\<forall>n. Some n \<in> nodes \<longrightarrow> n < 64" "unat (rg_base r) + unat (rg_size r) < 2 ^ 64" "same_pools ctx0 ctx"
  shows "gives (create_mmap_region sys r) ctx (\<lambda>g ctx'. guest_span g = region_span r \<and> same_pools ctx0 ctx')"
proof -
  note works = sys_worksD [OF assms(1)]
  let ?same = "\<lambda>_. same_pools ctx0"
  have dup: "gives (case file_offset r of None \<Rightarrow> ok None | Some (fd, start) \<Rightarrow> attempt (sys_call DupFd (dup_fd sys fd)) (\<lambda>fd. ok (Some (fd, start)))) ctx ?same"
    using assms(5) works(6)
    by (auto split: option.split simp: gives_steps intro!: gives_attempt [OF gives_sys_call [where P = ?same]])
  have mm: "gives (sys_call MmapGuestMemory (mmap_build sys fo (rg_size r) prot perm)) c (\<lambda>p c'. unat p + unat (rg_size r) \<le> 2 ^ 64 \<and> same_pools ctx0 c')"
    if "same_pools ctx0 c" for fo prot perm c
  proof -
    obtain p w where "mmap_build sys fo (rg_size r) prot perm (ctx_sys c) = (Inr p, w)" "unat p + unat (rg_size r) \<le> 2 ^ 64"
      using works(7) [of fo "rg_size r" prot perm "ctx_sys c"] by blast
    then show ?thesis using that by (simp add: gives_def sys_call_def on_sys_def call_def)
  qed
  have anon: "gives (if is_anon r then configure_anon_mem sys m else ok ()) c ?same" if "same_pools ctx0 c" for m c
    using that works(8) by (auto simp: configure_anon_mem_def gives_steps intro!: gives_sys_call)
  have numa: "gives (case host_numa_node_id r of None \<Rightarrow> ok () | Some n \<Rightarrow> configure_numa sys m n) c ?same" if "same_pools ctx0 c" for m c
    using that assms(2,3) by (auto simp: plain_def configure_numa_def gives_def ok_def split: option.split)
  have thp: "gives (if is_hugepage r then configure_thp_and_prealloc sys r m else ok ()) c ?same"
    if "same_pools ctx0 c" "unat (mm_ptr m) + unat (mm_size m) \<le> 2 ^ 64" for m c
    using that works(8) by (auto simp: gives_steps intro!: gives_thp)
  have new: "gives (case guest_region_new sys \<lparr>mm_ptr = p, mm_size = rg_size r\<rparr> (rg_base r) of
        None \<Rightarrow> ok \<lparr>gr_mmap = \<lparr>mm_ptr = p, mm_size = rg_size r\<rparr>, gr_base = rg_base r\<rparr> | Some n \<Rightarrow> fail (CreateGuestMemory n)) c
      (\<lambda>g ctx'. guest_span g = region_span r \<and> same_pools ctx0 ctx')" if "same_pools ctx0 c" for p c
    using that works(11) [of "rg_base r" "\<lparr>mm_ptr = p, mm_size = rg_size r\<rparr>"] assms(4)
    by (simp add: gives_steps guest_span_def region_span_def)
  have dev: "rg_ty r \<noteq> DeviceMemory" using assms(2) by (simp add: plain_def)
  show ?thesis
    unfolding create_mmap_region_def Let_def if_not_P [OF dev]
    by (rule gives_attempt [OF dup], rule gives_attempt [OF mm], assumption, elim conjE, rule gives_attempt [OF anon], assumption,
        rule gives_attempt [OF numa], assumption, rule gives_attempt [OF thp], assumption, simp, rule new, assumption)
qed

lemma gives_map_kvm:
  assumes "sys_works sys" "pools A m k (ctx_res ctx)" "k \<le> m" "m < 2 ^ 32"
  shows "gives (map_to_kvm sys r g) ctx (\<lambda>_ ctx'. pools A m (Suc k) (ctx_res ctx') \<and> ctx_param ctx' = ctx_param ctx \<and>
    base_to_slot (ctx_mgr ctx') = (base_to_slot (ctx_mgr ctx))(rg_base r \<mapsto> of_nat k))" (is "gives _ _ ?Q")
proof -
  obtain res where res: "allocate_kvm_mem_slot (ctx_res ctx) 1 None = Some (Some (of_nat k), res)" "pools A m (Suc k) res"
    using slot_take [OF assms(2-4)] by blast
  let ?ctx = "ctx\<lparr>ctx_res := res\<rparr>"
  obtain p where p: "get_host_address sys g = Some p" using sys_worksD(10) [OF assms(1), of g] by blast
  have kvm: "gives (case vmfd (ctx_param ctx) of None \<Rightarrow> ok ()
      | Some fd \<Rightarrow> attempt (or_fail AmInvalidOperation (get_host_address sys g))
          (\<lambda>a. sys_call KvmSetMemorySlot (set_user_memory_region sys fd (of_nat k) (rg_base r) (rg_size r) a))) ?ctx (\<lambda>_. same_pools ?ctx)"
    using sys_worksD(9) [OF assms(1)] by (auto simp: p gives_steps split: option.split intro!: gives_sys_call)
  have "gives (attempt (case vmfd (ctx_param ctx) of None \<Rightarrow> ok ()
      | Some fd \<Rightarrow> attempt (or_fail AmInvalidOperation (get_host_address sys g))
          (\<lambda>a. sys_call KvmSetMemorySlot (set_user_memory_region sys fd (of_nat k) (rg_base r) (rg_size r) a)))
      (\<lambda>_. modify_mgr (\<lambda>self. self\<lparr>base_to_slot := (base_to_slot self)(rg_base r \<mapsto> of_nat k)\<rparr>))) ?ctx ?Q"
    by (rule gives_attempt [OF kvm], rule gives_modify) (use res(2) in \<open>simp add: same_pools_def\<close>)
  then show ?thesis using res(1) by (simp add: gives_def map_to_kvm_def attempt_def or_fail_def ok_def)
qed

section \<open>Mapping all regions\<close>

definition regions_words :: "AddressSpaceRegion list \<Rightarrow> u64 set" where
  "regions_words rs = (\<Union>r \<in> set rs. region_words r)"

definition slot_map :: "nat \<Rightarrow> AddressSpaceRegion list \<Rightarrow> u64 \<rightharpoonup> u32" where
  "slot_map k rs = map_of (zip (map rg_base rs) (map of_nat [k..<k + length rs]))"

abbreviation ordered_spans :: "(nat \<times> nat) list \<Rightarrow> bool" where
  "ordered_spans \<equiv> sorted_wrt (\<lambda>(b, n) (c, m). b + n \<le> c)"

definition mappable :: "AddressSpaceRegion \<Rightarrow> bool" where
  "mappable r \<longleftrightarrow> unat (rg_base r) + unat (rg_size r) < 2 ^ 64 \<and> rg_size r > 0 \<and>
     (\<exists>nodes. plain nodes r \<and> (\<forall>n. Some n \<in> nodes \<longrightarrow> n < 64))"

lemma map_regions_Cons:
  assumes "region_last_addr r = Some e" "allocate_mem_address (ctx_res ctx) (fixed_at (rg_base r) (rg_size r) e) = Some (got, res)"
  shows "map_regions sys vm (r # rs) ctx =
    attempt (or_fail NoAvailableMemAddress got) (\<lambda>_. attempt (create_mmap_region sys r) (\<lambda>g.
       case vm_insert_region sys vm g of
         Some n \<Rightarrow> fail (CreateGuestMemory n)
       | None \<Rightarrow> attempt (map_to_kvm sys r g) (\<lambda>_. map_regions sys (vm @ [g]) rs))) (ctx\<lparr>ctx_res := res\<rparr>)"
  using assms by (simp add: attempt_def pure_def)

lemma gives_map_one:
  assumes "sys_works sys" "pools A m k (ctx_res ctx)" "k \<le> m" "m < 2 ^ 32" "mappable r" "region_words r \<subseteq> A"
    "\<forall>h \<in> set vm. fst (guest_span h) + snd (guest_span h) \<le> unat (rg_base r)"
  shows "\<exists>g ctx'. map_regions sys vm (r # rs) ctx = map_regions sys (vm @ [g]) rs ctx' \<and> guest_span g = region_span r \<and>
    pools (A - region_words r) m (Suc k) (ctx_res ctx') \<and> ctx_param ctx' = ctx_param ctx \<and>
    base_to_slot (ctx_mgr ctx') = (base_to_slot (ctx_mgr ctx))(rg_base r \<mapsto> of_nat k)"
proof -
  obtain nodes where r: "unat (rg_base r) + unat (rg_size r) < 2 ^ 64" "rg_size r > 0" "plain nodes r" "\<forall>n. Some n \<in> nodes \<longrightarrow> n < 64"
    using assms(5) by (auto simp: mappable_def)
  obtain e where e: "region_last_addr r = Some e" "unat e + 1 = unat (rg_base r) + unat (rg_size r)"
    using region_last_addr_ok [OF r(1,2)] by blast
  obtain res where res: "allocate_mem_address (ctx_res ctx) (fixed_at (rg_base r) (rg_size r) e) = Some (Some (rg_base r), res)"
      "pools (A - region_words r) m k res"
    using mem_take(1) [OF assms(2) r(1,2) e(2) assms(6)] by blast
  let ?ctx = "ctx\<lparr>ctx_res := res\<rparr>"
  obtain g ctx1 where g: "create_mmap_region sys r ?ctx = Some (Inr g, ctx1)" "guest_span g = region_span r" "same_pools ?ctx ctx1"
    using gives_mmap [OF assms(1) r(3,4,1) same_pools_refl, of ?ctx] by (auto simp: gives_def)
  have ins: "vm_insert_region sys vm g = None"
    using assms(7) g(2) by (intro sys_worksD(12) [OF assms(1)]) (auto simp: guest_span_def region_span_def)
  have "pools (A - region_words r) m k (ctx_res ctx1)" using res(2) g(3) by (simp add: same_pools_def)
  from gives_map_kvm [OF assms(1) this assms(3,4), of r g] obtain ctx2 where k: "map_to_kvm sys r g ctx1 = Some (Inr (), ctx2)"
      "pools (A - region_words r) m (Suc k) (ctx_res ctx2)" "ctx_param ctx2 = ctx_param ctx1"
      "base_to_slot (ctx_mgr ctx2) = (base_to_slot (ctx_mgr ctx1))(rg_base r \<mapsto> of_nat k)"
    by (auto simp: gives_def)
  have "map_regions sys vm (r # rs) ctx = map_regions sys (vm @ [g]) rs ctx2"
    unfolding map_regions_Cons [where sys = sys and vm = vm and rs = rs, OF e(1) res(1)] using g(1) ins k(1)
    by (simp add: attempt_def or_fail_def ok_def)
  then show ?thesis using k g(2,3) by (auto simp: same_pools_def)
qed

lemma gives_map_regions:
  assumes "sys_works sys" "pools A m k (ctx_res ctx)" "k + length rs \<le> Suc m" "m < 2 ^ 32" "\<forall>r \<in> set rs. mappable r"
    "regions_words rs \<subseteq> A" "ordered_spans (map guest_span vm @ map region_span rs)"
  shows "\<exists>vm' ctx'. map_regions sys vm (rs @ rest) ctx = map_regions sys vm' rest ctx' \<and> map guest_span vm' = map guest_span vm @ map region_span rs \<and>
    pools (A - regions_words rs) m (k + length rs) (ctx_res ctx') \<and> base_to_slot (ctx_mgr ctx') = base_to_slot (ctx_mgr ctx) ++ slot_map k rs"
  using assms
proof (induction rs arbitrary: vm A k ctx)
  case Nil
  then show ?case by (auto simp: regions_words_def slot_map_def)
next
  case (Cons r rs)
  have before: "\<forall>h \<in> set vm. fst (guest_span h) + snd (guest_span h) \<le> unat (rg_base r)"
    using Cons.prems(7) by (force simp: sorted_wrt_append region_span_def)
  have "region_words r \<subseteq> A" "mappable r" "k \<le> m" using Cons.prems(3,5,6) by (auto simp: regions_words_def)
  then obtain g ctx1 where g: "map_regions sys vm (r # (rs @ rest)) ctx = map_regions sys (vm @ [g]) (rs @ rest) ctx1" "guest_span g = region_span r"
      "pools (A - region_words r) m (Suc k) (ctx_res ctx1)" "base_to_slot (ctx_mgr ctx1) = (base_to_slot (ctx_mgr ctx))(rg_base r \<mapsto> of_nat k)"
    using gives_map_one [OF Cons.prems(1,2) _ Cons.prems(4) _ _ before, of "rs @ rest"] by blast
  have later: "unat (rg_base r) + unat (rg_size r) \<le> unat (rg_base s)" if "s \<in> set rs" for s
    using Cons.prems(7) that by (auto simp: sorted_wrt_append region_span_def)
  then have "region_words r \<inter> region_words s = {}" if "s \<in> set rs" for s
    using that by (fastforce simp: region_words_def region_addrs_def)
  then have sub: "regions_words rs \<subseteq> A - region_words r" using Cons.prems(6) by (auto simp: regions_words_def)
  have ord: "ordered_spans (map guest_span (vm @ [g]) @ map region_span rs)" using Cons.prems(7) g(2) by simp
  obtain vm' ctx' where IH: "map_regions sys (vm @ [g]) (rs @ rest) ctx1 = map_regions sys vm' rest ctx'"
      "map guest_span vm' = map guest_span (vm @ [g]) @ map region_span rs"
      "pools (A - region_words r - regions_words rs) m (Suc k + length rs) (ctx_res ctx')"
      "base_to_slot (ctx_mgr ctx') = base_to_slot (ctx_mgr ctx1) ++ slot_map (Suc k) rs"
    using Cons.IH [OF Cons.prems(1) g(3) _ Cons.prems(4) _ sub ord] Cons.prems(3,5) by auto
  have "rg_base r \<notin> rg_base ` set rs"
  proof
    assume "rg_base r \<in> rg_base ` set rs"
    then obtain s where "s \<in> set rs" "rg_base s = rg_base r" by auto
    then show False using later [of s] Cons.prems(5) by (auto simp: mappable_def word_less_nat_alt)
  qed
  then have "rg_base r \<notin> dom (slot_map (Suc k) rs)" by (auto simp: slot_map_def simp del: upt_Suc dest!: map_of_SomeD set_zip_leftD)
  moreover have "slot_map k (r # rs) = (slot_map (Suc k) rs)(rg_base r \<mapsto> of_nat k)"
    by (simp add: slot_map_def upt_conv_Cons del: upt_Suc)
  ultimately have "base_to_slot (ctx_mgr ctx') = base_to_slot (ctx_mgr ctx) ++ slot_map k (r # rs)"
    using IH(4) g(4) map_add_upd_left by (metis map_add_upd)
  moreover have "A - region_words r - regions_words rs = A - regions_words (r # rs)" by (auto simp: regions_words_def)
  ultimately show ?case using IH g(1,2) by (intro exI [of _ vm'] exI [of _ ctx']) simp
qed

end
