(* ===== verification/Address_Space_Props.thy ===== *)
theory Address_Space_Props
  imports Address_Space_Map
begin

text \<open>
  The properties of the guest address space: its regions never overlap and every address is
  attributed to its region; the memory of a machine is laid out around the hole, backed by the
  resource manager, or refused; every page is touched once by the threads that populate it.
\<close>

section \<open>Runs of an address space\<close>

inductive as_run :: "AddressSpace \<Rightarrow> bool" where
  built: "AddressSpace_from_regions rs lay = Some self \<Longrightarrow> \<forall>r \<in> set rs. rg_size r > 0 \<Longrightarrow> as_run self"
| inserted: "as_run self \<Longrightarrow> rg_size r > 0 \<Longrightarrow> AddressSpace_insert_region r self = Some (result, self') \<Longrightarrow> as_run self'"

lemma from_regions_again:
  assumes "as_ok self"
  shows "base_from_regions (regions self) (layout self) = Some (self\<lparr>regions := sort_key rg_base (regions self)\<rparr>)"
  using assms by (simp add: as_ok_def base_from_regions_iff)

lemma as_insert_ok:
  assumes "as_ok (as_state self)" "rg_size r > 0"
  shows "\<exists>result self'. AddressSpace_insert_region r self = Some (result, self') \<and> as_ok (as_state self') \<and>
    layout (as_state self') = layout (as_state self) \<and>
    (if is_region_valid (layout (as_state self)) r \<and> (\<forall>s \<in> set (regions (as_state self)). apart s r)
     then result = Inr () \<and> set (regions (as_state self')) = insert r (set (regions (as_state self)))
     else result = Inl (InvalidAddressRange (rg_base r) (rg_size r)) \<and> self' = self)"
proof -
  let ?base = "(as_state self)\<lparr>regions := sort_key rg_base (regions (as_state self))\<rparr>"
  have ok: "as_ok ?base" using assms(1) by (simp add: as_ok_def separate_sort)
  show ?thesis
    using from_regions_again [OF assms(1)] base_insert_ok [OF ok assms(2)] as_ok_insert [OF ok assms(2)] assms(1)
    by (simp add: AddressSpace_insert_region_def Let_def)
qed

lemma as_run_ok: "as_run self \<Longrightarrow> as_ok (as_state self)"
proof (induction rule: as_run.induct)
  case (built rs lay self)
  then show ?case using base_from_regions_ok [of rs lay] by (auto simp: AddressSpace_from_regions_def bind_eq_Some_conv)
next
  case (inserted self r result self')
  then show ?case using as_insert_ok [of self r] by auto
qed

section \<open>The created address space\<close>

text \<open>The end of the memory of a machine.\<close>

definition guest_end :: "NumaRegionInfo list \<Rightarrow> nat" where
  "guest_end infos = span_end 0 (spans 0 (map info_bytes infos))"

definition builder_ok :: "AddressSpaceMgrBuilder \<Rightarrow> NumaRegionInfo list \<Rightarrow> bool" where
  "builder_ok b infos \<longleftrightarrow> source_from_str (mem_type b) \<noteq> None \<and> unat (mem_index b) + 2 * length infos < 2 ^ 32 \<and>
     infos \<noteq> [] \<and> length infos < 510 \<and>
     (\<forall>info \<in> set infos. info_size info > 0 \<and> unat (info_size info) < 2 ^ 44 \<and> (\<forall>n. info_host_node info = Some n \<longrightarrow> n < 64))"

abbreviation free_memory :: "u64 \<Rightarrow> u64 set" where
  "free_memory pe \<equiv> {x. unat x < 3 * 2 ^ 30 \<or> 2 ^ 32 \<le> unat x \<and> unat x \<le> unat (GUEST_MEM_END pe)}"

lemma new_pools:
  assumes "GUEST_PHYS_END w = Some pe" "ResourceManager_new pe None = Some rm"
  shows "pools (free_memory pe) 509 0 rm"
proof -
  obtain rm' where rm': "ResourceManager_new pe None = Some rm'" "rm_ok rm'"
    "\<forall>x. state_at (mem_pool rm') x = (if x < MMIO_LOW_START \<or> MMIO_LOW_END < x \<and> x \<le> GUEST_MEM_END pe then Some Free else None)"
    "\<forall>x. state_at (kvm_mem_slot_pool rm') x = (if x \<le> KVM_USER_MEM_SLOTS then Some Free else None)"
    using ResourceManager_new_ok [OF assms(1), of None] by auto
  then have "rm' = rm" using assms(2) by simp
  then show ?thesis using rm'(2-4)
    by (auto simp: pools_def layout_defs word_less_nat_alt word_le_nat_alt)
qed

lemma in_free_memory:
  assumes "rg_size r > 0" "unat (rg_base r) + unat (rg_size r) \<le> 3 * 2 ^ 30 \<or> 2 ^ 32 \<le> unat (rg_base r)"
    "unat (rg_base r) + unat (rg_size r) < 2 ^ 64" "2 ^ 32 \<le> unat (GUEST_MEM_END pe)"
  shows "region_words r \<subseteq> free_memory pe \<longleftrightarrow> unat (rg_base r) + unat (rg_size r) \<le> Suc (unat (GUEST_MEM_END pe))"
proof
  assume sub: "region_words r \<subseteq> free_memory pe"
  let ?x = "of_nat (unat (rg_base r) + unat (rg_size r) - 1) :: u64"
  have x: "unat ?x = unat (rg_base r) + unat (rg_size r) - 1" using assms(3) by (simp add: unat_of_nat del: of_nat_diff of_nat_add)
  have "?x \<in> region_words r" unfolding region_words_def region_addrs_def mem_Collect_eq x using assms(1) by (simp add: word_less_nat_alt)
  then have "unat ?x < 3 * 2 ^ 30 \<or> 2 ^ 32 \<le> unat ?x \<and> unat ?x \<le> unat (GUEST_MEM_END pe)" using sub by blast
  then show "unat (rg_base r) + unat (rg_size r) \<le> Suc (unat (GUEST_MEM_END pe))" using assms(4) unfolding x by (simp, linarith)
next
  assume "unat (rg_base r) + unat (rg_size r) \<le> Suc (unat (GUEST_MEM_END pe))"
  then show "region_words r \<subseteq> free_memory pe" using assms(2) by (auto simp: region_words_def region_addrs_def)
qed

definition fresh_ctx :: "AddressSpaceMgrBuilder \<Rightarrow> ResourceManager \<Rightarrow> 'w \<Rightarrow> 'w AsCtx" where
  "fresh_ctx b rm w = \<lparr>ctx_mgr = AddressSpaceMgr_default, ctx_res = rm, ctx_param = b, ctx_sys = w\<rparr>"

text \<open>What the first loop has made of the sizes.\<close>

definition laid_out :: "NumaRegionInfo list \<Rightarrow> AddressSpaceRegion list \<Rightarrow> bool" where
  "laid_out infos rs \<longleftrightarrow> map region_span rs = spans 0 (map info_bytes infos) \<and> ordered_spans (map region_span rs) \<and>
     (\<forall>r \<in> set rs. mappable r \<and> rg_ty r = DefaultMemory \<and>
        (unat (rg_base r) + unat (rg_size r) \<le> 3 * 2 ^ 30 \<or> 2 ^ 32 \<le> unat (rg_base r))) \<and>
     length rs \<le> 510 \<and> rs \<noteq> [] \<and> unat (rg_base (last rs)) + unat (rg_size (last rs)) = guest_end infos \<and>
     (\<forall>r \<in> set rs. unat (rg_base r) + unat (rg_size r) \<le> guest_end infos)"

lemma laid_outD:
  assumes "laid_out infos rs"
  shows "map region_span rs = spans 0 (map info_bytes infos)" "ordered_spans (map region_span rs)" "\<forall>r \<in> set rs. mappable r"
    "length rs \<le> 510" "rs \<noteq> []" "unat (rg_base (last rs)) + unat (rg_size (last rs)) = guest_end infos"
    "\<And>r. r \<in> set rs \<Longrightarrow> unat (rg_base r) + unat (rg_size r) \<le> guest_end infos"
  using assms unfolding laid_out_def by blast+

lemma placed_laid_out:
  assumes "builder_ok b infos" "guest_end infos < 2 ^ 64" "placed_as 0 (map info_bytes infos) (info_host_node ` set infos) rs"
  shows "laid_out infos rs"
proof -
  let ?ns = "map info_bytes infos"
  have sp: "map region_span rs = spans 0 ?ns" and plain: "\<forall>r \<in> set rs. plain (info_host_node ` set infos) r"
    using assms(3) by (simp_all add: placed_as_def)
  have ne: "spans 0 ?ns \<noteq> []" using assms(1) by (cases infos) (auto simp: builder_ok_def)
  have pos: "\<forall>n \<in> set ?ns. 0 < n" using assms(1) by (auto simp: builder_ok_def info_bytes_def word_less_nat_alt)
  have each: "unat (rg_size r) > 0 \<and> (unat (rg_base r) + unat (rg_size r) \<le> 3 * 2 ^ 30 \<or> 2 ^ 32 \<le> unat (rg_base r)) \<and>
      unat (rg_base r) + unat (rg_size r) \<le> guest_end infos" if "r \<in> set rs" for r
  proof -
    have m: "(unat (rg_base r), unat (rg_size r)) \<in> set (spans 0 ?ns)"
      using that unfolding sp [symmetric] region_span_def by (force simp: image_iff)
    show ?thesis using spans_pos [OF pos _ m] spans_hole [OF _ m] spans_below_end [OF m] by (simp add: guest_end_def)
  qed
  have nodes: "\<forall>n. Some n \<in> info_host_node ` set infos \<longrightarrow> n < 64" using assms(1) by (fastforce simp: builder_ok_def)
  have "\<forall>r \<in> set rs. mappable r"
    using each plain nodes assms(2) unfolding mappable_def by (fastforce simp: word_less_nat_alt)
  moreover have "length rs \<le> 510"
    using length_spans [of 0 ?ns] assms(1) arg_cong [OF sp, of length] by (simp add: builder_ok_def)
  moreover have "rs \<noteq> []" using ne sp by auto
  moreover have "unat (rg_base (last rs)) + unat (rg_size (last rs)) = guest_end infos"
    using ne sp [symmetric] by (simp add: guest_end_def span_end_def last_map region_span_def)
  ultimately show ?thesis
    using each plain sp spans_sorted [of 0 ?ns] by (auto simp: laid_out_def plain_def)
qed

lemma regions_placed:
  assumes "builder_ok b infos" "sys_works sys" "guest_end infos < 2 ^ 64"
  shows "\<exists>rs ctx. place_regions sys GUEST_MEM_START infos (fresh_ctx b rm w) = Some (Inr rs, ctx) \<and> laid_out infos rs \<and>
    ctx_res ctx = rm \<and> base_to_slot (ctx_mgr ctx) = Map.empty"
proof -
  have "creates sys (2 * length infos) (fresh_ctx b rm w)" using assms(1,2) by (simp add: creates_def builder_ok_def fresh_ctx_def)
  moreover have "\<forall>info \<in> set infos. unat (info_size info) < 2 ^ 44" using assms(1) by (simp add: builder_ok_def)
  ultimately show ?thesis
    using gives_place_regions [of sys infos "fresh_ctx b rm w" GUEST_MEM_START] assms(3) placed_laid_out [OF assms(1,3)]
    by (fastforce simp: gives_def GUEST_MEM_START_def guest_end_def same_but_param_def fresh_ctx_def AddressSpaceMgr_default_def)
qed

lemma laid_out_separate:
  assumes "laid_out infos rs"
  shows "separate_regions rs" "\<forall>r \<in> set rs. rg_size r > 0"
proof -
  show pos: "\<forall>r \<in> set rs. rg_size r > 0" using assms by (auto simp: laid_out_def mappable_def)
  have "sorted_wrt (\<lambda>r s. unat (rg_base r) + unat (rg_size r) \<le> unat (rg_base s)) rs"
    using assms by (simp add: laid_out_def sorted_wrt_map region_span_def case_prod_beta)
  then show "separate_regions rs" using ordered_separate pos by blast
qed

lemma space_created:
  assumes "laid_out infos rs"
  shows "AddressSpace_from_regions rs (layout_new host_end pe GUEST_MEM_START (GUEST_MEM_END pe)) =
    (if guest_end infos \<le> unat (GUEST_MEM_END pe)
     then Some \<lparr>as_state = \<lparr>regions = sort_key rg_base rs, layout = layout_new host_end pe GUEST_MEM_START (GUEST_MEM_END pe)\<rparr>\<rparr>
     else None)"
proof -
  let ?lay = "layout_new host_end pe GUEST_MEM_START (GUEST_MEM_END pe)"
  have valid: "is_region_valid ?lay r \<longleftrightarrow> unat (rg_base r) + unat (rg_size r) \<le> unat (GUEST_MEM_END pe)" if r: "r \<in> set rs" for r
  proof -
    have "unat (rg_base r) + unat (rg_size r) < 2 ^ 64" "rg_ty r = DefaultMemory"
      using assms r by (auto simp: laid_out_def mappable_def)
    moreover obtain e where "checked_add (rg_base r) (rg_size r) = Some e" "unat e = unat (rg_base r) + unat (rg_size r)"
      using checked_ok(1) [of "rg_base r" "rg_size r"] calculation(1) by auto
    ultimately show ?thesis
      by (simp add: is_region_valid_def layout_new_def GUEST_MEM_START_def word_le_nat_alt not_less)
  qed
  have l: "last rs \<in> set rs" "unat (rg_base (last rs)) + unat (rg_size (last rs)) = guest_end infos"
      "\<And>r. r \<in> set rs \<Longrightarrow> unat (rg_base r) + unat (rg_size r) \<le> guest_end infos"
    using assms by (auto simp: laid_out_def)
  have "(\<forall>r \<in> set rs. is_region_valid ?lay r) \<longleftrightarrow> guest_end infos \<le> unat (GUEST_MEM_END pe)"
  proof
    assume "\<forall>r \<in> set rs. is_region_valid ?lay r"
    then show "guest_end infos \<le> unat (GUEST_MEM_END pe)" using valid [OF l(1)] l(1,2) by simp
  next
    assume "guest_end infos \<le> unat (GUEST_MEM_END pe)"
    then show "\<forall>r \<in> set rs. is_region_valid ?lay r" using valid l(3) by (meson le_trans)
  qed
  then show ?thesis
    unfolding AddressSpace_from_regions_def base_from_regions_iff [OF laid_out_separate(2) [OF assms], of ?lay]
    using laid_out_separate(1) [OF assms] by simp
qed

lemma build_steps:
  "builder_build sys host_end pe b infos rm w = attempt (place_regions sys GUEST_MEM_START infos) (\<lambda>rs.
     attempt (map_regions sys [] rs) (\<lambda>vm. attempt (modify_mgr (\<lambda>self. self\<lparr>vm_as := Some vm\<rparr>)) (\<lambda>_.
     attempt (pure (AddressSpace_from_regions rs (layout_new host_end pe GUEST_MEM_START (GUEST_MEM_END pe)))) (\<lambda>space.
     modify_mgr (\<lambda>self. self\<lparr>mgr_address_space := Some space\<rparr>))))) (fresh_ctx b rm w)"
  by (simp add: builder_build_def create_address_space_def fresh_ctx_def)

lemma regions_in_memory:
  assumes "GUEST_PHYS_END n = Some pe" "laid_out infos rs" "r \<in> set rs"
  shows "region_words r \<subseteq> free_memory pe \<longleftrightarrow> unat (rg_base r) + unat (rg_size r) \<le> Suc (unat (GUEST_MEM_END pe))"
proof (rule in_free_memory)
  show "2 ^ 32 \<le> unat (GUEST_MEM_END pe)" using phys_end_bounds(4) [OF assms(1)] by simp
qed (use assms(2,3) in \<open>auto simp: laid_out_def mappable_def\<close>)

text \<open>The second loop, when the memory fits.\<close>

lemma regions_mapped:
  assumes "GUEST_PHYS_END n = Some pe" "ResourceManager_new pe None = Some rm" "sys_works sys" "laid_out infos rs"
    "guest_end infos \<le> Suc (unat (GUEST_MEM_END pe))" "ctx_res ctx = rm" "base_to_slot (ctx_mgr ctx) = Map.empty"
  shows "\<exists>vm ctx'. map_regions sys [] rs ctx = Some (Inr vm, ctx') \<and> map guest_span vm = map region_span rs \<and>
    pools (free_memory pe - regions_words rs) 509 (length rs) (ctx_res ctx') \<and> base_to_slot (ctx_mgr ctx') = slot_map 0 rs"
proof -
  have "regions_words rs \<subseteq> free_memory pe"
    using regions_in_memory [OF assms(1,4)] assms(4,5) unfolding regions_words_def laid_out_def by (meson UN_least le_trans)
  moreover have "0 + length rs \<le> Suc 509" "ordered_spans (map guest_span [] @ map region_span rs)"
    using laid_outD(2,4) [OF assms(4)] by auto
  ultimately show ?thesis
    using gives_map_regions [OF assms(3) _ _ _ laid_outD(3) [OF assms(4)], of "free_memory pe" 509 0 ctx "[]" "[]"]
      new_pools [OF assms(1,2)] assms(6,7) by (simp add: ok_def)
qed

text \<open>The second loop, when it does not fit: the first region that ends too high is refused.\<close>

lemma regions_refused:
  assumes "GUEST_PHYS_END n = Some pe" "ResourceManager_new pe None = Some rm" "sys_works sys" "laid_out infos rs"
    "Suc (unat (GUEST_MEM_END pe)) < guest_end infos" "ctx_res ctx = rm"
  shows "\<exists>ctx'. map_regions sys [] rs ctx = Some (Inl NoAvailableMemAddress, ctx')"
proof -
  let ?high = "\<lambda>r. Suc (unat (GUEST_MEM_END pe)) < unat (rg_base r) + unat (rg_size r)"
  have "last rs \<in> set rs" "?high (last rs)" using laid_outD(5,6) [OF assms(4)] assms(5) by simp_all
  then obtain pre bad post where rs: "rs = pre @ bad # post" "?high bad" "\<forall>r \<in> set pre. \<not> ?high r"
    using split_list_first_prop [of rs ?high] by blast
  note inside = regions_in_memory [OF assms(1,4)]
  have "regions_words pre \<subseteq> free_memory pe"
    using inside rs(3) unfolding regions_words_def rs(1) set_append by (meson UN_least UnI1 not_less)
  moreover have "\<forall>r \<in> set pre. mappable r" "0 + length pre \<le> Suc 509" "mappable bad"
    using laid_outD(3,4) [OF assms(4)] unfolding rs(1) by auto
  moreover have "ordered_spans (map guest_span [] @ map region_span pre)"
    using laid_outD(2) [OF assms(4)] unfolding rs(1) by (simp only: map_append sorted_wrt_append list.map append_Nil)
  ultimately obtain vm ctx1 where p: "map_regions sys [] (pre @ bad # post) ctx = map_regions sys vm (bad # post) ctx1"
      "pools (free_memory pe - regions_words pre) 509 (0 + length pre) (ctx_res ctx1)"
    using gives_map_regions [OF assms(3), of "free_memory pe" 509 0 ctx pre "[]" "bad # post"] new_pools [OF assms(1,2)] assms(6)
    by auto
  have bad: "unat (rg_base bad) + unat (rg_size bad) < 2 ^ 64" "rg_size bad > 0" using \<open>mappable bad\<close> by (auto simp: mappable_def)
  obtain e where e: "region_last_addr bad = Some e" "unat e + 1 = unat (rg_base bad) + unat (rg_size bad)"
    using region_last_addr_ok [OF bad] by blast
  have "\<not> region_words bad \<subseteq> free_memory pe - regions_words pre" using inside [of bad] rs(1,2) by auto
  note refused = map_regions_Cons [OF e(1) mem_take(2) [OF p(2) bad e(2) this]]
  show ?thesis unfolding rs(1) p(1) refused by (simp add: attempt_def or_fail_def fail_def)
qed

text \<open>The numbers of the slots are distinct.\<close>

lemma slots_distinct:
  assumes "distinct (map rg_base rs)" "length rs \<le> 510"
  shows "inj_on (slot_map 0 rs) (rg_base ` set rs)" "\<forall>r \<in> set rs. slot_map 0 rs (rg_base r) \<noteq> None"
proof -
  have at: "slot_map 0 rs (rg_base (rs ! i)) = Some (of_nat i)" if "i < length rs" for i
    using map_of_zip_nth [of "map rg_base rs" "map of_nat [0..<length rs]" i] that assms(1) by (simp add: slot_map_def)
  have num: "(of_nat i :: u32) = of_nat j \<longleftrightarrow> i = j" if "i < 510" "j < 510" for i j
    using that by (simp add: word_unat_eq_iff unat_of_nat)
  show "\<forall>r \<in> set rs. slot_map 0 rs (rg_base r) \<noteq> None" using at by (metis in_set_conv_nth option.distinct(1))
  show "inj_on (slot_map 0 rs) (rg_base ` set rs)"
  proof (rule inj_onI, elim imageE)
    fix x y r s assume rs: "x = rg_base r" "y = rg_base s" "r \<in> set rs" "s \<in> set rs" "slot_map 0 rs x = slot_map 0 rs y"
    obtain i j where ij: "i < length rs" "j < length rs" "r = rs ! i" "s = rs ! j" using rs(3,4) by (metis in_set_conv_nth)
    then have "i = j" using rs(1,2,5) at [of i] at [of j] num [of i j] assms(2) by simp
    then show "x = y" using rs(1,2) ij by simp
  qed
qed

lemma laid_out_sorted:
  assumes "laid_out infos rs"
  shows "sort_key rg_base rs = rs" "distinct (map rg_base rs)" "sum_list (map (unat \<circ> rg_size) rs) = sum_list (map info_bytes infos)"
proof -
  have ord: "sorted_wrt (\<lambda>r s. unat (rg_base r) + unat (rg_size r) \<le> unat (rg_base s)) rs"
    using laid_outD(2) [OF assms] by (simp add: sorted_wrt_map region_span_def case_prod_beta)
  have pos: "\<forall>r \<in> set rs. rg_size r > 0" using laid_out_separate(2) [OF assms] .
  have "sorted_wrt (\<lambda>r s. rg_base r < rg_base s) rs"
  proof (rule sorted_wrt_mono_rel [OF _ ord])
    show "rg_base r < rg_base s" if "r \<in> set rs" "unat (rg_base r) + unat (rg_size r) \<le> unat (rg_base s)" for r s
      using that pos by (auto simp: word_less_nat_alt)
  qed
  then have "sorted_wrt (<) (map rg_base rs)" by (simp add: sorted_wrt_map)
  then show "sort_key rg_base rs = rs" "distinct (map rg_base rs)"
    by (simp_all add: strict_sorted_iff sort_key_id_if_sorted)
  show "sum_list (map (unat \<circ> rg_size) rs) = sum_list (map info_bytes infos)"
    using arg_cong [OF laid_outD(1) [OF assms], of "\<lambda>l. sum_list (map snd l)"]
    by (simp add: spans_total region_span_def o_def)
qed

lemma build_result:
  assumes "GUEST_PHYS_END n = Some pe" "ResourceManager_new pe None = Some rm" "sys_works sys" "builder_ok b infos"
    "guest_end infos \<le> Suc (unat (GUEST_MEM_END pe))" "guest_end infos < 2 ^ 64"
  shows "\<exists>rs vm ctx. laid_out infos rs \<and> map guest_span vm = map region_span rs \<and>
    pools (free_memory pe - regions_words rs) 509 (length rs) (ctx_res ctx) \<and> base_to_slot (ctx_mgr ctx) = slot_map 0 rs \<and>
    builder_build sys host_end pe b infos rm w =
      (if guest_end infos \<le> unat (GUEST_MEM_END pe)
       then Some (Inr (), ctx\<lparr>ctx_mgr := (ctx_mgr ctx)\<lparr>vm_as := Some vm, mgr_address_space :=
         Some \<lparr>as_state = \<lparr>regions = rs, layout = layout_new host_end pe GUEST_MEM_START (GUEST_MEM_END pe)\<rparr>\<rparr>\<rparr>\<rparr>)
       else None)"
proof -
  obtain rs ctx where p: "place_regions sys GUEST_MEM_START infos (fresh_ctx b rm w) = Some (Inr rs, ctx)" "laid_out infos rs"
      "ctx_res ctx = rm" "base_to_slot (ctx_mgr ctx) = Map.empty"
    using regions_placed [OF assms(4,3,6)] by blast
  obtain vm ctx' where m: "map_regions sys [] rs ctx = Some (Inr vm, ctx')" "map guest_span vm = map region_span rs"
      "pools (free_memory pe - regions_words rs) 509 (length rs) (ctx_res ctx')" "base_to_slot (ctx_mgr ctx') = slot_map 0 rs"
    using regions_mapped [OF assms(1,2,3) p(2) assms(5) p(3,4)] by blast
  show ?thesis
    by (rule exI [of _ rs], rule exI [of _ vm], rule exI [of _ ctx'])
      (use m(3) in \<open>simp add: p(2) m(2,4) build_steps attempt_def p(1) m(1) modify_mgr_def pure_def space_created [OF p(2)] laid_out_sorted(1) [OF p(2)]\<close>)
qed

section \<open>Queries\<close>

lemmas query_defs = AddressSpace_prot_flags_def AddressSpace_numa_node_id_def AddressSpace_is_dax_region_def
  region_prot_flags_def numa_node_id_def is_dax_region_def

lemma as_okD:
  assumes "as_ok self"
  shows "\<forall>r \<in> set (regions self). unat (rg_base r) + unat (rg_size r) < 2 ^ 64"
    "\<forall>r \<in> set (regions self). unat (rg_base r) + unat (rg_size r) < 2 ^ 64 \<and> rg_size r > 0" "separate_regions (regions self)"
  using assms valid_fits unfolding as_ok_def by blast+

lemma lookup_inside:
  assumes "as_ok (as_state self)" "r \<in> set (regions (as_state self))" "unat a \<in> region_addrs r"
  shows "AddressSpace_prot_flags self a = Some (Inr (prot_flags r)) \<and> AddressSpace_numa_node_id self a = Some (host_numa_node_id r) \<and>
    AddressSpace_is_dax_region self a = Some (rg_ty r = DAXMemory)"
proof -
  note found = find_separate [OF as_okD(3) [OF assms(1)] assms(2,3)]
  have "(\<exists>s \<in> set (regions (as_state self)). rg_ty s = DAXMemory \<and> unat a \<in> region_addrs s) \<longleftrightarrow> rg_ty r = DAXMemory"
    using found(2) assms(2,3) by blast
  then show ?thesis by (simp add: query_defs find_region_ok [OF as_okD(1) [OF assms(1)]] found(1))
qed

lemma lookup_outside:
  assumes "as_ok (as_state self)" "\<forall>r \<in> set (regions (as_state self)). unat a \<notin> region_addrs r"
  shows "AddressSpace_prot_flags self a = Some (Inl InvalidRegionType) \<and> AddressSpace_numa_node_id self a = Some None \<and>
    AddressSpace_is_dax_region self a = Some False"
proof -
  have "find (\<lambda>r. unat a \<in> region_addrs r) (regions (as_state self)) = None" using assms(2) by (auto simp: find_None_iff)
  moreover have "\<not> (\<exists>r \<in> set (regions (as_state self)). rg_ty r = DAXMemory \<and> unat a \<in> region_addrs r)" using assms(2) by blast
  ultimately show ?thesis by (simp add: query_defs find_region_ok [OF as_okD(1) [OF assms(1)]])
qed

lemma last_addr_greatest:
  assumes "as_ok (as_state self)"
  shows "\<exists>e. AddressSpace_last_addr self = Some e \<and>
    (\<forall>r \<in> set (regions (as_state self)). rg_ty r \<noteq> DAXMemory \<longrightarrow> (\<forall>x \<in> region_addrs r. x \<le> unat e)) \<and>
    (e = mem_start (AddressSpace_layout self) \<or> (\<exists>r \<in> set (regions (as_state self)). rg_ty r \<noteq> DAXMemory \<and> unat e \<in> region_addrs r))"
  using last_addr_ok [OF as_okD(2) [OF assms], of "mem_start (layout (as_state self))"]
  unfolding AddressSpace_last_addr_def AddressSpace_layout_def last_addr_def by blast

text \<open>A system whose calls all succeed, a machine with one node of memory, and an address space with one
  region.\<close>

definition demo_sys :: "unit VmSys" where
  "demo_sys = \<lparr>memfd_create = \<lambda>_ w. (Inr 3, w), set_file_len = \<lambda>_ _ w. (Inr (), w), create_dir_all = \<lambda>_ w. (Inr (), w),
     open_create = \<lambda>_ w. (Inr 3, w), unlink = \<lambda>_ w. (Inr (), w), dup_fd = \<lambda>fd w. (Inr fd, w),
     mmap_build = \<lambda>_ _ _ _ w. (Inr 0, w), madvise = \<lambda>_ _ _ w. (Inr (), w), mbind = \<lambda>_ _ _ w. w,
     guest_region_new = \<lambda>_ _. None, vm_insert_region = \<lambda>_ _. None, get_host_address = \<lambda>g. Some (mm_ptr (gr_mmap g)),
     set_user_memory_region = \<lambda>_ _ _ _ _ w. (Inr (), w), spawn_thread = \<lambda>w. (True, w)\<rparr>"

lemma demo_sys_works: "sys_works demo_sys"
  using unat_less_exp [where 'a = 64] by (auto simp: sys_works_def demo_sys_def intro: less_imp_le)

definition demo_builder :: AddressSpaceMgrBuilder where
  "demo_builder = \<lparr>mem_type = ''shmem'', mem_file = [], mem_index = 0, mem_suffix = True, mem_prealloc = False,
     dirty_page_logging = False, vmfd = Some 9\<rparr>"

definition demo_info :: "u64 \<Rightarrow> NumaRegionInfo" where
  "demo_info n = \<lparr>info_size = n, info_host_node = None, info_guest_node = Some 0, info_vcpu_ids = [0, 1]\<rparr>"

lemma demo_builder_ok: "0 < n \<Longrightarrow> n < 2 ^ 44 \<Longrightarrow> builder_ok demo_builder [demo_info n]"
  by (simp add: builder_ok_def demo_builder_def demo_info_def source_from_str_def word_less_nat_alt)

definition demo_space :: AddressSpace where
  "demo_space = \<lparr>as_state = \<lparr>regions = [region_new DefaultMemory 0x1000 0x1000], layout = layout_new 0 demo_pe 0 0x10000\<rparr>\<rparr>"

lemma demo_space_run: "as_run demo_space"
  by (rule as_run.built [of "[region_new DefaultMemory 0x1000 0x1000]" "layout_new 0 demo_pe 0 0x10000"])
    (simp_all add: AddressSpace_from_regions_def base_from_regions_iff demo_space_def region_new_def layout_new_def
      is_region_valid_def checked_add_def separate_regions_def)

text \<open>An empty region between two that overlap hides the overlap from the constructor, which compares
  neighbours only; hence the condition on sizes in the invariant.\<close>

lemma empty_region_hides_overlap:
  "\<exists>space. AddressSpace_from_regions [region_new DefaultMemory 0x1000 0x2000, region_new DefaultMemory 0x1000 0,
      region_new DefaultMemory 0x2000 0x1000] (layout_new 0 demo_pe 0 0x10000) = Some space \<and>
    \<not> separate_regions (regions (as_state space))"
  by (simp add: AddressSpace_from_regions_def base_from_regions_def region_new_def layout_new_def is_region_valid_def
      checked_add_def intersect_with_def separate_regions_def apart_def region_addrs_def)

section \<open>Properties\<close>

text \<open>C30: the memory of a machine. On a fresh resource manager, with a known memory type, at most
  509 non-empty nodes and a system whose calls succeed, \<open>AddressSpaceMgrBuilder::build\<close> succeeds whenever the
  memory, laid out from address 0 around the hole between 3 and 4 GiB, ends at or before the last
  guest memory address. The address space then holds exactly the requested number of bytes in
  separate regions that avoid the hole; no address of a region is still free in the resource manager;
  every region has a KVM slot of its own; and the guest memory has the same ranges as the address space.\<close>

theorem guest_memory_created:
  assumes "GUEST_PHYS_END n = Some pe" "ResourceManager_new pe None = Some rm" "sys_works sys" "builder_ok b infos"
    "guest_end infos \<le> unat (GUEST_MEM_END pe)"
  shows "\<exists>ctx space vm. builder_build sys host_end pe b infos rm w = Some (Inr (), ctx) \<and>
    mgr_address_space (ctx_mgr ctx) = Some space \<and> as_ok (as_state space) \<and>
    sum_list (map (unat \<circ> rg_size) (regions (as_state space))) = sum_list (map info_bytes infos) \<and>
    (\<forall>r \<in> set (regions (as_state space)). rg_ty r = DefaultMemory \<and> region_addrs r \<inter> {3 * 2 ^ 30..<2 ^ 32} = {} \<and>
       (\<forall>x. unat x \<in> region_addrs r \<longrightarrow> state_at (mem_pool (ctx_res ctx)) x \<noteq> Some Free) \<and>
       base_to_slot (ctx_mgr ctx) (rg_base r) \<noteq> None) \<and>
    inj_on (base_to_slot (ctx_mgr ctx)) (rg_base ` set (regions (as_state space))) \<and>
    vm_as (ctx_mgr ctx) = Some vm \<and> map guest_span vm = map region_span (regions (as_state space))"
proof -
  have "guest_end infos < 2 ^ 64" using assms(5) unat_less_exp [of "GUEST_MEM_END pe"] by simp
  then obtain rs vm ctx where p: "laid_out infos rs" "map guest_span vm = map region_span rs"
      "pools (free_memory pe - regions_words rs) 509 (length rs) (ctx_res ctx)" "base_to_slot (ctx_mgr ctx) = slot_map 0 rs"
      "builder_build sys host_end pe b infos rm w = Some (Inr (), ctx\<lparr>ctx_mgr := (ctx_mgr ctx)\<lparr>vm_as := Some vm, mgr_address_space :=
         Some \<lparr>as_state = \<lparr>regions = rs, layout = layout_new host_end pe GUEST_MEM_START (GUEST_MEM_END pe)\<rparr>\<rparr>\<rparr>\<rparr>)"
    using build_result [OF assms(1-4), of host_end w] assms(5) by auto
  let ?lay = "layout_new host_end pe GUEST_MEM_START (GUEST_MEM_END pe)"
  have "AddressSpace_from_regions rs ?lay = Some \<lparr>as_state = \<lparr>regions = rs, layout = ?lay\<rparr>\<rparr>"
    using space_created [OF p(1), of host_end pe] assms(5) laid_out_sorted(1) [OF p(1)] by simp
  then have ok: "as_ok \<lparr>regions = rs, layout = ?lay\<rparr>"
    using as_run_ok [OF as_run.built] laid_out_separate(2) [OF p(1)] by fastforce
  have hole: "region_addrs r \<inter> {3 * 2 ^ 30..<2 ^ 32} = {}" "rg_ty r = DefaultMemory" if "r \<in> set rs" for r
    using p(1) that by (fastforce simp: laid_out_def region_addrs_def)+
  have taken: "state_at (mem_pool (ctx_res ctx)) x \<noteq> Some Free" if "r \<in> set rs" "unat x \<in> region_addrs r" for r x
    using p(3) that by (auto simp: pools_def regions_words_def region_words_def)
  show ?thesis
    by (rule exI, rule exI [of _ "\<lparr>as_state = \<lparr>regions = rs, layout = ?lay\<rparr>\<rparr>"], rule exI [of _ vm], intro conjI, rule p(5))
      (use ok hole taken slots_distinct [OF laid_out_sorted(2) [OF p(1)] laid_outD(4) [OF p(1)]] laid_out_sorted(3) [OF p(1)] p(2,4) in
        \<open>simp_all\<close>)
qed

theorem guest_memory_created_witness:
  "\<exists>rm ctx space. ResourceManager_new demo_pe None = Some rm \<and>
     builder_build demo_sys 0 demo_pe demo_builder [demo_info 4096] rm () = Some (Inr (), ctx) \<and>
     mgr_address_space (ctx_mgr ctx) = Some space \<and> as_ok (as_state space) \<and>
     sum_list (map (unat \<circ> rg_size) (regions (as_state space))) = 2 ^ 32"
proof -
  obtain rm where rm: "ResourceManager_new demo_pe None = Some rm" using demo_manager by blast
  have fits: "guest_end [demo_info 4096] \<le> unat (GUEST_MEM_END demo_pe)"
    by (simp add: guest_end_def info_bytes_def demo_info_def GUEST_MEM_END_def demo_pe_def unat_drop_bit_eq)
  show ?thesis
    using guest_memory_created [OF demo_phys_end rm demo_sys_works demo_builder_ok fits, of 0 "()"] rm
    by (auto simp: info_bytes_def demo_info_def)
qed

text \<open>C31: memory that does not fit. Under the same conditions the creation is refused when the memory
  ends above the last guest memory address: with \<open>NoAvailableMemAddress\<close> when it ends more than one byte above,
  and with a panic when its last byte is the last guest memory address itself, because the resource
  manager grants that byte but the layout does not accept a region that ends there.\<close>

theorem guest_memory_refused:
  assumes "GUEST_PHYS_END n = Some pe" "ResourceManager_new pe None = Some rm" "sys_works sys" "builder_ok b infos"
    "unat (GUEST_MEM_END pe) < guest_end infos" "guest_end infos < 2 ^ 64"
  shows "if guest_end infos = unat (GUEST_MEM_END pe) + 1 then builder_build sys host_end pe b infos rm w = None
    else \<exists>ctx. builder_build sys host_end pe b infos rm w = Some (Inl NoAvailableMemAddress, ctx)"
proof (cases "guest_end infos = unat (GUEST_MEM_END pe) + 1")
  case True
  then show ?thesis using build_result [OF assms(1-4) _ assms(6), of host_end w] by auto
next
  case False
  obtain rs ctx where p: "place_regions sys GUEST_MEM_START infos (fresh_ctx b rm w) = Some (Inr rs, ctx)" "laid_out infos rs"
      "ctx_res ctx = rm"
    using regions_placed [OF assms(4,3,6)] by blast
  obtain ctx' where "map_regions sys [] rs ctx = Some (Inl NoAvailableMemAddress, ctx')"
    using regions_refused [OF assms(1-3) p(2) _ p(3)] False assms(5) by auto
  then show ?thesis using False by (simp add: build_steps attempt_def p(1))
qed

theorem guest_memory_refused_witness:
  "\<exists>rm. ResourceManager_new demo_pe None = Some rm \<and>
     builder_build demo_sys 0 demo_pe demo_builder [demo_info 31744] rm () = None \<and>
     (\<exists>ctx. builder_build demo_sys 0 demo_pe demo_builder [demo_info 40960] rm () = Some (Inl NoAvailableMemAddress, ctx))"
proof -
  obtain rm where rm: "ResourceManager_new demo_pe None = Some rm" using demo_manager by blast
  have e: "guest_end [demo_info 31744] = 2 ^ 35" "guest_end [demo_info 40960] = 41 * 2 ^ 30" "unat (GUEST_MEM_END demo_pe) = 2 ^ 35 - 1"
    by (simp_all add: guest_end_def info_bytes_def demo_info_def GUEST_MEM_END_def demo_pe_def unat_drop_bit_eq)
  show ?thesis
    using guest_memory_refused [OF demo_phys_end rm demo_sys_works demo_builder_ok, of 31744 0 "()"]
      guest_memory_refused [OF demo_phys_end rm demo_sys_works demo_builder_ok, of 40960 0 "()"] rm
    by (simp add: e)
qed

text \<open>C32: the address space of regions is well-formed at all times. Whatever non-empty regions it was built
  from and given later, its regions are inside the layout and pairwise separate. The insertion of a
  non-empty region never panics: it adds the region if it is inside the layout and apart from all
  others, and otherwise reports \<open>InvalidAddressRange\<close> and changes nothing. Every address of a region has that
  region's protection flags, NUMA node and kind; an address of no region has none; and the last
  address is the greatest one of the regions that are not for DAX, or the start of the layout if there is none.\<close>

theorem address_space_wf:
  assumes "as_run self"
  shows "as_ok (as_state self) \<and>
    (\<forall>r. rg_size r > 0 \<longrightarrow> (\<exists>result self'. AddressSpace_insert_region r self = Some (result, self') \<and>
       (if is_region_valid (AddressSpace_layout self) r \<and> (\<forall>s \<in> set (regions (as_state self)). apart s r)
        then result = Inr () \<and> set (regions (as_state self')) = insert r (set (regions (as_state self)))
        else result = Inl (InvalidAddressRange (rg_base r) (rg_size r)) \<and> self' = self))) \<and>
    (\<forall>r \<in> set (regions (as_state self)). \<forall>a. unat a \<in> region_addrs r \<longrightarrow>
       AddressSpace_prot_flags self a = Some (Inr (prot_flags r)) \<and> AddressSpace_numa_node_id self a = Some (host_numa_node_id r) \<and>
       AddressSpace_is_dax_region self a = Some (rg_ty r = DAXMemory)) \<and>
    (\<forall>a. (\<forall>r \<in> set (regions (as_state self)). unat a \<notin> region_addrs r) \<longrightarrow>
       AddressSpace_prot_flags self a = Some (Inl InvalidRegionType) \<and> AddressSpace_numa_node_id self a = Some None \<and>
       AddressSpace_is_dax_region self a = Some False) \<and>
    (\<exists>e. AddressSpace_last_addr self = Some e \<and>
       (\<forall>r \<in> set (regions (as_state self)). rg_ty r \<noteq> DAXMemory \<longrightarrow> (\<forall>x \<in> region_addrs r. x \<le> unat e)) \<and>
       (e = mem_start (AddressSpace_layout self) \<or> (\<exists>r \<in> set (regions (as_state self)). rg_ty r \<noteq> DAXMemory \<and> unat e \<in> region_addrs r)))"
proof -
  have ok: "as_ok (as_state self)" using as_run_ok [OF assms] .
  show ?thesis
    using as_insert_ok [OF ok] lookup_inside [OF ok] lookup_outside [OF ok] last_addr_greatest [OF ok] ok
    unfolding AddressSpace_layout_def [of self] by (intro conjI allI ballI impI) meson+
qed

theorem address_space_wf_witness:
  "as_run demo_space \<and> AddressSpace_prot_flags demo_space 0x1800 = Some (Inr (PROT_READ OR PROT_WRITE)) \<and>
   AddressSpace_prot_flags demo_space 0x2000 = Some (Inl InvalidRegionType)"
proof -
  have r: "regions (as_state demo_space) = [region_new DefaultMemory 0x1000 0x1000]" by (simp add: demo_space_def)
  show ?thesis
    using address_space_wf [OF demo_space_run] demo_space_run unfolding r by (simp add: region_addrs_def region_new_def)
qed

text \<open>The pages of a mapping have distinct addresses.\<close>

lemma pages_distinct:
  assumes "unat addr + unat (sz :: u64) \<le> 2 ^ 64"
  shows "distinct (map (\<lambda>i. addr + of_nat i * PAGE_SIZE) [0..<unat (drop_bit PAGE_SHIFT sz)])"
proof -
  have n: "unat (of_nat i * PAGE_SIZE) = i * 4096" if "i < unat (drop_bit PAGE_SHIFT sz)" for i
  proof -
    have "i * 4096 < 2 ^ 64"
      using that unat_less_exp [of sz] unfolding unat_drop_bit_eq PAGE_SHIFT_def by (simp add: drop_bit_eq_div)
    then have "unat (of_nat (i * 4096) :: u64) = i * 4096" by (simp add: unat_of_nat del: of_nat_mult)
    then show ?thesis by (simp add: PAGE_SIZE_def)
  qed
  have "inj_on (\<lambda>i. addr + of_nat i * PAGE_SIZE) {0..<unat (drop_bit PAGE_SHIFT sz)}"
  proof (rule inj_onI)
    fix i j assume ij: "i \<in> {0..<unat (drop_bit PAGE_SHIFT sz)}" "j \<in> {0..<unat (drop_bit PAGE_SHIFT sz)}"
      "addr + of_nat i * PAGE_SIZE = addr + of_nat j * PAGE_SIZE"
    then have "unat (of_nat i * PAGE_SIZE) = unat (of_nat j * PAGE_SIZE)" by simp
    then show "i = j" using n [of i] n [of j] ij(1,2) by simp
  qed
  then show ?thesis by (simp add: distinct_map)
qed

text \<open>C33: prepopulation. For a mapping that fits in the address space of the host, the configuration for huge
  pages with prepopulation starts, when the system lets it, at least one and at most 16 threads, and
  these touch every page of the mapping exactly once, in order.\<close>

theorem prealloc_covers:
  assumes "\<And>w. \<not> isl (fst (madvise sys (mm_ptr m) (mm_size m) MADV_HUGEPAGE w))" "\<And>w. fst (spawn_thread sys w)"
    "unat (mm_ptr m) + unat (mm_size m) \<le> 2 ^ 64" "perm_flags region AND MAP_POPULATE \<noteq> 0"
  shows "\<exists>ctx' jobs. configure_thp_and_prealloc sys region m ctx = Some (Inr (), ctx') \<and>
    prealloc_handlers (ctx_mgr ctx') = prealloc_handlers (ctx_mgr ctx) @ jobs \<and> 1 \<le> length jobs \<and> length jobs \<le> 16 \<and>
    concat (map touched jobs) = map (\<lambda>i. mm_ptr m + of_nat i * PAGE_SIZE) [0..<unat (drop_bit PAGE_SHIFT (mm_size m))] \<and>
    distinct (concat (map touched jobs))"
proof -
  let ?n = "drop_bit PAGE_SHIFT (mm_size m)"
  obtain t where t: "touch_threads (mm_size m) = Some t" "1 \<le> unat t" "unat t \<le> 16" using touch_threads_ok by blast
  obtain jobs where j: "map (\<lambda>i. thread_range (mm_ptr m) ?n (?n div t) t (of_nat i)) [0..<unat t] = map Some jobs"
      "concat (map touched jobs) = map (\<lambda>i. mm_ptr m + of_nat i * PAGE_SIZE) [0..<unat ?n]"
    using threads_cover [OF t(1) assms(3) refl] by blast
  have len: "length jobs = unat t" using arg_cong [OF j(1), of length] by simp
  have "gives (configure_thp_and_prealloc sys region m) ctx
      (\<lambda>_ ctx'. prealloc_handlers (ctx_mgr ctx') = prealloc_handlers (ctx_mgr ctx) @ jobs)"
    unfolding configure_thp_and_prealloc_def
  proof (rule gives_attempt [OF gives_sys_call [where P = "\<lambda>_ ctx'. ctx_mgr ctx' = ctx_mgr ctx"]])
    fix ctx' :: "'a AsCtx" assume "ctx_mgr ctx' = ctx_mgr ctx"
    then show "gives (if perm_flags region AND MAP_POPULATE \<noteq> 0
        then let npage = drop_bit PAGE_SHIFT (mm_size m) in
          attempt (pure (touch_threads (mm_size m)))
            (\<lambda>touch_thread. spawn_loop sys (mm_ptr m) npage (npage div touch_thread) touch_thread [0..<unat touch_thread])
        else ok ()) ctx' (\<lambda>_ ctx'. prealloc_handlers (ctx_mgr ctx') = prealloc_handlers (ctx_mgr ctx) @ jobs)"
      using spawn_loop_ok [OF j(1), of sys ctx' ctx'] assms(2,4) t(1) by (auto simp: Let_def attempt_def pure_def gives_def)
  qed (use assms(1) in simp_all)
  then show ?thesis using j(2) len t(2,3) pages_distinct [OF assms(3)] by (auto simp: gives_def)
qed

theorem prealloc_covers_witness:
  "\<exists>rm ctx' jobs. ResourceManager_new demo_pe None = Some rm \<and>
     configure_thp_and_prealloc demo_sys ((region_new DefaultMemory 0 0x3000)\<lparr>perm_flags := MAP_POPULATE\<rparr>)
       \<lparr>mm_ptr = 0x10000, mm_size = 0x3000\<rparr> (fresh_ctx demo_builder rm ()) = Some (Inr (), ctx') \<and>
     prealloc_handlers (ctx_mgr ctx') = jobs \<and> concat (map touched jobs) = [0x10000, 0x11000, 0x12000]"
proof -
  obtain rm where rm: "ResourceManager_new demo_pe None = Some rm" using demo_manager by blast
  show ?thesis
    using prealloc_covers [of demo_sys "\<lparr>mm_ptr = 0x10000, mm_size = 0x3000\<rparr>"
      "(region_new DefaultMemory 0 0x3000)\<lparr>perm_flags := MAP_POPULATE\<rparr>" "fresh_ctx demo_builder rm ()"] rm
    by (auto simp: demo_sys_def fresh_ctx_def AddressSpaceMgr_default_def PAGE_SIZE_def PAGE_SHIFT_def upt_rec MAP_POPULATE_def
        unat_drop_bit_eq)
qed


end
