(* ===== verification/Interrupts.thy ===== *)
theory Interrupts
  imports Op_Monad Resources
begin

text \<open>
  Interrupts of devices (\<open>dbs_interrupt\<close>, for x86_64): the table of interrupt routes of a virtual machine
  (\<open>kvm/mod.rs\<close>), groups of legacy and of message signaled interrupts (\<open>kvm/legacy_irq.rs\<close>,
  \<open>kvm/msi_generic.rs\<close>, \<open>kvm/msi_irq.rs\<close>), the manager that switches a device between modes (\<open>manager.rs\<close>) and the
  notifiers that inject interrupts (\<open>notifier.rs\<close>).

  The calls to KVM and on event file descriptors are an argument, the record \<open>IrqSys\<close>, on a state of type
  \<open>'w\<close>. A shared group (\<open>Arc\<close>) is its position in the list \<open>group_heap\<close>, so that the manager of a device and the
  manager of the machine refer to the same group. An I/O error is its number.
\<close>

section \<open>Configuration\<close>

definition EINVAL :: nat where "EINVAL = 22"
definition EEXIST :: nat where "EEXIST = 17"
definition ENOENT :: nat where "ENOENT = 2"

datatype InterruptSourceType = LegacySource | MsiSource

record MsiIrqSourceConfig =
  high_addr :: u32
  low_addr :: u32
  msi_data :: u32
  msg_ctl :: u32
  msi_device_id :: "u32 option"

definition MsiIrqSourceConfig_default :: MsiIrqSourceConfig where
  "MsiIrqSourceConfig_default = \<lparr>high_addr = 0, low_addr = 0, msi_data = 0, msg_ctl = 0, msi_device_id = None\<rparr>"

datatype InterruptSourceConfig = LegacyConfig | MsiConfig MsiIrqSourceConfig

text \<open>An entry of the routing table; its union is a pin of an interrupt controller or a message.\<close>

datatype RouteTarget = Irqchip u32 u32 | Message u32 u32 u32 u32

record kvm_irq_routing_entry =
  e_gsi :: u32
  e_type :: u32
  e_flags :: u32
  e_u :: RouteTarget

definition KVM_IRQ_ROUTING_IRQCHIP :: u32 where "KVM_IRQ_ROUTING_IRQCHIP = 1"
definition KVM_IRQ_ROUTING_MSI :: u32 where "KVM_IRQ_ROUTING_MSI = 2"
definition KVM_MSI_VALID_DEVID :: u32 where "KVM_MSI_VALID_DEVID = 1"
definition KVM_IRQCHIP_PIC_MASTER :: u32 where "KVM_IRQCHIP_PIC_MASTER = 0"
definition KVM_IRQCHIP_PIC_SLAVE :: u32 where "KVM_IRQCHIP_PIC_SLAVE = 1"
definition KVM_IRQCHIP_IOAPIC :: u32 where "KVM_IRQCHIP_IOAPIC = 2"

definition MAX_IRQS :: u32 where "MAX_IRQS = 1024"
definition DEFAULT_MAX_MSI_IRQS_PER_DEVICE :: u32 where "DEFAULT_MAX_MSI_IRQS_PER_DEVICE = 256"
definition MAX_LEGACY_IRQS :: u32 where "MAX_LEGACY_IRQS = 24"

section \<open>The interrupt routes of the machine\<close>

text \<open>The group of a device: a legacy interrupt with its base and event file descriptor, or a range of
  message signaled interrupts with a descriptor and a configuration for each.\<close>

datatype InterruptSourceGroup =
    LegacyGroup u32 nat
  | MsiGroup u32 u32 "(nat \<times> MsiIrqSourceConfig) list"

record 'w IrqSys =
  eventfd_new :: "'w \<Rightarrow> (nat + nat) \<times> 'w"
  eventfd_write :: "nat \<Rightarrow> u64 \<Rightarrow> 'w \<Rightarrow> (nat + unit) \<times> 'w"
  eventfd_read :: "nat \<Rightarrow> 'w \<Rightarrow> (nat + u64) \<times> 'w"
  register_irqfd :: "nat \<Rightarrow> u32 \<Rightarrow> 'w \<Rightarrow> (nat + unit) \<times> 'w"
  unregister_irqfd :: "nat \<Rightarrow> u32 \<Rightarrow> 'w \<Rightarrow> (nat + unit) \<times> 'w"
  set_gsi_routing :: "(u64 \<rightharpoonup> kvm_irq_routing_entry) \<Rightarrow> 'w \<Rightarrow> (nat + unit) \<times> 'w"

record 'w IrqCtx =
  irq_routes :: "u64 \<rightharpoonup> kvm_irq_routing_entry"
  irq_groups :: "u32 \<rightharpoonup> nat"
  max_msi_irqs :: u32
  group_heap :: "InterruptSourceGroup list"
  irq_w :: 'w

type_synonym ('w, 'a) irq_op = "('w IrqCtx, nat, 'a) op"

definition kvm_call :: "('w \<Rightarrow> (nat + 'a) \<times> 'w) \<Rightarrow> ('w, 'a) irq_op" where
  "kvm_call f = (\<lambda>ctx. case f (irq_w ctx) of (r, w) \<Rightarrow> ret (r, ctx\<lparr>irq_w := w\<rparr>))"

definition KvmIrqManager_new :: "'w \<Rightarrow> 'w IrqCtx" where
  "KvmIrqManager_new w = \<lparr>irq_routes = Map.empty, irq_groups = Map.empty,
     max_msi_irqs = DEFAULT_MAX_MSI_IRQS_PER_DEVICE, group_heap = [], irq_w = w\<rparr>"

definition set_max_msi_irqs :: "u32 \<Rightarrow> 'w IrqCtx \<Rightarrow> 'w IrqCtx" where
  "set_max_msi_irqs n ctx = ctx\<lparr>max_msi_irqs := n\<rparr>"

definition hash_key :: "kvm_irq_routing_entry \<Rightarrow> u64" where
  "hash_key entry =
     (let type1 = (if e_type entry = KVM_IRQ_ROUTING_IRQCHIP
                   then (case e_u entry of Irqchip chip _ \<Rightarrow> chip | Message _ _ _ _ \<Rightarrow> 0) else 0)
      in push_bit 48 (ucast type1) OR push_bit 32 (ucast (e_type entry)) OR ucast (e_gsi entry))"

definition set_routing :: "'w IrqSys \<Rightarrow> ('w, unit) irq_op" where
  "set_routing sys = (\<lambda>ctx. kvm_call (set_gsi_routing sys (irq_routes ctx)) ctx)"

definition change_routes ::
  "((u64 \<rightharpoonup> kvm_irq_routing_entry) \<Rightarrow> (u64 \<rightharpoonup> kvm_irq_routing_entry)) \<Rightarrow> ('w, unit) irq_op" where
  "change_routes f = (\<lambda>ctx. ret (Inr (), ctx\<lparr>irq_routes := f (irq_routes ctx)\<rparr>))"

definition insert_route ::
  "kvm_irq_routing_entry \<Rightarrow> (u64 \<rightharpoonup> kvm_irq_routing_entry) \<Rightarrow> (u64 \<rightharpoonup> kvm_irq_routing_entry)" where
  "insert_route entry routes = routes(hash_key entry \<mapsto> entry)"

definition add_legacy_entry ::
  "u32 \<Rightarrow> u32 \<Rightarrow> u32 \<Rightarrow> (u64 \<rightharpoonup> kvm_irq_routing_entry) \<Rightarrow> (u64 \<rightharpoonup> kvm_irq_routing_entry)" where
  "add_legacy_entry gsi chip pin =
     insert_route \<lparr>e_gsi = gsi, e_type = KVM_IRQ_ROUTING_IRQCHIP, e_flags = 0, e_u = Irqchip chip pin\<rparr>"

definition initialize_legacy :: "(u64 \<rightharpoonup> kvm_irq_routing_entry) \<Rightarrow> (u64 \<rightharpoonup> kvm_irq_routing_entry)" where
  "initialize_legacy routes =
     (let routes = fold (\<lambda>i. if i \<noteq> 2 then add_legacy_entry (of_nat i) KVM_IRQCHIP_PIC_MASTER (of_nat i) else id) [0..<8] routes;
          routes = fold (\<lambda>i. add_legacy_entry (of_nat i) KVM_IRQCHIP_PIC_SLAVE (of_nat (i - 8))) [8..<16] routes
      in fold (\<lambda>i. if i = 0 then add_legacy_entry (of_nat i) KVM_IRQCHIP_IOAPIC 2
                   else if i \<noteq> 2 then add_legacy_entry (of_nat i) KVM_IRQCHIP_IOAPIC (of_nat i) else id)
           [0..<unat MAX_LEGACY_IRQS] routes)"

definition KvmIrqManager_initialize :: "'w IrqSys \<Rightarrow> ('w, unit) irq_op" where
  "KvmIrqManager_initialize sys = attempt (change_routes initialize_legacy) (\<lambda>_. set_routing sys)"

fun check_entries :: "(u64 \<rightharpoonup> kvm_irq_routing_entry) \<Rightarrow> kvm_irq_routing_entry list \<Rightarrow> nat option" where
  "check_entries routes [] = None"
| "check_entries routes (entry # entries) =
     (if e_gsi entry \<ge> MAX_IRQS then Some EINVAL
      else if routes (hash_key entry) \<noteq> None then Some EEXIST
      else check_entries routes entries)"

definition routing_add :: "'w IrqSys \<Rightarrow> kvm_irq_routing_entry list \<Rightarrow> ('w, unit) irq_op" where
  "routing_add sys entries = (\<lambda>ctx.
     (case check_entries (irq_routes ctx) entries of
        Some e \<Rightarrow> fail e
      | None \<Rightarrow> attempt (change_routes (fold insert_route entries)) (\<lambda>_. set_routing sys)) ctx)"

definition routing_remove :: "'w IrqSys \<Rightarrow> kvm_irq_routing_entry list \<Rightarrow> ('w, unit) irq_op" where
  "routing_remove sys entries =
     attempt (change_routes (fold (\<lambda>entry routes. routes(hash_key entry := None)) entries)) (\<lambda>_. set_routing sys)"

definition routing_modify :: "'w IrqSys \<Rightarrow> kvm_irq_routing_entry \<Rightarrow> ('w, unit) irq_op" where
  "routing_modify sys entry = (\<lambda>ctx.
     (if irq_routes ctx (hash_key entry) = None then fail ENOENT
      else attempt (change_routes (insert_route entry)) (\<lambda>_. set_routing sys)) ctx)"

section \<open>Groups of interrupts\<close>

definition new_legacy_group :: "'w IrqSys \<Rightarrow> u32 \<Rightarrow> u32 \<Rightarrow> ('w, InterruptSourceGroup) irq_op" where
  "new_legacy_group sys base count =
     (if count \<noteq> 1 then fail EINVAL
      else if base \<ge> MAX_LEGACY_IRQS then fail EINVAL
      else attempt (kvm_call (eventfd_new sys)) (\<lambda>irqfd. ok (LegacyGroup base irqfd)))"

text \<open>\<open>MsiConfig::new\<close>, which panics when no descriptor can be made, once for each interrupt.\<close>

definition MsiConfig_new :: "'w IrqSys \<Rightarrow> ('w, nat \<times> MsiIrqSourceConfig) irq_op" where
  "MsiConfig_new sys = (\<lambda>ctx.
     case eventfd_new sys (irq_w ctx) of
       (Inr irqfd, w) \<Rightarrow> ret (Inr (irqfd, MsiIrqSourceConfig_default), ctx\<lparr>irq_w := w\<rparr>)
     | (Inl _, _) \<Rightarrow> panic)"

primrec new_msi_configs :: "'w IrqSys \<Rightarrow> nat \<Rightarrow> ('w, (nat \<times> MsiIrqSourceConfig) list) irq_op" where
  "new_msi_configs sys 0 = ok []"
| "new_msi_configs sys (Suc n) =
     attempt (MsiConfig_new sys) (\<lambda>c. attempt (new_msi_configs sys n) (\<lambda>cs. ok (c # cs)))"

definition new_msi_group :: "'w IrqSys \<Rightarrow> u32 \<Rightarrow> u32 \<Rightarrow> ('w, InterruptSourceGroup) irq_op" where
  "new_msi_group sys base count = (\<lambda>ctx.
     (if count > max_msi_irqs ctx \<or> base \<ge> MAX_IRQS then fail EINVAL
      else attempt (pure (uadd base count)) (\<lambda>e.
           if e > MAX_IRQS then fail EINVAL
           else attempt (new_msi_configs sys (unat count)) (\<lambda>cs. ok (MsiGroup base count cs)))) ctx)"

definition create_group :: "'w IrqSys \<Rightarrow> InterruptSourceType \<Rightarrow> u32 \<Rightarrow> u32 \<Rightarrow> ('w, nat) irq_op" where
  "create_group sys ty base count =
     attempt (case ty of LegacySource \<Rightarrow> new_legacy_group sys base count | MsiSource \<Rightarrow> new_msi_group sys base count)
       (\<lambda>group ctx. let gid = length (group_heap ctx) in
          ret (Inr gid, ctx\<lparr>group_heap := group_heap ctx @ [group], irq_groups := (irq_groups ctx)(base \<mapsto> gid)\<rparr>))"

fun group_base :: "InterruptSourceGroup \<Rightarrow> u32" where
  "group_base (LegacyGroup base _) = base"
| "group_base (MsiGroup base _ _) = base"

fun group_len :: "InterruptSourceGroup \<Rightarrow> u32" where
  "group_len (LegacyGroup _ _) = 1"
| "group_len (MsiGroup _ count _) = count"

fun interrupt_type :: "InterruptSourceGroup \<Rightarrow> InterruptSourceType" where
  "interrupt_type (LegacyGroup _ _) = LegacySource"
| "interrupt_type (MsiGroup _ _ _) = MsiSource"

definition get_shared :: "nat \<Rightarrow> 'w IrqCtx \<Rightarrow> InterruptSourceGroup rust" where
  "get_shared gid ctx = (if gid < length (group_heap ctx) then ret (group_heap ctx ! gid) else panic)"

definition on_group :: "nat \<Rightarrow> (InterruptSourceGroup \<Rightarrow> ('w, 'a) irq_op) \<Rightarrow> ('w, 'a) irq_op" where
  "on_group gid f = (\<lambda>ctx. do { g \<leftarrow> get_shared gid ctx; f g ctx })"

definition destroy_group :: "nat \<Rightarrow> ('w, unit) irq_op" where
  "destroy_group gid = on_group gid (\<lambda>g ctx. ret (Inr (), ctx\<lparr>irq_groups := (irq_groups ctx)(group_base g := None)\<rparr>))"

definition new_msi_routing_entry :: "u32 \<Rightarrow> MsiIrqSourceConfig \<Rightarrow> kvm_irq_routing_entry" where
  "new_msi_routing_entry gsi msicfg =
     \<lparr>e_gsi = gsi, e_type = KVM_IRQ_ROUTING_MSI,
      e_flags = (case msi_device_id msicfg of Some _ \<Rightarrow> KVM_MSI_VALID_DEVID | None \<Rightarrow> 0),
      e_u = Message (high_addr msicfg) (low_addr msicfg) (msi_data msicfg)
              (case msi_device_id msicfg of Some dev_id \<Rightarrow> dev_id | None \<Rightarrow> 0)\<rparr>"

fun msi_entries_from :: "u32 \<Rightarrow> nat \<Rightarrow> InterruptSourceConfig list \<Rightarrow> ('w, kvm_irq_routing_entry list) irq_op" where
  "msi_entries_from base i [] = ok []"
| "msi_entries_from base i (val # vals) =
     (case val of
        MsiConfig msicfg \<Rightarrow>
          attempt (pure (uadd base (of_nat i))) (\<lambda>gsi.
          attempt (msi_entries_from base (Suc i) vals) (\<lambda>entries.
          ok (new_msi_routing_entry gsi msicfg # entries)))
      | LegacyConfig \<Rightarrow> fail EINVAL)"

definition create_msi_routing_entries :: "u32 \<Rightarrow> InterruptSourceConfig list \<Rightarrow> ('w, kvm_irq_routing_entry list) irq_op" where
  "create_msi_routing_entries base configs =
     attempt (or_fail EINVAL (checked_add base (of_nat (length configs)))) (\<lambda>_. msi_entries_from base 0 configs)"

text \<open>A call for each interrupt of a group in turn.\<close>

fun for_irqs :: "(nat \<Rightarrow> u32 \<Rightarrow> 'w \<Rightarrow> (nat + unit) \<times> 'w) \<Rightarrow> u32 \<Rightarrow> nat \<Rightarrow> (nat \<times> MsiIrqSourceConfig) list \<Rightarrow> ('w, unit) irq_op" where
  "for_irqs f base i [] = ok ()"
| "for_irqs f base i ((irqfd, _) # cs) =
     attempt (pure (uadd base (of_nat i))) (\<lambda>gsi.
     attempt (kvm_call (f irqfd gsi)) (\<lambda>_. for_irqs f base (Suc i) cs))"

definition group_enable :: "'w IrqSys \<Rightarrow> nat \<Rightarrow> InterruptSourceConfig list \<Rightarrow> ('w, unit) irq_op" where
  "group_enable sys gid configs = on_group gid (\<lambda>g.
     case g of
       LegacyGroup base irqfd \<Rightarrow>
         if length configs \<noteq> 1 then fail EINVAL else kvm_call (register_irqfd sys irqfd base)
     | MsiGroup base count msi_configs \<Rightarrow>
         if length configs \<noteq> unat count then fail EINVAL
         else attempt (create_msi_routing_entries base configs) (\<lambda>entries.
              attempt (or_else (routing_add sys entries) (\<lambda>e. if e = EEXIST then ok () else fail e)) (\<lambda>_.
              for_irqs (register_irqfd sys) base 0 msi_configs)))"

fun config_entries :: "u32 \<Rightarrow> nat \<Rightarrow> (nat \<times> MsiIrqSourceConfig) list \<Rightarrow> kvm_irq_routing_entry list rust" where
  "config_entries base i [] = ret []"
| "config_entries base i ((_, msicfg) # cs) = do {
     gsi \<leftarrow> uadd base (of_nat i);
     entries \<leftarrow> config_entries base (Suc i) cs;
     ret (new_msi_routing_entry gsi msicfg # entries)
   }"

definition group_disable :: "'w IrqSys \<Rightarrow> nat \<Rightarrow> ('w, unit) irq_op" where
  "group_disable sys gid = on_group gid (\<lambda>g.
     case g of
       LegacyGroup base irqfd \<Rightarrow> kvm_call (unregister_irqfd sys irqfd base)
     | MsiGroup base count msi_configs \<Rightarrow>
         attempt (for_irqs (unregister_irqfd sys) base 0 msi_configs) (\<lambda>_.
         attempt (pure (config_entries base 0 msi_configs)) (\<lambda>entries.
         routing_remove sys entries)))"

definition set_group_config :: "nat \<Rightarrow> u32 \<Rightarrow> MsiIrqSourceConfig \<Rightarrow> ('w, MsiIrqSourceConfig) irq_op" where
  "set_group_config gid idx cfg = on_group gid (\<lambda>g ctx.
     case g of
       MsiGroup base count cs \<Rightarrow> do {
         (irqfd, old) \<leftarrow> vec_index cs (ucast idx);
         let new = old\<lparr>high_addr := high_addr cfg, low_addr := low_addr cfg, msi_data := msi_data cfg,
                       msi_device_id := msi_device_id cfg\<rparr>;
         ret (Inr new, ctx\<lparr>group_heap := (group_heap ctx)[gid := MsiGroup base count (cs[unat idx := (irqfd, new)])]\<rparr>)
       }
     | LegacyGroup _ _ \<Rightarrow> panic)"

definition group_update :: "'w IrqSys \<Rightarrow> nat \<Rightarrow> u32 \<Rightarrow> InterruptSourceConfig \<Rightarrow> ('w, unit) irq_op" where
  "group_update sys gid idx config = on_group gid (\<lambda>g.
     case g of
       LegacyGroup _ _ \<Rightarrow> if idx \<noteq> 0 then fail EINVAL else ok ()
     | MsiGroup base count _ \<Rightarrow>
         if idx \<ge> count then fail EINVAL
         else (case config of
                 MsiConfig cfg \<Rightarrow>
                   attempt (set_group_config gid idx cfg) (\<lambda>msicfg.
                   attempt (pure (uadd base idx)) (\<lambda>gsi.
                   routing_modify sys (new_msi_routing_entry gsi msicfg)))
               | LegacyConfig \<Rightarrow> fail EINVAL))"

definition group_irqfd :: "InterruptSourceGroup \<Rightarrow> u32 \<Rightarrow> nat rust" where
  "group_irqfd g idx =
     (case g of LegacyGroup _ irqfd \<Rightarrow> ret irqfd | MsiGroup _ _ cs \<Rightarrow> do { (irqfd, _) \<leftarrow> vec_index cs (ucast idx); ret irqfd })"

definition group_notifier :: "InterruptSourceGroup \<Rightarrow> u32 \<Rightarrow> nat option rust" where
  "group_notifier g idx =
     (if (case g of LegacyGroup _ _ \<Rightarrow> idx \<noteq> 0 | MsiGroup _ count _ \<Rightarrow> idx \<ge> count) then ret None
      else do { irqfd \<leftarrow> group_irqfd g idx; ret (Some irqfd) })"

definition group_trigger :: "'w IrqSys \<Rightarrow> nat \<Rightarrow> u32 \<Rightarrow> ('w, unit) irq_op" where
  "group_trigger sys gid idx = on_group gid (\<lambda>g.
     if (case g of LegacyGroup _ _ \<Rightarrow> idx \<noteq> 0 | MsiGroup _ count _ \<Rightarrow> idx \<ge> count) then fail EINVAL
     else attempt (pure (group_irqfd g idx)) (\<lambda>irqfd. kvm_call (eventfd_write sys irqfd 1)))"

text \<open>Masking and unmasking. A legacy group accepts the indices 0 and 1.\<close>

definition group_switch :: "(nat \<Rightarrow> u32 \<Rightarrow> 'w \<Rightarrow> (nat + unit) \<times> 'w) \<Rightarrow> nat \<Rightarrow> u32 \<Rightarrow> ('w, unit) irq_op" where
  "group_switch f gid idx = on_group gid (\<lambda>g.
     if (case g of LegacyGroup _ _ \<Rightarrow> idx > 1 | MsiGroup _ count _ \<Rightarrow> idx \<ge> count) then fail EINVAL
     else attempt (pure (group_irqfd g idx)) (\<lambda>irqfd.
          attempt (pure (uadd (group_base g) idx)) (\<lambda>gsi. kvm_call (f irqfd gsi))))"

definition group_mask :: "'w IrqSys \<Rightarrow> nat \<Rightarrow> u32 \<Rightarrow> ('w, unit) irq_op" where
  "group_mask sys = group_switch (unregister_irqfd sys)"

definition group_unmask :: "'w IrqSys \<Rightarrow> nat \<Rightarrow> u32 \<Rightarrow> ('w, unit) irq_op" where
  "group_unmask sys = group_switch (register_irqfd sys)"

text \<open>The count of the descriptor is read and written back; errors are ignored.\<close>

definition get_pending_state :: "'w IrqSys \<Rightarrow> nat \<Rightarrow> u32 \<Rightarrow> ('w, bool) irq_op" where
  "get_pending_state sys gid idx = on_group gid (\<lambda>g.
     if (case g of LegacyGroup _ _ \<Rightarrow> idx > 1 | MsiGroup _ count _ \<Rightarrow> idx \<ge> count) then ok False
     else attempt (pure (group_irqfd g idx)) (\<lambda>irqfd ctx.
          case eventfd_read sys irqfd (irq_w ctx) of
            (Inl _, w) \<Rightarrow> ret (Inr False, ctx\<lparr>irq_w := w\<rparr>)
          | (Inr count, w) \<Rightarrow>
              ret (Inr (count \<noteq> 0), ctx\<lparr>irq_w := (if count \<noteq> 0 then snd (eventfd_write sys irqfd count w) else w)\<rparr>)))"

end
