(* ===== verification/Interrupt_Manager.thy ===== *)
theory Interrupt_Manager
  imports Interrupts
begin

text \<open>
  The manager of the interrupts of one device (\<open>dbs_interrupt/manager.rs\<close>): it creates the groups that the
  device's resources allow, switches between them in the configuration stage, and enables one of
  them for the runtime stage. The interrupt status register and the notifiers (\<open>notifier.rs\<close>).
\<close>

section \<open>The manager of a device\<close>

definition MSI_INT_MASK_BIT :: nat where "MSI_INT_MASK_BIT = 0"
definition MSI_INT_MASK :: u32 where "MSI_INT_MASK = push_bit MSI_INT_MASK_BIT 1"

datatype DeviceInterruptMode = ModeDisabled | ModeLegacyIrq | ModeGenericMsiIrq | ModePciMsiIrq | ModePciMsixIrq

text \<open>The array \<open>mode2idx\<close> as a function; \<open>usize::MAX\<close> stands for a mode that is not supported.\<close>

record DeviceInterruptManager =
  intr_mode :: DeviceInterruptMode
  activated :: bool
  current_idx :: u64
  mode2idx :: "DeviceInterruptMode \<Rightarrow> u64"
  intr_groups :: "nat list"
  msi_config :: "InterruptSourceConfig list"
  intr_device_id :: "u32 option"

type_synonym ('w, 'a) dim_op = "(DeviceInterruptManager \<times> 'w IrqCtx, nat, 'a) op"

definition on_irq :: "('w, 'a) irq_op \<Rightarrow> ('w, 'a) dim_op" where
  "on_irq m = (\<lambda>(self, ctx). do { (r, ctx) \<leftarrow> m ctx; ret (r, self, ctx) })"

definition set_self :: "(DeviceInterruptManager \<Rightarrow> DeviceInterruptManager) \<Rightarrow> ('w, unit) dim_op" where
  "set_self f = (\<lambda>(self, ctx). ret (Inr (), f self, ctx))"

definition resize_msi_config_space :: "u32 \<Rightarrow> DeviceInterruptManager \<Rightarrow> DeviceInterruptManager" where
  "resize_msi_config_space n self =
     (if length (msi_config self) < unat n
      then self\<lparr>msi_config := replicate (unat n) (MsiConfig MsiIrqSourceConfig_default)\<rparr> else self)"

text \<open>One group of \<open>DeviceInterruptManager::new\<close>: it is created, and the table of modes refers to it.\<close>

definition add_group :: "'w IrqSys \<Rightarrow> DeviceInterruptMode \<Rightarrow> InterruptSourceType \<Rightarrow> u32 \<Rightarrow> u32 \<Rightarrow> ('w, unit) dim_op" where
  "add_group sys mode ty base count =
     attempt (on_irq (create_group sys ty base count)) (\<lambda>group (self, ctx). do {
       g \<leftarrow> get_shared group ctx;
       let self = (if ty = MsiSource then resize_msi_config_space (group_len g) self else self);
       ret (Inr (), self\<lparr>mode2idx := (mode2idx self)(mode := of_nat (length (intr_groups self))),
                          intr_groups := intr_groups self @ [group]\<rparr>, ctx)
     })"

definition add_msi_group :: "'w IrqSys \<Rightarrow> DeviceInterruptMode \<Rightarrow> (u32 \<times> u32) option \<Rightarrow> ('w, unit) dim_op" where
  "add_msi_group sys mode irqs =
     (case irqs of Some (base, count) \<Rightarrow> add_group sys mode MsiSource base count | None \<Rightarrow> ok ())"

definition empty_manager :: DeviceInterruptManager where
  "empty_manager = \<lparr>intr_mode = ModeDisabled, activated = False, current_idx = u64_MAX, mode2idx = (\<lambda>_. u64_MAX),
     intr_groups = [], msi_config = [], intr_device_id = None\<rparr>"

definition DeviceInterruptManager_new :: "'w IrqSys \<Rightarrow> DeviceResources \<Rightarrow> ('w, DeviceInterruptManager) irq_op" where
  "DeviceInterruptManager_new sys resources = (\<lambda>ctx. do {
     (r, self, ctx) \<leftarrow>
       attempt (case get_legacy_irq resources of
                  Some irq \<Rightarrow> add_group sys ModeLegacyIrq LegacySource irq 1
                | None \<Rightarrow> ok ()) (\<lambda>_.
       attempt (add_msi_group sys ModeGenericMsiIrq (get_generic_msi_irqs resources)) (\<lambda>_.
       attempt (add_msi_group sys ModePciMsiIrq (get_pci_msi_irqs resources)) (\<lambda>_.
       add_msi_group sys ModePciMsixIrq (get_pci_msix_irqs resources)))) (empty_manager, ctx);
     (case r of Inl e \<Rightarrow> ret (Inl e, ctx) | Inr _ \<Rightarrow> ret (Inr self, ctx))
   })"

definition set_device_id :: "u32 option \<Rightarrow> DeviceInterruptManager \<Rightarrow> DeviceInterruptManager" where
  "set_device_id device_id self = self\<lparr>intr_device_id := device_id\<rparr>"

definition is_enabled :: "DeviceInterruptManager \<Rightarrow> bool" where
  "is_enabled self = activated self"

definition get_working_mode :: "DeviceInterruptManager \<Rightarrow> DeviceInterruptMode" where
  "get_working_mode self = intr_mode self"

definition reset_configs :: "DeviceInterruptMode \<Rightarrow> DeviceInterruptManager \<Rightarrow> DeviceInterruptManager" where
  "reset_configs mode self =
     (if mode = ModeGenericMsiIrq \<or> mode = ModePciMsiIrq \<or> mode = ModePciMsixIrq
      then self\<lparr>msi_config := replicate (length (msi_config self)) (MsiConfig MsiIrqSourceConfig_default)\<rparr>
      else self)"

definition set_working_mode :: "DeviceInterruptMode \<Rightarrow> DeviceInterruptManager \<Rightarrow> (nat + unit) \<times> DeviceInterruptManager" where
  "set_working_mode mode self =
     (if activated self then (Inl EINVAL, self)
      else if mode \<noteq> intr_mode self
      then if intr_mode self \<noteq> ModeDisabled \<and> intr_mode self \<noteq> ModeLegacyIrq \<and> mode \<noteq> ModeLegacyIrq \<and> mode \<noteq> ModeDisabled
           then (Inl EINVAL, self)
           else let self = (if mode \<noteq> ModeDisabled then self\<lparr>current_idx := mode2idx self mode\<rparr> else reset_configs mode self)
                in (Inr (), self\<lparr>intr_mode := mode\<rparr>)
      else (Inr (), self))"

definition switch_mode :: "DeviceInterruptMode \<Rightarrow> ('w, unit) dim_op" where
  "switch_mode mode = (\<lambda>(self, ctx). case set_working_mode mode self of (r, self) \<Rightarrow> ret (r, self, ctx))"

definition get_configs :: "DeviceInterruptMode \<Rightarrow> DeviceInterruptManager \<times> 'w IrqCtx \<Rightarrow> InterruptSourceConfig list rust" where
  "get_configs mode = (\<lambda>(self, ctx).
     case mode of
       ModeDisabled \<Rightarrow> panic
     | ModeLegacyIrq \<Rightarrow> ret [LegacyConfig]
     | _ \<Rightarrow> do {
         gid \<leftarrow> vec_index (intr_groups self) (mode2idx self mode);
         g \<leftarrow> get_shared gid ctx;
         (if unat (group_len g) \<le> length (msi_config self) then ret (take (unat (group_len g)) (msi_config self)) else panic)
       })"

definition dim_enable :: "'w IrqSys \<Rightarrow> ('w, unit) dim_op" where
  "dim_enable sys = (\<lambda>(self, ctx).
     (if activated self then ok ()
      else attempt (if intr_mode self = ModeDisabled \<and> mode2idx self ModeLegacyIrq \<noteq> u64_MAX
                    then switch_mode ModeLegacyIrq else ok ()) (\<lambda>_ (self, ctx).
           (if intr_mode self = ModeDisabled then fail EINVAL
            else attempt (pure (vec_index (intr_groups self) (current_idx self))) (\<lambda>gid.
                 attempt (pure (get_configs (intr_mode self) (self, ctx))) (\<lambda>configs.
                 attempt (on_irq (group_enable sys gid configs)) (\<lambda>_.
                 set_self (\<lambda>self. self\<lparr>activated := True\<rparr>))))) (self, ctx))) (self, ctx))"

definition dim_reset :: "'w IrqSys \<Rightarrow> ('w, unit) dim_op" where
  "dim_reset sys = (\<lambda>(self, ctx).
     attempt (if activated self
              then attempt (set_self (\<lambda>self. self\<lparr>activated := False\<rparr>)) (\<lambda>_.
                   attempt (pure (vec_index (intr_groups self) (current_idx self))) (\<lambda>gid.
                   on_irq (group_disable sys gid)))
              else ok ()) (\<lambda>_.
     switch_mode ModeDisabled) (self, ctx))"

definition get_group :: "DeviceInterruptManager \<Rightarrow> nat option rust" where
  "get_group self =
     (if \<not> activated self \<or> intr_mode self = ModeDisabled then ret None
      else do { gid \<leftarrow> vec_index (intr_groups self) (current_idx self); ret (Some gid) })"

definition get_group_unchecked :: "DeviceInterruptManager \<Rightarrow> nat rust" where
  "get_group_unchecked self = vec_index (intr_groups self) (current_idx self)"

definition dim_update :: "'w IrqSys \<Rightarrow> u32 \<Rightarrow> ('w, unit) dim_op" where
  "dim_update sys idx = (\<lambda>(self, ctx).
     (if \<not> activated self then fail EINVAL
      else if intr_mode self = ModeGenericMsiIrq \<or> intr_mode self = ModePciMsiIrq \<or> intr_mode self = ModePciMsixIrq
      then attempt (pure (vec_index (intr_groups self) (current_idx self))) (\<lambda>gid.
           attempt (pure (get_shared gid ctx)) (\<lambda>g.
           if idx \<ge> group_len g \<or> idx \<ge> of_nat (length (msi_config self)) then fail EINVAL
           else attempt (pure (vec_index (msi_config self) (ucast idx))) (\<lambda>config. on_irq (group_update sys gid idx config))))
      else fail EINVAL) (self, ctx))"

text \<open>The setters of the parts of a message: the configuration of the index, if it has one.\<close>

definition change_msi :: "u32 \<Rightarrow> (MsiIrqSourceConfig \<Rightarrow> MsiIrqSourceConfig) \<Rightarrow> DeviceInterruptManager \<Rightarrow>
    (nat + unit) \<times> DeviceInterruptManager" where
  "change_msi idx f self =
     (if unat idx < length (msi_config self)
      then (case msi_config self ! unat idx of
              MsiConfig msi \<Rightarrow> (Inr (), self\<lparr>msi_config := (msi_config self)[unat idx := MsiConfig (f msi)]\<rparr>)
            | LegacyConfig \<Rightarrow> (Inl EINVAL, self))
      else (Inl EINVAL, self))"

definition set_msi_high_address :: "u32 \<Rightarrow> u32 \<Rightarrow> DeviceInterruptManager \<Rightarrow> (nat + unit) \<times> DeviceInterruptManager" where
  "set_msi_high_address idx v = change_msi idx (\<lambda>msi. msi\<lparr>high_addr := v\<rparr>)"

definition set_msi_low_address :: "u32 \<Rightarrow> u32 \<Rightarrow> DeviceInterruptManager \<Rightarrow> (nat + unit) \<times> DeviceInterruptManager" where
  "set_msi_low_address idx v = change_msi idx (\<lambda>msi. msi\<lparr>low_addr := v\<rparr>)"

definition set_msi_data :: "u32 \<Rightarrow> u32 \<Rightarrow> DeviceInterruptManager \<Rightarrow> (nat + unit) \<times> DeviceInterruptManager" where
  "set_msi_data idx v = change_msi idx (\<lambda>msi. msi\<lparr>msi_data := v\<rparr>)"

definition set_msi_mask :: "u32 \<Rightarrow> bool \<Rightarrow> DeviceInterruptManager \<Rightarrow> (nat + unit) \<times> DeviceInterruptManager" where
  "set_msi_mask idx masked = change_msi idx (\<lambda>msi.
     let ctl = msg_ctl msi AND NOT MSI_INT_MASK in msi\<lparr>msg_ctl := (if masked then ctl OR MSI_INT_MASK else ctl)\<rparr>)"

definition get_msi_mask :: "u32 \<Rightarrow> DeviceInterruptManager \<Rightarrow> nat + bool" where
  "get_msi_mask idx self =
     (if unat idx < length (msi_config self)
      then (case msi_config self ! unat idx of
              MsiConfig msi \<Rightarrow> Inr (msg_ctl msi AND MSI_INT_MASK = MSI_INT_MASK)
            | LegacyConfig \<Rightarrow> Inl EINVAL)
      else Inl EINVAL)"

section \<open>Status register and notifiers\<close>

type_synonym InterruptStatusRegister32 = u32

definition status_new :: InterruptStatusRegister32 where "status_new = 0"

definition status_read :: "InterruptStatusRegister32 \<Rightarrow> u32" where
  "status_read status = status"

definition status_write :: "u32 \<Rightarrow> InterruptStatusRegister32 \<Rightarrow> InterruptStatusRegister32" where
  "status_write v status = v"

definition status_read_and_clear :: "InterruptStatusRegister32 \<Rightarrow> u32 \<times> InterruptStatusRegister32" where
  "status_read_and_clear status = (status, 0)"

definition status_set_bits :: "u32 \<Rightarrow> InterruptStatusRegister32 \<Rightarrow> InterruptStatusRegister32" where
  "status_set_bits v status = status OR v"

definition status_clear_bits :: "u32 \<Rightarrow> InterruptStatusRegister32 \<Rightarrow> InterruptStatusRegister32" where
  "status_clear_bits v status = status AND NOT v"

datatype InterruptNotifier = NoopNotifier | LegacyNotifier nat u32 | MsiNotifier nat u32

fun notify :: "'w IrqSys \<Rightarrow> InterruptNotifier \<Rightarrow> (InterruptStatusRegister32 \<times> 'w IrqCtx, nat, unit) op" where
  "notify sys NoopNotifier s = ret (Inr (), s)"
| "notify sys (LegacyNotifier gid bits) (status, ctx) = do {
     (r, ctx) \<leftarrow> group_trigger sys gid 0 ctx;
     ret (r, status_set_bits bits status, ctx)
   }"
| "notify sys (MsiNotifier gid idx) (status, ctx) = do { (r, ctx) \<leftarrow> group_trigger sys gid idx ctx; ret (r, status, ctx) }"

fun notifier_fd :: "InterruptNotifier \<Rightarrow> 'w IrqCtx \<Rightarrow> nat option rust" where
  "notifier_fd NoopNotifier ctx = ret None"
| "notifier_fd (LegacyNotifier gid _) ctx = do { g \<leftarrow> get_shared gid ctx; group_notifier g 0 }"
| "notifier_fd (MsiNotifier gid idx) ctx = do { g \<leftarrow> get_shared gid ctx; group_notifier g idx }"

end
