(* ===== verification/Interrupt_Lemmas.thy ===== *)
theory Interrupt_Lemmas
  imports Interrupt_Manager
begin

text \<open>
  What the operations on interrupts keep: the groups of the machine keep their shape whatever KVM answers,
  so that the operations of a device's manager do not panic; and what they do to the table of routes
  when KVM accepts the calls.
\<close>

section \<open>Groups keep their shape\<close>

text \<open>A group without its configurations, and the conditions under which its numbers do not overflow.\<close>

fun blank :: "InterruptSourceGroup \<Rightarrow> InterruptSourceGroup" where
  "blank (LegacyGroup base irqfd) = LegacyGroup base irqfd"
| "blank (MsiGroup base count cs) = MsiGroup base count (map (\<lambda>(irqfd, _). (irqfd, MsiIrqSourceConfig_default)) cs)"

fun group_ok :: "InterruptSourceGroup \<Rightarrow> bool" where
  "group_ok (LegacyGroup base irqfd) \<longleftrightarrow> base < MAX_LEGACY_IRQS"
| "group_ok (MsiGroup base count cs) \<longleftrightarrow> length cs = unat count \<and> unat base + unat count \<le> 1024"

abbreviation shapes :: "'w IrqCtx \<Rightarrow> InterruptSourceGroup list" where
  "shapes ctx \<equiv> map blank (group_heap ctx)"

lemma blank_same:
  assumes "blank g = blank g'"
  shows "group_len g = group_len g'" "group_base g = group_base g'" "interrupt_type g = interrupt_type g'" "group_ok g \<longleftrightarrow> group_ok g'"
  using assms by (cases g; cases g'; auto dest: map_eq_imp_length_eq)+

lemma shapes_nth:
  assumes "shapes ctx' = shapes ctx" "i < length (group_heap ctx)"
  shows "i < length (group_heap ctx')" "blank (group_heap ctx' ! i) = blank (group_heap ctx ! i)"
proof -
  show l: "i < length (group_heap ctx')" using assms map_eq_imp_length_eq by metis
  show "blank (group_heap ctx' ! i) = blank (group_heap ctx ! i)"
    using arg_cong [OF assms(1), of "\<lambda>xs. xs ! i"] assms(2) l by simp
qed

text \<open>An operation that never panics and leaves the groups alone.\<close>

definition quiet :: "('w, 'a) irq_op \<Rightarrow> bool" where
  "quiet m \<longleftrightarrow> (\<forall>ctx. safely m ctx (\<lambda>_ ctx'. group_heap ctx' = group_heap ctx))"

lemma quiet_basic [simp]: "quiet (ok a)" "quiet (fail e)" "quiet (kvm_call f)" "quiet (change_routes g)" "quiet (set_routing sys)"
  by (auto simp: quiet_def safely_def ok_def fail_def kvm_call_def change_routes_def set_routing_def split: prod.split)

lemma quiet_from: "quiet m \<Longrightarrow> group_heap ctx' = group_heap ctx \<Longrightarrow> safely m ctx' (\<lambda>_ ctx''. group_heap ctx'' = group_heap ctx)"
  unfolding quiet_def by (drule spec [of _ ctx'], simp)

lemma quiet_attempt: "quiet m \<Longrightarrow> (\<And>a. quiet (f a)) \<Longrightarrow> quiet (attempt m f)"
  unfolding quiet_def [of "attempt m f"] by (rule allI, rule safely_attempt [OF quiet_from [OF _ refl]]) (simp_all add: quiet_from)

lemma quiet_or_else: "quiet m \<Longrightarrow> (\<And>e. quiet (h e)) \<Longrightarrow> quiet (or_else m h)"
  unfolding quiet_def [of "or_else m h"] by (rule allI, rule safely_or_else [OF quiet_from [OF _ refl]]) (simp_all add: quiet_from)

lemma quiet_pure: "r \<noteq> None \<Longrightarrow> (\<And>a. r = Some a \<Longrightarrow> quiet (f a)) \<Longrightarrow> quiet (attempt (pure r) f)"
  by (auto simp: quiet_def safely_def attempt_def pure_def)

lemma quiet_or_fail: "quiet (or_fail e x)"
  by (cases x) (simp_all add: or_fail_def)

lemma quiet_if: "quiet m \<Longrightarrow> quiet m' \<Longrightarrow> quiet (if b then m else m')"
  by simp

lemma quiet_routing: "quiet (routing_add sys es)" "quiet (routing_remove sys es)" "quiet (routing_modify sys e)"
proof -
  have m: "quiet (attempt (change_routes g) (\<lambda>_. set_routing sys))" for g :: "(u64 \<rightharpoonup> kvm_irq_routing_entry) \<Rightarrow> _"
    by (intro quiet_attempt) simp_all
  show "quiet (routing_remove sys es)" unfolding routing_remove_def by (rule m)
  show "quiet (routing_add sys es)" using m unfolding routing_add_def quiet_def safely_def by (auto simp: fail_def split: option.split)
  show "quiet (routing_modify sys e)" using m unfolding routing_modify_def quiet_def safely_def by (auto simp: fail_def)
qed

lemma irq_in_range:
  assumes "unat (base :: u32) + i < 2 ^ 32"
  shows "\<exists>gsi. uadd base (of_nat i) = Some gsi \<and> unat gsi = unat base + i"
proof -
  have "unat (of_nat i :: u32) = i" using assms by (simp add: unat_of_nat)
  then show ?thesis using checked_ok(1) [of base "of_nat i"] assms by auto
qed

lemma quiet_for_irqs:
  assumes "unat base + i + length cs \<le> 1024"
  shows "quiet (for_irqs f base i cs)"
  using assms
proof (induction cs arbitrary: i)
  case (Cons c cs)
  obtain gsi where "uadd base (of_nat i) = Some gsi" using irq_in_range [of base i] Cons.prems by auto
  then show ?case
    using Cons.IH [of "Suc i"] Cons.prems by (cases c) (auto intro!: quiet_attempt quiet_pure)
qed simp

lemma quiet_msi_entries:
  assumes "unat base + i + length vals \<le> 1024"
  shows "quiet (msi_entries_from base i vals)"
  using assms
proof (induction vals arbitrary: i)
  case (Cons v vals)
  obtain gsi where "uadd base (of_nat i) = Some gsi" using irq_in_range [of base i] Cons.prems by auto
  then show ?case
    using Cons.IH [of "Suc i"] Cons.prems by (cases v) (auto intro!: quiet_attempt quiet_pure)
qed simp

lemma config_entries_some:
  assumes "unat base + i + length cs \<le> 1024"
  shows "\<exists>es. config_entries base i cs = Some es"
  using assms
proof (induction cs arbitrary: i)
  case (Cons c cs)
  obtain gsi where "uadd base (of_nat i) = Some gsi" using irq_in_range [of base i] Cons.prems by auto
  then show ?case using Cons.IH [of "Suc i"] Cons.prems by (cases c) auto
qed simp

text \<open>The operations on a group of the machine.\<close>

definition on_heap :: "nat \<Rightarrow> 'w IrqCtx \<Rightarrow> bool" where
  "on_heap gid ctx \<longleftrightarrow> gid < length (group_heap ctx) \<and> group_ok (group_heap ctx ! gid)"

lemma on_heap_shapes: "on_heap gid ctx \<Longrightarrow> shapes ctx' = shapes ctx \<Longrightarrow> on_heap gid ctx'"
  unfolding on_heap_def using shapes_nth [of ctx' ctx gid] blank_same(4) [of "group_heap ctx' ! gid" "group_heap ctx ! gid"] by simp

lemma quiet_on_group:
  assumes "on_heap gid ctx" "\<And>g. group_ok g \<Longrightarrow> quiet (f g)"
  shows "safely (on_group gid f) ctx (\<lambda>_ ctx'. group_heap ctx' = group_heap ctx)"
  using assms quiet_from [OF assms(2) refl, of "group_heap ctx ! gid" ctx]
  unfolding on_heap_def by (simp add: on_group_def get_shared_def safely_def)

lemma enable_safe:
  assumes "on_heap gid ctx"
  shows "safely (group_enable sys gid configs) ctx (\<lambda>_ ctx'. group_heap ctx' = group_heap ctx)"
  unfolding group_enable_def
proof (rule quiet_on_group [OF assms])
  fix g assume "group_ok g"
  then show "quiet (case g of
       LegacyGroup base irqfd \<Rightarrow> if length configs \<noteq> 1 then fail EINVAL else kvm_call (register_irqfd sys irqfd base)
     | MsiGroup base count msi_configs \<Rightarrow>
         if length configs \<noteq> unat count then fail EINVAL
         else attempt (create_msi_routing_entries base configs) (\<lambda>entries.
              attempt (or_else (routing_add sys entries) (\<lambda>e. if e = EEXIST then ok () else fail e)) (\<lambda>_.
              for_irqs (register_irqfd sys) base 0 msi_configs)))"
    by (auto simp: create_msi_routing_entries_def split: InterruptSourceGroup.split
        intro!: quiet_attempt quiet_or_fail quiet_or_else quiet_routing quiet_for_irqs quiet_msi_entries)
qed

lemma disable_safe:
  assumes "on_heap gid ctx"
  shows "safely (group_disable sys gid) ctx (\<lambda>_ ctx'. group_heap ctx' = group_heap ctx)"
  unfolding group_disable_def
proof (rule quiet_on_group [OF assms])
  fix g assume "group_ok g"
  then show "quiet (case g of
       LegacyGroup base irqfd \<Rightarrow> kvm_call (unregister_irqfd sys irqfd base)
     | MsiGroup base count msi_configs \<Rightarrow>
         attempt (for_irqs (unregister_irqfd sys) base 0 msi_configs) (\<lambda>_.
         attempt (pure (config_entries base 0 msi_configs)) (\<lambda>entries. routing_remove sys entries)))"
    using config_entries_some [of _ 0]
    by (cases g) (auto intro!: quiet_attempt quiet_for_irqs quiet_pure quiet_routing)
qed

lemma switch_safe:
  assumes "on_heap gid ctx"
  shows "safely (group_switch f gid idx) ctx (\<lambda>_ ctx'. group_heap ctx' = group_heap ctx)"
  unfolding group_switch_def
proof (rule quiet_on_group [OF assms])
  fix g assume ok: "group_ok g"
  have fd: "\<exists>fd. group_irqfd g idx = Some fd" if "\<forall>b c cs. g = MsiGroup b c cs \<longrightarrow> idx < c"
    using that ok by (cases g) (auto simp: group_irqfd_def vec_index_def unat_up word_less_nat_alt split: prod.split)
  have sum: "\<exists>gsi. uadd (group_base g) idx = Some gsi" if "\<forall>b f. g = LegacyGroup b f \<longrightarrow> idx \<le> 1" "\<forall>b c cs. g = MsiGroup b c cs \<longrightarrow> idx < c"
    using that ok checked_ok(1) [of "group_base g" idx]
    by (cases g) (auto simp: MAX_LEGACY_IRQS_def word_less_nat_alt word_le_nat_alt)
  show "quiet (if (case g of LegacyGroup _ _ \<Rightarrow> idx > 1 | MsiGroup _ count _ \<Rightarrow> idx \<ge> count) then fail EINVAL
     else attempt (pure (group_irqfd g idx)) (\<lambda>irqfd. attempt (pure (uadd (group_base g) idx)) (\<lambda>gsi. kvm_call (f irqfd gsi))))"
    using fd sum by (cases g) (auto simp: not_le not_less intro!: quiet_pure)
qed

text \<open>An update stores the configuration in the group.\<close>

lemma update_safe:
  assumes "on_heap gid ctx"
  shows "safely (group_update sys gid idx config) ctx (\<lambda>_ ctx'. shapes ctx' = shapes ctx)"
proof -
  obtain g where g: "group_heap ctx ! gid = g" "gid < length (group_heap ctx)" "group_ok g" using assms by (simp add: on_heap_def)
  have upd: "safely (attempt (set_group_config gid idx cfg) (\<lambda>msicfg. attempt (pure (uadd base idx)) (\<lambda>gsi.
      routing_modify sys (new_msi_routing_entry gsi msicfg)))) ctx (\<lambda>_ ctx'. shapes ctx' = shapes ctx)"
    if msi: "g = MsiGroup base count cs" "idx < count" for base count cs cfg
  proof (rule safely_attempt [where P = "\<lambda>_ ctx'. shapes ctx' = shapes ctx"])
    have i: "unat idx < length cs" using msi g(3) by (simp add: word_less_nat_alt)
    have u: "unat (ucast idx :: u64) = unat idx" by (rule unat_up) simp
    have at: "group_heap ctx ! gid = MsiGroup base count cs" using g(1) msi(1) by simp
    obtain fd old where old: "cs ! unat idx = (fd, old)" by fastforce
    have keep: "(map (\<lambda>(irqfd, _). (irqfd, MsiIrqSourceConfig_default)) cs)[unat idx := (fd, MsiIrqSourceConfig_default)] =
        map (\<lambda>(irqfd, _). (irqfd, MsiIrqSourceConfig_default)) cs"
      using i old by (simp add: list_update_same_conv)
    show "safely (set_group_config gid idx cfg) ctx (\<lambda>_ ctx'. shapes ctx' = shapes ctx)"
      using g(2) i old at u
      by (simp add: safely_def set_group_config_def on_group_def get_shared_def vec_index_def map_update list_update_same_conv keep Let_def)
    obtain gsi where gsi: "uadd base idx = Some gsi"
      using checked_ok(1) [of base idx] g(3) msi by (auto simp: word_less_nat_alt)
    show "safely (attempt (pure (uadd base idx)) (\<lambda>gsi. routing_modify sys (new_msi_routing_entry gsi a))) s' (\<lambda>_ ctx'. shapes ctx' = shapes ctx)"
      if "shapes s' = shapes ctx" for a s'
    proof -
      have "quiet (attempt (pure (uadd base idx)) (\<lambda>gsi. routing_modify sys (new_msi_routing_entry gsi a)))"
        by (intro quiet_pure quiet_routing) (simp add: gsi)
      from quiet_from [OF this refl, of s'] show ?thesis by (rule safely_weaken) (use that in simp)
    qed
  qed simp
  show ?thesis
    using upd g by (cases g; cases config) (auto simp: group_update_def on_group_def get_shared_def safely_def ok_def fail_def not_le)
qed

section \<open>The manager of a device\<close>

definition msi_mode :: "DeviceInterruptMode \<Rightarrow> bool" where
  "msi_mode mode \<longleftrightarrow> mode = ModeGenericMsiIrq \<or> mode = ModePciMsiIrq \<or> mode = ModePciMsixIrq"

text \<open>What the table of modes refers to.\<close>

definition mode_group :: "DeviceInterruptManager \<Rightarrow> 'w IrqCtx \<Rightarrow> DeviceInterruptMode \<Rightarrow> InterruptSourceGroup" where
  "mode_group self ctx mode = group_heap ctx ! (intr_groups self ! unat (mode2idx self mode))"

definition supports :: "DeviceInterruptManager \<Rightarrow> DeviceInterruptMode \<Rightarrow> bool" where
  "supports self mode \<longleftrightarrow> mode2idx self mode \<noteq> u64_MAX"

definition dim_ok :: "DeviceInterruptManager \<Rightarrow> 'w IrqCtx \<Rightarrow> bool" where
  "dim_ok self ctx \<longleftrightarrow>
     (\<forall>gid \<in> set (intr_groups self). on_heap gid ctx) \<and> \<not> supports self ModeDisabled \<and> length (intr_groups self) \<le> 4 \<and>
     (\<forall>mode. supports self mode \<longrightarrow> unat (mode2idx self mode) < length (intr_groups self) \<and>
        (interrupt_type (mode_group self ctx mode) = MsiSource \<longleftrightarrow> msi_mode mode) \<and>
        (msi_mode mode \<longrightarrow> unat (group_len (mode_group self ctx mode)) \<le> length (msi_config self))) \<and>
     (\<forall>c \<in> set (msi_config self). c \<noteq> LegacyConfig) \<and>
     (intr_mode self \<noteq> ModeDisabled \<longrightarrow> current_idx self = mode2idx self (intr_mode self)) \<and>
     (activated self \<longrightarrow> supports self (intr_mode self))"

lemma dim_okD:
  assumes "dim_ok self ctx"
  shows "gid \<in> set (intr_groups self) \<Longrightarrow> on_heap gid ctx" "supports self mode \<Longrightarrow> unat (mode2idx self mode) < length (intr_groups self)"
    "supports self mode \<Longrightarrow> interrupt_type (mode_group self ctx mode) = MsiSource \<longleftrightarrow> msi_mode mode"
    "supports self mode \<Longrightarrow> msi_mode mode \<Longrightarrow> unat (group_len (mode_group self ctx mode)) \<le> length (msi_config self)"
    "intr_mode self \<noteq> ModeDisabled \<Longrightarrow> current_idx self = mode2idx self (intr_mode self)"
    "activated self \<Longrightarrow> supports self (intr_mode self)" "\<not> supports self ModeDisabled"
    "c \<in> set (msi_config self) \<Longrightarrow> c \<noteq> LegacyConfig"
  using assms unfolding dim_ok_def by blast+

lemma dim_ok_shapes:
  assumes "dim_ok self ctx" "shapes ctx' = shapes ctx"
  shows "dim_ok self ctx'"
proof -
  have heap: "on_heap gid ctx'" if "gid \<in> set (intr_groups self)" for gid
    using on_heap_shapes [OF dim_okD(1) [OF assms(1) that] assms(2)] .
  have same: "blank (mode_group self ctx' mode) = blank (mode_group self ctx mode)" if "supports self mode" for mode
  proof -
    have "on_heap (intr_groups self ! unat (mode2idx self mode)) ctx" using dim_okD(1,2) [OF assms(1)] that by simp
    then show ?thesis using shapes_nth(2) [OF assms(2)] by (simp add: on_heap_def mode_group_def)
  qed
  have "interrupt_type (mode_group self ctx' mode) = interrupt_type (mode_group self ctx mode)"
      "group_len (mode_group self ctx' mode) = group_len (mode_group self ctx mode)" if "supports self mode" for mode
    using blank_same(1,3) [OF same [OF that]] by simp_all
  then show ?thesis using assms(1) heap unfolding dim_ok_def by simp
qed

text \<open>The rest of the manager's own state that an operation keeps.\<close>

definition same_modes :: "DeviceInterruptManager \<Rightarrow> DeviceInterruptManager \<Rightarrow> bool" where
  "same_modes self self' \<longleftrightarrow> mode2idx self' = mode2idx self \<and> intr_groups self' = intr_groups self \<and>
     length (msi_config self') = length (msi_config self)"

lemma same_modes_simps [simp]: "same_modes self self"
  by (simp add: same_modes_def)

lemma set_working_mode_ok:
  assumes "dim_ok self ctx"
  shows "dim_ok (snd (set_working_mode mode self)) ctx \<and> same_modes self (snd (set_working_mode mode self)) \<and>
    intr_mode (snd (set_working_mode mode self)) \<in> {mode, intr_mode self} \<and> activated (snd (set_working_mode mode self)) = activated self"
  using assms
  by (auto simp: set_working_mode_def dim_ok_def same_modes_def supports_def mode_group_def msi_mode_def reset_configs_def Let_def)

lemma change_msi_ok:
  assumes "dim_ok self ctx"
  shows "dim_ok (snd (change_msi idx f self)) ctx \<and> same_modes self (snd (change_msi idx f self)) \<and>
    intr_mode (snd (change_msi idx f self)) = intr_mode self \<and> activated (snd (change_msi idx f self)) = activated self"
proof -
  have "c \<noteq> LegacyConfig" if "c \<in> set ((msi_config self)[unat idx := MsiConfig x])" for c x
    using that dim_okD(8) [OF assms] set_update_subset_insert [of "msi_config self"] by (metis InterruptSourceConfig.distinct(1) insertE subsetD)
  then show ?thesis
    using assms
    by (auto simp: change_msi_def dim_ok_def same_modes_def supports_def mode_group_def split: InterruptSourceConfig.split)
qed

text \<open>An operation of the manager that does not panic on a good state and keeps it good.\<close>

definition keeps_dim :: "('w, 'a) dim_op \<Rightarrow> DeviceInterruptManager \<Rightarrow> 'w IrqCtx \<Rightarrow> (nat + 'a \<Rightarrow> DeviceInterruptManager \<Rightarrow> bool) \<Rightarrow> bool" where
  "keeps_dim m self ctx P \<longleftrightarrow> safely m (self, ctx) (\<lambda>r (self', ctx').
     dim_ok self' ctx' \<and> same_modes self self' \<and> shapes ctx' = shapes ctx \<and> P r self')"

lemma keeps_on_irq:
  assumes "dim_ok self ctx" "safely m ctx (\<lambda>_ ctx'. shapes ctx' = shapes ctx)"
  shows "keeps_dim (on_irq m) self ctx (\<lambda>_ self'. self' = self)"
  using assms dim_ok_shapes [OF assms(1)] by (auto simp: keeps_dim_def safely_def on_irq_def)

lemma group_of_mode:
  assumes "dim_ok self ctx" "supports self (intr_mode self)"
  shows "vec_index (intr_groups self) (current_idx self) = Some (intr_groups self ! unat (mode2idx self (intr_mode self)))"
    "on_heap (intr_groups self ! unat (mode2idx self (intr_mode self))) ctx"
    "get_shared (intr_groups self ! unat (mode2idx self (intr_mode self))) ctx = Some (mode_group self ctx (intr_mode self))"
proof -
  have "intr_mode self \<noteq> ModeDisabled" using assms dim_okD(7) by metis
  then have idx: "current_idx self = mode2idx self (intr_mode self)" "unat (mode2idx self (intr_mode self)) < length (intr_groups self)"
    using dim_okD(2,5) [OF assms(1)] assms(2) by simp_all
  then show "vec_index (intr_groups self) (current_idx self) = Some (intr_groups self ! unat (mode2idx self (intr_mode self)))"
    by (simp add: vec_index_def)
  show heap: "on_heap (intr_groups self ! unat (mode2idx self (intr_mode self))) ctx" using dim_okD(1) [OF assms(1)] idx by simp
  show "get_shared (intr_groups self ! unat (mode2idx self (intr_mode self))) ctx = Some (mode_group self ctx (intr_mode self))"
    using heap by (simp add: get_shared_def on_heap_def mode_group_def)
qed

lemma get_configs_ok:
  assumes "dim_ok self ctx" "supports self (intr_mode self)"
  shows "\<exists>cs. get_configs (intr_mode self) (self, ctx) = Some cs \<and>
    (msi_mode (intr_mode self) \<longrightarrow> cs = take (unat (group_len (mode_group self ctx (intr_mode self)))) (msi_config self))"
proof -
  have "intr_mode self \<noteq> ModeDisabled" using assms dim_okD(7) by metis
  then show ?thesis
    using group_of_mode(1,3) [OF assms] dim_okD(4) [OF assms] dim_okD(5) [OF assms(1)]
    by (cases "intr_mode self") (auto simp: get_configs_def msi_mode_def)
qed

lemma switch_keeps:
  assumes "dim_ok self ctx"
  shows "keeps_dim (switch_mode mode) self ctx (\<lambda>r self'. (r, self') = set_working_mode mode self)"
  using set_working_mode_ok [OF assms, of mode]
  by (cases "set_working_mode mode self") (simp add: keeps_dim_def safely_def switch_mode_def)

lemma keeps_attempt:
  fixes ctx :: "'w IrqCtx"
  assumes "keeps_dim m self ctx P" "\<And>e self'. P (Inl e) self' \<Longrightarrow> Q (Inl e) self'"
    "\<And>a self' ctx'. dim_ok self' ctx' \<Longrightarrow> same_modes self self' \<Longrightarrow> shapes ctx' = shapes ctx \<Longrightarrow> P (Inr a) self' \<Longrightarrow> keeps_dim (f a) self' ctx' Q"
  shows "keeps_dim (attempt m f) self ctx Q"
  unfolding keeps_dim_def
proof (rule safely_attempt [OF assms(1) [unfolded keeps_dim_def]])
  fix a and s :: "DeviceInterruptManager \<times> 'w IrqCtx"
  assume s: "case s of (self', ctx') \<Rightarrow> dim_ok self' ctx' \<and> same_modes self self' \<and> shapes ctx' = shapes ctx \<and> P (Inr a) self'"
  obtain self' ctx' where p: "s = (self', ctx')" by fastforce
  have "keeps_dim (f a) self' ctx' Q" using assms(3) s p by simp
  then show "safely (f a) s (\<lambda>r (self', ctx'). dim_ok self' ctx' \<and> same_modes self self' \<and> shapes ctx' = shapes ctx \<and> Q r self')"
    unfolding keeps_dim_def p by (rule safely_weaken) (use s p in \<open>auto simp: same_modes_def\<close>)
qed (use assms(2) in auto)

lemma keeps_weaken: "keeps_dim m self ctx P \<Longrightarrow> (\<And>r self'. P r self' \<Longrightarrow> Q r self') \<Longrightarrow> keeps_dim m self ctx Q"
  unfolding keeps_dim_def by (erule safely_weaken) auto

lemma keeps_basic:
  "dim_ok self ctx \<Longrightarrow> P (Inr a) self \<Longrightarrow> keeps_dim (ok a) self ctx P"
  "dim_ok self ctx \<Longrightarrow> P (Inl e) self \<Longrightarrow> keeps_dim (fail e) self ctx P"
  by (simp_all add: keeps_dim_def safely_def ok_def fail_def)

lemma keeps_pure: "x = Some a \<Longrightarrow> keeps_dim (f a) self ctx P \<Longrightarrow> keeps_dim (attempt (pure x) f) self ctx P"
  by (simp add: keeps_dim_def safely_def attempt_def pure_def)

lemma shapes_safe: "safely m ctx (\<lambda>_ ctx'. group_heap ctx' = group_heap ctx) \<Longrightarrow> safely m ctx (\<lambda>_ ctx'. shapes ctx' = shapes ctx)"
  by (erule safely_weaken) simp

text \<open>Enabling, in a mode the device has.\<close>

lemma enable_group_keeps:
  assumes "dim_ok self ctx" "supports self (intr_mode self)"
  shows "keeps_dim (attempt (pure (vec_index (intr_groups self) (current_idx self))) (\<lambda>gid.
      attempt (pure (get_configs (intr_mode self) (self, ctx))) (\<lambda>configs.
      attempt (on_irq (group_enable sys gid configs)) (\<lambda>_. set_self (\<lambda>self. self\<lparr>activated := True\<rparr>))))) self ctx
    (\<lambda>r self'. (r = Inr () \<longrightarrow> activated self') \<and> intr_mode self' = intr_mode self)"
proof -
  obtain cs where cs: "get_configs (intr_mode self) (self, ctx) = Some cs" using get_configs_ok [OF assms] by blast
  let ?gid = "intr_groups self ! unat (mode2idx self (intr_mode self))"
  have en: "keeps_dim (on_irq (group_enable sys ?gid cs)) self ctx (\<lambda>_ self'. self' = self)"
    by (rule keeps_on_irq [OF assms(1) shapes_safe [OF enable_safe [OF group_of_mode(2) [OF assms]]]])
  have act: "keeps_dim (set_self (\<lambda>self. self\<lparr>activated := True\<rparr>)) self ctx'
      (\<lambda>r self'. (r = Inr () \<longrightarrow> activated self') \<and> intr_mode self' = intr_mode self)" if "dim_ok self ctx'" for ctx'
    using that assms(2) by (simp add: keeps_dim_def safely_def set_self_def dim_ok_def same_modes_def supports_def mode_group_def)
  have both: "keeps_dim (attempt (on_irq (group_enable sys ?gid cs)) (\<lambda>_. set_self (\<lambda>self. self\<lparr>activated := True\<rparr>))) self ctx
      (\<lambda>r self'. (r = Inr () \<longrightarrow> activated self') \<and> intr_mode self' = intr_mode self)"
    by (rule keeps_attempt [OF en]) (use act in simp_all)
  show ?thesis
    by (rule keeps_pure [OF group_of_mode(1) [OF assms]], rule keeps_pure [OF cs], rule both)
qed

lemma enable_keeps:
  assumes "dim_ok self ctx" "intr_mode self \<noteq> ModeDisabled \<longrightarrow> supports self (intr_mode self)"
  shows "keeps_dim (dim_enable sys) self ctx (\<lambda>r self'. (r = Inr () \<longrightarrow> activated self') \<and>
    (intr_mode self' = intr_mode self \<or> intr_mode self = ModeDisabled \<and> intr_mode self' = ModeLegacyIrq \<and> supports self ModeLegacyIrq))"
    (is "keeps_dim _ _ _ ?Q")
proof (cases "activated self")
  case True
  then show ?thesis using assms(1) by (simp add: keeps_dim_def dim_enable_def safely_def ok_def)
next
  case False
  let ?go = "\<lambda>(self, ctx). (if intr_mode self = ModeDisabled then fail EINVAL
      else attempt (pure (vec_index (intr_groups self) (current_idx self))) (\<lambda>gid.
           attempt (pure (get_configs (intr_mode self) (self, ctx))) (\<lambda>configs.
           attempt (on_irq (group_enable sys gid configs)) (\<lambda>_.
           set_self (\<lambda>self. self\<lparr>activated := True\<rparr>))))) (self, ctx)"
  have go: "keeps_dim ?go self' ctx' (\<lambda>r self''. (r = Inr () \<longrightarrow> activated self'') \<and> intr_mode self'' = intr_mode self')"
    if "dim_ok self' ctx'" "intr_mode self' \<noteq> ModeDisabled \<longrightarrow> supports self' (intr_mode self')" for self' ctx'
  proof (cases "intr_mode self' = ModeDisabled")
    case True
    then show ?thesis using that(1) by (simp add: keeps_dim_def safely_def fail_def)
  next
    case False
    then show ?thesis using enable_group_keeps [OF that(1), of sys] that(2) by (simp add: keeps_dim_def safely_def)
  qed
  show ?thesis
  proof (cases "intr_mode self = ModeDisabled \<and> supports self ModeLegacyIrq")
    case True
    have sw: "keeps_dim (switch_mode ModeLegacyIrq) self ctx (\<lambda>r self'. r = Inr () \<and> intr_mode self' = ModeLegacyIrq \<and> mode2idx self' = mode2idx self)"
      using switch_keeps [OF assms(1)] by (rule keeps_weaken) (use True False in \<open>auto simp: set_working_mode_def\<close>)
    have "keeps_dim (attempt (switch_mode ModeLegacyIrq) (\<lambda>_. ?go)) self ctx ?Q"
    proof (rule keeps_attempt [OF sw])
      fix a self' ctx' assume p: "dim_ok self' (ctx' :: 'a IrqCtx)" "Inr a = Inr () \<and> intr_mode self' = ModeLegacyIrq \<and> mode2idx self' = mode2idx self"
      then have "supports self' ModeLegacyIrq" using True by (simp add: supports_def)
      then show "keeps_dim ?go self' ctx' ?Q" using p(2) True by (intro keeps_weaken [OF go [OF p(1)]]) auto
    qed simp
    then show ?thesis using True False by (simp add: keeps_dim_def safely_def dim_enable_def supports_def)
  next
    case no: False
    then show ?thesis using keeps_weaken [OF go [OF assms], of ?Q] False
      by (auto simp: keeps_dim_def safely_def dim_enable_def supports_def attempt_def ok_def)
  qed
qed

lemma reset_keeps:
  assumes "dim_ok self ctx"
  shows "keeps_dim (dim_reset sys) self ctx (\<lambda>r self'. \<not> activated self' \<and> intr_mode self' \<in> {ModeDisabled, intr_mode self})"
    (is "keeps_dim _ _ _ ?Q")
proof -
  let ?off = "self\<lparr>activated := False\<rparr>"
  have off: "dim_ok ?off ctx" using assms by (simp add: dim_ok_def supports_def mode_group_def)
  have sw: "keeps_dim (switch_mode ModeDisabled) ?off ctx' (\<lambda>r self'. \<not> activated self' \<and> intr_mode self' \<in> {ModeDisabled, intr_mode self})"
    if "dim_ok ?off ctx'" for ctx' :: "'a IrqCtx"
    using switch_keeps [OF that] by (rule keeps_weaken) (auto simp: set_working_mode_def reset_configs_def Let_def split: if_splits)
  have "keeps_dim (attempt (on_irq (group_disable sys (intr_groups self ! unat (mode2idx self (intr_mode self))))) (\<lambda>_. switch_mode ModeDisabled)) ?off ctx ?Q"
    if "activated self"
  proof (rule keeps_attempt [OF keeps_on_irq [OF off shapes_safe [OF disable_safe]]])
    show "on_heap (intr_groups self ! unat (mode2idx self (intr_mode self))) ctx"
      by (rule group_of_mode(2) [OF assms dim_okD(6) [OF assms that]])
  qed (use sw in simp_all)
  then show ?thesis
  proof (cases "activated self")
    case False
    then have eq: "?off = self" by simp
    have "keeps_dim (switch_mode ModeDisabled) self ctx ?Q" using sw [OF off] unfolding eq .
    then show ?thesis using False by (simp add: keeps_dim_def safely_def dim_reset_def attempt_def ok_def)
  qed (use group_of_mode(1) [OF assms dim_okD(6) [OF assms]] in
      \<open>simp add: keeps_dim_def safely_def dim_reset_def set_self_def attempt_def pure_def same_modes_def\<close>)
qed

lemma update_keeps:
  assumes "dim_ok self ctx"
  shows "keeps_dim (dim_update sys idx) self ctx (\<lambda>_ self'. self' = self)"
proof (cases "activated self \<and> msi_mode (intr_mode self)")
  case True
  have s: "supports self (intr_mode self)" using True dim_okD(6) [OF assms] by simp
  have idx: "idx < group_len (mode_group self ctx (intr_mode self)) \<Longrightarrow> \<exists>c. vec_index (msi_config self) (ucast idx) = Some c"
    using dim_okD(4) [OF assms s] True by (simp add: vec_index_def unat_up word_less_nat_alt)
  have "keeps_dim (on_irq (group_update sys (intr_groups self ! unat (mode2idx self (intr_mode self))) idx c)) self ctx (\<lambda>_ self'. self' = self)" for c
    by (rule keeps_on_irq [OF assms update_safe [OF group_of_mode(2) [OF assms s]]])
  then show ?thesis
    using True group_of_mode [OF assms s] idx assms
    by (auto simp: keeps_dim_def safely_def dim_update_def msi_mode_def attempt_def pure_def fail_def not_le)
next
  case False
  then show ?thesis using assms by (auto simp: keeps_dim_def safely_def dim_update_def msi_mode_def fail_def)
qed

lemma get_group_ok:
  assumes "dim_ok self ctx"
  shows "get_group self = Some (if activated self \<and> intr_mode self \<noteq> ModeDisabled
      then Some (intr_groups self ! unat (mode2idx self (intr_mode self))) else None)"
  using group_of_mode(1) [OF assms dim_okD(6) [OF assms]] by (auto simp: get_group_def)

end
