(* ===== verification/Interrupt_Routes.thy ===== *)
theory Interrupt_Routes
  imports Interrupt_Lemmas
begin

text \<open>
  The routing table of the machine: enabling a group of message signaled interrupts adds exactly the routes of its messages, and
  disabling it takes exactly these away.
\<close>

section \<open>Entries of a group\<close>

definition msi_key :: "u32 \<Rightarrow> u64" where
  "msi_key gsi = push_bit 32 (ucast KVM_IRQ_ROUTING_MSI) OR ucast gsi"

lemma hash_key_msi [simp]: "hash_key (new_msi_routing_entry gsi c) = msi_key gsi"
  by (simp add: hash_key_def new_msi_routing_entry_def msi_key_def KVM_IRQ_ROUTING_MSI_def KVM_IRQ_ROUTING_IRQCHIP_def)

lemma msi_key_inject [simp]: "msi_key a = msi_key b \<longleftrightarrow> a = b"
proof
  assume "msi_key a = msi_key b"
  then have "ucast (msi_key a) = (ucast (msi_key b) :: u32)" by simp
  moreover have "ucast (msi_key x) = x" for x
    by (rule bit_word_eqI) (auto simp: msi_key_def bit_simps)
  ultimately show "a = b" by simp
qed simp

text \<open>The entries of interrupts from number \<open>i\<close> of a group on.\<close>

fun entries_of :: "u32 \<Rightarrow> nat \<Rightarrow> MsiIrqSourceConfig list \<Rightarrow> kvm_irq_routing_entry list" where
  "entries_of base i [] = []"
| "entries_of base i (c # cs) = new_msi_routing_entry (base + of_nat i) c # entries_of base (Suc i) cs"

lemma entries_nth: "j < length cs \<Longrightarrow> entries_of base i cs ! j = new_msi_routing_entry (base + of_nat (i + j)) (cs ! j)"
proof (induction cs arbitrary: i j)
  case (Cons c cs)
  then show ?case by (cases j) (simp_all add: add.assoc add.left_commute)
qed simp

lemma entries_length [simp]: "length (entries_of base i cs) = length cs"
  by (induction cs arbitrary: i) simp_all

lemma irq_sum:
  assumes "unat (base :: u32) + i < 2 ^ 32"
  shows "uadd base (of_nat i) = Some (base + of_nat i)"
  using irq_in_range [OF assms] by (auto simp: checked_add_def split: if_splits)

lemma msi_entries_eq:
  assumes "unat base + i + length cs \<le> 1024"
  shows "msi_entries_from base i (map MsiConfig cs) ctx = Some (Inr (entries_of base i cs), ctx)"
  using assms
proof (induction cs arbitrary: i)
  case (Cons c cs)
  then show ?case using irq_sum [of base i] by (simp add: attempt_def pure_def ok_def)
qed (simp add: ok_def)

lemma config_entries_eq:
  assumes "unat base + i + length cs \<le> 1024"
  shows "config_entries base i cs = Some (entries_of base i (map snd cs))"
  using assms
proof (induction cs arbitrary: i)
  case (Cons c cs)
  then show ?case using irq_sum [of base i] by (cases c) simp
qed simp

section \<open>The table\<close>

lemma fold_insert_other: "k \<notin> hash_key ` set es \<Longrightarrow> fold insert_route es routes k = routes k"
  by (induction es arbitrary: routes) (auto simp: insert_route_def)

lemma fold_insert: "distinct (map hash_key es) \<Longrightarrow> e \<in> set es \<Longrightarrow> fold insert_route es routes (hash_key e) = Some e"
proof (induction es arbitrary: routes)
  case (Cons x es)
  then show ?case
  proof (cases "e = x")
    case True
    then show ?thesis using Cons.prems fold_insert_other [of "hash_key x" es "insert_route x routes"] by (simp add: insert_route_def [of x])
  qed simp
qed simp

lemma fold_remove: "fold (\<lambda>e r. r(hash_key e := None)) es routes k = (if k \<in> hash_key ` set es then None else routes k)"
  by (induction es arbitrary: routes) auto

lemma entries_keys: "map hash_key (entries_of base i cs) = map (\<lambda>j. msi_key (base + of_nat j)) [i..<i + length cs]"
  by (induction cs arbitrary: i) (simp_all add: upt_conv_Cons del: upt_Suc)

lemma entries_distinct:
  assumes "unat base + i + length cs \<le> 1024"
  shows "distinct (map hash_key (entries_of base i cs))"
proof -
  have "inj_on (\<lambda>j. msi_key (base + of_nat j)) {i..<i + length cs}"
  proof (rule inj_onI)
    fix x y assume xy: "x \<in> {i..<i + length cs}" "y \<in> {i..<i + length cs}" "msi_key (base + of_nat x) = msi_key (base + of_nat y)"
    then have "(of_nat x :: u32) = of_nat y" by simp
    moreover have "unat (of_nat x :: u32) = x" "unat (of_nat y :: u32) = y"
      using xy(1,2) assms by (auto simp: unat_of_nat take_bit_nat_eq_self)
    ultimately show "x = y" by metis
  qed
  then show ?thesis unfolding entries_keys by (simp add: distinct_map)
qed

section \<open>Enabling and disabling\<close>

text \<open>A machine whose KVM accepts every call.\<close>

definition kvm_works :: "'w IrqSys \<Rightarrow> bool" where
  "kvm_works sys \<longleftrightarrow> (\<forall>fd irq w. \<not> isl (fst (register_irqfd sys fd irq w)) \<and> \<not> isl (fst (unregister_irqfd sys fd irq w))) \<and>
     (\<forall>routes w. \<not> isl (fst (set_gsi_routing sys routes w)))"

text \<open>A call leaves the table and the groups alone.\<close>

definition only_kvm :: "('w, 'a) irq_op \<Rightarrow> bool" where
  "only_kvm m \<longleftrightarrow> (\<forall>ctx. gives m ctx (\<lambda>_ ctx'. irq_routes ctx' = irq_routes ctx \<and> group_heap ctx' = group_heap ctx))"

lemma only_kvm_call:
  assumes "\<And>w. \<not> isl (fst (f w))"
  shows "only_kvm (kvm_call f)"
proof -
  have "\<exists>a w'. f w = (Inr a, w')" for w using assms [of w] by (cases "f w"; cases "fst (f w)") auto
  then show ?thesis by (auto simp: only_kvm_def gives_def kvm_call_def split: prod.split) (metis Pair_inject)
qed

lemma only_kvm_for_irqs:
  assumes "\<And>fd irq w. \<not> isl (fst (f fd irq w))" "unat base + i + length cs \<le> 1024"
  shows "only_kvm (for_irqs f base i cs)"
  using assms(2)
proof (induction cs arbitrary: i)
  case (Cons c cs)
  have call: "only_kvm (kvm_call (f fd irq))" for fd irq by (rule only_kvm_call) (rule assms(1))
  have "only_kvm (attempt (kvm_call (f (fst c) (base + of_nat i))) (\<lambda>_. for_irqs f base (Suc i) cs))"
    unfolding only_kvm_def
  proof
    fix ctx
    show "gives (attempt (kvm_call (f (fst c) (base + of_nat i))) (\<lambda>_. for_irqs f base (Suc i) cs)) ctx
        (\<lambda>_ ctx'. irq_routes ctx' = irq_routes ctx \<and> group_heap ctx' = group_heap ctx)"
      by (rule gives_attempt [OF call [unfolded only_kvm_def, rule_format]], rule gives_weaken [OF Cons.IH [unfolded only_kvm_def, rule_format]])
        (use Cons.prems in auto)
  qed
  then show ?case using irq_sum [of base i] Cons.prems by (cases c) (simp add: attempt_pure)
qed (simp add: only_kvm_def gives_ok)

lemma routing_gives:
  assumes "kvm_works sys"
  shows "gives (attempt (change_routes f) (\<lambda>_. set_routing sys)) ctx (\<lambda>_ ctx'. irq_routes ctx' = f (irq_routes ctx) \<and> group_heap ctx' = group_heap ctx)"
proof -
  have "only_kvm (kvm_call (set_gsi_routing sys routes))" for routes by (rule only_kvm_call) (use assms in \<open>simp add: kvm_works_def\<close>)
  then show ?thesis by (fastforce simp: only_kvm_def gives_def attempt_def change_routes_def set_routing_def)
qed

definition vectors :: "u32 \<Rightarrow> u32 \<Rightarrow> u64 set" where
  "vectors base count = (\<lambda>i. msi_key (base + of_nat i)) ` {..<unat count}"

lemma entries_vectors: "length cs = unat count \<Longrightarrow> hash_key ` set (entries_of base 0 cs) = vectors base count"
  using arg_cong [OF entries_keys [of base 0 cs], of set] by (auto simp: vectors_def)

lemma check_entries_none:
  assumes "unat base + i + length cs \<le> 1024" "\<And>e. e \<in> set (entries_of base i cs) \<Longrightarrow> routes (hash_key e) = None"
  shows "check_entries routes (entries_of base i cs) = None"
  using assms
proof (induction cs arbitrary: i)
  case (Cons c cs)
  have "unat (base + of_nat i) = unat base + i" using irq_in_range [of base i] irq_sum [of base i] Cons.prems(1) by auto
  then have "base + of_nat i < MAX_IRQS" using Cons.prems(1) by (simp add: MAX_IRQS_def word_less_nat_alt)
  then show ?case using Cons by (simp add: new_msi_routing_entry_def [of "base + of_nat i"] not_le del: hash_key_msi)
qed simp

lemma enable_gives:
  assumes "kvm_works sys" "gid < length (group_heap ctx)" "group_heap ctx ! gid = MsiGroup base count cs" "group_ok (MsiGroup base count cs)"
    "length msgs = unat count" "\<And>k. k \<in> vectors base count \<Longrightarrow> irq_routes ctx k = None"
  shows "gives (group_enable sys gid (map MsiConfig msgs)) ctx (\<lambda>_ ctx'. irq_routes ctx' = fold insert_route (entries_of base 0 msgs) (irq_routes ctx) \<and>
    group_heap ctx' = group_heap ctx)"
proof -
  have len: "unat base + 0 + length msgs \<le> 1024" "unat base + 0 + length cs \<le> 1024" using assms(4,5) by auto
  obtain e where "checked_add base (of_nat (length msgs)) = Some e"
    using irq_sum [of base "length msgs"] len by auto
  then have es: "create_msi_routing_entries base (map MsiConfig msgs) ctx = Some (Inr (entries_of base 0 msgs), ctx)"
    using msi_entries_eq [OF len(1), of ctx] by (simp add: create_msi_routing_entries_def attempt_def or_fail_def ok_def)
  have "check_entries (irq_routes ctx) (entries_of base 0 msgs) = None"
    using assms(6) entries_vectors [OF assms(5)] by (intro check_entries_none [OF len(1)]) blast
  then have "gives (or_else (routing_add sys (entries_of base 0 msgs)) (\<lambda>e. if e = EEXIST then ok () else fail e)) ctx
      (\<lambda>_ ctx'. irq_routes ctx' = fold insert_route (entries_of base 0 msgs) (irq_routes ctx) \<and> group_heap ctx' = group_heap ctx)"
    using routing_gives [OF assms(1), of "fold insert_route (entries_of base 0 msgs)" ctx] by (auto simp: gives_def or_else_def routing_add_def)
  then have "gives (attempt (or_else (routing_add sys (entries_of base 0 msgs)) (\<lambda>e. if e = EEXIST then ok () else fail e)) (\<lambda>_.
      for_irqs (register_irqfd sys) base 0 cs)) ctx
      (\<lambda>_ ctx'. irq_routes ctx' = fold insert_route (entries_of base 0 msgs) (irq_routes ctx) \<and> group_heap ctx' = group_heap ctx)"
  proof (rule gives_attempt)
    have "only_kvm (for_irqs (register_irqfd sys) base 0 cs)"
      by (rule only_kvm_for_irqs) (use assms(1) len(2) in \<open>auto simp: kvm_works_def\<close>)
    then show "gives (for_irqs (register_irqfd sys) base 0 cs) s'
        (\<lambda>_ ctx'. irq_routes ctx' = fold insert_route (entries_of base 0 msgs) (irq_routes ctx) \<and> group_heap ctx' = group_heap ctx)"
      if "irq_routes s' = fold insert_route (entries_of base 0 msgs) (irq_routes ctx) \<and> group_heap s' = group_heap ctx" for s'
      using that by (auto simp: only_kvm_def intro: gives_weaken)
  qed
  then show ?thesis
    using assms(2,3,5) es by (simp add: group_enable_def on_group_def get_shared_def gives_def attempt_def [of "create_msi_routing_entries _ _"])
qed

lemma disable_gives:
  assumes "kvm_works sys" "gid < length (group_heap ctx)" "group_heap ctx ! gid = MsiGroup base count cs" "group_ok (MsiGroup base count cs)"
  shows "gives (group_disable sys gid) ctx (\<lambda>_ ctx'. irq_routes ctx' = (\<lambda>k. if k \<in> vectors base count then None else irq_routes ctx k))"
proof -
  have len: "unat base + 0 + length cs \<le> 1024" and n: "length (map snd cs) = unat count" using assms(4) by auto
  have calls: "only_kvm (for_irqs (unregister_irqfd sys) base 0 cs)"
    by (rule only_kvm_for_irqs) (use assms(1) len in \<open>auto simp: kvm_works_def\<close>)
  have remove: "fold (\<lambda>entry routes. routes(hash_key entry := None)) (entries_of base 0 (map snd cs)) routes =
      (\<lambda>k. if k \<in> vectors base count then None else routes k)" for routes
    using fold_remove [of "entries_of base 0 (map snd cs)" routes] entries_vectors [OF n, of base] by (intro ext) simp
  have "gives (attempt (for_irqs (unregister_irqfd sys) base 0 cs) (\<lambda>_. routing_remove sys (entries_of base 0 (map snd cs)))) ctx
      (\<lambda>_ ctx'. irq_routes ctx' = (\<lambda>k. if k \<in> vectors base count then None else irq_routes ctx k))"
  proof (rule gives_attempt [OF calls [unfolded only_kvm_def, rule_format]])
    show "gives (routing_remove sys (entries_of base 0 (map snd cs))) s' (\<lambda>_ ctx'. irq_routes ctx' = (\<lambda>k. if k \<in> vectors base count then None else irq_routes ctx k))"
      if "irq_routes s' = irq_routes ctx \<and> group_heap s' = group_heap ctx" for s'
      unfolding routing_remove_def
      by (rule gives_weaken [OF routing_gives [OF assms(1)]]) (use that remove in auto)
  qed
  then show ?thesis
    using assms(2,3) config_entries_eq [OF len] by (simp add: group_disable_def on_group_def get_shared_def gives_def attempt_pure)
qed

section \<open>A machine\<close>

text \<open>A KVM that accepts every call, and a group of two vectors.\<close>

definition demo_kvm :: "unit IrqSys" where
  "demo_kvm = \<lparr>eventfd_new = \<lambda>w. (Inr 3, w), eventfd_write = \<lambda>_ _ w. (Inr (), w), eventfd_read = \<lambda>_ w. (Inr 0, w),
     register_irqfd = \<lambda>_ _ w. (Inr (), w), unregister_irqfd = \<lambda>_ _ w. (Inr (), w), set_gsi_routing = \<lambda>_ w. (Inr (), w)\<rparr>"

definition demo_irqs :: "unit IrqCtx" where
  "demo_irqs = (KvmIrqManager_new ())\<lparr>group_heap := [MsiGroup 24 2 [(3, MsiIrqSourceConfig_default), (4, MsiIrqSourceConfig_default)]]\<rparr>"

section \<open>Properties\<close>



end
