(* ===== verification/Virtio_Device.thy ===== *)
theory Virtio_Device
  imports Interrupt_Manager
begin

text \<open>
  What a virtio device and its transport exchange (\<open>dbs_virtio_devices/device.rs\<close>, constants and errors of \<open>lib.rs\<close>),
  the helper that most devices use for their features and configuration space (\<open>VirtioDeviceInfo\<close>), and the
  notifiers of \<open>notifier.rs\<close>.

  The queues of the \<open>virtio-queue\<close> crate are an argument, the record \<open>QueueOps\<close>, on queues of type \<open>'q\<close>. The trait
  \<open>VirtioDevice\<close> is the record \<open>VirtioOps\<close>, on devices of type \<open>'d\<close>.
\<close>

section \<open>Constants and errors\<close>

definition DEVICE_INIT :: u32 where "DEVICE_INIT = 0x0"
definition DEVICE_ACKNOWLEDGE :: u32 where "DEVICE_ACKNOWLEDGE = 0x01"
definition DEVICE_DRIVER :: u32 where "DEVICE_DRIVER = 0x02"
definition DEVICE_DRIVER_OK :: u32 where "DEVICE_DRIVER_OK = 0x04"
definition DEVICE_FEATURES_OK :: u32 where "DEVICE_FEATURES_OK = 0x08"
definition DEVICE_FAILED :: u32 where "DEVICE_FAILED = 0x80"
definition VIRTIO_INTR_VRING :: u32 where "VIRTIO_INTR_VRING = 0x01"
definition VIRTIO_INTR_CONFIG :: u32 where "VIRTIO_INTR_CONFIG = 0x02"

text \<open>Errors of other crates are numbers.\<close>

datatype ActivateError = InvalidParam | InternalError | InvalidQueueConfig | ActivateOther nat

datatype ConfigError = InvalidOffset u64 | PlusOverflow u64 u64 | InvalidOffsetPlusDataLen u64

datatype VirtioError =
    VirtioInvalidInput
  | VirtioIOError nat
  | VirtioQueueError nat
  | VirtioActivateError ActivateError
  | VirtioInterruptError nat
  | VirtioOther nat

section \<open>Queues\<close>

record 'q QueueOps =
  q_new :: "u16 \<Rightarrow> nat + 'q"
  q_max_size :: "'q \<Rightarrow> u16"
  q_size :: "'q \<Rightarrow> u16"
  q_ready :: "'q \<Rightarrow> bool"
  q_is_valid :: "'q \<Rightarrow> bool"
  q_set_size :: "u16 \<Rightarrow> 'q \<Rightarrow> 'q"
  q_set_ready :: "bool \<Rightarrow> 'q \<Rightarrow> 'q"
  q_set_desc_table_address :: "u32 option \<Rightarrow> u32 option \<Rightarrow> 'q \<Rightarrow> 'q"
  q_set_avail_ring_address :: "u32 option \<Rightarrow> u32 option \<Rightarrow> 'q \<Rightarrow> 'q"
  q_set_used_ring_address :: "u32 option \<Rightarrow> u32 option \<Rightarrow> 'q \<Rightarrow> 'q"

record 'q VirtioQueueConfig =
  vq_queue :: 'q
  vq_eventfd :: nat
  vq_notifier :: InterruptNotifier
  vq_index :: u16

definition VirtioQueueConfig_new :: "'q \<Rightarrow> nat \<Rightarrow> InterruptNotifier \<Rightarrow> u16 \<Rightarrow> 'q VirtioQueueConfig" where
  "VirtioQueueConfig_new queue eventfd notifier idx =
     \<lparr>vq_queue = queue, vq_eventfd = eventfd, vq_notifier = notifier, vq_index = idx\<rparr>"

text \<open>The queues report an error by its number, and the descriptor is made first.\<close>

definition VirtioQueueConfig_create ::
  "'w IrqSys \<Rightarrow> 'q QueueOps \<Rightarrow> u16 \<Rightarrow> u16 \<Rightarrow> ('w IrqCtx, VirtioError, 'q VirtioQueueConfig) op" where
  "VirtioQueueConfig_create sys qs queue_size idx = (\<lambda>ctx.
     case eventfd_new sys (irq_w ctx) of
       (Inl e, w) \<Rightarrow> ret (Inl (VirtioIOError e), ctx\<lparr>irq_w := w\<rparr>)
     | (Inr eventfd, w) \<Rightarrow>
         (case q_new qs queue_size of
            Inl e \<Rightarrow> ret (Inl (VirtioQueueError e), ctx\<lparr>irq_w := w\<rparr>)
          | Inr queue \<Rightarrow> ret (Inr (VirtioQueueConfig_new queue eventfd NoopNotifier idx), ctx\<lparr>irq_w := w\<rparr>)))"

definition actual_size :: "'q QueueOps \<Rightarrow> 'q VirtioQueueConfig \<Rightarrow> u16" where
  "actual_size qs self = min (q_size qs (vq_queue self)) (q_max_size qs (vq_queue self))"

text \<open>\<open>notifier.rs\<close>: the notifier for changes of the device and for its queues.\<close>

definition create_device_notifier :: "nat \<Rightarrow> InterruptSourceGroup \<Rightarrow> u32 \<Rightarrow> InterruptNotifier" where
  "create_device_notifier gid g idx =
     (case interrupt_type g of LegacySource \<Rightarrow> LegacyNotifier gid VIRTIO_INTR_CONFIG | MsiSource \<Rightarrow> MsiNotifier gid idx)"

definition create_queue_notifier :: "nat \<Rightarrow> InterruptSourceGroup \<Rightarrow> u32 \<Rightarrow> InterruptNotifier" where
  "create_queue_notifier gid g idx =
     (case interrupt_type g of LegacySource \<Rightarrow> LegacyNotifier gid VIRTIO_INTR_VRING | MsiSource \<Rightarrow> MsiNotifier gid idx)"

section \<open>Devices\<close>

record VirtioSharedMemory =
  shm_offset :: u64
  shm_len :: u64

record VirtioSharedMemoryList =
  shm_host_addr :: u64
  shm_guest_addr :: u64
  shm_region_list :: "VirtioSharedMemory list"

record 'q VirtioDeviceConfig =
  cfg_resources :: DeviceResources
  cfg_queues :: "'q VirtioQueueConfig list"
  cfg_ctrl_queue :: "'q VirtioQueueConfig option"
  cfg_change_notifier :: InterruptNotifier
  cfg_shm_regions :: "VirtioSharedMemoryList option"

definition VirtioDeviceConfig_new ::
  "DeviceResources \<Rightarrow> 'q VirtioQueueConfig list \<Rightarrow> 'q VirtioQueueConfig option \<Rightarrow> InterruptNotifier \<Rightarrow> 'q VirtioDeviceConfig" where
  "VirtioDeviceConfig_new resources queues ctrl_queue notifier =
     \<lparr>cfg_resources = resources, cfg_queues = queues, cfg_ctrl_queue = ctrl_queue,
      cfg_change_notifier = notifier, cfg_shm_regions = None\<rparr>"

record ('d, 'q) VirtioOps =
  device_type :: "'d \<Rightarrow> u32"
  queue_max_sizes :: "'d \<Rightarrow> u16 list"
  ctrl_queue_max_sizes :: "'d \<Rightarrow> u16"
  get_avail_features :: "u32 \<Rightarrow> 'd \<Rightarrow> u32"
  ack_features :: "u32 \<Rightarrow> u32 \<Rightarrow> 'd \<Rightarrow> 'd"
  read_config :: "u64 \<Rightarrow> u8 list \<Rightarrow> 'd \<Rightarrow> (ConfigError + unit) \<times> u8 list \<times> 'd"
  write_config :: "u64 \<Rightarrow> u8 list \<Rightarrow> 'd \<Rightarrow> (ConfigError + unit) \<times> 'd"
  dev_activate :: "'q VirtioDeviceConfig \<Rightarrow> 'd \<Rightarrow> (ActivateError + unit) \<times> 'd"
  dev_reset :: "'d \<Rightarrow> (ActivateError + unit) \<times> 'd"
  dev_remove :: "'d \<Rightarrow> 'd"
  set_resource :: "DeviceResources \<Rightarrow> 'd \<Rightarrow> (VirtioError + VirtioSharedMemoryList option) \<times> 'd"

section \<open>Features and configuration space\<close>

record VirtioDeviceInfo =
  avail_features :: u64
  acked_features :: u64
  queue_sizes :: "u16 list"
  config_space :: "u8 list"

definition VirtioDeviceInfo_new :: "u64 \<Rightarrow> u16 list \<Rightarrow> u8 list \<Rightarrow> VirtioDeviceInfo" where
  "VirtioDeviceInfo_new avail sizes config =
     \<lparr>avail_features = avail, acked_features = 0, queue_sizes = sizes, config_space = config\<rparr>"

definition info_get_avail_features :: "u32 \<Rightarrow> VirtioDeviceInfo \<Rightarrow> u32" where
  "info_get_avail_features page self =
     (if page = 0 then ucast (avail_features self)
      else if page = 1 then ucast (drop_bit 32 (avail_features self))
      else 0)"

definition info_set_acked_features :: "u32 \<Rightarrow> u32 \<Rightarrow> VirtioDeviceInfo \<Rightarrow> VirtioDeviceInfo" where
  "info_set_acked_features page val self =
     (let v = (if page = 0 then ucast val else if page = 1 then push_bit 32 (ucast val) else 0);
          unrequested_features = v AND NOT (avail_features self);
          v = (if unrequested_features \<noteq> 0 then v AND NOT unrequested_features else v)
      in self\<lparr>acked_features := acked_features self OR v\<rparr>)"

text \<open>The bytes read replace a prefix of the buffer; the rest of it is kept.\<close>

definition info_read_config :: "u64 \<Rightarrow> u8 list \<Rightarrow> VirtioDeviceInfo \<Rightarrow> (ConfigError + unit) \<times> u8 list" where
  "info_read_config offset buf self =
     (let config_len = of_nat (length (config_space self)) in
      if offset \<ge> config_len then (Inl (InvalidOffset offset), buf)
      else (case checked_add offset (of_nat (length buf)) of
              Some e \<Rightarrow>
                let bytes = drop (unat offset) (take (unat (min e config_len)) (config_space self))
                in (Inr (), bytes @ drop (length bytes) buf)
            | None \<Rightarrow> (Inr (), buf)))"

definition info_write_config :: "u64 \<Rightarrow> u8 list \<Rightarrow> VirtioDeviceInfo \<Rightarrow> (ConfigError + unit) \<times> VirtioDeviceInfo" where
  "info_write_config offset buf self =
     (let data_len = of_nat (length buf); config_len = of_nat (length (config_space self)) in
      if offset \<ge> config_len then (Inl (InvalidOffset offset), self)
      else (case checked_add offset data_len of
              None \<Rightarrow> (Inl (PlusOverflow offset data_len), self)
            | Some e \<Rightarrow>
                if e > config_len then (Inl (InvalidOffsetPlusDataLen e), self)
                else (Inr (), self\<lparr>config_space := take (unat offset) (config_space self) @ buf @ drop (unat e) (config_space self)\<rparr>)))"

definition check_queue_sizes :: "'q VirtioQueueConfig list \<Rightarrow> VirtioDeviceInfo \<Rightarrow> ActivateError + unit" where
  "check_queue_sizes queues self =
     (if queues = [] \<or> length queues \<noteq> length (queue_sizes self) then Inl InvalidParam else Inr ())"

section \<open>Events and interrupts of a device\<close>

definition with_io_error :: "('s, nat, 'a) op \<Rightarrow> ('s, VirtioError, 'a) op" where
  "with_io_error m s = do { (r, s) \<leftarrow> m s; ret (case r of Inl e \<Rightarrow> Inl (VirtioIOError e) | Inr a \<Rightarrow> Inr a, s) }"

definition consume_event :: "'w IrqSys \<Rightarrow> 'q VirtioQueueConfig \<Rightarrow> ('w IrqCtx, VirtioError, u64) op" where
  "consume_event sys self = with_io_error (kvm_call (eventfd_read sys (vq_eventfd self)))"

definition generate_event :: "'w IrqSys \<Rightarrow> 'q VirtioQueueConfig \<Rightarrow> ('w IrqCtx, VirtioError, unit) op" where
  "generate_event sys self = with_io_error (kvm_call (eventfd_write sys (vq_eventfd self) 1))"

definition queue_notify ::
  "'w IrqSys \<Rightarrow> 'q VirtioQueueConfig \<Rightarrow> (InterruptStatusRegister32 \<times> 'w IrqCtx, VirtioError, unit) op" where
  "queue_notify sys self = with_io_error (notify sys (vq_notifier self))"

definition set_interrupt_notifier :: "InterruptNotifier \<Rightarrow> 'q VirtioQueueConfig \<Rightarrow> 'q VirtioQueueConfig" where
  "set_interrupt_notifier notifier self = self\<lparr>vq_notifier := notifier\<rparr>"

definition notify_device_changes ::
  "'w IrqSys \<Rightarrow> 'q VirtioDeviceConfig \<Rightarrow> (InterruptStatusRegister32 \<times> 'w IrqCtx, VirtioError, unit) op" where
  "notify_device_changes sys self = with_io_error (notify sys (cfg_change_notifier self))"

fun queue_eventfds :: "'w IrqCtx \<Rightarrow> 'q VirtioQueueConfig list \<Rightarrow> nat list rust" where
  "queue_eventfds ctx [] = ret []"
| "queue_eventfds ctx (x # xs) = do {
     fd \<leftarrow> notifier_fd (vq_notifier x) ctx;
     (case fd of
        None \<Rightarrow> panic
      | Some fd \<Rightarrow> do { fds \<leftarrow> queue_eventfds ctx xs; ret (fd # fds) })
   }"

definition get_queue_interrupt_eventfds :: "'w IrqCtx \<Rightarrow> 'q VirtioDeviceConfig \<Rightarrow> nat list rust" where
  "get_queue_interrupt_eventfds ctx self = queue_eventfds ctx (cfg_queues self)"

definition set_shm_regions :: "VirtioSharedMemoryList \<Rightarrow> 'q VirtioDeviceConfig \<Rightarrow> 'q VirtioDeviceConfig" where
  "set_shm_regions regions self = self\<lparr>cfg_shm_regions := Some regions\<rparr>"

definition get_shm_region_addr :: "'q VirtioDeviceConfig \<Rightarrow> (u64 \<times> u64) option" where
  "get_shm_region_addr self = map_option (\<lambda>shms. (shm_host_addr shms, shm_guest_addr shms)) (cfg_shm_regions self)"

end
