(* ===== verification/Virtio_Mmio.thy ===== *)
theory Virtio_Mmio
  imports Virtio_Device
begin

text \<open>
  The transport of virtio devices over memory-mapped registers, version 2
  (\<open>dbs_virtio_devices/mmio/mmio_state.rs\<close>, \<open>mmio/dragonball.rs\<close>, constants of \<open>mmio/mod.rs\<close>): the state behind the registers,
  activation and reset of the device, and its interrupts. The registers themselves are in
  \<open>Virtio_Mmio_Regs\<close>.

  Everything that is not of this crate is in the record \<open>Env\<close>: interrupts, queues, the device behind the trait
  \<open>VirtioDevice\<close>, and the calls to KVM that tie event descriptors to addresses.
\<close>

section \<open>Constants\<close>

definition MMIO_MAGIC_VALUE :: u32 where "MMIO_MAGIC_VALUE = 0x74726976"
definition MMIO_VERSION_2 :: u32 where "MMIO_VERSION_2 = 2"
definition MMIO_NOTIFY_REG_OFFSET :: u32 where "MMIO_NOTIFY_REG_OFFSET = 0x50"
definition MMIO_DEFAULT_CFG_SIZE :: u64 where "MMIO_DEFAULT_CFG_SIZE = 0x1000"
definition MMIO_VENDOR_ID_DRAGONBALL :: u32 where "MMIO_VENDOR_ID_DRAGONBALL = 0xdbfcdb00"
definition DRAGONBALL_FEATURE_MASK :: u32 where "DRAGONBALL_FEATURE_MASK = 0xff"
definition DRAGONBALL_FEATURE_INTR_USED :: u32 where "DRAGONBALL_FEATURE_INTR_USED = 0x1"
definition DRAGONBALL_FEATURE_MSI_INTR :: u32 where "DRAGONBALL_FEATURE_MSI_INTR = 0x2"
definition DRAGONBALL_FEATURE_PER_QUEUE_NOTIFY :: u32 where "DRAGONBALL_FEATURE_PER_QUEUE_NOTIFY = 0x4"
definition DRAGONBALL_MMIO_DOORBELL_SIZE :: u64 where "DRAGONBALL_MMIO_DOORBELL_SIZE = 0x1000"
definition DRAGONBALL_MMIO_DOORBELL_OFFSET :: u64 where "DRAGONBALL_MMIO_DOORBELL_OFFSET = 0x1000"
definition DRAGONBALL_MMIO_DOORBELL_SCALE :: u64 where "DRAGONBALL_MMIO_DOORBELL_SCALE = 0x04"
definition MMIO_CFG_SPACE_OFF :: u64 where "MMIO_CFG_SPACE_OFF = 0x100"
definition MMIO_MSI_CSR_SUPPORTED :: u16 where "MMIO_MSI_CSR_SUPPORTED = 0x8000"
definition MMIO_MSI_CSR_ENABLED :: u16 where "MMIO_MSI_CSR_ENABLED = 0x8000"
definition MMIO_MSI_CMD_CODE_MASK :: u16 where "MMIO_MSI_CMD_CODE_MASK = 0xf000"
definition MMIO_MSI_CMD_ARG_MASK :: u16 where "MMIO_MSI_CMD_ARG_MASK = 0x0fff"
definition MMIO_MSI_CMD_CODE_UPDATE :: u16 where "MMIO_MSI_CMD_CODE_UPDATE = 0x1000"
definition MMIO_MSI_CMD_CODE_INT_MASK :: u16 where "MMIO_MSI_CMD_CODE_INT_MASK = 0x2000"
definition MMIO_MSI_CMD_CODE_INT_UNMASK :: u16 where "MMIO_MSI_CMD_CODE_INT_UNMASK = 0x3000"

section \<open>State\<close>

record DoorBell =
  db_offset :: u32
  db_scale :: u32

definition DoorBell_new :: "u32 \<Rightarrow> u32 \<Rightarrow> DoorBell" where
  "DoorBell_new offset scale = \<lparr>db_offset = offset, db_scale = scale\<rparr>"

definition queue_offset :: "DoorBell \<Rightarrow> nat \<Rightarrow> u64 rust" where
  "queue_offset self queue_index = do {
     n \<leftarrow> umul (ucast (db_scale self)) (of_nat queue_index);
     uadd (ucast (db_offset self)) n
   }"

definition register_data :: "DoorBell \<Rightarrow> u32" where
  "register_data self = db_offset self OR push_bit 16 (db_scale self)"

record Msi =
  index_select :: u32
  address_low :: u32
  address_high :: u32
  mdata :: u32

definition Msi_default :: Msi where
  "Msi_default = \<lparr>index_select = 0, address_low = 0, address_high = 0, mdata = 0\<rparr>"

text \<open>What an event descriptor is matched with: any access, or a value of four or eight bytes.\<close>

datatype Datamatch = NoDatamatch | Data32 u32 | Data64 u64

record ('d, 'q, 'w) Env =
  irq_sys :: "'w IrqSys"
  queue_ops :: "'q QueueOps"
  dev_ops :: "('d, 'q) VirtioOps"
  register_ioevent :: "nat \<Rightarrow> u64 \<Rightarrow> Datamatch \<Rightarrow> 'w \<Rightarrow> (nat + unit) \<times> 'w"
  unregister_ioevent :: "nat \<Rightarrow> u64 \<Rightarrow> Datamatch \<Rightarrow> 'w \<Rightarrow> (nat + unit) \<times> 'w"
  ioeventfd_no_length :: "'w \<Rightarrow> bool"
  remove_memory_region :: "u32 \<Rightarrow> u64 \<Rightarrow> u64 \<Rightarrow> 'w \<Rightarrow> (nat + unit) \<times> 'w"

record ('d, 'q) MmioV2DeviceState =
  device :: 'd
  intr_mgr :: DeviceInterruptManager
  device_resources :: DeviceResources
  queues :: "'q VirtioQueueConfig list"
  mmio_base :: u64
  has_ctrl_queue :: bool
  device_activated :: bool
  ioevent_registered :: bool
  features_select :: u32
  acked_features_select :: u32
  queue_select :: u32
  msi :: "Msi option"
  doorbell :: "DoorBell option"
  shm_region_id :: u32
  shm_regions :: "VirtioSharedMemoryList option"

type_synonym ('d, 'q, 'w, 'a) state_op = "(('d, 'q) MmioV2DeviceState \<times> 'w IrqCtx, VirtioError, 'a) op"

definition on_intr :: "(nat \<Rightarrow> VirtioError) \<Rightarrow> ('w, 'a) dim_op \<Rightarrow> ('d, 'q, 'w, 'a) state_op" where
  "on_intr err m = (\<lambda>(self, ctx). do {
     (r, mgr, ctx) \<leftarrow> m (intr_mgr self, ctx);
     ret (case r of Inl e \<Rightarrow> Inl (err e) | Inr a \<Rightarrow> Inr a, self\<lparr>intr_mgr := mgr\<rparr>, ctx)
   })"

definition on_mgr :: "(DeviceInterruptManager \<Rightarrow> (nat + unit) \<times> DeviceInterruptManager) \<Rightarrow> ('d, 'q, 'w, unit) state_op" where
  "on_mgr f = on_intr VirtioInterruptError (\<lambda>(mgr, ctx). case f mgr of (r, mgr) \<Rightarrow> ret (r, mgr, ctx))"

definition change :: "(('d, 'q) MmioV2DeviceState \<Rightarrow> ('d, 'q) MmioV2DeviceState) \<Rightarrow> ('d, 'q, 'w, unit) state_op" where
  "change f = (\<lambda>(self, ctx). ret (Inr (), f self, ctx))"

section \<open>Creation\<close>

fun create_sized_queues ::
  "('d, 'q, 'w) Env \<Rightarrow> nat \<Rightarrow> u16 list \<Rightarrow> ('w IrqCtx, VirtioError, 'q VirtioQueueConfig list) op" where
  "create_sized_queues env idx [] = ok []"
| "create_sized_queues env idx (sz # sizes) =
     attempt (VirtioQueueConfig_create (irq_sys env) (queue_ops env) sz (of_nat idx)) (\<lambda>q.
     attempt (create_sized_queues env (Suc idx) sizes) (\<lambda>qs. ok (q # qs)))"

definition create_queues :: "('d, 'q, 'w) Env \<Rightarrow> 'd \<Rightarrow> ('w IrqCtx, VirtioError, 'q VirtioQueueConfig list \<times> bool) op" where
  "create_queues env dev =
     attempt (create_sized_queues env 0 (queue_max_sizes (dev_ops env) dev)) (\<lambda>queues.
       let ctrl = ctrl_queue_max_sizes (dev_ops env) dev in
       if ctrl > 0
       then attempt (VirtioQueueConfig_create (irq_sys env) (queue_ops env) ctrl (of_nat (length queues))) (\<lambda>q. ok (queues @ [q], True))
       else ok (queues, False))"

definition MmioV2DeviceState_new ::
  "('d, 'q, 'w) Env \<Rightarrow> 'd \<Rightarrow> DeviceResources \<Rightarrow> u64 \<Rightarrow> bool \<Rightarrow> ('w IrqCtx, VirtioError, ('d, 'q) MmioV2DeviceState) op" where
  "MmioV2DeviceState_new env dev resources base doorbell_enabled =
     attempt (\<lambda>ctx. do { (r, ctx) \<leftarrow> DeviceInterruptManager_new (irq_sys env) resources ctx;
                         ret (case r of Inl e \<Rightarrow> Inl (VirtioIOError e) | Inr m \<Rightarrow> Inr m, ctx) }) (\<lambda>mgr.
     attempt (create_queues env dev) (\<lambda>(queues, has_ctrl).
     case set_resource (dev_ops env) resources dev of
       (Inl e, _) \<Rightarrow> fail e
     | (Inr shm, dev) \<Rightarrow>
         ok \<lparr>device = dev, intr_mgr = mgr, device_resources = resources, queues = queues, mmio_base = base,
             has_ctrl_queue = has_ctrl, device_activated = False, ioevent_registered = False,
             features_select = 0, acked_features_select = 0, queue_select = 0, msi = None,
             doorbell = (if doorbell_enabled
                         then Some (DoorBell_new (ucast DRAGONBALL_MMIO_DOORBELL_OFFSET) (ucast DRAGONBALL_MMIO_DOORBELL_SCALE))
                         else None),
             shm_region_id = 0, shm_regions = shm\<rparr>))"

section \<open>Event descriptors\<close>

primrec revert_loop ::
  "('d, 'q, 'w) Env \<Rightarrow> 'q VirtioQueueConfig list \<Rightarrow> u64 \<Rightarrow> bool \<Rightarrow> nat \<Rightarrow> 'w \<Rightarrow> 'w" where
  "revert_loop env qs io_addr wildcard 0 w = w"
| "revert_loop env qs io_addr wildcard (Suc idx) w =
     (let datamatch = Data64 (if wildcard then 0 else of_nat (Suc idx))
      in revert_loop env qs io_addr wildcard idx
           (snd (unregister_ioevent env (vq_eventfd (qs ! idx)) io_addr datamatch w)))"

definition revert_ioevent :: "('d, 'q, 'w) Env \<Rightarrow> nat \<Rightarrow> u64 \<Rightarrow> bool \<Rightarrow> ('d, 'q, 'w, unit) state_op" where
  "revert_ioevent env num io_addr wildcard = (\<lambda>(self, ctx).
     if num < length (queues self)
     then ret (Inr (), self, ctx\<lparr>irq_w := revert_loop env (queues self) io_addr wildcard num (irq_w ctx)\<rparr>)
     else panic)"

fun unregister_doorbells ::
  "('d, 'q, 'w) Env \<Rightarrow> u64 \<Rightarrow> DoorBell \<Rightarrow> nat \<Rightarrow> 'q VirtioQueueConfig list \<Rightarrow> 'w \<Rightarrow> 'w rust" where
  "unregister_doorbells env base db i [] w = ret w"
| "unregister_doorbells env base db i (q # qs) w = do {
     off \<leftarrow> queue_offset db i;
     io_addr \<leftarrow> uadd base off;
     unregister_doorbells env base db (Suc i) qs (snd (unregister_ioevent env (vq_eventfd q) io_addr NoDatamatch w))
   }"

definition unregister_ioevent_doorbell :: "('d, 'q, 'w) Env \<Rightarrow> ('d, 'q, 'w, unit) state_op" where
  "unregister_ioevent_doorbell env = (\<lambda>(self, ctx).
     case doorbell self of
       None \<Rightarrow> ret (Inr (), self, ctx)
     | Some db \<Rightarrow> do {
         w \<leftarrow> unregister_doorbells env (mmio_base self) db 0 (queues self) (irq_w ctx);
         ret (Inr (), self, ctx\<lparr>irq_w := w\<rparr>)
       })"

text \<open>Ties the descriptor of a queue to an address; on an error what was done is taken back.\<close>

definition register_or ::
  "('d, 'q, 'w) Env \<Rightarrow> nat \<Rightarrow> u64 \<Rightarrow> Datamatch \<Rightarrow> ('d, 'q, 'w, unit) state_op \<Rightarrow> ('d, 'q, 'w, unit) state_op" where
  "register_or env eventfd io_addr datamatch undo = (\<lambda>(self, ctx).
     case register_ioevent env eventfd io_addr datamatch (irq_w ctx) of
       (Inr _, w) \<Rightarrow> ret (Inr (), self, ctx\<lparr>irq_w := w\<rparr>)
     | (Inl e, w) \<Rightarrow> attempt undo (\<lambda>_. fail (VirtioIOError e)) (self, ctx\<lparr>irq_w := w\<rparr>))"

fun register_queues :: "('d, 'q, 'w) Env \<Rightarrow> nat \<Rightarrow> 'q VirtioQueueConfig list \<Rightarrow> ('d, 'q, 'w, unit) state_op" where
  "register_queues env i [] = ok ()"
| "register_queues env i (q # qs) = (\<lambda>(self, ctx).
     attempt (case doorbell self of
                Some db \<Rightarrow>
                  attempt (pure (do { off \<leftarrow> queue_offset db i; uadd (mmio_base self) off })) (\<lambda>io_addr.
                  register_or env (vq_eventfd q) io_addr NoDatamatch (revert_ioevent env i io_addr True))
              | None \<Rightarrow> ok ()) (\<lambda>_.
     attempt (pure (uadd (mmio_base self) (ucast MMIO_NOTIFY_REG_OFFSET))) (\<lambda>io_addr.
     attempt (register_or env (vq_eventfd q) io_addr (Data32 (of_nat i))
                (attempt (unregister_ioevent_doorbell env) (\<lambda>_. revert_ioevent env i io_addr False))) (\<lambda>_.
     register_queues env (Suc i) qs))) (self, ctx))"

definition state_register_ioevent :: "('d, 'q, 'w) Env \<Rightarrow> ('d, 'q, 'w, unit) state_op" where
  "state_register_ioevent env = (\<lambda>(self, ctx).
     attempt (register_queues env 0 (queues self)) (\<lambda>_. change (\<lambda>self. self\<lparr>ioevent_registered := True\<rparr>)) (self, ctx))"

fun unregister_queues :: "('d, 'q, 'w) Env \<Rightarrow> u64 \<Rightarrow> nat \<Rightarrow> 'q VirtioQueueConfig list \<Rightarrow> 'w \<Rightarrow> 'w" where
  "unregister_queues env io_addr i [] w = w"
| "unregister_queues env io_addr i (q # qs) w =
     unregister_queues env io_addr (Suc i) qs (snd (unregister_ioevent env (vq_eventfd q) io_addr (Data32 (of_nat i)) w))"

definition state_unregister_ioevent :: "('d, 'q, 'w) Env \<Rightarrow> ('d, 'q, 'w, unit) state_op" where
  "state_unregister_ioevent env = (\<lambda>(self, ctx).
     if ioevent_registered self then do {
       io_addr \<leftarrow> uadd (mmio_base self) (ucast MMIO_NOTIFY_REG_OFFSET);
       ret (Inr (), self\<lparr>ioevent_registered := (if queues self = [] then True else False)\<rparr>,
            ctx\<lparr>irq_w := unregister_queues env io_addr 0 (queues self) (irq_w ctx)\<rparr>)
     }
     else ret (Inr (), self, ctx))"

section \<open>Activation and reset\<close>

definition check_queues_valid :: "('d, 'q, 'w) Env \<Rightarrow> ('d, 'q) MmioV2DeviceState \<Rightarrow> bool" where
  "check_queues_valid env self \<longleftrightarrow> list_all (\<lambda>c. q_is_valid (queue_ops env) (vq_queue c)) (queues self)"

definition queue_config :: "nat \<Rightarrow> InterruptSourceGroup \<Rightarrow> 'q VirtioQueueConfig \<Rightarrow> 'q VirtioQueueConfig rust" where
  "queue_config gid g q = do {
     idx \<leftarrow> uadd (ucast (vq_index q)) 1;
     ret (VirtioQueueConfig_new (vq_queue q) (vq_eventfd q) (create_queue_notifier gid g idx) (vq_index q))
   }"

fun queue_configs :: "nat \<Rightarrow> InterruptSourceGroup \<Rightarrow> 'q VirtioQueueConfig list \<Rightarrow> 'q VirtioQueueConfig list rust" where
  "queue_configs gid g [] = ret []"
| "queue_configs gid g (q # qs) = do { c \<leftarrow> queue_config gid g q; cs \<leftarrow> queue_configs gid g qs; ret (c # cs) }"

text \<open>The group in use; there is one after the interrupts were enabled, otherwise \<open>unwrap\<close> panics.\<close>

definition active_group :: "('d, 'q) MmioV2DeviceState \<times> 'w IrqCtx \<Rightarrow> (nat \<times> InterruptSourceGroup) rust" where
  "active_group = (\<lambda>(self, ctx). do {
     group \<leftarrow> get_group (intr_mgr self);
     (case group of None \<Rightarrow> panic | Some gid \<Rightarrow> do { g \<leftarrow> get_shared gid ctx; ret (gid, g) })
   })"

definition create_queue_config :: "('d, 'q) MmioV2DeviceState \<times> 'w IrqCtx \<Rightarrow> 'q VirtioQueueConfig list rust" where
  "create_queue_config s = do { (gid, g) \<leftarrow> active_group s; queue_configs gid g (queues (fst s)) }"

definition create_device_config :: "('d, 'q) MmioV2DeviceState \<times> 'w IrqCtx \<Rightarrow> 'q VirtioDeviceConfig rust" where
  "create_device_config s = do {
     qs \<leftarrow> create_queue_config s;
     let self = fst s;
     let ctrl_queue = (if has_ctrl_queue self then (if qs = [] then None else Some (last qs)) else None);
     let qs = (if has_ctrl_queue self then butlast qs else qs);
     (gid, g) \<leftarrow> active_group s;
     let config = VirtioDeviceConfig_new (device_resources self) qs ctrl_queue (create_device_notifier gid g 0);
     ret (config\<lparr>cfg_shm_regions := shm_regions self\<rparr>)
   }"

definition activate_device :: "('d, 'q, 'w) Env \<Rightarrow> 'q VirtioDeviceConfig \<Rightarrow> ('d, 'q, 'w, unit) state_op" where
  "activate_device env config = (\<lambda>(self, ctx).
     case dev_activate (dev_ops env) config (device self) of
       (Inr _, dev) \<Rightarrow> ret (Inr (), self\<lparr>device := dev, device_activated := True\<rparr>, ctx)
     | (Inl e, dev) \<Rightarrow> ret (Inl (VirtioActivateError e), self\<lparr>device := dev\<rparr>, ctx))"

definition activate :: "('d, 'q, 'w) Env \<Rightarrow> ('d, 'q, 'w, unit) state_op" where
  "activate env = (\<lambda>(self, ctx).
     (if device_activated self then ok ()
      else if \<not> check_queues_valid env self then fail (VirtioActivateError InvalidQueueConfig)
      else attempt (state_register_ioevent env) (\<lambda>_.
           attempt (on_intr VirtioIOError (dim_enable (irq_sys env))) (\<lambda>_ s.
           attempt (pure (create_device_config s)) (activate_device env) s))) (self, ctx))"

definition deactivate :: "('d, 'q) MmioV2DeviceState \<Rightarrow> ('d, 'q) MmioV2DeviceState" where
  "deactivate self = (if device_activated self then self\<lparr>device_activated := False\<rparr> else self)"

text \<open>Fresh queues for all; on an error the queues before it are already replaced.\<close>

fun reset_queues :: "'q QueueOps \<Rightarrow> 'q VirtioQueueConfig list \<Rightarrow> (nat + unit) \<times> 'q VirtioQueueConfig list" where
  "reset_queues qs [] = (Inr (), [])"
| "reset_queues qs (q # rest) =
     (case q_new qs (q_max_size qs (vq_queue q)) of
        Inl e \<Rightarrow> (Inl e, q # rest)
      | Inr queue \<Rightarrow> (case reset_queues qs rest of (r, rest) \<Rightarrow> (r, q\<lparr>vq_queue := queue\<rparr> # rest)))"

definition ignore :: "('d, 'q, 'w, unit) state_op \<Rightarrow> ('d, 'q, 'w, unit) state_op" where
  "ignore m = or_else m (\<lambda>_. ok ())"

definition state_reset :: "('d, 'q, 'w) Env \<Rightarrow> ('d, 'q, 'w, unit) state_op" where
  "state_reset env = (\<lambda>(self, ctx).
     if device_activated self then ret (Inr (), self, ctx)
     else case reset_queues (queue_ops env) (queues self) of
            (Inl e, qs) \<Rightarrow> ret (Inl (VirtioQueueError e), self\<lparr>queues := qs\<rparr>, ctx)
          | (Inr _, qs) \<Rightarrow>
              attempt (ignore (on_intr VirtioIOError (dim_reset (irq_sys env)))) (\<lambda>_.
              attempt (state_unregister_ioevent env) (\<lambda>_.
              change (\<lambda>self. self\<lparr>features_select := 0, acked_features_select := 0, queue_select := 0,
                                  msi := None, doorbell := None\<rparr>))) (self\<lparr>queues := qs\<rparr>, ctx))"

definition with_queue :: "'a \<Rightarrow> ('q \<Rightarrow> 'a) \<Rightarrow> ('d, 'q) MmioV2DeviceState \<Rightarrow> 'a" where
  "with_queue d f self =
     (if unat (queue_select self) < length (queues self) then f (vq_queue (queues self ! unat (queue_select self))) else d)"

definition with_queue_mut :: "('q \<Rightarrow> 'q) \<Rightarrow> ('d, 'q) MmioV2DeviceState \<Rightarrow> ('d, 'q) MmioV2DeviceState" where
  "with_queue_mut f self =
     (if unat (queue_select self) < length (queues self)
      then self\<lparr>queues := (queues self)[unat (queue_select self) :=
             (queues self ! unat (queue_select self))\<lparr>vq_queue := f (vq_queue (queues self ! unat (queue_select self)))\<rparr>]\<rparr>
      else self)"

definition get_shm_field :: "'a \<Rightarrow> (VirtioSharedMemory \<Rightarrow> 'a rust) \<Rightarrow> ('d, 'q) MmioV2DeviceState \<Rightarrow> 'a rust" where
  "get_shm_field d f self =
     (case shm_regions self of
        Some regions \<Rightarrow>
          if unat (shm_region_id self) < length (shm_region_list regions)
          then f (shm_region_list regions ! unat (shm_region_id self)) else ret d
      | None \<Rightarrow> ret d)"

section \<open>Message signaled interrupts\<close>

definition update_msi_cfg :: "('d, 'q, 'w) Env \<Rightarrow> u16 \<Rightarrow> ('d, 'q, 'w, unit) state_op" where
  "update_msi_cfg env v = (\<lambda>(self, ctx).
     (case msi self of
        None \<Rightarrow> ok ()
      | Some m \<Rightarrow>
          let m = m\<lparr>index_select := ucast v\<rparr> in
          attempt (change (\<lambda>self. self\<lparr>msi := Some m\<rparr>)) (\<lambda>_.
          attempt (on_mgr (set_msi_low_address (index_select m) (address_low m))) (\<lambda>_.
          attempt (on_mgr (set_msi_high_address (index_select m) (address_high m))) (\<lambda>_.
          attempt (on_mgr (set_msi_data (index_select m) (mdata m))) (\<lambda>_ (self, ctx).
          (if is_enabled (intr_mgr self)
           then on_intr VirtioInterruptError (dim_update (irq_sys env) (index_select m))
           else ok ()) (self, ctx)))))) (self, ctx))"

definition mask_msi_int :: "('d, 'q, 'w) Env \<Rightarrow> u32 \<Rightarrow> bool \<Rightarrow> ('d, 'q, 'w, unit) state_op" where
  "mask_msi_int env idx masked = (\<lambda>(self, ctx).
     (if is_enabled (intr_mgr self)
      then attempt (pure (get_group (intr_mgr self))) (\<lambda>group.
           case group of
             None \<Rightarrow> ok ()
           | Some gid \<Rightarrow>
               (case get_msi_mask idx (intr_mgr self) of
                  Inl e \<Rightarrow> fail (VirtioInterruptError e)
                | Inr old_mask \<Rightarrow>
                    if \<not> old_mask \<and> masked
                    then attempt (on_intr VirtioIOError (on_irq (group_mask (irq_sys env) gid idx))) (\<lambda>_. on_mgr (set_msi_mask idx True))
                    else if old_mask \<and> \<not> masked
                    then attempt (on_intr VirtioIOError (on_irq (group_unmask (irq_sys env) gid idx))) (\<lambda>_. on_mgr (set_msi_mask idx False))
                    else ok ()))
      else ok ()) (self, ctx))"

section \<open>Destruction\<close>

text \<open>\<open>Drop\<close>: the shared memory is removed from the guest; a device with such memory has one range and one
  slot.\<close>

definition drop_state :: "('d, 'q, 'w) Env \<Rightarrow> ('d, 'q) MmioV2DeviceState \<Rightarrow> 'w IrqCtx \<Rightarrow> 'w IrqCtx rust" where
  "drop_state env self ctx =
     (case shm_regions self of
        None \<Rightarrow> ret ctx
      | Some memlist \<Rightarrow>
          (case (get_mmio_address_ranges (device_resources self), get_kvm_mem_slots (device_resources self)) of
             ([_], [slot]) \<Rightarrow>
               (case remove_memory_region env slot (shm_guest_addr memlist) (shm_host_addr memlist) (irq_w ctx) of
                  (Inr _, w) \<Rightarrow> ret (ctx\<lparr>irq_w := w\<rparr>)
                | (Inl _, _) \<Rightarrow> panic)
           | _ \<Rightarrow> panic))"

end
