(* ===== verification/Virtio_Mmio_Regs.thy ===== *)
theory Virtio_Mmio_Regs
  imports Virtio_Mmio
begin

text \<open>
  The registers of the virtio transport (\<open>dbs_virtio_devices/mmio/mmio_v2.rs\<close>): creation of the device, the
  status of its driver, and the accesses of the guest.
\<close>

section \<open>Register offsets\<close>

definition REG_MMIO_MAGIC_VALUE :: u64 where "REG_MMIO_MAGIC_VALUE = 0x000"
definition REG_MMIO_VERSION :: u64 where "REG_MMIO_VERSION = 0x004"
definition REG_MMIO_DEVICE_ID :: u64 where "REG_MMIO_DEVICE_ID = 0x008"
definition REG_MMIO_VENDOR_ID :: u64 where "REG_MMIO_VENDOR_ID = 0x00c"
definition REG_MMIO_DEVICE_FEATURE :: u64 where "REG_MMIO_DEVICE_FEATURE = 0x010"
definition REG_MMIO_DEVICE_FEATURES_S :: u64 where "REG_MMIO_DEVICE_FEATURES_S = 0x014"
definition REG_MMIO_DRIVER_FEATURE :: u64 where "REG_MMIO_DRIVER_FEATURE = 0x020"
definition REG_MMIO_DRIVER_FEATURES_S :: u64 where "REG_MMIO_DRIVER_FEATURES_S = 0x024"
definition REG_MMIO_QUEUE_SEL :: u64 where "REG_MMIO_QUEUE_SEL = 0x030"
definition REG_MMIO_QUEUE_NUM_MA :: u64 where "REG_MMIO_QUEUE_NUM_MA = 0x034"
definition REG_MMIO_QUEUE_NUM :: u64 where "REG_MMIO_QUEUE_NUM = 0x038"
definition REG_MMIO_QUEUE_READY :: u64 where "REG_MMIO_QUEUE_READY = 0x044"
definition REG_MMIO_QUEUE_NOTIF :: u64 where "REG_MMIO_QUEUE_NOTIF = 0x050"
definition REG_MMIO_INTERRUPT_STAT :: u64 where "REG_MMIO_INTERRUPT_STAT = 0x060"
definition REG_MMIO_INTERRUPT_AC :: u64 where "REG_MMIO_INTERRUPT_AC = 0x064"
definition REG_MMIO_STATUS :: u64 where "REG_MMIO_STATUS = 0x070"
definition REG_MMIO_QUEUE_DESC_LOW :: u64 where "REG_MMIO_QUEUE_DESC_LOW = 0x080"
definition REG_MMIO_QUEUE_DESC_HIGH :: u64 where "REG_MMIO_QUEUE_DESC_HIGH = 0x084"
definition REG_MMIO_QUEUE_AVAIL_LOW :: u64 where "REG_MMIO_QUEUE_AVAIL_LOW = 0x090"
definition REG_MMIO_QUEUE_AVAIL_HIGH :: u64 where "REG_MMIO_QUEUE_AVAIL_HIGH = 0x094"
definition REG_MMIO_QUEUE_USED_LOW :: u64 where "REG_MMIO_QUEUE_USED_LOW = 0x0a0"
definition REG_MMIO_QUEUE_USED_HIGH :: u64 where "REG_MMIO_QUEUE_USED_HIGH = 0x0a4"
definition REG_MMIO_SHM_SEL :: u64 where "REG_MMIO_SHM_SEL = 0x0ac"
definition REG_MMIO_SHM_LEN_LOW :: u64 where "REG_MMIO_SHM_LEN_LOW = 0x0b0"
definition REG_MMIO_SHM_LEN_HIGH :: u64 where "REG_MMIO_SHM_LEN_HIGH = 0x0b4"
definition REG_MMIO_SHM_BASE_LOW :: u64 where "REG_MMIO_SHM_BASE_LOW = 0x0b8"
definition REG_MMIO_SHM_BASE_HIGH :: u64 where "REG_MMIO_SHM_BASE_HIGH = 0x0bc"
definition REG_MMIO_CONFIG_GENERATI :: u64 where "REG_MMIO_CONFIG_GENERATI = 0x0fc"
definition REG_MMIO_MSI_CSR :: u64 where "REG_MMIO_MSI_CSR = 0x0c0"
definition REG_MMIO_MSI_COMMAND :: u64 where "REG_MMIO_MSI_COMMAND = 0x0c2"
definition REG_MMIO_MSI_ADDRESS_L :: u64 where "REG_MMIO_MSI_ADDRESS_L = 0x0c4"
definition REG_MMIO_MSI_ADDRESS_H :: u64 where "REG_MMIO_MSI_ADDRESS_H = 0x0c8"
definition REG_MMIO_MSI_DATA :: u64 where "REG_MMIO_MSI_DATA = 0x0cc"

definition DEVICE_STATUS_INIT :: u32 where "DEVICE_STATUS_INIT = DEVICE_INIT"
definition DEVICE_STATUS_ACKNOWLEDE :: u32 where "DEVICE_STATUS_ACKNOWLEDE = DEVICE_STATUS_INIT OR DEVICE_ACKNOWLEDGE"
definition DEVICE_STATUS_DRIVER :: u32 where "DEVICE_STATUS_DRIVER = DEVICE_STATUS_ACKNOWLEDE OR DEVICE_DRIVER"
definition DEVICE_STATUS_FEATURE_OK :: u32 where "DEVICE_STATUS_FEATURE_OK = DEVICE_STATUS_DRIVER OR DEVICE_FEATURES_OK"
definition DEVICE_STATUS_DRIVER_OK :: u32 where "DEVICE_STATUS_DRIVER_OK = DEVICE_STATUS_FEATURE_OK OR DEVICE_DRIVER_OK"

section \<open>The device\<close>

record ('d, 'q) MmioV2Device =
  state :: "('d, 'q) MmioV2DeviceState"
  assigned_resources :: DeviceResources
  mmio_cfg_res :: Resource
  device_vendor :: u32
  driver_status :: u32
  config_generation :: u32
  interrupt_status :: InterruptStatusRegister32

text \<open>The first range of the right size is for the registers, the other resources are for the device.\<close>

fun split_resources :: "DeviceResources \<Rightarrow> DeviceResources \<times> (u64 \<times> Resource) option" where
  "split_resources [] = ([], None)"
| "split_resources (res # rest) =
     (case res of
        MmioAddressRange base sz \<Rightarrow>
          if sz = MMIO_DEFAULT_CFG_SIZE + DRAGONBALL_MMIO_DOORBELL_SIZE then (rest, Some (base, res))
          else (case split_resources rest of (others, cfg) \<Rightarrow> (res # others, cfg))
      | _ \<Rightarrow> (case split_resources rest of (others, cfg) \<Rightarrow> (res # others, cfg)))"

definition MmioV2Device_new ::
  "('d, 'q, 'w) Env \<Rightarrow> 'd \<Rightarrow> DeviceResources \<Rightarrow> u32 option \<Rightarrow> ('w IrqCtx, VirtioError, ('d, 'q) MmioV2Device) op" where
  "MmioV2Device_new env dev resources features = (\<lambda>ctx.
     (case split_resources resources of
        (_, None) \<Rightarrow> fail VirtioInvalidInput
      | (others, Some (base, cfg_res)) \<Rightarrow>
          let msi_feature = (if get_generic_msi_irqs resources \<noteq> None then DRAGONBALL_FEATURE_MSI_INTR else 0);
              doorbell_enabled = (case features of
                  Some ft \<Rightarrow> ft AND DRAGONBALL_FEATURE_PER_QUEUE_NOTIFY \<noteq> 0 \<and> ioeventfd_no_length env (irq_w ctx)
                | None \<Rightarrow> False);
              features = map_option (\<lambda>ft. if doorbell_enabled then ft else ft AND NOT DRAGONBALL_FEATURE_PER_QUEUE_NOTIFY) features
          in attempt (MmioV2DeviceState_new env dev others base doorbell_enabled) (\<lambda>st.
             let vendor = MMIO_VENDOR_ID_DRAGONBALL OR msi_feature;
                 vendor = (case features of Some ft \<Rightarrow> vendor OR (ft AND DRAGONBALL_FEATURE_MASK) | None \<Rightarrow> vendor)
             in ok \<lparr>state = st, assigned_resources = resources, mmio_cfg_res = cfg_res, device_vendor = vendor,
                    driver_status = DEVICE_INIT, config_generation = 0, interrupt_status = 0\<rparr>)) ctx)"

text \<open>An access to the device: the device and the interrupts of the machine.\<close>

type_synonym ('d, 'q, 'w) access = "('d, 'q) MmioV2Device \<times> 'w IrqCtx \<Rightarrow> (('d, 'q) MmioV2Device \<times> 'w IrqCtx) rust"

definition on_state :: "('d, 'q, 'w, 'a) state_op \<Rightarrow> (('d, 'q) MmioV2Device \<times> 'w IrqCtx, VirtioError, 'a) op" where
  "on_state m = (\<lambda>(dev, ctx). do { (r, st, ctx) \<leftarrow> m (state dev, ctx); ret (r, dev\<lparr>state := st\<rparr>, ctx) })"

definition change_state :: "(('d, 'q) MmioV2DeviceState \<Rightarrow> ('d, 'q) MmioV2DeviceState) \<Rightarrow> ('d, 'q, 'w) access" where
  "change_state f = (\<lambda>(dev, ctx). ret (dev\<lparr>state := f (state dev)\<rparr>, ctx))"

definition mmio_remove :: "('d, 'q, 'w) Env \<Rightarrow> ('d, 'q) MmioV2Device \<Rightarrow> ('d, 'q) MmioV2Device" where
  "mmio_remove env dev = dev\<lparr>state := (state dev)\<lparr>device := dev_remove (dev_ops env) (device (state dev))\<rparr>\<rparr>"

definition set_driver_failed :: "('d, 'q) MmioV2Device \<Rightarrow> ('d, 'q) MmioV2Device" where
  "set_driver_failed dev = dev\<lparr>driver_status := driver_status dev OR DEVICE_FAILED\<rparr>"

definition check_driver_status :: "u32 \<Rightarrow> u32 \<Rightarrow> ('d, 'q) MmioV2Device \<Rightarrow> bool" where
  "check_driver_status bits clr dev \<longleftrightarrow> driver_status dev AND (bits OR clr) = bits"

definition exchange_driver_status :: "u32 \<Rightarrow> u32 \<Rightarrow> ('d, 'q) MmioV2Device \<Rightarrow> bool \<times> ('d, 'q) MmioV2Device" where
  "exchange_driver_status old new dev =
     (if driver_status dev = old then (True, dev\<lparr>driver_status := new\<rparr>) else (False, dev))"

section \<open>Status of the driver\<close>

text \<open>The last step of the initialization activates the device.\<close>

definition enter_driver_ok :: "('d, 'q, 'w) Env \<Rightarrow> ('d, 'q) MmioV2Device \<times> 'w IrqCtx \<Rightarrow> (bool \<times> ('d, 'q) MmioV2Device \<times> 'w IrqCtx) rust" where
  "enter_driver_ok env = (\<lambda>(dev, ctx).
     case exchange_driver_status DEVICE_STATUS_FEATURE_OK DEVICE_STATUS_DRIVER_OK dev of
       (False, dev) \<Rightarrow> ret (False, dev, ctx)
     | (True, dev) \<Rightarrow> do {
         (r, s) \<leftarrow> on_state (activate env) (dev, ctx);
         (case r of
            Inr _ \<Rightarrow> ret (True, s)
          | Inl _ \<Rightarrow> do { (_, s) \<leftarrow> on_state (state_reset env) s; ret (False, s) })
       })"

definition reset_active :: "('d, 'q, 'w) Env \<Rightarrow> ('d, 'q) MmioV2Device \<times> 'w IrqCtx \<Rightarrow> (bool \<times> ('d, 'q) MmioV2Device \<times> 'w IrqCtx) rust" where
  "reset_active env = (\<lambda>(dev, ctx).
     case dev_reset (dev_ops env) (device (state dev)) of
       (Inl _, d) \<Rightarrow> ret (False, dev\<lparr>state := (state dev)\<lparr>device := d\<rparr>\<rparr>, ctx)
     | (Inr _, d) \<Rightarrow> do {
         let dev = dev\<lparr>state := deactivate ((state dev)\<lparr>device := d\<rparr>)\<rparr>;
         (r, dev, ctx) \<leftarrow> on_state (state_reset env) (dev, ctx);
         (case r of
            Inl _ \<Rightarrow> ret (False, dev, ctx)
          | Inr _ \<Rightarrow> (case exchange_driver_status DEVICE_STATUS_DRIVER_OK DEVICE_STATUS_INIT dev of
                        (b, dev) \<Rightarrow> ret (b, dev, ctx)))
       })"

definition driver_transition :: "('d, 'q, 'w) Env \<Rightarrow> u32 \<Rightarrow> ('d, 'q) MmioV2Device \<times> 'w IrqCtx \<Rightarrow> (bool \<times> ('d, 'q) MmioV2Device \<times> 'w IrqCtx) rust" where
  "driver_transition env v = (\<lambda>(dev, ctx).
     if v = DEVICE_STATUS_ACKNOWLEDE
     then (case exchange_driver_status DEVICE_STATUS_INIT DEVICE_STATUS_ACKNOWLEDE dev of (b, dev) \<Rightarrow> ret (b, dev, ctx))
     else if v = DEVICE_STATUS_DRIVER
     then (case exchange_driver_status DEVICE_STATUS_ACKNOWLEDE DEVICE_STATUS_DRIVER dev of (b, dev) \<Rightarrow> ret (b, dev, ctx))
     else if v = DEVICE_STATUS_FEATURE_OK
     then (case exchange_driver_status DEVICE_STATUS_DRIVER DEVICE_STATUS_FEATURE_OK dev of (b, dev) \<Rightarrow> ret (b, dev, ctx))
     else if v = DEVICE_STATUS_DRIVER_OK then enter_driver_ok env (dev, ctx)
     else if v = 0
     then (if driver_status dev = DEVICE_INIT then ret (True, dev, ctx)
           else if device_activated (state dev) then reset_active env (dev, ctx)
           else ret (False, dev, ctx))
     else if v = driver_status dev then ret (True, dev, ctx)
     else if v AND DEVICE_FAILED \<noteq> 0 then ret (True, set_driver_failed dev, ctx)
     else ret (False, dev, ctx))"

definition update_driver_status :: "('d, 'q, 'w) Env \<Rightarrow> u32 \<Rightarrow> ('d, 'q, 'w) access" where
  "update_driver_status env v s = do {
     (b, dev, ctx) \<leftarrow> driver_transition env v s;
     ret (if b then dev else set_driver_failed dev, ctx)
   }"

section \<open>Registers\<close>

definition update_queue_field :: "('q \<Rightarrow> 'q) \<Rightarrow> ('d, 'q, 'w) access" where
  "update_queue_field f = (\<lambda>(dev, ctx).
     (if check_driver_status DEVICE_FEATURES_OK (DEVICE_DRIVER_OK OR DEVICE_FAILED) dev
      then change_state (with_queue_mut f) else ret) (dev, ctx))"

definition tweak_intr_flags :: "u32 \<Rightarrow> ('d, 'q) MmioV2Device \<Rightarrow> u32" where
  "tweak_intr_flags flags dev =
     (if device_vendor dev AND DRAGONBALL_FEATURE_INTR_USED \<noteq> 0 then flags OR VIRTIO_INTR_VRING else flags)"

definition device_features :: "('d, 'q, 'w) Env \<Rightarrow> ('d, 'q) MmioV2Device \<Rightarrow> u32" where
  "device_features env dev =
     (let features = get_avail_features (dev_ops env) (features_select (state dev)) (device (state dev))
      in if features_select (state dev) = 1 then features OR 1 else features)"

definition set_acked_features :: "('d, 'q, 'w) Env \<Rightarrow> u32 \<Rightarrow> ('d, 'q, 'w) access" where
  "set_acked_features env v = (\<lambda>(dev, ctx).
     (if check_driver_status DEVICE_DRIVER (DEVICE_FEATURES_OK OR DEVICE_FAILED) dev
      then change_state (\<lambda>st. st\<lparr>device := ack_features (dev_ops env) (acked_features_select st) v (device st)\<rparr>)
      else ret) (dev, ctx))"

definition get_device_config :: "('d, 'q, 'w) Env \<Rightarrow> u64 \<Rightarrow> u8 list \<Rightarrow> ('d, 'q) MmioV2Device \<Rightarrow> u8 list \<times> ('d, 'q) MmioV2Device" where
  "get_device_config env offset buf dev =
     (if check_driver_status DEVICE_DRIVER DEVICE_FAILED dev
      then (case read_config (dev_ops env) offset buf (device (state dev)) of
              (_, buf, d) \<Rightarrow> (buf, dev\<lparr>state := (state dev)\<lparr>device := d\<rparr>\<rparr>))
      else (buf, dev))"

definition set_device_config :: "('d, 'q, 'w) Env \<Rightarrow> u64 \<Rightarrow> u8 list \<Rightarrow> ('d, 'q, 'w) access" where
  "set_device_config env offset buf = (\<lambda>(dev, ctx).
     if check_driver_status DEVICE_DRIVER DEVICE_FAILED dev
     then (case write_config (dev_ops env) offset buf (device (state dev)) of
             (_, d) \<Rightarrow> ret (dev\<lparr>state := (state dev)\<lparr>device := d\<rparr>\<rparr>, ctx))
     else ret (dev, ctx))"

definition get_shm_base :: "(u64 \<Rightarrow> u32) \<Rightarrow> ('d, 'q) MmioV2Device \<Rightarrow> u32 rust" where
  "get_shm_base part dev =
     (let guest_addr = (case shm_regions (state dev) of Some regions \<Rightarrow> shm_guest_addr regions | None \<Rightarrow> 0)
      in get_shm_field 0xffffffff (\<lambda>s. do { a \<leftarrow> uadd (shm_offset s) guest_addr; ret (part a) }) (state dev))"

definition get_shm_base_low :: "('d, 'q) MmioV2Device \<Rightarrow> u32 rust" where
  "get_shm_base_low = get_shm_base ucast"

definition get_shm_base_high :: "('d, 'q) MmioV2Device \<Rightarrow> u32 rust" where
  "get_shm_base_high = get_shm_base (\<lambda>a. ucast (drop_bit 32 a))"

definition update_msi_enable :: "('d, 'q, 'w) Env \<Rightarrow> u16 \<Rightarrow> ('d, 'q, 'w) access" where
  "update_msi_enable env v = (\<lambda>(dev, ctx).
     let st = state dev in
     if driver_status dev AND DEVICE_DRIVER_OK \<noteq> 0
     then ret (if driver_status dev AND DEVICE_FAILED = 0 then set_driver_failed dev else dev, ctx)
     else if v AND MMIO_MSI_CSR_ENABLED \<noteq> 0
     then (if msi st = None
           then (case set_working_mode ModeGenericMsiIrq (intr_mgr st) of
                   (Inr _, mgr) \<Rightarrow> ret (dev\<lparr>state := st\<lparr>intr_mgr := mgr, msi := Some Msi_default\<rparr>\<rparr>, ctx)
                 | (Inl _, mgr) \<Rightarrow> ret (set_driver_failed (dev\<lparr>state := st\<lparr>intr_mgr := mgr\<rparr>\<rparr>), ctx))
           else ret (dev, ctx))
     else if msi st \<noteq> None
     then (case set_working_mode ModeLegacyIrq (intr_mgr st) of
             (Inr _, mgr) \<Rightarrow> ret (dev\<lparr>state := st\<lparr>intr_mgr := mgr, msi := None\<rparr>\<rparr>, ctx)
           | (Inl _, mgr) \<Rightarrow> ret (set_driver_failed (dev\<lparr>state := st\<lparr>intr_mgr := mgr\<rparr>\<rparr>), ctx))
     else ret (dev, ctx))"

text \<open>Outside of tests a failed command is only logged.\<close>

definition log_error :: "('d, 'q, 'w, unit) state_op \<Rightarrow> ('d, 'q, 'w) access" where
  "log_error m s = do { (_, s) \<leftarrow> on_state m s; ret s }"

definition handle_msi_cmd :: "('d, 'q, 'w) Env \<Rightarrow> u16 \<Rightarrow> ('d, 'q, 'w) access" where
  "handle_msi_cmd env v = (\<lambda>(dev, ctx).
     let arg = v AND MMIO_MSI_CMD_ARG_MASK; code = v AND MMIO_MSI_CMD_CODE_MASK in
     if code = MMIO_MSI_CMD_CODE_UPDATE
     then (if arg > of_nat (length (queue_max_sizes (dev_ops env) (device (state dev)))) then ret (dev, ctx)
           else log_error (update_msi_cfg env arg) (dev, ctx))
     else if code = MMIO_MSI_CMD_CODE_INT_MASK then log_error (mask_msi_int env (ucast arg) True) (dev, ctx)
     else if code = MMIO_MSI_CMD_CODE_INT_UNMASK then log_error (mask_msi_int env (ucast arg) False) (dev, ctx)
     else ret (set_driver_failed dev, ctx))"

text \<open>A register of four bytes; \<open>None\<close> inside is an unknown register, which leaves the buffer as it is.\<close>

definition read_reg :: "('d, 'q, 'w) Env \<Rightarrow> u64 \<Rightarrow> ('d, 'q) MmioV2Device \<Rightarrow> u32 option rust" where
  "read_reg env offset dev =
     (let st = state dev in
      if offset = REG_MMIO_MAGIC_VALUE then ret (Some MMIO_MAGIC_VALUE)
      else if offset = REG_MMIO_VERSION then ret (Some MMIO_VERSION_2)
      else if offset = REG_MMIO_DEVICE_ID then ret (Some (device_type (dev_ops env) (device st)))
      else if offset = REG_MMIO_VENDOR_ID then ret (Some (device_vendor dev))
      else if offset = REG_MMIO_DEVICE_FEATURE then ret (Some (device_features env dev))
      else if offset = REG_MMIO_QUEUE_NUM_MA then ret (Some (with_queue 0 (\<lambda>q. ucast (q_max_size (queue_ops env) q)) st))
      else if offset = REG_MMIO_QUEUE_READY then ret (Some (with_queue 0 (\<lambda>q. if q_ready (queue_ops env) q then 1 else 0) st))
      else if offset = REG_MMIO_QUEUE_NOTIF \<and> doorbell st \<noteq> None then ret (map_option register_data (doorbell st))
      else if offset = REG_MMIO_INTERRUPT_STAT then ret (Some (tweak_intr_flags (interrupt_status dev) dev))
      else if offset = REG_MMIO_STATUS then ret (Some (driver_status dev))
      else if offset = REG_MMIO_SHM_LEN_LOW then do { v \<leftarrow> get_shm_field 0xffffffff (\<lambda>s. ret (ucast (shm_len s))) st; ret (Some v) }
      else if offset = REG_MMIO_SHM_LEN_HIGH
      then do { v \<leftarrow> get_shm_field 0xffffffff (\<lambda>s. ret (ucast (drop_bit 32 (shm_len s)))) st; ret (Some v) }
      else if offset = REG_MMIO_SHM_BASE_LOW then do { v \<leftarrow> get_shm_base_low dev; ret (Some v) }
      else if offset = REG_MMIO_SHM_BASE_HIGH then do { v \<leftarrow> get_shm_base_high dev; ret (Some v) }
      else if offset = REG_MMIO_CONFIG_GENERATI then ret (Some (config_generation dev))
      else ret None)"

definition mmio_device_read ::
  "('d, 'q, 'w) Env \<Rightarrow> u64 \<Rightarrow> u8 list \<Rightarrow> ('d, 'q) MmioV2Device \<Rightarrow> (u8 list \<times> ('d, 'q) MmioV2Device) rust" where
  "mmio_device_read env offset buf dev =
     (if offset \<ge> MMIO_CFG_SPACE_OFF then ret (get_device_config env (offset - MMIO_CFG_SPACE_OFF) buf dev)
      else if length buf = 4 then do {
        v \<leftarrow> read_reg env offset dev;
        ret (case v of Some v \<Rightarrow> le_bytes 4 v | None \<Rightarrow> buf, dev)
      }
      else if length buf = 2 then
        ret (if offset = REG_MMIO_MSI_CSR
             then le_bytes 2 (if device_vendor dev AND DRAGONBALL_FEATURE_MSI_INTR \<noteq> 0 then MMIO_MSI_CSR_SUPPORTED else 0)
             else buf, dev)
      else ret (buf, dev))"

definition write_reg :: "('d, 'q, 'w) Env \<Rightarrow> u64 \<Rightarrow> u32 \<Rightarrow> ('d, 'q, 'w) access" where
  "write_reg env offset v =
     (let q = queue_ops env in
      if offset = REG_MMIO_DEVICE_FEATURES_S then change_state (\<lambda>st. st\<lparr>features_select := v\<rparr>)
      else if offset = REG_MMIO_DRIVER_FEATURE then set_acked_features env v
      else if offset = REG_MMIO_DRIVER_FEATURES_S then change_state (\<lambda>st. st\<lparr>acked_features_select := v\<rparr>)
      else if offset = REG_MMIO_QUEUE_SEL then change_state (\<lambda>st. st\<lparr>queue_select := v\<rparr>)
      else if offset = REG_MMIO_QUEUE_NUM then update_queue_field (q_set_size q (ucast v))
      else if offset = REG_MMIO_QUEUE_READY then update_queue_field (q_set_ready q (v = 1))
      else if offset = REG_MMIO_INTERRUPT_AC
      then (\<lambda>(dev, ctx). ret (dev\<lparr>interrupt_status := status_clear_bits v (interrupt_status dev)\<rparr>, ctx))
      else if offset = REG_MMIO_STATUS then update_driver_status env v
      else if offset = REG_MMIO_QUEUE_DESC_LOW then update_queue_field (q_set_desc_table_address q (Some v) None)
      else if offset = REG_MMIO_QUEUE_DESC_HIGH then update_queue_field (q_set_desc_table_address q None (Some v))
      else if offset = REG_MMIO_QUEUE_AVAIL_LOW then update_queue_field (q_set_avail_ring_address q (Some v) None)
      else if offset = REG_MMIO_QUEUE_AVAIL_HIGH then update_queue_field (q_set_avail_ring_address q None (Some v))
      else if offset = REG_MMIO_QUEUE_USED_LOW then update_queue_field (q_set_used_ring_address q (Some v) None)
      else if offset = REG_MMIO_QUEUE_USED_HIGH then update_queue_field (q_set_used_ring_address q None (Some v))
      else if offset = REG_MMIO_SHM_SEL then change_state (\<lambda>st. st\<lparr>shm_region_id := v\<rparr>)
      else if offset = REG_MMIO_MSI_ADDRESS_L then change_state (\<lambda>st. st\<lparr>msi := map_option (\<lambda>m. m\<lparr>address_low := v\<rparr>) (msi st)\<rparr>)
      else if offset = REG_MMIO_MSI_ADDRESS_H then change_state (\<lambda>st. st\<lparr>msi := map_option (\<lambda>m. m\<lparr>address_high := v\<rparr>) (msi st)\<rparr>)
      else if offset = REG_MMIO_MSI_DATA then change_state (\<lambda>st. st\<lparr>msi := map_option (\<lambda>m. m\<lparr>mdata := v\<rparr>) (msi st)\<rparr>)
      else ret)"

definition mmio_device_write :: "('d, 'q, 'w) Env \<Rightarrow> u64 \<Rightarrow> u8 list \<Rightarrow> ('d, 'q, 'w) access" where
  "mmio_device_write env offset buf =
     (if MMIO_CFG_SPACE_OFF \<le> offset \<and> offset < DRAGONBALL_MMIO_DOORBELL_OFFSET
      then set_device_config env (offset - MMIO_CFG_SPACE_OFF) buf
      else if length buf = 4 then write_reg env offset (le_word buf)
      else if length buf = 2
      then (if offset = REG_MMIO_MSI_CSR then update_msi_enable env (le_word buf)
            else if offset = REG_MMIO_MSI_COMMAND then handle_msi_cmd env (le_word buf)
            else ret)
      else ret)"

definition get_trapped_io_resources :: "('d, 'q) MmioV2Device \<Rightarrow> DeviceResources" where
  "get_trapped_io_resources dev = DeviceResources_append DeviceResources_new (mmio_cfg_res dev)"

definition get_assigned_resources :: "('d, 'q) MmioV2Device \<Rightarrow> DeviceResources" where
  "get_assigned_resources dev = assigned_resources dev"

definition get_mmio_cfg_res :: "('d, 'q) MmioV2Device \<Rightarrow> Resource" where
  "get_mmio_cfg_res dev = mmio_cfg_res dev"

definition get_device_type :: "('d, 'q, 'w) Env \<Rightarrow> ('d, 'q) MmioV2Device \<Rightarrow> u32" where
  "get_device_type env dev = device_type (dev_ops env) (device (state dev))"

end
