(* ===== verification/Virtio_Mmio_Lemmas.thy ===== *)
theory Virtio_Mmio_Lemmas
  imports Virtio_Mmio_Regs Interrupt_Lemmas
begin

text \<open>
  The virtio transport keeps its state good and does not panic, whatever the guest writes, whatever KVM
  and the device answer, for a device that has a legacy interrupt and message signaled interrupts.
\<close>

section \<open>Good states\<close>

abbreviation default_doorbell :: DoorBell where
  "default_doorbell \<equiv> \<lparr>db_offset = 0x1000, db_scale = 4\<rparr>"

definition shm_ok :: "VirtioSharedMemoryList option \<Rightarrow> bool" where
  "shm_ok shm \<longleftrightarrow> (\<forall>regions s. shm = Some regions \<longrightarrow> s \<in> set (shm_region_list regions) \<longrightarrow>
     unat (shm_offset s) + unat (shm_guest_addr regions) < 2 ^ 64)"

definition base_ok :: "('d, 'q) MmioV2DeviceState \<Rightarrow> bool" where
  "base_ok self \<longleftrightarrow> unat (mmio_base self) + 0x2000 \<le> 2 ^ 64 \<and> length (queues self) \<le> 1024 \<and>
     (doorbell self = None \<or> doorbell self = Some default_doorbell) \<and> shm_ok (shm_regions self)"

definition state_ok :: "('d, 'q) MmioV2DeviceState \<Rightarrow> 'w IrqCtx \<Rightarrow> bool" where
  "state_ok self ctx \<longleftrightarrow> dim_ok (intr_mgr self) ctx \<and> base_ok self \<and>
     supports (intr_mgr self) ModeLegacyIrq \<and> supports (intr_mgr self) ModeGenericMsiIrq \<and>
     intr_mode (intr_mgr self) \<in> {ModeDisabled, ModeLegacyIrq, ModeGenericMsiIrq}"

lemma state_okD:
  assumes "state_ok self ctx"
  shows "dim_ok (intr_mgr self) ctx" "base_ok self"
    "intr_mode (intr_mgr self) \<noteq> ModeDisabled \<longrightarrow> supports (intr_mgr self) (intr_mode (intr_mgr self))"
  using assms unfolding state_ok_def by auto

lemma state_ok_shapes: "state_ok self ctx \<Longrightarrow> shapes ctx' = shapes ctx \<Longrightarrow> state_ok self ctx'"
  unfolding state_ok_def using dim_ok_shapes by blast

section \<open>Event descriptors\<close>

text \<open>An operation that does not panic and only makes calls to KVM.\<close>

definition same_irq :: "'w IrqCtx \<Rightarrow> 'w IrqCtx \<Rightarrow> bool" where
  "same_irq ctx ctx' \<longleftrightarrow> group_heap ctx' = group_heap ctx \<and> irq_routes ctx' = irq_routes ctx"

lemma same_irq_simps [simp]: "same_irq ctx ctx" "same_irq ctx (ctx\<lparr>irq_w := w\<rparr>)"
  "same_irq (ctx\<lparr>irq_w := w\<rparr>) ctx' \<longleftrightarrow> same_irq ctx ctx'"
  by (simp_all add: same_irq_def)

definition calls_only :: "('d, 'q, 'w, 'a) state_op \<Rightarrow> ('d, 'q) MmioV2DeviceState \<Rightarrow> bool" where
  "calls_only m self \<longleftrightarrow> (\<forall>ctx. safely m (self, ctx) (\<lambda>_ (self', ctx'). self' = self \<and> same_irq ctx ctx'))"

lemma calls_only_attempt:
  assumes "calls_only m self" "\<And>a. calls_only (f a) self"
  shows "calls_only (attempt m f) self"
  unfolding calls_only_def
proof
  fix ctx
  show "safely (attempt m f) (self, ctx) (\<lambda>_ (self', ctx'). self' = self \<and> same_irq ctx ctx')"
  proof (rule safely_attempt)
    show "safely m (self, ctx) (\<lambda>_ (self', ctx'). self' = self \<and> same_irq ctx ctx')"
      using assms(1) by (simp add: calls_only_def)
    fix a and s :: "('a, 'b) MmioV2DeviceState \<times> 'c IrqCtx"
    assume "case s of (self', ctx') \<Rightarrow> self' = self \<and> same_irq ctx ctx'"
    then obtain c where s: "s = (self, c)" "same_irq ctx c" by (cases s) auto
    have "safely (f a) s (\<lambda>_ (self', ctx'). self' = self \<and> same_irq c ctx')"
      using assms(2) [of a] unfolding calls_only_def s by blast
    then show "safely (f a) s (\<lambda>_ (self', ctx'). self' = self \<and> same_irq ctx ctx')"
      by (rule safely_weaken) (use s(2) in \<open>auto simp: same_irq_def\<close>)
  qed simp
qed

lemma calls_only_basic [simp]: "calls_only (ok a) self" "calls_only (fail e) self"
  by (simp_all add: calls_only_def safely_def ok_def fail_def)

lemma calls_only_pure: "x = Some a \<Longrightarrow> calls_only (f a) self \<Longrightarrow> calls_only (attempt (pure x) f) self"
  by (simp add: calls_only_def safely_def attempt_def pure_def)

lemma calls_only_revert: "num < length (queues self) \<Longrightarrow> calls_only (revert_ioevent env num io_addr wildcard) self"
  by (auto simp: calls_only_def safely_def revert_ioevent_def)

lemma doorbell_addr:
  assumes "base_ok self" "doorbell self = Some db" "i < length (queues self)"
  shows "\<exists>off a. queue_offset db i = Some off \<and> uadd (mmio_base self) off = Some a"
proof -
  have b: "unat (mmio_base self) + 0x2000 \<le> 2 ^ 64" "i < 1024" "db = default_doorbell"
    using assms by (auto simp: base_ok_def)
  have i: "unat (of_nat i :: u64) = i" using b(2) by (simp add: unat_of_nat)
  obtain n where n: "umul (4 :: u64) (of_nat i) = Some n" "unat n = 4 * i" using checked_ok(3) [of "4 :: u64" "of_nat i"] i b(2) by auto
  obtain off where off: "uadd (0x1000 :: u64) n = Some off" "unat off = 0x1000 + 4 * i"
    using checked_ok(1) [of "0x1000 :: u64" n] n(2) b(2) by auto
  obtain a where "uadd (mmio_base self) off = Some a" using checked_ok(1) [of "mmio_base self" off] off(2) b(1,2) by auto
  then show ?thesis using b(3) n(1) off(1) by (simp add: queue_offset_def)
qed

lemma notify_addr:
  assumes "base_ok self"
  shows "\<exists>a. uadd (mmio_base self) (ucast MMIO_NOTIFY_REG_OFFSET) = Some a"
  using checked_ok(1) [of "mmio_base self" "ucast MMIO_NOTIFY_REG_OFFSET"] assms
  by (auto simp: base_ok_def MMIO_NOTIFY_REG_OFFSET_def)

lemma unregister_doorbells_some:
  assumes "base_ok self" "doorbell self = Some db" "i + length qs \<le> length (queues self)"
  shows "\<exists>w'. unregister_doorbells env (mmio_base self) db i qs w = Some w'"
  using assms(3)
proof (induction qs arbitrary: i w)
  case (Cons q qs)
  then show ?case using doorbell_addr [OF assms(1,2), of i] by auto
qed simp

lemma calls_only_unregister_doorbell:
  assumes "base_ok self"
  shows "calls_only (unregister_ioevent_doorbell env) self"
proof (cases "doorbell self")
  case (Some db)
  show ?thesis unfolding calls_only_def
  proof
    fix ctx :: "'c IrqCtx"
    obtain w' where "unregister_doorbells env (mmio_base self) db 0 (queues self) (irq_w ctx) = Some w'"
      using unregister_doorbells_some [OF assms Some, of 0 "queues self" env "irq_w ctx"] by auto
    then show "safely (unregister_ioevent_doorbell env) (self, ctx) (\<lambda>_ (self', ctx'). self' = self \<and> same_irq ctx ctx')"
      using Some by (simp add: safely_def unregister_ioevent_doorbell_def)
  qed
qed (simp add: calls_only_def safely_def unregister_ioevent_doorbell_def)

lemma calls_only_register:
  assumes "calls_only undo self"
  shows "calls_only (register_or env fd io_addr datamatch undo) self"
  unfolding calls_only_def
proof
  fix ctx
  have "calls_only (attempt undo (\<lambda>_. fail (VirtioIOError e))) self" for e by (rule calls_only_attempt [OF assms]) simp
  then have fails: "safely (attempt undo (\<lambda>_. fail (VirtioIOError e))) (self, ctx\<lparr>irq_w := w\<rparr>)
      (\<lambda>_ (self', ctx'). self' = self \<and> same_irq (ctx\<lparr>irq_w := w\<rparr>) ctx')" for e w
    unfolding calls_only_def by blast
  show "safely (register_or env fd io_addr datamatch undo) (self, ctx) (\<lambda>_ (self', ctx'). self' = self \<and> same_irq ctx ctx')"
    using fails by (auto simp: safely_def register_or_def split: prod.split sum.split) fastforce
qed

lemma calls_only_register_queues:
  assumes "base_ok self" "i + length qs = length (queues self)"
  shows "calls_only (register_queues env i qs) self"
  using assms(2)
proof (induction qs arbitrary: i)
  case (Cons q qs)
  obtain a where a: "uadd (mmio_base self) (ucast MMIO_NOTIFY_REG_OFFSET) = Some a" using notify_addr [OF assms(1)] by blast
  have i: "i < length (queues self)" using Cons.prems by simp
  let ?bell = "\<lambda>self. case doorbell self of
      Some db \<Rightarrow> attempt (pure (do { off \<leftarrow> queue_offset db i; uadd (mmio_base self) off })) (\<lambda>io_addr.
        register_or env (vq_eventfd q) io_addr NoDatamatch (revert_ioevent env i io_addr True))
    | None \<Rightarrow> ok ()"
  have bell: "calls_only (?bell self) self"
  proof (cases "doorbell self")
    case (Some db)
    then obtain b where "do { off \<leftarrow> queue_offset db i; uadd (mmio_base self) off } = Some b"
      using doorbell_addr [OF assms(1) Some i] by auto
    then show ?thesis unfolding Some option.case by (intro calls_only_pure calls_only_register calls_only_revert [OF i])
  qed simp
  let ?rest = "\<lambda>self. attempt (pure (uadd (mmio_base self) (ucast MMIO_NOTIFY_REG_OFFSET))) (\<lambda>io_addr.
     attempt (register_or env (vq_eventfd q) io_addr (Data32 (of_nat i))
                (attempt (unregister_ioevent_doorbell env) (\<lambda>_. revert_ioevent env i io_addr False))) (\<lambda>_.
     register_queues env (Suc i) qs))"
  have "calls_only (attempt (?bell self) (\<lambda>_. ?rest self)) self"
    using Cons.IH [of "Suc i"] Cons.prems
    by (intro calls_only_attempt bell calls_only_pure [OF a] calls_only_register calls_only_unregister_doorbell assms(1) calls_only_revert i) simp
  then show ?case by (simp add: calls_only_def safely_def)
qed simp

section \<open>Activation and reset\<close>

definition keeps_state :: "('d, 'q, 'w, 'a) state_op \<Rightarrow> ('d, 'q) MmioV2DeviceState \<Rightarrow> 'w IrqCtx \<Rightarrow>
    (VirtioError + 'a \<Rightarrow> ('d, 'q) MmioV2DeviceState \<Rightarrow> bool) \<Rightarrow> bool" where
  "keeps_state m self ctx P \<longleftrightarrow> safely m (self, ctx) (\<lambda>r (self', ctx'). state_ok self' ctx' \<and> shapes ctx' = shapes ctx \<and> P r self')"

lemma keeps_state_attempt:
  fixes ctx :: "'w IrqCtx" and self :: "('d, 'q) MmioV2DeviceState"
  assumes "keeps_state m self ctx P" "\<And>e self'. P (Inl e) self' \<Longrightarrow> Q (Inl e) self'"
    "\<And>a self' ctx'. state_ok self' ctx' \<Longrightarrow> shapes ctx' = shapes ctx \<Longrightarrow> P (Inr a) self' \<Longrightarrow> keeps_state (f a) self' ctx' Q"
  shows "keeps_state (attempt m f) self ctx Q"
  unfolding keeps_state_def
proof (rule safely_attempt [OF assms(1) [unfolded keeps_state_def]])
  fix a and s :: "('d, 'q) MmioV2DeviceState \<times> 'w IrqCtx"
  assume s: "case s of (self', ctx') \<Rightarrow> state_ok self' ctx' \<and> shapes ctx' = shapes ctx \<and> P (Inr a) self'"
  obtain self' ctx' where p: "s = (self', ctx')" by fastforce
  have "keeps_state (f a) self' ctx' Q" using assms(3) s p by simp
  then show "safely (f a) s (\<lambda>r (self', ctx'). state_ok self' ctx' \<and> shapes ctx' = shapes ctx \<and> Q r self')"
    unfolding keeps_state_def p by (rule safely_weaken) (use s p in auto)
qed (use assms(2) in auto)

lemma keeps_state_weaken: "keeps_state m self ctx P \<Longrightarrow> (\<And>r self'. P r self' \<Longrightarrow> Q r self') \<Longrightarrow> keeps_state m self ctx Q"
  unfolding keeps_state_def by (erule safely_weaken) auto

lemma keeps_state_ignore:
  assumes "keeps_state m self ctx P"
  shows "keeps_state (ignore m) self ctx (\<lambda>r self'. r = Inr () \<and> (\<exists>r'. P r' self'))"
  using assms unfolding keeps_state_def ignore_def safely_def or_else_def ok_def by (fastforce split: sum.split)

lemma keeps_state_basic:
  "state_ok self ctx \<Longrightarrow> P (Inr a) self \<Longrightarrow> keeps_state (ok a) self ctx P"
  "state_ok self ctx \<Longrightarrow> P (Inl e) self \<Longrightarrow> keeps_state (fail e) self ctx P"
  by (simp_all add: keeps_state_def safely_def ok_def fail_def)

lemma keeps_state_change: "state_ok (f self) ctx \<Longrightarrow> P (Inr ()) (f self) \<Longrightarrow> keeps_state (change f) self ctx P"
  by (simp add: keeps_state_def safely_def change_def)

lemma keeps_state_calls:
  assumes "state_ok self ctx" "calls_only m self"
  shows "keeps_state m self ctx (\<lambda>_ self'. self' = self)"
proof -
  have "safely m (self, ctx) (\<lambda>_ (self', ctx'). self' = self \<and> same_irq ctx ctx')" using assms(2) by (simp add: calls_only_def)
  then show ?thesis
    unfolding keeps_state_def
  proof (rule safely_weaken)
    fix s assume "case s of (self', ctx') \<Rightarrow> self' = self \<and> same_irq ctx ctx'"
    then show "case s of (self', ctx') \<Rightarrow> state_ok self' ctx' \<and> shapes ctx' = shapes ctx \<and> self' = self"
      using state_ok_shapes [OF assms(1), of "snd s"] by (cases s) (auto simp: same_irq_def)
  qed
qed

lemma keeps_state_intr:
  assumes "state_ok self ctx" "keeps_dim m (intr_mgr self) ctx P"
    "\<And>r mgr. P r mgr \<Longrightarrow> intr_mode mgr \<in> {ModeDisabled, ModeLegacyIrq, ModeGenericMsiIrq}"
  shows "keeps_state (on_intr err m) self ctx (\<lambda>r self'. \<exists>r' mgr. self' = self\<lparr>intr_mgr := mgr\<rparr> \<and> P r' mgr \<and>
    r = (case r' of Inl e \<Rightarrow> Inl (err e) | Inr a \<Rightarrow> Inr a))"
proof -
  obtain r mgr ctx' where m: "m (intr_mgr self, ctx) = Some (r, mgr, ctx')" "dim_ok mgr ctx'" "same_modes (intr_mgr self) mgr"
      "shapes ctx' = shapes ctx" "P r mgr"
    using assms(2) by (auto simp: keeps_dim_def safely_def)
  have "state_ok (self\<lparr>intr_mgr := mgr\<rparr>) ctx'"
    using assms(1) m(2,3) assms(3) [OF m(5)] by (auto simp: state_ok_def base_ok_def same_modes_def supports_def)
  then show ?thesis using m(1,4,5) by (auto simp: keeps_state_def safely_def on_intr_def)
qed

lemma keeps_state_mgr:
  assumes "state_ok self ctx" "dim_ok (snd (f (intr_mgr self))) ctx" "same_modes (intr_mgr self) (snd (f (intr_mgr self)))"
    "intr_mode (snd (f (intr_mgr self))) = intr_mode (intr_mgr self)"
  shows "keeps_state (on_mgr f) self ctx (\<lambda>_ self'. \<exists>mgr. self' = self\<lparr>intr_mgr := mgr\<rparr>)"
proof -
  have "state_ok (self\<lparr>intr_mgr := snd (f (intr_mgr self))\<rparr>) ctx"
    using assms by (auto simp: state_ok_def base_ok_def same_modes_def supports_def)
  then show ?thesis by (cases "f (intr_mgr self)") (auto simp: keeps_state_def safely_def on_mgr_def on_intr_def)
qed

text \<open>The configuration for the device can be made once the interrupts are enabled.\<close>

lemma queue_configs_some: "\<exists>cs. queue_configs gid g qs = Some cs \<and> length cs = length qs"
proof (induction qs)
  case (Cons q qs)
  have "unat (ucast (vq_index q) :: u32) < 2 ^ 16" using unat_less_exp [of "vq_index q"] by (simp add: unat_up)
  then obtain i where "uadd (ucast (vq_index q) :: u32) 1 = Some i" using checked_ok(1) [of "ucast (vq_index q) :: u32" 1] by auto
  then show ?case using Cons by (auto simp: queue_config_def)
qed simp

lemma active_group_some:
  assumes "state_ok self ctx" "activated (intr_mgr self)"
  shows "active_group (self, ctx) = Some (intr_groups (intr_mgr self) ! unat (mode2idx (intr_mgr self) (intr_mode (intr_mgr self))),
    mode_group (intr_mgr self) ctx (intr_mode (intr_mgr self)))"
proof -
  have d: "dim_ok (intr_mgr self) ctx" using state_okD(1) [OF assms(1)] .
  have s: "supports (intr_mgr self) (intr_mode (intr_mgr self))" using dim_okD(6) [OF d assms(2)] .
  have "intr_mode (intr_mgr self) \<noteq> ModeDisabled" using s dim_okD(7) [OF d] by metis
  then show ?thesis using get_group_ok [OF d] assms(2) group_of_mode(3) [OF d s] by (simp add: active_group_def)
qed

lemma device_config_some:
  assumes "state_ok self ctx" "activated (intr_mgr self)"
  shows "\<exists>config. create_device_config (self, ctx) = Some config"
proof -
  obtain gid g where ag: "active_group (self, ctx) = Some (gid, g)" using active_group_some [OF assms] by blast
  obtain cs where "queue_configs gid g (queues self) = Some cs" using queue_configs_some by blast
  then show ?thesis by (simp add: create_device_config_def create_queue_config_def ag Let_def)
qed

text \<open>What an operation keeps of a state: its device's kind of activation is told by \<open>P\<close>.\<close>

lemma register_keeps:
  assumes "state_ok self ctx"
  shows "keeps_state (state_register_ioevent env) self ctx (\<lambda>_ self'. \<exists>b. self' = self\<lparr>ioevent_registered := b\<rparr>)"
proof -
  have "keeps_state (attempt (register_queues env 0 (queues self)) (\<lambda>_. change (\<lambda>self. self\<lparr>ioevent_registered := True\<rparr>))) self ctx
      (\<lambda>_ self'. \<exists>b. self' = self\<lparr>ioevent_registered := b\<rparr>)"
  proof (rule keeps_state_attempt [OF keeps_state_calls [OF assms calls_only_register_queues [OF state_okD(2) [OF assms]]]])
    show "keeps_state (change (\<lambda>self. self\<lparr>ioevent_registered := True\<rparr>)) self' ctx' (\<lambda>_ self'. \<exists>b. self' = self\<lparr>ioevent_registered := b\<rparr>)"
      if "state_ok self' ctx'" "self' = self" for self' ctx'
      using that by (intro keeps_state_change) (auto simp: state_ok_def base_ok_def)
  qed (auto intro: exI [of _ "ioevent_registered self"])
  then show ?thesis by (simp add: keeps_state_def safely_def state_register_ioevent_def)
qed

lemma enable_intr_keeps:
  assumes "state_ok self ctx"
  shows "keeps_state (on_intr VirtioIOError (dim_enable sys)) self ctx (\<lambda>r self'. (\<exists>mgr. self' = self\<lparr>intr_mgr := mgr\<rparr>) \<and>
    (\<not> isl r \<longrightarrow> activated (intr_mgr self')))"
proof (rule keeps_state_weaken [OF keeps_state_intr [OF assms enable_keeps [OF state_okD(1,3) [OF assms]]]])
  show "intr_mode mgr \<in> {ModeDisabled, ModeLegacyIrq, ModeGenericMsiIrq}"
    if "(r = Inr () \<longrightarrow> activated mgr) \<and> (intr_mode mgr = intr_mode (intr_mgr self) \<or>
        intr_mode (intr_mgr self) = ModeDisabled \<and> intr_mode mgr = ModeLegacyIrq \<and> supports (intr_mgr self) ModeLegacyIrq)"
    for r :: "nat + unit" and mgr
    using that assms by (auto simp: state_ok_def)
  fix r and self' :: "('a, 'b) MmioV2DeviceState"
  assume "\<exists>r' mgr. self' = self\<lparr>intr_mgr := mgr\<rparr> \<and> ((r' = Inr () \<longrightarrow> activated mgr) \<and> (intr_mode mgr = intr_mode (intr_mgr self) \<or>
        intr_mode (intr_mgr self) = ModeDisabled \<and> intr_mode mgr = ModeLegacyIrq \<and> supports (intr_mgr self) ModeLegacyIrq)) \<and>
      r = (case r' of Inl e \<Rightarrow> Inl (VirtioIOError e) | Inr a \<Rightarrow> Inr a)"
  then obtain r' mgr where "self' = self\<lparr>intr_mgr := mgr\<rparr>" "r' = Inr () \<longrightarrow> activated mgr"
      "r = (case r' of Inl e \<Rightarrow> Inl (VirtioIOError e) | Inr a \<Rightarrow> Inr a)" by blast
  then show "(\<exists>mgr. self' = self\<lparr>intr_mgr := mgr\<rparr>) \<and> (\<not> isl r \<longrightarrow> activated (intr_mgr self'))" by (cases r') auto
qed

lemma activate_keeps:
  assumes "state_ok self ctx"
  shows "keeps_state (activate env) self ctx (\<lambda>r self'. device_activated self' \<longleftrightarrow> device_activated self \<or> \<not> isl r)"
proof (cases "device_activated self \<or> \<not> check_queues_valid env self")
  case True
  then show ?thesis using assms by (auto simp: keeps_state_def safely_def activate_def ok_def fail_def)
next
  case False
  let ?Q = "\<lambda>r self'. device_activated self' \<longleftrightarrow> \<not> isl r" and ?P = "\<lambda>(self' :: ('a, 'b) MmioV2DeviceState). \<not> device_activated self'"
  let ?dev = "\<lambda>s. attempt (pure (create_device_config s)) (activate_device env) s"
  have dev: "keeps_state ?dev self' ctx' ?Q" if p: "state_ok self' ctx'" "activated (intr_mgr self')" "?P self'" for self' ctx'
  proof -
    obtain config where "create_device_config (self', ctx') = Some config" using device_config_some [OF p(1,2)] by blast
    then show ?thesis
      using p(1,3) by (auto simp: keeps_state_def safely_def attempt_def pure_def activate_device_def state_ok_def base_ok_def
          split: prod.split sum.split)
  qed
  have "keeps_state (attempt (state_register_ioevent env) (\<lambda>_. attempt (on_intr VirtioIOError (dim_enable (irq_sys env))) (\<lambda>_. ?dev))) self ctx ?Q"
  proof (rule keeps_state_attempt [OF register_keeps [OF assms]])
    fix self1 and ctx1 :: "'c IrqCtx"
    assume p1: "state_ok self1 ctx1" "\<exists>b. self1 = self\<lparr>ioevent_registered := b\<rparr>"
    then have "?P self1" using False by auto
    then show "keeps_state (attempt (on_intr VirtioIOError (dim_enable (irq_sys env))) (\<lambda>_. ?dev)) self1 ctx1 ?Q"
      by (intro keeps_state_attempt [OF enable_intr_keeps [OF p1(1)]] dev) auto
  qed (use False in auto)
  then show ?thesis using False by (simp add: keeps_state_def safely_def activate_def)
qed

lemma reset_queues_length: "reset_queues qo qs = (r, qs') \<Longrightarrow> length qs' = length qs"
  by (induction qs arbitrary: r qs') (auto split: sum.splits prod.splits)

lemma unregister_keeps:
  assumes "state_ok self ctx"
  shows "keeps_state (state_unregister_ioevent env) self ctx (\<lambda>_ self'. \<exists>b. self' = self\<lparr>ioevent_registered := b\<rparr>)"
proof -
  obtain a where a: "uadd (mmio_base self) (ucast MMIO_NOTIFY_REG_OFFSET) = Some a" using notify_addr [OF state_okD(2) [OF assms]] by blast
  have "state_ok (self\<lparr>ioevent_registered := b\<rparr>) (ctx\<lparr>irq_w := w\<rparr>)" for b w
    using state_ok_shapes [OF assms, of "ctx\<lparr>irq_w := w\<rparr>"] by (simp add: state_ok_def base_ok_def)
  then show ?thesis using assms a
    by (auto simp: keeps_state_def safely_def state_unregister_ioevent_def intro: exI [of _ "ioevent_registered self"])
qed

lemma state_reset_keeps:
  assumes "state_ok self ctx"
  shows "keeps_state (state_reset env) self ctx (\<lambda>_ self'. device_activated self' \<longleftrightarrow> device_activated self)"
proof (cases "device_activated self")
  case False
  obtain r qs where rq: "reset_queues (queue_ops env) (queues self) = (r, qs)" by fastforce
  have ok: "state_ok (self\<lparr>queues := qs\<rparr>) ctx"
    using assms reset_queues_length [OF rq] by (simp add: state_ok_def base_ok_def)
  let ?Q = "\<lambda>_ (self' :: ('a, 'b) MmioV2DeviceState). \<not> device_activated self'"
  have intr: "keeps_state (ignore (on_intr VirtioIOError (dim_reset (irq_sys env)))) (self\<lparr>queues := qs\<rparr>) ctx ?Q"
  proof (rule keeps_state_weaken [OF keeps_state_ignore [OF keeps_state_intr [OF ok reset_keeps [OF state_okD(1) [OF ok]]]]])
    show "intr_mode mgr \<in> {ModeDisabled, ModeLegacyIrq, ModeGenericMsiIrq}"
      if "\<not> activated mgr \<and> intr_mode mgr \<in> {ModeDisabled, intr_mode (intr_mgr (self\<lparr>queues := qs\<rparr>))}" for r :: "nat + unit" and mgr
      using that assms by (auto simp: state_ok_def)
  qed (use False in auto)
  let ?clear = "\<lambda>self :: ('a, 'b) MmioV2DeviceState. self\<lparr>features_select := 0, acked_features_select := 0, queue_select := 0, msi := None, doorbell := None\<rparr>"
  have "keeps_state (attempt (ignore (on_intr VirtioIOError (dim_reset (irq_sys env)))) (\<lambda>_.
      attempt (state_unregister_ioevent env) (\<lambda>_. change ?clear))) (self\<lparr>queues := qs\<rparr>) ctx ?Q"
  proof (rule keeps_state_attempt [OF intr])
    fix self1 and ctx1 :: "'c IrqCtx" assume p1: "state_ok self1 ctx1" "?Q () self1"
    show "keeps_state (attempt (state_unregister_ioevent env) (\<lambda>_. change ?clear)) self1 ctx1 ?Q"
      by (rule keeps_state_attempt [OF unregister_keeps [OF p1(1)]], insert p1(2))
        (auto intro!: keeps_state_change simp: state_ok_def base_ok_def)
  qed simp
  then show ?thesis using False ok rq by (auto simp: keeps_state_def safely_def state_reset_def split: sum.split)
qed (use assms in \<open>simp add: keeps_state_def safely_def state_reset_def\<close>)

section \<open>Message signaled interrupts\<close>

text \<open>What does not touch the activation of the device.\<close>

abbreviation same_active :: "('d, 'q) MmioV2DeviceState \<Rightarrow> 'r \<Rightarrow> ('d, 'q) MmioV2DeviceState \<Rightarrow> bool" where
  "same_active self \<equiv> \<lambda>_ self'. device_activated self' = device_activated self"

lemma keeps_active_attempt:
  assumes "keeps_state m self ctx (same_active self)"
    "\<And>a self' ctx'. state_ok self' ctx' \<Longrightarrow> shapes ctx' = shapes ctx \<Longrightarrow> same_active self () self' \<Longrightarrow> keeps_state (f a) self' ctx' (same_active self')"
  shows "keeps_state (attempt m f) self ctx (same_active self)"
proof (rule keeps_state_attempt [OF assms(1)])
  show "keeps_state (f a) self' ctx' (same_active self)"
    if "state_ok self' ctx'" "shapes ctx' = shapes ctx" "same_active self () self'" for a self' ctx'
    using assms(2) [OF that] that(3) by simp
qed

lemma change_msi_keeps:
  assumes "state_ok self ctx"
  shows "keeps_state (on_mgr (change_msi idx f)) self ctx (same_active self)"
  using change_msi_ok [OF state_okD(1) [OF assms], of idx f]
  by (auto intro: keeps_state_weaken [OF keeps_state_mgr [OF assms, of "change_msi idx f"]])

lemma msi_setters_keep:
  assumes "state_ok self ctx"
  shows "keeps_state (on_mgr (set_msi_low_address idx v)) self ctx (same_active self)"
    "keeps_state (on_mgr (set_msi_high_address idx v)) self ctx (same_active self)"
    "keeps_state (on_mgr (set_msi_data idx v)) self ctx (same_active self)"
    "keeps_state (on_mgr (set_msi_mask idx masked)) self ctx (same_active self)"
  unfolding set_msi_low_address_def set_msi_high_address_def set_msi_data_def set_msi_mask_def
  by (rule change_msi_keeps [OF assms])+

lemma irq_keeps:
  assumes "state_ok self ctx" "keeps_dim m (intr_mgr self) ctx (\<lambda>_ mgr. mgr = intr_mgr self)"
  shows "keeps_state (on_intr err m) self ctx (same_active self)"
proof (rule keeps_state_weaken [OF keeps_state_intr [OF assms]])
  show "intr_mode mgr \<in> {ModeDisabled, ModeLegacyIrq, ModeGenericMsiIrq}" if "mgr = intr_mgr self" for mgr
    using assms(1) that by (simp add: state_ok_def)
qed auto

lemma update_msi_cfg_keeps:
  assumes "state_ok self ctx"
  shows "keeps_state (update_msi_cfg env v) self ctx (same_active self)"
proof (cases "msi self")
  case None
  then show ?thesis using assms by (simp add: keeps_state_def safely_def update_msi_cfg_def ok_def)
next
  case (Some m)
  let ?m = "m\<lparr>index_select := ucast v\<rparr>"
  let ?upd = "\<lambda>(self, ctx). (if is_enabled (intr_mgr self)
           then on_intr VirtioInterruptError (dim_update (irq_sys env) (index_select ?m)) else ok ()) (self, ctx)"
  have upd: "keeps_state ?upd self' ctx' (same_active self')" if "state_ok self' ctx'" for self' ctx'
    using irq_keeps [OF that update_keeps [OF state_okD(1) [OF that]], of VirtioInterruptError "irq_sys env" "index_select ?m"] that
    by (simp add: keeps_state_def safely_def ok_def)
  have "keeps_state (attempt (change (\<lambda>self. self\<lparr>msi := Some ?m\<rparr>)) (\<lambda>_.
          attempt (on_mgr (set_msi_low_address (index_select ?m) (address_low ?m))) (\<lambda>_.
          attempt (on_mgr (set_msi_high_address (index_select ?m) (address_high ?m))) (\<lambda>_.
          attempt (on_mgr (set_msi_data (index_select ?m) (mdata ?m))) (\<lambda>_. ?upd))))) self ctx (same_active self)"
    using assms by (intro keeps_active_attempt keeps_state_change msi_setters_keep upd) (auto simp: state_ok_def base_ok_def)
  then show ?thesis using Some by (simp add: keeps_state_def safely_def update_msi_cfg_def Let_def)
qed

lemma mask_msi_int_keeps:
  assumes "state_ok self ctx"
  shows "keeps_state (mask_msi_int env idx masked) self ctx (same_active self)"
proof (cases "activated (intr_mgr self)")
  case False
  then show ?thesis using assms by (simp add: keeps_state_def safely_def mask_msi_int_def is_enabled_def ok_def)
next
  case True
  have d: "dim_ok (intr_mgr self) ctx" using state_okD(1) [OF assms] .
  have s: "supports (intr_mgr self) (intr_mode (intr_mgr self))" using dim_okD(6) [OF d True] .
  then have "intr_mode (intr_mgr self) \<noteq> ModeDisabled" using dim_okD(7) [OF d] by metis
  then have gid: "get_group (intr_mgr self) = Some (Some (intr_groups (intr_mgr self) ! unat (mode2idx (intr_mgr self) (intr_mode (intr_mgr self)))))"
    (is "_ = Some (Some ?gid)") using get_group_ok [OF d] True by simp
  have "keeps_state (on_intr VirtioIOError (on_irq (group_switch f ?gid idx))) self ctx (same_active self)" for f
    by (rule irq_keeps [OF assms keeps_on_irq [OF d shapes_safe [OF switch_safe [OF group_of_mode(2) [OF d s]]]]])
  then have "keeps_state (attempt (on_intr VirtioIOError (on_irq (group_switch f ?gid idx))) (\<lambda>_. on_mgr (set_msi_mask idx b))) self ctx (same_active self)" for f b
    by (rule keeps_active_attempt) (rule msi_setters_keep)
  then have "keeps_state (case get_msi_mask idx (intr_mgr self) of
                  Inl e \<Rightarrow> fail (VirtioInterruptError e)
                | Inr old_mask \<Rightarrow>
                    if \<not> old_mask \<and> masked
                    then attempt (on_intr VirtioIOError (on_irq (group_mask (irq_sys env) ?gid idx))) (\<lambda>_. on_mgr (set_msi_mask idx True))
                    else if old_mask \<and> \<not> masked
                    then attempt (on_intr VirtioIOError (on_irq (group_unmask (irq_sys env) ?gid idx))) (\<lambda>_. on_mgr (set_msi_mask idx False))
                    else ok ()) self ctx (same_active self)"
    using assms by (auto intro: keeps_state_basic simp: group_mask_def group_unmask_def split: sum.split)
  then show ?thesis using True by (simp add: keeps_state_def mask_msi_int_def safely_def is_enabled_def gid attempt_def pure_def)
qed

end
