(* ===== verification/Virtio_Mmio_Driver.thy ===== *)
theory Virtio_Mmio_Driver
  imports Virtio_Mmio_Lemmas
begin

text \<open>
  The status of the driver as an abstract machine, the accesses of a guest as sequences of steps, and the lemma that every
  access to the registers is a step of the machine and does not panic.
\<close>

section \<open>The abstract machine\<close>

datatype Phase = Reset | Acknowledged | DriverFound | FeaturesAgreed | Running

text \<open>The phase of the initialization, whether something failed, and whether the device is active.\<close>

type_synonym DriverView = "Phase \<times> bool \<times> bool"

inductive driver_step :: "DriverView \<Rightarrow> DriverView \<Rightarrow> bool" where
  stays: "driver_step v v"
| acknowledge: "driver_step (Reset, False, a) (Acknowledged, False, a)"
| found: "driver_step (Acknowledged, False, a) (DriverFound, False, a)"
| agreed: "driver_step (DriverFound, False, a) (FeaturesAgreed, False, a)"
| start: "driver_step (FeaturesAgreed, False, False) (Running, False, True)"
| start_fails: "driver_step (FeaturesAgreed, False, False) (Running, True, False)"
| fails: "driver_step (p, f, a) (p, True, a)"
| reset: "driver_step (Running, False, True) (Reset, False, False)"
| reset_failed: "driver_step (Running, f, True) (Running, True, False)"

inductive_simps running_step: "driver_step (Running, f, a) v"
inductive_simps failed_step: "driver_step (p, True, a) v"

fun view_ok :: "DriverView \<Rightarrow> bool" where
  "view_ok (p, f, a) \<longleftrightarrow> (a \<longrightarrow> p = Running) \<and> (p = Running \<and> \<not> f \<longrightarrow> a)"

lemma driver_step_ok: "driver_step v v' \<Longrightarrow> view_ok v \<Longrightarrow> view_ok v'"
  by (induction rule: driver_step.induct) auto

definition status_word :: "Phase \<Rightarrow> bool \<Rightarrow> u32" where
  "status_word p f = (case p of Reset \<Rightarrow> 0 | Acknowledged \<Rightarrow> 1 | DriverFound \<Rightarrow> 3 | FeaturesAgreed \<Rightarrow> 0xb | Running \<Rightarrow> 0xf) OR
     (if f then 0x80 else 0)"

lemma status_word_inject [simp]: "status_word p f = status_word p' f' \<longleftrightarrow> p = p' \<and> f = f'"
  by (cases p; cases p'; cases f; cases f') (simp_all add: status_word_def)

lemma status_word_zero [simp]: "status_word p f = 0 \<longleftrightarrow> p = Reset \<and> \<not> f"
  by (cases p; cases f) (simp_all add: status_word_def)

lemmas status_consts = DEVICE_STATUS_INIT_def DEVICE_STATUS_ACKNOWLEDE_def DEVICE_STATUS_DRIVER_def DEVICE_STATUS_FEATURE_OK_def
  DEVICE_STATUS_DRIVER_OK_def DEVICE_INIT_def DEVICE_ACKNOWLEDGE_def DEVICE_DRIVER_def DEVICE_FEATURES_OK_def DEVICE_DRIVER_OK_def
  DEVICE_FAILED_def

lemma status_of_phase [simp]:
  "DEVICE_STATUS_INIT = status_word Reset False" "DEVICE_INIT = status_word Reset False"
  "DEVICE_STATUS_ACKNOWLEDE = status_word Acknowledged False"
  "DEVICE_STATUS_DRIVER = status_word DriverFound False" "DEVICE_STATUS_FEATURE_OK = status_word FeaturesAgreed False"
  "DEVICE_STATUS_DRIVER_OK = status_word Running False"
  by (simp_all add: status_word_def status_consts)

lemma status_word_fails [simp]: "status_word p f OR DEVICE_FAILED = status_word p True"
  by (cases p; cases f) (simp_all add: status_word_def status_consts)

lemma status_word_bits:
  "status_word p f AND DEVICE_DRIVER_OK \<noteq> 0 \<longleftrightarrow> p = Running" "status_word p f AND DEVICE_FAILED = 0 \<longleftrightarrow> \<not> f"
  by (cases p; cases f; simp add: status_word_def status_consts)+

lemma queue_fields_open: "status_word p f AND (DEVICE_FEATURES_OK OR (DEVICE_DRIVER_OK OR DEVICE_FAILED)) = DEVICE_FEATURES_OK \<longleftrightarrow>
    p = FeaturesAgreed \<and> \<not> f"
  by (cases p; cases f) (simp_all add: status_word_def status_consts)

section \<open>Simulation\<close>

fun shows_view :: "('d, 'q) MmioV2Device \<Rightarrow> DriverView \<Rightarrow> bool" where
  "shows_view dev (p, f, a) \<longleftrightarrow> driver_status dev = status_word p f \<and> device_activated (state dev) = a"

definition device_ok :: "('d, 'q) MmioV2Device \<Rightarrow> 'w IrqCtx \<Rightarrow> DriverView \<Rightarrow> bool" where
  "device_ok dev ctx v \<longleftrightarrow> state_ok (state dev) ctx \<and> shows_view dev v \<and> view_ok v"

definition simulates :: "('d, 'q, 'w) access \<Rightarrow> ('d, 'q) MmioV2Device \<Rightarrow> 'w IrqCtx \<Rightarrow> DriverView \<Rightarrow> bool" where
  "simulates m dev ctx v \<longleftrightarrow> (\<exists>dev' ctx' v'. m (dev, ctx) = Some (dev', ctx') \<and> device_ok dev' ctx' v' \<and> driver_step v v' \<and>
     shapes ctx' = shapes ctx)"

lemma simulatesI:
  "m (dev, ctx) = Some (dev', ctx') \<Longrightarrow> device_ok dev' ctx' v' \<Longrightarrow> driver_step v v' \<Longrightarrow> shapes ctx' = shapes ctx \<Longrightarrow> simulates m dev ctx v"
  unfolding simulates_def by blast

lemma simulates_ret: "device_ok dev ctx v \<Longrightarrow> simulates ret dev ctx v"
  by (rule simulatesI [where dev' = dev and ctx' = ctx]) (auto intro: stays)

text \<open>Operations that do not touch the status.\<close>

lemma simulates_change:
  assumes "device_ok dev ctx v" "\<And>st. state_ok st ctx \<Longrightarrow> state_ok (f st) ctx \<and> device_activated (f st) = device_activated st"
  shows "simulates (change_state f) dev ctx v"
proof -
  have "device_ok (dev\<lparr>state := f (state dev)\<rparr>) ctx v" using assms by (cases v) (simp add: device_ok_def)
  then show ?thesis by (intro simulatesI [OF _ _ stays]) (simp_all add: change_state_def)
qed

lemma simulates_log:
  assumes "device_ok dev ctx v" "keeps_state m (state dev) ctx (same_active (state dev))"
  shows "simulates (log_error m) dev ctx v"
proof -
  obtain r st ctx' where m: "m (state dev, ctx) = Some (r, st, ctx')" "state_ok st ctx'" "shapes ctx' = shapes ctx"
      "device_activated st = device_activated (state dev)"
    using assms(2) by (auto simp: keeps_state_def safely_def)
  then have "device_ok (dev\<lparr>state := st\<rparr>) ctx' v" using assms(1) by (cases v) (simp add: device_ok_def)
  then show ?thesis using m(1,3) 
    by (intro simulatesI [where dev' = "dev\<lparr>state := st\<rparr>" and ctx' = ctx', OF _ _ stays]) (simp_all add: log_error_def on_state_def)
qed

lemma device_ok_fails: "device_ok dev ctx (p, f, a) \<Longrightarrow> device_ok (set_driver_failed dev) ctx (p, True, a)"
  by (simp add: device_ok_def set_driver_failed_def)

lemma simulates_fails:
  assumes "device_ok dev ctx v"
  shows "simulates (\<lambda>(dev, ctx). ret (set_driver_failed dev, ctx)) dev ctx v"
proof (cases v)
  case (fields p f a)
  then show ?thesis using device_ok_fails assms 
    by (intro simulatesI [where dev' = "set_driver_failed dev" and ctx' = ctx and v' = "(p, True, a)"]) (auto intro: fails)
qed

section \<open>Accesses\<close>

text \<open>A transition of the status, which leaves the device failed where it is refused.\<close>

definition transits :: "(('d, 'q) MmioV2Device \<times> 'w IrqCtx \<Rightarrow> (bool \<times> ('d, 'q) MmioV2Device \<times> 'w IrqCtx) rust) \<Rightarrow>
    ('d, 'q) MmioV2Device \<Rightarrow> 'w IrqCtx \<Rightarrow> DriverView \<Rightarrow> bool" where
  "transits m dev ctx v \<longleftrightarrow> (\<exists>b dev' ctx' p f a. m (dev, ctx) = Some (b, dev', ctx') \<and> state_ok (state dev') ctx' \<and>
     shapes ctx' = shapes ctx \<and> shows_view dev' (p, f, a) \<and> driver_step v (p, f \<or> \<not> b, a))"

lemma transitsI:
  assumes "m (dev, ctx) = Some (b, dev', ctx')" "state_ok (state dev') ctx'" "shapes ctx' = shapes ctx" "shows_view dev' (p, f, a)"
    "driver_step v (p, f \<or> \<not> b, a)"
  shows "transits m dev ctx v"
  using assms unfolding transits_def by blast

lemma transits_simulates:
  assumes "device_ok dev ctx v" "transits (driver_transition env w) dev ctx v"
  shows "simulates (update_driver_status env w) dev ctx v"
proof -
  obtain b dev' ctx' p f a where t: "driver_transition env w (dev, ctx) = Some (b, dev', ctx')" "state_ok (state dev') ctx'"
      "shapes ctx' = shapes ctx" "shows_view dev' (p, f, a)" "driver_step v (p, f \<or> \<not> b, a)"
    using assms(2) unfolding transits_def by blast
  have "view_ok (p, f \<or> \<not> b, a)" using driver_step_ok [OF t(5)] assms(1) by (simp add: device_ok_def)
  then have "device_ok (if b then dev' else set_driver_failed dev') ctx' (p, f \<or> \<not> b, a)"
    using t(2,4) by (simp add: device_ok_def set_driver_failed_def)
  then show ?thesis using t(1,3,5)
    by (intro simulatesI [where dev' = "if b then dev' else set_driver_failed dev'" and ctx' = ctx' and v' = "(p, f \<or> \<not> b, a)"])
      (simp_all add: update_driver_status_def)
qed

lemma refused_transits:
  assumes "device_ok dev ctx v" "m (dev, ctx) = Some (False, dev, ctx)"
  shows "transits m dev ctx v"
proof (cases v)
  case (fields p f a)
  then show ?thesis using assms by (intro transitsI [where p = p and f = f and a = a]) (auto simp: device_ok_def intro: fails)
qed

lemma exchange_transits:
  assumes "device_ok dev ctx v" "\<And>a. driver_step (p, False, a) (p', False, a)"
    "m (dev, ctx) = (case exchange_driver_status (status_word p False) (status_word p' False) dev of (b, dev) \<Rightarrow> Some (b, dev, ctx))"
  shows "transits m dev ctx v"
proof (cases "driver_status dev = status_word p False")
  case True
  obtain f0 f a where v: "v = (f0, f, a)" by (cases v) auto
  then have "f0 = p" "\<not> f" using True assms(1) by (auto simp: device_ok_def)
  then show ?thesis using assms True v
    by (intro transitsI [where b = True and dev' = "dev\<lparr>driver_status := status_word p' False\<rparr>" and p = p' and f = False and a = a])
      (simp_all add: exchange_driver_status_def device_ok_def)
next
  case False
  then show ?thesis using assms(3) by (intro refused_transits [OF assms(1)]) (simp add: exchange_driver_status_def)
qed

text \<open>The device is activated, or the start fails.\<close>

lemma enter_transits:
  assumes "device_ok dev ctx v"
  shows "transits (enter_driver_ok env) dev ctx v"
proof (cases "driver_status dev = status_word FeaturesAgreed False")
  case True
  then have v: "v = (FeaturesAgreed, False, False)" using assms by (cases v) (auto simp: device_ok_def)
  let ?dev = "dev\<lparr>driver_status := status_word Running False\<rparr>"
  have off: "\<not> device_activated (state dev)" and st: "state_ok (state dev) ctx" using assms v by (auto simp: device_ok_def)
  obtain r st1 ctx1 where act: "activate env (state dev, ctx) = Some (r, st1, ctx1)" "state_ok st1 ctx1" "shapes ctx1 = shapes ctx"
      "device_activated st1 \<longleftrightarrow> \<not> isl r"
    using activate_keeps [OF st, of env] off by (auto simp: keeps_state_def safely_def)
  obtain r2 st2 ctx2 where re: "state_reset env (st1, ctx1) = Some (r2, st2, ctx2)" "state_ok st2 ctx2" "shapes ctx2 = shapes ctx1"
      "device_activated st2 = device_activated st1"
    using state_reset_keeps [OF act(2), of env] by (auto simp: keeps_state_def safely_def)
  show ?thesis
  proof (cases r)
    case (Inl e)
    then show ?thesis using True v act re
      by (intro transitsI [where b = False and dev' = "?dev\<lparr>state := st2\<rparr>" and ctx' = ctx2 and p = Running and f = False and a = False])
        (auto simp: enter_driver_ok_def exchange_driver_status_def on_state_def intro: driver_step.intros)
  next
    case (Inr u)
    then show ?thesis using True v act
      by (intro transitsI [where b = True and dev' = "?dev\<lparr>state := st1\<rparr>" and ctx' = ctx1 and p = Running and f = False and a = True])
        (auto simp: enter_driver_ok_def exchange_driver_status_def on_state_def intro: driver_step.intros)
  qed
next
  case False
  then show ?thesis by (intro refused_transits [OF assms]) (simp add: enter_driver_ok_def exchange_driver_status_def)
qed

lemma reset_transits:
  assumes "device_ok dev ctx v" "device_activated (state dev)"
  shows "transits (reset_active env) dev ctx v"
proof -
  obtain f where v: "v = (Running, f, True)" using assms by (cases v) (auto simp: device_ok_def)
  have st: "state_ok (state dev) ctx" "driver_status dev = status_word Running f" using assms(1) v by (simp_all add: device_ok_def)
  obtain r d where rd: "dev_reset (dev_ops env) (device (state dev)) = (r, d)" by fastforce
  let ?st = "deactivate ((state dev)\<lparr>device := d\<rparr>)"
  have "state_ok ?st ctx" using st(1) by (simp add: deactivate_def state_ok_def base_ok_def)
  then obtain r2 st2 ctx2 where re: "state_reset env (?st, ctx) = Some (r2, st2, ctx2)" "state_ok st2 ctx2" "shapes ctx2 = shapes ctx"
      "device_activated st2 = device_activated ?st"
    using state_reset_keeps [of ?st ctx env] by (auto simp: keeps_state_def safely_def)
  then have off: "\<not> device_activated st2" by (simp add: deactivate_def)
  consider "isl r" | "\<not> isl r" "isl r2 \<or> f" | "\<not> isl r" "\<not> isl r2" "\<not> f" by blast
  then show ?thesis
  proof cases
    case 1
    then show ?thesis using rd st v assms(2)
      by (intro transitsI [where b = False and dev' = "dev\<lparr>state := (state dev)\<lparr>device := d\<rparr>\<rparr>" and ctx' = ctx and p = Running and f = f and a = True])
        (auto simp: reset_active_def state_ok_def base_ok_def isl_def intro: fails)
  next
    case 2
    then show ?thesis using rd st v re off
      by (intro transitsI [where b = False and dev' = "dev\<lparr>state := st2\<rparr>" and ctx' = ctx2 and p = Running and f = f and a = False])
        (auto simp: reset_active_def on_state_def exchange_driver_status_def split: sum.splits intro: reset_failed)
  next
    case 3
    then show ?thesis using rd st v re off
      by (intro transitsI [where b = True and dev' = "dev\<lparr>state := st2, driver_status := status_word Reset False\<rparr>" and ctx' = ctx2
            and p = Reset and f = False and a = False])
        (auto simp: reset_active_def on_state_def exchange_driver_status_def split: sum.splits intro: driver_step.reset)
  qed
qed

lemma status_simulates:
  assumes "device_ok dev ctx v"
  shows "simulates (update_driver_status env w) dev ctx v"
proof (rule transits_simulates [OF assms])
  consider "w = status_word Acknowledged False" | "w = status_word DriverFound False" | "w = status_word FeaturesAgreed False"
    | "w = status_word Running False" | "w = status_word Reset False" "device_activated (state dev)" "driver_status dev \<noteq> status_word Reset False"
    | "w \<notin> {status_word Acknowledged False, status_word DriverFound False, status_word FeaturesAgreed False, status_word Running False}"
      "w \<noteq> status_word Reset False \<or> \<not> device_activated (state dev) \<or> driver_status dev = status_word Reset False"
    by auto
  then show "transits (driver_transition env w) dev ctx v"
  proof cases
    case 4
    then have "transits (driver_transition env w) dev ctx v = transits (enter_driver_ok env) dev ctx v"
      by (simp add: transits_def driver_transition_def)
    then show ?thesis using enter_transits [OF assms] by simp
  next
    case 5
    then have "transits (driver_transition env w) dev ctx v = transits (reset_active env) dev ctx v"
      by (simp add: transits_def driver_transition_def)
    then show ?thesis using reset_transits [OF assms 5(2)] by simp
  next
    case 6
    then have "\<exists>dev' b. driver_transition env w (dev, ctx) = Some (b, dev', ctx) \<and> (dev' = dev \<or> b \<and> dev' = set_driver_failed dev)"
      by (auto simp: driver_transition_def status_word_def)
    then obtain dev' b where "driver_transition env w (dev, ctx) = Some (b, dev', ctx)" "dev' = dev \<or> dev' = set_driver_failed dev" by blast
    then show ?thesis using assms
      by (cases v; cases b)
        (auto simp: transits_def device_ok_def set_driver_failed_def intro!: exI intro: driver_step.intros)
  next
    case 1
    then show ?thesis
      by (intro exchange_transits [OF assms, of Reset Acknowledged]) (auto intro: driver_step.intros simp: driver_transition_def)
  next
    case 2
    then show ?thesis
      by (intro exchange_transits [OF assms, of Acknowledged DriverFound]) (auto intro: driver_step.intros simp: driver_transition_def)
  next
    case 3
    then show ?thesis
      by (intro exchange_transits [OF assms, of DriverFound FeaturesAgreed]) (auto intro: driver_step.intros simp: driver_transition_def)
  qed
qed

lemma same_state_ok:
  "state_ok st ctx \<Longrightarrow> state_ok (st\<lparr>features_select := x\<rparr>) ctx" "state_ok st ctx \<Longrightarrow> state_ok (st\<lparr>acked_features_select := x\<rparr>) ctx"
  "state_ok st ctx \<Longrightarrow> state_ok (st\<lparr>queue_select := x\<rparr>) ctx" "state_ok st ctx \<Longrightarrow> state_ok (st\<lparr>shm_region_id := x\<rparr>) ctx"
  "state_ok st ctx \<Longrightarrow> state_ok (st\<lparr>msi := m\<rparr>) ctx" "state_ok st ctx \<Longrightarrow> state_ok (st\<lparr>device := d\<rparr>) ctx"
  "state_ok st ctx \<Longrightarrow> state_ok (with_queue_mut g st) ctx"
  by (simp_all add: state_ok_def base_ok_def with_queue_mut_def)

lemma queue_field_simulates:
  assumes "device_ok dev ctx v"
  shows "simulates (update_queue_field g) dev ctx v"
proof -
  have "simulates (change_state (with_queue_mut g)) dev ctx v"
    by (rule simulates_change [OF assms]) (simp add: same_state_ok(7), simp add: with_queue_mut_def)
  then show ?thesis using simulates_ret [OF assms] by (simp add: simulates_def update_queue_field_def)
qed

lemma device_ok_change:
  "device_ok dev ctx v \<Longrightarrow> state_ok st ctx \<Longrightarrow> device_activated st = device_activated (state dev) \<Longrightarrow> device_ok (dev\<lparr>state := st\<rparr>) ctx v"
  by (cases v) (simp add: device_ok_def)

lemma simulates_to: "m (dev, ctx) = Some (dev', ctx) \<Longrightarrow> device_ok dev' ctx v \<Longrightarrow> simulates m dev ctx v"
  by (rule simulatesI [OF _ _ stays]) auto

lemma simulates_to_failed:
  assumes "m (dev, ctx) = Some (set_driver_failed dev', ctx)" "device_ok dev' ctx v"
  shows "simulates m dev ctx v"
proof (cases v)
  case (fields p f a)
  then show ?thesis using assms device_ok_fails by (intro simulatesI [where v' = "(p, True, a)"]) (auto intro: fails)
qed

lemma config_simulates:
  assumes "device_ok dev ctx v"
  shows "simulates (set_device_config env offset buf) dev ctx v" "simulates (set_acked_features env w) dev ctx v"
proof -
  have dev: "device_ok (dev\<lparr>state := (state dev)\<lparr>device := d\<rparr>\<rparr>) ctx v" for d
    using assms by (intro device_ok_change same_state_ok) (auto simp: device_ok_def)
  obtain r d where w: "write_config (dev_ops env) offset buf (device (state dev)) = (r, d)" by fastforce
  show "simulates (set_device_config env offset buf) dev ctx v"
    using assms dev w by (cases "check_driver_status DEVICE_DRIVER DEVICE_FAILED dev")
      (auto simp: set_device_config_def intro: simulates_to)
  show "simulates (set_acked_features env w) dev ctx v"
    using assms dev by (cases "check_driver_status DEVICE_DRIVER (DEVICE_FEATURES_OK OR DEVICE_FAILED) dev")
      (auto simp: set_acked_features_def change_state_def intro: simulates_to)
qed

lemma msi_enable_simulates:
  assumes "device_ok dev ctx v"
  shows "simulates (update_msi_enable env w) dev ctx v"
proof -
  let ?st = "state dev"
  have st: "state_ok ?st ctx" using assms by (simp add: device_ok_def)
  have mode: "state_ok (?st\<lparr>intr_mgr := snd (set_working_mode mode (intr_mgr ?st))\<rparr>) ctx"
    if "mode = ModeGenericMsiIrq \<or> mode = ModeLegacyIrq" for mode
    using set_working_mode_ok [OF state_okD(1) [OF st], of mode] st that
    by (auto simp: state_ok_def base_ok_def same_modes_def supports_def)
  have chg: "device_ok (dev\<lparr>state := ?st\<lparr>intr_mgr := mgr\<rparr>\<rparr>) ctx v" "device_ok (dev\<lparr>state := ?st\<lparr>intr_mgr := mgr, msi := x\<rparr>\<rparr>) ctx v"
    if "set_working_mode mode (intr_mgr ?st) = (r, mgr)" "mode = ModeGenericMsiIrq \<or> mode = ModeLegacyIrq" for mode r mgr x
    using mode [OF that(2)] that(1) same_state_ok(5) [of "?st\<lparr>intr_mgr := mgr\<rparr>" ctx x] by (auto intro!: device_ok_change [OF assms])
  obtain r mgr where g: "set_working_mode ModeGenericMsiIrq (intr_mgr ?st) = (r, mgr)" by fastforce
  obtain r' mgr' where l: "set_working_mode ModeLegacyIrq (intr_mgr ?st) = (r', mgr')" by fastforce
  have "\<exists>dev'. device_ok dev' ctx v \<and> (update_msi_enable env w (dev, ctx) = Some (dev', ctx) \<or>
      update_msi_enable env w (dev, ctx) = Some (set_driver_failed dev', ctx))"
    using chg [OF g] chg [OF l] assms
    by (auto simp: update_msi_enable_def Let_def g l split: sum.split if_split)
  then show ?thesis using simulates_to [of "update_msi_enable env w"] simulates_to_failed [of "update_msi_enable env w"] by blast
qed

lemma write_reg_simulates:
  assumes "device_ok dev ctx v"
  shows "simulates (write_reg env offset w) dev ctx v"
proof -
  have ack: "simulates (\<lambda>(dev, ctx). ret (dev\<lparr>interrupt_status := status_clear_bits w (interrupt_status dev)\<rparr>, ctx)) dev ctx v"
    using assms by (cases v) (auto intro!: simulates_to simp: device_ok_def)
  have sel: "simulates (change_state (\<lambda>st. st\<lparr>features_select := w\<rparr>)) dev ctx v"
    "simulates (change_state (\<lambda>st. st\<lparr>acked_features_select := w\<rparr>)) dev ctx v"
    "simulates (change_state (\<lambda>st. st\<lparr>queue_select := w\<rparr>)) dev ctx v" "simulates (change_state (\<lambda>st. st\<lparr>shm_region_id := w\<rparr>)) dev ctx v"
    "simulates (change_state (\<lambda>st. st\<lparr>msi := map_option g (msi st)\<rparr>)) dev ctx v" for g
    by (rule simulates_change [OF assms], simp add: same_state_ok)+
  have if_sim: "simulates (if b then m else m') dev ctx v" if "simulates m dev ctx v" "simulates m' dev ctx v" for b m m'
    using that by simp
  show ?thesis
    unfolding write_reg_def Let_def
    by (intro if_sim sel ack simulates_ret [OF assms] queue_field_simulates [OF assms] config_simulates(2) [OF assms] status_simulates [OF assms])
qed

lemma msi_cmd_simulates:
  assumes "device_ok dev ctx v"
  shows "simulates (handle_msi_cmd env w) dev ctx v"
proof -
  have st: "state_ok (state dev) ctx" using assms by (simp add: device_ok_def)
  have "simulates (log_error (update_msi_cfg env x)) dev ctx v" "simulates (log_error (mask_msi_int env i b)) dev ctx v" for x i b
    using simulates_log [OF assms] update_msi_cfg_keeps [OF st] mask_msi_int_keeps [OF st] by blast+
  then show ?thesis
    using simulates_ret [OF assms] simulates_fails [OF assms] by (simp add: simulates_def handle_msi_cmd_def Let_def)
qed

lemma write_simulates: "device_ok dev ctx v \<Longrightarrow> simulates (mmio_device_write env offset buf) dev ctx v"
  unfolding mmio_device_write_def
  by (simp add: config_simulates write_reg_simulates msi_enable_simulates msi_cmd_simulates simulates_ret)

text \<open>Reads: the addresses of the shared memory do not overflow.\<close>

lemma shm_base_some:
  assumes "shm_ok (shm_regions (state dev))"
  shows "\<exists>x. get_shm_base part dev = Some x"
proof (cases "shm_regions (state dev)")
  case (Some regions)
  have "\<exists>a. uadd (shm_offset s) (shm_guest_addr regions) = Some a" if "s \<in> set (shm_region_list regions)" for s
    using assms that Some checked_ok(1) [of "shm_offset s" "shm_guest_addr regions"] by (auto simp: shm_ok_def)
  then have "\<exists>a. uadd (shm_offset (shm_region_list regions ! i)) (shm_guest_addr regions) = Some a" if "i < length (shm_region_list regions)" for i
    using that nth_mem by blast
  then show ?thesis using Some by (fastforce simp: get_shm_base_def get_shm_field_def)
qed (simp add: get_shm_base_def get_shm_field_def)

lemma read_reg_some:
  assumes "device_ok dev ctx v"
  shows "\<exists>x. read_reg env offset dev = Some x"
proof -
  have "shm_ok (shm_regions (state dev))" using assms by (simp add: device_ok_def state_ok_def base_ok_def)
  then obtain l h where "get_shm_base_low dev = Some l" "get_shm_base_high dev = Some h"
    using shm_base_some [of dev] unfolding get_shm_base_low_def get_shm_base_high_def by metis
  then show ?thesis by (auto simp: read_reg_def Let_def get_shm_field_def split: option.split)
qed

lemma read_simulates:
  assumes "device_ok dev ctx v"
  shows "\<exists>data dev'. mmio_device_read env offset buf dev = Some (data, dev') \<and> device_ok dev' ctx v"
proof -
  obtain r data d where c: "read_config (dev_ops env) (offset - MMIO_CFG_SPACE_OFF) buf (device (state dev)) = (r, data, d)" by (metis prod_cases3)
  have "device_ok (dev\<lparr>state := (state dev)\<lparr>device := d\<rparr>\<rparr>) ctx v"
    using assms by (intro device_ok_change same_state_ok) (auto simp: device_ok_def)
  then show ?thesis using assms read_reg_some [OF assms, of env offset]
    by (auto simp: mmio_device_read_def get_device_config_def c)
qed

section \<open>Runs of a guest\<close>

datatype GuestAccess = GuestRead u64 "u8 list" | GuestWrite u64 "u8 list"

fun guest_step :: "('d, 'q, 'w) Env \<Rightarrow> GuestAccess \<Rightarrow> ('d, 'q, 'w) access" where
  "guest_step env (GuestRead offset buf) (dev, ctx) = do { (_, dev) \<leftarrow> mmio_device_read env offset buf dev; ret (dev, ctx) }"
| "guest_step env (GuestWrite offset buf) (dev, ctx) = mmio_device_write env offset buf (dev, ctx)"

primrec guest_run :: "('d, 'q, 'w) Env \<Rightarrow> GuestAccess list \<Rightarrow> ('d, 'q, 'w) access" where
  "guest_run env [] s = ret s"
| "guest_run env (a # accs) s = do { s \<leftarrow> guest_step env a s; guest_run env accs s }"

lemma step_simulates:
  assumes "device_ok dev ctx v"
  shows "simulates (guest_step env a) dev ctx v"
proof (cases a)
  case (GuestRead offset buf)
  then show ?thesis using read_simulates [OF assms, of env offset buf] by (auto intro: simulates_to)
next
  case (GuestWrite offset buf)
  then show ?thesis using write_simulates [OF assms] by (simp add: simulates_def)
qed

lemma run_simulates:
  "device_ok dev ctx v \<Longrightarrow> \<exists>dev' ctx' v'. guest_run env accs (dev, ctx) = Some (dev', ctx') \<and> device_ok dev' ctx' v' \<and> driver_step\<^sup>*\<^sup>* v v'"
proof (induction accs arbitrary: dev ctx v)
  case (Cons a accs)
  obtain dev1 ctx1 v1 where s: "guest_step env a (dev, ctx) = Some (dev1, ctx1)" "device_ok dev1 ctx1 v1" "driver_step v v1"
    using step_simulates [OF Cons.prems] unfolding simulates_def by blast
  show ?case using Cons.IH [OF s(2)] s(1,3) by (fastforce intro: converse_rtranclp_into_rtranclp)
qed auto

lemma failed_forever: "driver_step\<^sup>*\<^sup>* v v' \<Longrightarrow> fst (snd v) \<Longrightarrow> fst (snd v')"
proof (induction rule: rtranclp_induct)
  case (step y z)
  then show ?case by (cases y) (auto simp: failed_step)
qed

end
