(* ===== verification/Virtio_Mmio_New.thy ===== *)
theory Virtio_Mmio_New
  imports Virtio_Mmio_Driver
begin

text \<open>
  A transport that was created is in a good state.
\<close>

section \<open>Groups of a device\<close>

lemma new_msi_configs_length: "ensures (new_msi_configs sys n) ctx (\<lambda>cs ctx'. length cs = n \<and> group_heap ctx' = group_heap ctx)"
proof (induction n arbitrary: ctx)
  case (Suc n)
  have "ensures (MsiConfig_new sys) ctx (\<lambda>_ ctx'. group_heap ctx' = group_heap ctx)"
    by (auto simp: ensures_def MsiConfig_new_def split: prod.splits sum.splits)
  then show ?case
    unfolding new_msi_configs.simps
    by (rule ensures_attempt) (auto intro!: ensures_attempt [OF Suc.IH] ensures_basic)
qed (simp add: ensures_def ok_def)

definition group_is :: "InterruptSourceType \<Rightarrow> InterruptSourceGroup \<Rightarrow> bool" where
  "group_is ty g \<longleftrightarrow> group_ok g \<and> interrupt_type g = ty"

lemma create_group_ensures:
  "ensures (create_group sys ty base count) ctx (\<lambda>gid ctx'. gid = length (group_heap ctx) \<and> (\<exists>g. group_is ty g \<and> group_heap ctx' = group_heap ctx @ [g]))"
proof -
  have legacy: "ensures (new_legacy_group sys base count) ctx (\<lambda>g ctx'. group_is LegacySource g \<and> group_heap ctx' = group_heap ctx)"
    by (auto simp: ensures_def new_legacy_group_def fail_def attempt_def ok_def kvm_call_def group_is_def call_def
        split: if_splits prod.splits sum.splits)
  have msi: "ensures (new_msi_group sys base count) ctx (\<lambda>g ctx'. group_is MsiSource g \<and> group_heap ctx' = group_heap ctx)"
    (is "ensures _ _ ?P")
  proof (cases "count > max_msi_irqs ctx \<or> base \<ge> MAX_IRQS")
    case False
    have "ensures (attempt (pure (uadd base count)) (\<lambda>e. if e > MAX_IRQS then fail EINVAL
           else attempt (new_msi_configs sys (unat count)) (\<lambda>cs. ok (MsiGroup base count cs)))) ctx ?P"
    proof (rule ensures_attempt [OF ensures_basic(3) [where P = "\<lambda>(e :: u32) ctx'. unat e = unat base + unat count \<and> ctx' = ctx"]])
      fix e :: u32 and ctx' :: "'a IrqCtx" assume e: "unat e = unat base + unat count \<and> ctx' = ctx"
      have "ensures (attempt (new_msi_configs sys (unat count)) (\<lambda>cs. ok (MsiGroup base count cs))) ctx ?P" if "\<not> e > MAX_IRQS"
        using that e by (intro ensures_attempt [OF new_msi_configs_length] ensures_basic)
          (auto simp: group_is_def MAX_IRQS_def word_less_nat_alt)
      then show "ensures (if e > MAX_IRQS then fail EINVAL
           else attempt (new_msi_configs sys (unat count)) (\<lambda>cs. ok (MsiGroup base count cs))) ctx' ?P"
        using e by (simp add: ensures_basic(2))
    qed (simp add: checked_add_Some_unat)
    then show ?thesis using False by (simp add: new_msi_group_def ensures_def)
  qed (auto simp: new_msi_group_def ensures_def fail_def)
  show ?thesis
    unfolding create_group_def
    by (rule ensures_attempt [where P = "\<lambda>g ctx'. group_is ty g \<and> group_heap ctx' = group_heap ctx"])
      (cases ty, use legacy msi in \<open>auto simp: ensures_def Let_def\<close>)
qed

section \<open>The manager of the interrupts\<close>

text \<open>A manager to which groups are added.\<close>

definition growing :: "DeviceInterruptManager \<Rightarrow> 'w IrqCtx \<Rightarrow> DeviceInterruptMode set \<Rightarrow> bool" where
  "growing self ctx modes \<longleftrightarrow> dim_ok self ctx \<and> length (intr_groups self) \<le> card modes \<and> finite modes \<and> intr_mode self = ModeDisabled \<and>
     \<not> activated self \<and> (\<forall>mode. supports self mode \<longleftrightarrow> mode \<in> modes)"

lemma growing_empty: "growing empty_manager ctx {}"
  by (simp add: growing_def empty_manager_def dim_ok_def supports_def)

text \<open>The table, the groups and the configurations after a group \<open>g\<close> was added.\<close>

lemma add_group_ok:
  fixes ctx :: "'w IrqCtx"
  assumes "dim_ok self ctx" "length (intr_groups self) < 4" "\<not> activated self" "intr_mode self = ModeDisabled" "mode \<noteq> ModeDisabled"
    "group_is ty g" "ty = MsiSource \<longleftrightarrow> msi_mode mode" "group_heap ctx' = group_heap ctx @ [g]"
    "self1 = (if ty = MsiSource then resize_msi_config_space (group_len g) self else self)"
    "self' = self1\<lparr>mode2idx := (mode2idx self1)(mode := of_nat (length (intr_groups self1))), intr_groups := intr_groups self1 @ [length (group_heap ctx)]\<rparr>"
  shows "dim_ok self' ctx'" "supports self' m \<longleftrightarrow> m = mode \<or> supports self m"
proof -
  have s1: "mode2idx self1 = mode2idx self" "intr_groups self1 = intr_groups self" "intr_mode self1 = intr_mode self"
      "activated self1 = activated self" "length (msi_config self) \<le> length (msi_config self1)"
      "ty = MsiSource \<Longrightarrow> unat (group_len g) \<le> length (msi_config self1)"
      "\<forall>c \<in> set (msi_config self1). c \<noteq> LegacyConfig"
    using assms(9) dim_okD(8) [OF assms(1)] by (auto simp: resize_msi_config_space_def)
  have n: "unat (of_nat (length (intr_groups self)) :: u64) = length (intr_groups self)"
    using assms(2) by (simp add: unat_of_nat take_bit_nat_eq_self)
  then have new: "(of_nat (length (intr_groups self)) :: u64) \<noteq> u64_MAX" using assms(2) by auto
  show sup: "supports self' m \<longleftrightarrow> m = mode \<or> supports self m" for m
    using new assms(10) s1(1,2) by (simp add: supports_def)
  have heap: "on_heap gid ctx'" if "gid \<in> set (intr_groups self')" for gid
    using that assms(6,8,10) s1(2) dim_okD(1) [OF assms(1), of gid] by (auto simp: on_heap_def group_is_def nth_append)
  have old: "mode_group self' ctx' m = mode_group self ctx m \<and> unat (mode2idx self' m) < length (intr_groups self')"
    if "supports self m" "m \<noteq> mode" for m
  proof -
    have "unat (mode2idx self m) < length (intr_groups self)" using dim_okD(2) [OF assms(1) that(1)] .
    moreover from this have "on_heap (intr_groups self ! unat (mode2idx self m)) ctx" using dim_okD(1) [OF assms(1)] by simp
    ultimately show ?thesis using assms(8,10) s1(1,2) that(2) by (simp add: mode_group_def on_heap_def nth_append)
  qed
  have here: "mode_group self' ctx' mode = g \<and> unat (mode2idx self' mode) < length (intr_groups self')"
    using n assms(8,10) s1(1,2) by (simp add: mode_group_def nth_append)
  have modes: "unat (mode2idx self' m) < length (intr_groups self') \<and> (interrupt_type (mode_group self' ctx' m) = MsiSource \<longleftrightarrow> msi_mode m) \<and>
      (msi_mode m \<longrightarrow> unat (group_len (mode_group self' ctx' m)) \<le> length (msi_config self'))" if "supports self' m" for m
  proof (cases "m = mode")
    case True
    then show ?thesis using here assms(6,7,10) s1(6) by (auto simp: group_is_def)
  next
    case False
    then have m: "supports self m" using that sup by simp
    then show ?thesis using old [OF m False] dim_okD(3,4) [OF assms(1) m] s1(5) assms(10) by auto
  qed
  show "dim_ok self' ctx'"
    unfolding dim_ok_def
    using heap modes sup assms(2-5,10) s1(2-4,7) dim_okD(7) [OF assms(1)] by auto
qed

lemma add_group_ensures:
  assumes "growing self ctx modes" "mode \<notin> modes" "card modes < 4" "mode \<noteq> ModeDisabled" "ty = MsiSource \<longleftrightarrow> msi_mode mode"
  shows "ensures (add_group sys mode ty base count) (self, ctx) (\<lambda>_ (self', ctx'). growing self' ctx' (insert mode modes))"
proof -
  have g: "dim_ok self ctx" "length (intr_groups self) < 4" "\<not> activated self" "intr_mode self = ModeDisabled" "finite modes"
    using assms(1,3) by (auto simp: growing_def)
  have "ensures (on_irq (create_group sys ty base count)) (self, ctx) (\<lambda>gid (self', ctx'). self' = self \<and> gid = length (group_heap ctx) \<and>
      (\<exists>g. group_is ty g \<and> group_heap ctx' = group_heap ctx @ [g]))"
    using create_group_ensures [of sys ty base count ctx] by (auto simp: ensures_def on_irq_def bind_eq_Some_conv)
  then show ?thesis
    unfolding add_group_def
  proof (rule ensures_attempt)
    fix gid and s :: "DeviceInterruptManager \<times> 'a IrqCtx"
    assume "case s of (self', ctx') \<Rightarrow> self' = self \<and> gid = length (group_heap ctx) \<and> (\<exists>g. group_is ty g \<and> group_heap ctx' = group_heap ctx @ [g])"
    then obtain ctx' x where s: "s = (self, ctx')" "gid = length (group_heap ctx)" "group_is ty x" "group_heap ctx' = group_heap ctx @ [x]"
      by (cases s) auto
    let ?self1 = "if ty = MsiSource then resize_msi_config_space (group_len x) self else self"
    let ?self' = "?self1\<lparr>mode2idx := (mode2idx ?self1)(mode := of_nat (length (intr_groups ?self1))), intr_groups := intr_groups ?self1 @ [length (group_heap ctx)]\<rparr>"
    note ok = add_group_ok [OF g(1-4) assms(4) s(3) assms(5) s(4) refl refl]
    have "length (intr_groups ?self1) = length (intr_groups self)" "intr_mode ?self1 = intr_mode self" "activated ?self1 = activated self"
      by (simp_all add: resize_msi_config_space_def)
    then have "growing ?self' ctx' (insert mode modes)"
      using ok assms(1,2) g by (auto simp: growing_def)
    then show "ensures (\<lambda>(self, ctx). do {
       g \<leftarrow> get_shared gid ctx;
       let self = (if ty = MsiSource then resize_msi_config_space (group_len g) self else self);
       ret (Inr (), self\<lparr>mode2idx := (mode2idx self)(mode := of_nat (length (intr_groups self))),
                          intr_groups := intr_groups self @ [gid]\<rparr>, ctx)
     }) s (\<lambda>_ (self', ctx'). growing self' ctx' (insert mode modes))"
      using s by (auto simp: ensures_def get_shared_def Let_def)
  qed
qed

text \<open>The modes that resources allow.\<close>

definition modes_of :: "DeviceResources \<Rightarrow> DeviceInterruptMode set" where
  "modes_of res = (if get_legacy_irq res \<noteq> None then {ModeLegacyIrq} else {}) \<union> (if get_generic_msi_irqs res \<noteq> None then {ModeGenericMsiIrq} else {}) \<union>
     (if get_pci_msi_irqs res \<noteq> None then {ModePciMsiIrq} else {}) \<union> (if get_pci_msix_irqs res \<noteq> None then {ModePciMsixIrq} else {})"

lemma add_msi_group_ensures:
  assumes "growing self ctx modes" "mode \<notin> modes" "modes \<subseteq> {ModeLegacyIrq, ModeGenericMsiIrq, ModePciMsiIrq}" "msi_mode mode"
  shows "ensures (add_msi_group sys mode irqs) (self, ctx) (\<lambda>_ (self', ctx'). growing self' ctx' (modes \<union> (if irqs \<noteq> None then {mode} else {})))"
proof (cases irqs)
  case None
  then show ?thesis using assms(1) by (simp add: add_msi_group_def ensures_basic)
next
  case (Some r)
  have "card modes < 4" using card_mono [OF _ assms(3)] by simp
  moreover have "mode \<noteq> ModeDisabled" using assms(4) by (auto simp: msi_mode_def)
  ultimately show ?thesis using Some add_group_ensures [OF assms(1,2), of MsiSource sys "fst r" "snd r"] assms(4)
    by (cases r) (simp add: add_msi_group_def)
qed

lemma ensures_pair:
  assumes "ensures m s (\<lambda>a (x, y). P x y)" "\<And>a x y. P x y \<Longrightarrow> ensures (f a) (x, y) Q"
  shows "ensures (attempt m f) s Q"
  by (rule ensures_attempt [OF assms(1)]) (use assms(2) in auto)

lemma ensures_object:
  assumes "ensures m (x, s) (\<lambda>_ (self, s'). P self s')"
  shows "ensures (\<lambda>s. do { (r, self, s) \<leftarrow> m (x, s); (case r of Inl e \<Rightarrow> ret (Inl e, s) | Inr _ \<Rightarrow> ret (Inr self, s)) }) s P"
proof (cases "m (x, s)")
  case (Some rs)
  then show ?thesis using assms by (cases rs; cases "fst rs") (auto simp: ensures_def)
qed (simp add: ensures_def)

lemma ensures_error:
  assumes "ensures m s P"
  shows "ensures (\<lambda>s. do { (r, s) \<leftarrow> m s; ret (case r of Inl e \<Rightarrow> Inl (f e) | Inr a \<Rightarrow> Inr a, s) }) s P"
proof (cases "m s")
  case (Some rs)
  then show ?thesis using assms by (cases rs; cases "fst rs") (auto simp: ensures_def)
qed (simp add: ensures_def)

lemma ensures_at: "ensures (m s) s P \<Longrightarrow> ensures (\<lambda>s. m s s) s P"
  by (simp add: ensures_def)

lemma manager_new_ensures:
  "ensures (DeviceInterruptManager_new sys res) ctx (\<lambda>self ctx'. growing self ctx' (modes_of res))"
proof -
  let ?g = "\<lambda>modes _ (self, ctx). growing self ctx modes"
  let ?l = "if get_legacy_irq res \<noteq> None then {ModeLegacyIrq} else {}" and ?m = "if get_generic_msi_irqs res \<noteq> None then {ModeGenericMsiIrq} else {}"
    and ?p = "if get_pci_msi_irqs res \<noteq> None then {ModePciMsiIrq} else {}" and ?x = "if get_pci_msix_irqs res \<noteq> None then {ModePciMsixIrq} else {}"
  have legacy: "ensures (case get_legacy_irq res of Some irq \<Rightarrow> add_group sys ModeLegacyIrq LegacySource irq 1 | None \<Rightarrow> ok ())
      (empty_manager, ctx) (?g ?l)"
    using add_group_ensures [OF growing_empty, of ModeLegacyIrq LegacySource] growing_empty [of ctx]
    by (auto simp: msi_mode_def ensures_basic(1) split: option.split)
  have "ensures (attempt (case get_legacy_irq res of Some irq \<Rightarrow> add_group sys ModeLegacyIrq LegacySource irq 1 | None \<Rightarrow> ok ()) (\<lambda>_.
       attempt (add_msi_group sys ModeGenericMsiIrq (get_generic_msi_irqs res)) (\<lambda>_.
       attempt (add_msi_group sys ModePciMsiIrq (get_pci_msi_irqs res)) (\<lambda>_.
       add_msi_group sys ModePciMsixIrq (get_pci_msix_irqs res))))) (empty_manager, ctx) (?g (((?l \<union> ?m) \<union> ?p) \<union> ?x))"
    by (intro ensures_pair [OF legacy] ensures_pair [OF add_msi_group_ensures] add_msi_group_ensures) (auto simp: msi_mode_def)
  moreover have "modes_of res = ((?l \<union> ?m) \<union> ?p) \<union> ?x" by (simp add: modes_of_def)
  ultimately show ?thesis unfolding DeviceInterruptManager_new_def by (intro ensures_object) simp
qed

section \<open>The transport\<close>

lemma queue_create_ensures:
  "ensures (VirtioQueueConfig_create sys qs sz i) ctx (\<lambda>_ ctx'. group_heap ctx' = group_heap ctx)"
  by (auto simp: ensures_def VirtioQueueConfig_create_def split: prod.splits sum.splits)

lemma sized_queues_ensures:
  "ensures (create_sized_queues env i sizes) ctx (\<lambda>qs ctx'. length qs = length sizes \<and> group_heap ctx' = group_heap ctx)"
proof (induction sizes arbitrary: i ctx)
  case (Cons sz sizes)
  show ?case
    unfolding create_sized_queues.simps
    by (rule ensures_attempt [OF queue_create_ensures]) (auto intro!: ensures_attempt [OF Cons.IH] ensures_basic)
qed (simp add: ensures_basic)

definition max_queues :: "('d, 'q, 'w) Env \<Rightarrow> 'd \<Rightarrow> nat" where
  "max_queues env dev = length (queue_max_sizes (dev_ops env) dev) + (if ctrl_queue_max_sizes (dev_ops env) dev > 0 then 1 else 0)"

lemma create_queues_ensures:
  "ensures (create_queues env dev) ctx (\<lambda>(qs, _) ctx'. length qs = max_queues env dev \<and> group_heap ctx' = group_heap ctx)"
  unfolding create_queues_def Let_def
proof (rule ensures_attempt [OF sized_queues_ensures])
  fix qs :: "'b VirtioQueueConfig list" and ctx' :: "'a IrqCtx" assume qs: "length qs = length (queue_max_sizes (dev_ops env) dev) \<and> group_heap ctx' = group_heap ctx"
  show "ensures (if ctrl_queue_max_sizes (dev_ops env) dev > 0
       then attempt (VirtioQueueConfig_create (irq_sys env) (queue_ops env) (ctrl_queue_max_sizes (dev_ops env) dev) (of_nat (length qs)))
         (\<lambda>q. ok (qs @ [q], True))
       else ok (qs, False)) ctx' (\<lambda>(qs, _) ctx'. length qs = max_queues env dev \<and> group_heap ctx' = group_heap ctx)"
    using qs by (auto simp: max_queues_def intro!: ensures_attempt [OF queue_create_ensures] ensures_basic)
qed

text \<open>What the machine promises a device: room for its registers, a legacy and message signaled interrupts; and what
  the device promises: not too many queues, and shared memory that fits into the address space.\<close>

definition resources_ok :: "('d, 'q, 'w) Env \<Rightarrow> 'd \<Rightarrow> DeviceResources \<Rightarrow> bool" where
  "resources_ok env dev res \<longleftrightarrow> (case split_resources res of
      (others, Some (base, _)) \<Rightarrow> unat base + 0x2000 \<le> 2 ^ 64 \<and> get_legacy_irq others \<noteq> None \<and> get_generic_msi_irqs others \<noteq> None \<and>
        max_queues env dev \<le> 1024 \<and> (case fst (set_resource (dev_ops env) others dev) of Inr shm \<Rightarrow> shm_ok shm | Inl _ \<Rightarrow> True)
    | (_, None) \<Rightarrow> False)"

lemma state_new_ensures:
  assumes "unat base + 0x2000 \<le> 2 ^ 64" "get_legacy_irq res \<noteq> None" "get_generic_msi_irqs res \<noteq> None" "max_queues env dev \<le> 1024"
    "\<And>shm. fst (set_resource (dev_ops env) res dev) = Inr shm \<Longrightarrow> shm_ok shm"
  shows "ensures (MmioV2DeviceState_new env dev res base bell) ctx (\<lambda>st ctx'. state_ok st ctx' \<and> \<not> device_activated st)"
  unfolding MmioV2DeviceState_new_def
proof (rule ensures_attempt [OF ensures_error [OF manager_new_ensures]], rule ensures_attempt [OF create_queues_ensures], goal_cases)
  case (1 mgr ctx1 qs ctx2)
  then have "dim_ok mgr ctx2" using dim_ok_shapes [of mgr ctx1 ctx2] by (auto simp: growing_def split: prod.splits)
  then show ?case
    using 1 assms
    by (cases qs; cases "set_resource (dev_ops env) res dev"; cases "fst (set_resource (dev_ops env) res dev)")
      (auto simp: state_ok_def base_ok_def growing_def modes_of_def DoorBell_new_def DRAGONBALL_MMIO_DOORBELL_OFFSET_def
          DRAGONBALL_MMIO_DOORBELL_SCALE_def intro!: ensures_basic)
qed

lemma device_new_ok:
  assumes "resources_ok env dev res" "MmioV2Device_new env dev res features ctx = Some (Inr self, ctx')"
  shows "device_ok self ctx' (Reset, False, False)"
proof -
  obtain others base cfg where sp: "split_resources res = (others, Some (base, cfg))"
    using assms(1) by (auto simp: resources_ok_def split: prod.splits option.splits)
  have st: "ensures (MmioV2DeviceState_new env dev others base bell) ctx (\<lambda>st ctx'. state_ok st ctx' \<and> \<not> device_activated st)" for bell
    by (rule state_new_ensures) (use assms(1) sp in \<open>auto simp: resources_ok_def\<close>)
  have "ensures (MmioV2Device_new env dev res features) ctx (\<lambda>self ctx'. device_ok self ctx' (Reset, False, False))"
    unfolding MmioV2Device_new_def sp prod.case option.case Let_def
    by (rule ensures_at, rule ensures_attempt [OF st]) (auto intro!: ensures_basic simp: device_ok_def)
  then show ?thesis using assms(2) by (rule ensuresD)
qed

end
