(* ===== verification/Virtio_Mmio_Activation.thy ===== *)
theory Virtio_Mmio_Activation
  imports Virtio_Mmio_Regs
begin

text \<open>
  The configuration that the transport gives to a device when the driver completes the initialization.
\<close>

section \<open>Frames\<close>

text \<open>What operations on the transport leave alone: a part \<open>f\<close> of its state.\<close>

definition frame :: "(('d, 'q) MmioV2DeviceState \<Rightarrow> 'a) \<Rightarrow> ('d, 'q, 'w, 'b) state_op \<Rightarrow> bool" where
  "frame f m \<longleftrightarrow> (\<forall>s r s'. m s = Some (r, s') \<longrightarrow> f (fst s') = f (fst s))"

lemma frameD: "frame f m \<Longrightarrow> m s = Some (r, s') \<Longrightarrow> f (fst s') = f (fst s)"
  unfolding frame_def by blast

lemma frame_attempt:
  assumes "frame f m" "\<And>a. frame f (g a)"
  shows "frame f (attempt m g)"
  unfolding frame_def
proof (intro allI impI)
  fix s r s' assume a: "attempt m g s = Some (r, s')"
  then obtain r1 s1 where m: "m s = Some (r1, s1)" by (cases "m s") (auto simp: attempt_def)
  show "f (fst s') = f (fst s)"
  proof (cases r1)
    case (Inr x)
    then have "g x s1 = Some (r, s')" using a m by (simp add: attempt_def)
    then show ?thesis using frameD [OF assms(1) m] frameD [OF assms(2)] by simp
  qed (use a m frameD [OF assms(1) m] in \<open>simp add: attempt_def\<close>)
qed

lemma frame_at: "(\<And>st ctx. frame f (m st ctx)) \<Longrightarrow> frame f (\<lambda>(st, ctx). m st ctx (st, ctx))"
  unfolding frame_def by fastforce

lemma frame_basic: "frame f (ok a)" "frame f (fail e)" "frame f (pure r)" "(\<And>st. f (g st) = f st) \<Longrightarrow> frame f (change g)"
  by (auto simp: frame_def ok_def fail_def pure_def change_def bind_eq_Some_conv)

lemma frame_intr: "(\<And>st mgr. f (st\<lparr>intr_mgr := mgr\<rparr>) = f st) \<Longrightarrow> frame f (on_intr err m)"
  by (auto simp: frame_def on_intr_def bind_eq_Some_conv)

lemma frame_register: "frame f undo \<Longrightarrow> frame f (register_or env fd io_addr match undo)"
proof -
  assume u: "frame f undo"
  have "frame f (attempt undo (\<lambda>_. fail (VirtioIOError e)))" for e by (intro frame_attempt [OF u] frame_basic)
  then show "frame f (register_or env fd io_addr match undo)"
    unfolding frame_def register_or_def by (fastforce split: prod.splits sum.splits)
qed

lemma frame_unregister: "frame f (revert_ioevent env n io_addr wildcard)" "frame f (unregister_ioevent_doorbell env)"
  by (auto simp: frame_def revert_ioevent_def unregister_ioevent_doorbell_def bind_eq_Some_conv split: option.splits if_splits)

lemma frame_register_queues: "frame f (register_queues env i qs)"
proof (induction qs arbitrary: i)
  case (Cons q qs)
  show ?case
    unfolding register_queues.simps
    by (rule frame_at) (auto split: option.split intro!: frame_attempt frame_basic frame_register frame_unregister Cons.IH)
qed (simp add: frame_basic)

section \<open>Activation\<close>

lemma register_ensures: "ensures (state_register_ioevent env) (st, ctx) (\<lambda>_ (st', _). st' = st\<lparr>ioevent_registered := True\<rparr>)"
proof -
  have "ensures (register_queues env 0 (queues st)) (st, ctx) (\<lambda>_ (st', _). st' = st)"
    using frameD [OF frame_register_queues [where f = "\<lambda>st. st"]] by (fastforce simp: ensures_def)
  then have "ensures (attempt (register_queues env 0 (queues st)) (\<lambda>_. change (\<lambda>self. self\<lparr>ioevent_registered := True\<rparr>))) (st, ctx)
      (\<lambda>_ (st', _). st' = st\<lparr>ioevent_registered := True\<rparr>)"
    by (rule ensures_attempt) (auto simp: ensures_def change_def)
  then show ?thesis by (simp add: ensures_def state_register_ioevent_def)
qed

lemma ensures_state: "(\<And>x y. s = (x, y) \<Longrightarrow> ensures (m x y) s P) \<Longrightarrow> ensures (\<lambda>(x, y). m x y (x, y)) s P"
  by (cases s) (simp add: ensures_def)

lemma enable_ensures: "ensures (dim_enable sys) s (\<lambda>_ (mgr, _). activated mgr)"
proof -
  have en: "ensures (attempt m (\<lambda>x. attempt (f x) (\<lambda>y. attempt (g x y) (\<lambda>_. set_self (\<lambda>self. self\<lparr>activated := True\<rparr>))))) s (\<lambda>_ (mgr, _). activated mgr)"
    for m :: "('w, 'b) dim_op" and f :: "'b \<Rightarrow> ('w, 'c) dim_op" and g :: "'b \<Rightarrow> 'c \<Rightarrow> ('w, 'd) dim_op" and s
    by (intro ensures_attempt [where P = "\<lambda>_ _. True"]) (auto simp: ensures_def set_self_def)
  have any: "ensures m s (\<lambda>_ _. True)" for m :: "('w, unit) dim_op" and s by (simp add: ensures_def)
  have if_ok: "ensures (if b then m else m') s P" if "b \<Longrightarrow> ensures m s P" "\<not> b \<Longrightarrow> ensures m' s P" for b m m' s P using that by simp
  show ?thesis
    unfolding dim_enable_def
    by (intro ensures_state if_ok ensures_attempt [OF any] en) (auto intro: ensures_basic)
qed

lemma intr_ensures:
  assumes "\<And>s. ensures m s (\<lambda>_ (mgr, _). P mgr)"
  shows "ensures (on_intr err m) (st, ctx) (\<lambda>_ (st', _). \<exists>mgr. st' = st\<lparr>intr_mgr := mgr\<rparr> \<and> P mgr)"
proof (cases "m (intr_mgr st, ctx)")
  case (Some rs)
  then show ?thesis using assms [of "(intr_mgr st, ctx)"] by (cases rs; cases "fst rs") (auto simp: ensures_def on_intr_def)
qed (simp add: ensures_def on_intr_def)

text \<open>The queues as the device gets them, and the whole configuration.\<close>

definition with_notifier :: "nat \<Rightarrow> InterruptSourceGroup \<Rightarrow> 'q VirtioQueueConfig \<Rightarrow> 'q VirtioQueueConfig" where
  "with_notifier gid g q = q\<lparr>vq_notifier := create_queue_notifier gid g (ucast (vq_index q) + 1)\<rparr>"

definition config_for :: "('d, 'q) MmioV2DeviceState \<Rightarrow> nat \<Rightarrow> InterruptSourceGroup \<Rightarrow> 'q VirtioDeviceConfig \<Rightarrow> bool" where
  "config_for st gid g config \<longleftrightarrow> cfg_resources config = device_resources st \<and> cfg_shm_regions config = shm_regions st \<and>
     cfg_change_notifier config = create_device_notifier gid g 0 \<and>
     cfg_queues config @ (case cfg_ctrl_queue config of Some q \<Rightarrow> [q] | None \<Rightarrow> []) = map (with_notifier gid g) (queues st) \<and>
     (cfg_ctrl_queue config \<noteq> None \<longleftrightarrow> has_ctrl_queue st \<and> queues st \<noteq> [])"

lemma queue_configs_eq: "queue_configs gid g qs = Some cs \<Longrightarrow> cs = map (with_notifier gid g) qs"
proof (induction qs arbitrary: cs)
  case (Cons q qs)
  then show ?case
    by (auto simp: bind_eq_Some_conv queue_config_def VirtioQueueConfig_new_def with_notifier_def checked_add_def split: if_splits)
qed simp

lemma device_config_eq:
  assumes "create_device_config (st, ctx) = Some config"
  shows "\<exists>gid g. active_group (st, ctx) = Some (gid, g) \<and> config_for st gid g config"
proof -
  obtain gid g where ag: "active_group (st, ctx) = Some (gid, g)"
    using assms by (cases "active_group (st, ctx)") (auto simp: create_device_config_def create_queue_config_def)
  then obtain cs where "queue_configs gid g (queues st) = Some cs"
    using assms by (cases "queue_configs gid g (queues st)") (auto simp: create_device_config_def create_queue_config_def)
  then show ?thesis using assms ag queue_configs_eq [of gid g "queues st" cs]
    by (auto simp: create_device_config_def create_queue_config_def VirtioDeviceConfig_new_def config_for_def Let_def split: if_splits)
qed

lemma activate_ensures:
  assumes "\<not> device_activated st" "activate env (st, ctx) = Some (Inr (), st', ctx')"
  shows "check_queues_valid env st \<and> device_activated st' \<and> ioevent_registered st' \<and> activated (intr_mgr st') \<and>
    (\<exists>config gid g. active_group (st', ctx') = Some (gid, g) \<and> config_for st gid g config \<and>
       dev_activate (dev_ops env) config (device st) = (Inr (), device st') \<and>
       st' = st\<lparr>device := device st', intr_mgr := intr_mgr st', device_activated := True, ioevent_registered := True\<rparr>)"
proof -
  let ?Q = "\<lambda>(_ :: unit) (st', ctx'). device_activated st' \<and> ioevent_registered st' \<and> activated (intr_mgr st') \<and>
    (\<exists>config gid g. active_group (st', ctx') = Some (gid, g) \<and> config_for st gid g config \<and>
       dev_activate (dev_ops env) config (device st) = (Inr (), device st') \<and>
       st' = st\<lparr>device := device st', intr_mgr := intr_mgr st', device_activated := True, ioevent_registered := True\<rparr>)"
  have v: "check_queues_valid env st" using assms by (cases "check_queues_valid env st") (auto simp: activate_def fail_def)
  have dev: "ensures (\<lambda>s. attempt (pure (create_device_config s)) (activate_device env) s) (st\<lparr>ioevent_registered := True, intr_mgr := mgr\<rparr>, ctx1) ?Q"
    if "activated mgr" for mgr ctx1
  proof (cases "create_device_config (st\<lparr>ioevent_registered := True, intr_mgr := mgr\<rparr>, ctx1)")
    case (Some config)
    let ?st = "st\<lparr>ioevent_registered := True, intr_mgr := mgr\<rparr>"
    obtain gid g where "active_group (?st, ctx1) = Some (gid, g)" "config_for ?st gid g config" using device_config_eq [OF Some] by blast
    then show ?thesis
      using that Some
      by (cases "dev_activate (dev_ops env) config (device st)"; cases "fst (dev_activate (dev_ops env) config (device st))")
        (auto simp: ensures_def attempt_pure activate_device_def active_group_def config_for_def)
  qed (simp add: ensures_def attempt_def pure_def)
  have "ensures (attempt (state_register_ioevent env) (\<lambda>_. attempt (on_intr VirtioIOError (dim_enable (irq_sys env))) (\<lambda>_ s.
           attempt (pure (create_device_config s)) (activate_device env) s))) (st, ctx) ?Q"
  proof (rule ensures_attempt [OF register_ensures])
    fix s :: "('a, 'b) MmioV2DeviceState \<times> 'c IrqCtx" assume "case s of (st', _) \<Rightarrow> st' = st\<lparr>ioevent_registered := True\<rparr>"
    then obtain ctx1 where s: "s = (st\<lparr>ioevent_registered := True\<rparr>, ctx1)" by (cases s) auto
    show "ensures (attempt (on_intr VirtioIOError (dim_enable (irq_sys env))) (\<lambda>_ s. attempt (pure (create_device_config s)) (activate_device env) s)) s ?Q"
      unfolding s by (rule ensures_attempt [OF intr_ensures [OF enable_ensures]]) (auto intro: dev)
  qed
  then have "?Q () (st', ctx')" by (rule ensuresD) (use assms v in \<open>simp add: activate_def\<close>)
  then show ?thesis using v by simp
qed

end
