(* ===== verification/Virtio_Mmio_Props.thy ===== *)
theory Virtio_Mmio_Props
  imports Virtio_Mmio_New Virtio_Mmio_Activation
begin

text \<open>
  Correctness of the virtio transport: guests cannot make it panic, its status follows the protocol of the specification, and the
  configuration of a running device is fixed; the exception is a device without message signaled interrupts.
\<close>

section \<open>Frozen configuration\<close>

text \<open>The device with its queues, whatever happens to the interrupts.\<close>

abbreviation device_queues :: "('d, 'q) MmioV2DeviceState \<Rightarrow> 'd \<times> 'q VirtioQueueConfig list \<times> bool" where
  "device_queues st \<equiv> (device st, queues st, device_activated st)"

lemma frame_msi: "frame device_queues (update_msi_cfg env v)" "frame device_queues (mask_msi_int env idx masked)"
proof -
  have mgr: "frame device_queues (on_mgr f)" for f unfolding on_mgr_def by (rule frame_intr) simp
  show "frame device_queues (update_msi_cfg env v)"
    unfolding update_msi_cfg_def Let_def
    by (rule frame_at) (auto split: option.split intro!: frame_attempt frame_basic mgr frame_at frame_intr)
  show "frame device_queues (mask_msi_int env idx masked)"
    unfolding mask_msi_int_def
    by (rule frame_at) (auto split: option.split sum.split intro!: frame_attempt frame_basic mgr frame_at frame_intr)
qed

text \<open>Accesses that leave the device with its queues as they are.\<close>

definition frozen :: "('d, 'q, 'w) access \<Rightarrow> ('d, 'q) MmioV2Device \<Rightarrow> 'w IrqCtx \<Rightarrow> bool" where
  "frozen m dev ctx \<longleftrightarrow> (\<forall>dev' ctx'. m (dev, ctx) = Some (dev', ctx') \<longrightarrow> device_queues (state dev') = device_queues (state dev))"

lemma frozen_basic:
  "frozen ret dev ctx" "(\<And>st. device_queues (f st) = device_queues st) \<Longrightarrow> frozen (change_state f) dev ctx"
  "frozen (\<lambda>(dev, ctx). ret (set_driver_failed dev, ctx)) dev ctx"
  by (auto simp: frozen_def change_state_def set_driver_failed_def)

lemma frozen_if: "(b \<Longrightarrow> frozen m dev ctx) \<Longrightarrow> (\<not> b \<Longrightarrow> frozen m' dev ctx) \<Longrightarrow> frozen (if b then m else m') dev ctx"
  by simp

lemma frozen_log: "frame device_queues m \<Longrightarrow> frozen (log_error m) dev ctx"
  unfolding frozen_def by (auto simp: log_error_def on_state_def bind_eq_Some_conv dest: frameD)

lemma frozen_msi: "frozen (update_msi_enable env v) dev ctx" "frozen (handle_msi_cmd env v) dev ctx"
proof -
  show "frozen (update_msi_enable env v) dev ctx"
    by (auto simp: frozen_def update_msi_enable_def set_driver_failed_def Let_def split: if_splits prod.splits sum.splits)
  have "frozen (log_error (update_msi_cfg env x)) dev ctx" "frozen (log_error (mask_msi_int env i b)) dev ctx" for x i b
    by (rule frozen_log, rule frame_msi)+
  then show "frozen (handle_msi_cmd env v) dev ctx"
    unfolding frozen_def handle_msi_cmd_def Let_def by (auto simp: set_driver_failed_def split: if_splits)
qed

lemma masked_bit: "(s :: u32) AND m = b \<Longrightarrow> m AND x = x \<Longrightarrow> b AND x = 0 \<Longrightarrow> s AND x = 0"
  by (metis and.assoc)

lemma frozen_reg:
  assumes "driver_status dev AND DEVICE_DRIVER_OK \<noteq> 0" "driver_status dev AND DEVICE_FEATURES_OK \<noteq> 0" "offset \<noteq> REG_MMIO_STATUS"
  shows "frozen (write_reg env offset v) dev ctx"
proof -
  have "\<not> check_driver_status DEVICE_FEATURES_OK (DEVICE_DRIVER_OK OR DEVICE_FAILED) dev"
    "\<not> check_driver_status DEVICE_DRIVER (DEVICE_FEATURES_OK OR DEVICE_FAILED) dev"
    using masked_bit [of "driver_status dev" "0x8c" 8 4] masked_bit [of "driver_status dev" "0x8a" 2 8] assms(1,2)
    by (auto simp: check_driver_status_def status_consts)
  then have q: "frozen (update_queue_field f) dev ctx" "frozen (set_acked_features env v) dev ctx" for f
    by (auto simp: frozen_def update_queue_field_def set_acked_features_def)
  have ack: "frozen (\<lambda>(dev, ctx). ret (dev\<lparr>interrupt_status := status_clear_bits v (interrupt_status dev)\<rparr>, ctx)) dev ctx"
    by (simp add: frozen_def)
  show ?thesis
    unfolding write_reg_def Let_def using assms(3)
    by (intro frozen_if q ack frozen_basic(1)) (auto intro: frozen_basic(2))
qed

lemma frozen_config: "set_device_config env offset buf (dev, ctx) = Some (dev', ctx') \<Longrightarrow>
    queues (state dev') = queues (state dev) \<and> device_activated (state dev') = device_activated (state dev)"
  by (auto simp: set_device_config_def split: if_splits prod.splits)

section \<open>Panic without message signaled interrupts\<close>

text \<open>Registration of the event descriptors when KVM accepts every one.\<close>

definition registers :: "('d, 'q, 'w) Env \<Rightarrow> bool" where
  "registers env \<longleftrightarrow> (\<forall>fd addr match w. \<not> isl (fst (register_ioevent env fd addr match w)))"

lemma register_or_succeeds:
  assumes "registers env"
  shows "\<exists>ctx'. register_or env fd addr match undo (st, ctx) = Some (Inr (), st, ctx')"
proof -
  obtain r w where "register_ioevent env fd addr match (irq_w ctx) = (r, w)" by fastforce
  moreover have "\<not> isl r" using assms calculation by (metis fst_conv registers_def)
  ultimately show ?thesis by (cases r) (auto simp: register_or_def)
qed

lemma register_queues_outcome:
  assumes "registers env"
  shows "register_queues env i qs (st, ctx) = None \<or> (\<exists>ctx'. register_queues env i qs (st, ctx) = Some (Inr (), st, ctx'))"
proof (induction qs arbitrary: i ctx)
  case (Cons q qs)
  let ?bell = "case doorbell st of
      Some db \<Rightarrow> attempt (pure (do { off \<leftarrow> queue_offset db i; uadd (mmio_base st) off })) (\<lambda>io_addr.
        register_or env (vq_eventfd q) io_addr NoDatamatch (revert_ioevent env i io_addr True))
    | None \<Rightarrow> ok ()"
  have bell: "?bell (st, ctx) = None \<or> (\<exists>ctx'. ?bell (st, ctx) = Some (Inr (), st, ctx'))"
  proof (cases "doorbell st")
    case (Some db)
    show ?thesis
    proof (cases "do { off \<leftarrow> queue_offset db i; uadd (mmio_base st) off }")
      case (Some a)
      then show ?thesis using \<open>doorbell st = Some db\<close> register_or_succeeds [OF assms, of "vq_eventfd q" a NoDatamatch "revert_ioevent env i a True" st ctx]
        by (auto simp: attempt_def pure_def)
    qed (use Some in \<open>simp add: attempt_def pure_def\<close>)
  qed (simp_all add: ok_def)
  show ?case
  proof (cases "?bell (st, ctx)")
    case (Some r)
    then obtain ctx1 where b: "?bell (st, ctx) = Some (Inr (), st, ctx1)" using bell by auto
    show ?thesis
    proof (cases "uadd (mmio_base st) (ucast MMIO_NOTIFY_REG_OFFSET)")
      case (Some a)
      then obtain ctx2 where "register_or env (vq_eventfd q) a (Data32 (of_nat i))
                (attempt (unregister_ioevent_doorbell env) (\<lambda>_. revert_ioevent env i a False)) (st, ctx1) =
           Some (Inr (), st, ctx2)"
        using register_or_succeeds [OF assms, of "vq_eventfd q" a "Data32 (of_nat i)" _ st ctx1] by fastforce
      then show ?thesis using b Some Cons.IH [of "Suc i" ctx2] by (auto simp: attempt_def pure_def)
    qed (use b in \<open>simp add: attempt_def pure_def\<close>)
  qed (simp add: attempt_def)
qed (simp_all add: ok_def)

lemma activate_panics:
  assumes "registers env" "\<not> device_activated st" "check_queues_valid env st" "\<not> activated (intr_mgr st)" "intr_mode (intr_mgr st) = ModeGenericMsiIrq"
    "current_idx (intr_mgr st) = u64_MAX" "length (intr_groups (intr_mgr st)) \<le> 4"
  shows "activate env (st, ctx) = None"
proof -
  have en: "on_intr VirtioIOError (dim_enable sys) (st\<lparr>ioevent_registered := True\<rparr>, ctx') = None" for sys and ctx' :: "'c IrqCtx"
    using assms(4-7) by (simp add: on_intr_def dim_enable_def attempt_def ok_def pure_def vec_index_def)
  consider "register_queues env 0 (queues st) (st, ctx) = None"
    | ctx' where "register_queues env 0 (queues st) (st, ctx) = Some (Inr (), st, ctx')"
    using register_queues_outcome [OF assms(1), of 0 "queues st" st ctx] by fast
  then show ?thesis
    by cases (use assms(2,3) en in \<open>simp_all add: activate_def state_register_ioevent_def attempt_def change_def\<close>)
qed

lemmas reg_consts = REG_MMIO_DEVICE_FEATURES_S_def REG_MMIO_DRIVER_FEATURE_def REG_MMIO_DRIVER_FEATURES_S_def REG_MMIO_QUEUE_SEL_def
  REG_MMIO_QUEUE_NUM_def REG_MMIO_QUEUE_READY_def REG_MMIO_INTERRUPT_AC_def REG_MMIO_STATUS_def

section \<open>A machine\<close>

text \<open>A machine on which all calls succeed, and a device with one queue that keeps its features and its configuration space.\<close>

definition demo_irq :: "nat IrqSys" where
  "demo_irq = \<lparr>eventfd_new = \<lambda>w. (Inr w, Suc w), eventfd_write = \<lambda>_ _ w. (Inr (), w), eventfd_read = \<lambda>_ w. (Inr 0, w),
     register_irqfd = \<lambda>_ _ w. (Inr (), w), unregister_irqfd = \<lambda>_ _ w. (Inr (), w), set_gsi_routing = \<lambda>_ w. (Inr (), w)\<rparr>"

definition demo_queues :: "(u16 \<times> bool) QueueOps" where
  "demo_queues = \<lparr>q_new = \<lambda>sz. Inr (sz, False), q_max_size = fst, q_size = fst, q_ready = snd, q_is_valid = snd, q_set_size = \<lambda>_ q. q,
     q_set_ready = \<lambda>b q. (fst q, b), q_set_desc_table_address = \<lambda>_ _ q. q, q_set_avail_ring_address = \<lambda>_ _ q. q,
     q_set_used_ring_address = \<lambda>_ _ q. q\<rparr>"

definition demo_ops :: "(VirtioDeviceInfo, u16 \<times> bool) VirtioOps" where
  "demo_ops = \<lparr>device_type = \<lambda>_. 2, queue_max_sizes = queue_sizes, ctrl_queue_max_sizes = \<lambda>_. 0, get_avail_features = info_get_avail_features,
     ack_features = info_set_acked_features, read_config = \<lambda>offset buf d. (case info_read_config offset buf d of (r, buf) \<Rightarrow> (r, buf, d)),
     write_config = info_write_config, dev_activate = \<lambda>c d. (check_queue_sizes (cfg_queues c) d, d), dev_reset = \<lambda>d. (Inr (), d),
     dev_remove = \<lambda>d. d, set_resource = \<lambda>_ d. (Inr None, d)\<rparr>"

definition demo_env :: "(VirtioDeviceInfo, u16 \<times> bool, nat) Env" where
  "demo_env = \<lparr>irq_sys = demo_irq, queue_ops = demo_queues, dev_ops = demo_ops, register_ioevent = \<lambda>_ _ _ w. (Inr (), w),
     unregister_ioevent = \<lambda>_ _ _ w. (Inr (), w), ioeventfd_no_length = \<lambda>_. True, remove_memory_region = \<lambda>_ _ _ w. (Inr (), w)\<rparr>"

definition demo_dev :: VirtioDeviceInfo where
  "demo_dev = VirtioDeviceInfo_new 3 [256] [1, 2, 3, 4]"

definition demo_res :: DeviceResources where
  "demo_res = [MmioAddressRange 0xd0000000 0x2000, LegacyIrq 5, MsiIrq GenericMsi 24 2]"

text \<open>The guest brings the queue and the device into use.\<close>

definition demo_start :: "GuestAccess list" where
  "demo_start = [GuestWrite REG_MMIO_STATUS [1, 0, 0, 0], GuestWrite REG_MMIO_STATUS [3, 0, 0, 0], GuestWrite REG_MMIO_STATUS [0xb, 0, 0, 0],
     GuestWrite REG_MMIO_QUEUE_READY [1, 0, 0, 0]]"

definition demo_new :: "DeviceResources \<Rightarrow> ((VirtioDeviceInfo, u16 \<times> bool) MmioV2Device \<times> nat IrqCtx) option" where
  "demo_new res = (case MmioV2Device_new demo_env demo_dev res (Some 4) (KvmIrqManager_new 0) of Some (Inr dev, ctx) \<Rightarrow> Some (dev, ctx) | _ \<Rightarrow> None)"

lemmas demo_machine = demo_env_def demo_irq_def demo_queues_def demo_ops_def demo_dev_def VirtioDeviceInfo_new_def

lemma demo_resources: "resources_ok demo_env demo_dev demo_res"
  by (simp add: resources_ok_def demo_res_def MMIO_DEFAULT_CFG_SIZE_def DRAGONBALL_MMIO_DOORBELL_SIZE_def get_generic_msi_irqs_def
      max_queues_def demo_machine shm_ok_def)

lemma demo_create_group:
  "create_group demo_irq LegacySource 5 1 ctx = Some (Inr (length (group_heap ctx)), ctx\<lparr>group_heap := group_heap ctx @ [LegacyGroup 5 (irq_w ctx)],
     irq_groups := (irq_groups ctx)(5 \<mapsto> length (group_heap ctx)), irq_w := Suc (irq_w ctx)\<rparr>)"
  by (simp add: create_group_def new_legacy_group_def MAX_LEGACY_IRQS_def attempt_def kvm_call_def ok_def demo_irq_def Let_def)

lemma demo_msi_group:
  assumes "max_msi_irqs ctx = 256"
  shows "create_group demo_irq MsiSource 24 2 ctx = Some (Inr (length (group_heap ctx)), ctx\<lparr>group_heap := group_heap ctx @ 
      [MsiGroup 24 2 [(irq_w ctx, MsiIrqSourceConfig_default), (Suc (irq_w ctx), MsiIrqSourceConfig_default)]],
     irq_groups := (irq_groups ctx)(24 \<mapsto> length (group_heap ctx)), irq_w := Suc (Suc (irq_w ctx))\<rparr>)"
proof -
  have "new_msi_configs demo_irq (Suc (Suc 0)) ctx = Some (Inr [(irq_w ctx, MsiIrqSourceConfig_default), (Suc (irq_w ctx), MsiIrqSourceConfig_default)],
      ctx\<lparr>irq_w := Suc (Suc (irq_w ctx))\<rparr>)"
    by (simp add: MsiConfig_new_def attempt_def ok_def demo_irq_def)
  moreover have "unat (2 :: u32) = Suc (Suc 0)" by simp
  ultimately show ?thesis
    using assms by (simp only: create_group_def new_msi_group_def InterruptSourceType.case attempt_def pure_def)
      (simp add: MAX_IRQS_def checked_add_def Let_def ok_def)
qed

text \<open>The interrupts of the machine after the groups of a device were created.\<close>

definition demo_bare :: DeviceResources where
  "demo_bare = [MmioAddressRange 0xd0000000 0x2000, LegacyIrq 5]"

definition demo_mgr :: "bool \<Rightarrow> DeviceInterruptManager" where
  "demo_mgr with_msi = \<lparr>intr_mode = ModeDisabled, activated = False, current_idx = u64_MAX,
     mode2idx = (if with_msi then (\<lambda>_. u64_MAX)(ModeLegacyIrq := 0, ModeGenericMsiIrq := 1) else (\<lambda>_. u64_MAX)(ModeLegacyIrq := 0)),
     intr_groups = (if with_msi then [0, 1] else [0]),
     msi_config = (if with_msi then replicate 2 (MsiConfig MsiIrqSourceConfig_default) else []), intr_device_id = None\<rparr>"

lemma demo_manager_bare:
  "\<exists>ctx. DeviceInterruptManager_new demo_irq [LegacyIrq 5] (KvmIrqManager_new 0) = Some (Inr (demo_mgr False), ctx)"
  by (simp add: DeviceInterruptManager_new_def add_group_def add_msi_group_def attempt_def on_irq_def demo_create_group get_generic_msi_irqs_def
      get_pci_msi_irqs_def get_pci_msix_irqs_def get_shared_def ok_def KvmIrqManager_new_def empty_manager_def demo_mgr_def)

lemma demo_manager_msi:
  "\<exists>ctx. DeviceInterruptManager_new demo_irq [LegacyIrq 5, MsiIrq GenericMsi 24 2] (KvmIrqManager_new 0) = Some (Inr (demo_mgr True), ctx) \<and>
    group_heap ctx = [LegacyGroup 5 0, MsiGroup 24 2 [(1, MsiIrqSourceConfig_default), (2, MsiIrqSourceConfig_default)]]"
  by (simp add: DeviceInterruptManager_new_def add_group_def add_msi_group_def attempt_def on_irq_def demo_create_group demo_msi_group get_generic_msi_irqs_def
      get_pci_msi_irqs_def get_pci_msix_irqs_def get_shared_def ok_def KvmIrqManager_new_def empty_manager_def demo_mgr_def
      DEFAULT_MAX_MSI_IRQS_PER_DEVICE_def resize_msi_config_space_def)

definition demo_queue :: "nat \<Rightarrow> bool \<Rightarrow> (u16 \<times> bool) VirtioQueueConfig" where
  "demo_queue fd ready = \<lparr>vq_queue = (256, ready), vq_eventfd = fd, vq_notifier = NoopNotifier, vq_index = 0\<rparr>"

lemma demo_create_queues:
  "create_queues demo_env demo_dev ctx = Some (Inr ([demo_queue (irq_w ctx) False], False), ctx\<lparr>irq_w := Suc (irq_w ctx)\<rparr>)"
  by (simp add: create_queues_def demo_machine attempt_def VirtioQueueConfig_create_def VirtioQueueConfig_new_def ok_def demo_queue_def)

lemma demo_state_new:
  assumes "DeviceInterruptManager_new demo_irq res (KvmIrqManager_new 0) = Some (Inr mgr, ctx)"
  shows "MmioV2DeviceState_new demo_env demo_dev res 0xd0000000 False (KvmIrqManager_new 0) =
    Some (Inr \<lparr>device = demo_dev, intr_mgr = mgr, device_resources = res, queues = [demo_queue (irq_w ctx) False], mmio_base = 0xd0000000,
       has_ctrl_queue = False, device_activated = False, ioevent_registered = False, features_select = 0, acked_features_select = 0,
       queue_select = 0, msi = None, doorbell = None, shm_region_id = 0, shm_regions = None\<rparr>, ctx\<lparr>irq_w := Suc (irq_w ctx)\<rparr>)"
proof -
  have "irq_sys demo_env = demo_irq" "set_resource (dev_ops demo_env) res demo_dev = (Inr None, demo_dev)"
    by (simp_all add: demo_env_def demo_ops_def)
  then show ?thesis using assms by (simp add: MmioV2DeviceState_new_def attempt_def demo_create_queues ok_def)
qed

lemma demo_split:
  "split_resources demo_res = ([LegacyIrq 5, MsiIrq GenericMsi 24 2], Some (0xd0000000, MmioAddressRange 0xd0000000 0x2000))"
  "split_resources demo_bare = ([LegacyIrq 5], Some (0xd0000000, MmioAddressRange 0xd0000000 0x2000))"
  by (simp_all add: demo_res_def demo_bare_def MMIO_DEFAULT_CFG_SIZE_def DRAGONBALL_MMIO_DOORBELL_SIZE_def)

lemma demo_new:
  assumes "split_resources res = (others, Some (0xd0000000, cfg))" "DeviceInterruptManager_new demo_irq others (KvmIrqManager_new 0) = Some (Inr mgr, ctx)"
  shows "\<exists>dev ctx' fd. MmioV2Device_new demo_env demo_dev res None (KvmIrqManager_new 0) = Some (Inr dev, ctx') \<and> driver_status dev = DEVICE_STATUS_INIT \<and>
    group_heap ctx' = group_heap ctx \<and>
    state dev = \<lparr>device = demo_dev, intr_mgr = mgr, device_resources = others, queues = [demo_queue fd False], mmio_base = 0xd0000000,
       has_ctrl_queue = False, device_activated = False, ioevent_registered = False, features_select = 0, acked_features_select = 0,
       queue_select = 0, msi = None, doorbell = None, shm_region_id = 0, shm_regions = None\<rparr>"
  by (auto simp: MmioV2Device_new_def assms(1) Let_def attempt_def demo_state_new [OF assms(2)] ok_def)

lemma demo_created:
  obtains dev ctx fd where "MmioV2Device_new demo_env demo_dev demo_res None (KvmIrqManager_new 0) = Some (Inr dev, ctx)"
    "driver_status dev = DEVICE_STATUS_INIT" "queues (state dev) = [demo_queue fd False]" "queue_select (state dev) = 0"
    "\<not> device_activated (state dev)" "intr_mgr (state dev) = demo_mgr True" "doorbell (state dev) = None" "mmio_base (state dev) = 0xd0000000"
    "group_heap ctx = [LegacyGroup 5 0, MsiGroup 24 2 [(1, MsiIrqSourceConfig_default), (2, MsiIrqSourceConfig_default)]]"
    "\<not> has_ctrl_queue (state dev)" "device (state dev) = demo_dev"
proof -
  obtain ctx where c: "DeviceInterruptManager_new demo_irq [LegacyIrq 5, MsiIrq GenericMsi 24 2] (KvmIrqManager_new 0) = Some (Inr (demo_mgr True), ctx)"
      "group_heap ctx = [LegacyGroup 5 0, MsiGroup 24 2 [(1, MsiIrqSourceConfig_default), (2, MsiIrqSourceConfig_default)]]"
    using demo_manager_msi by blast
  from demo_new [OF demo_split(1) c(1)] show thesis using that c(2) by (elim exE conjE) simp
qed

lemma demo_created_bare:
  obtains dev ctx fd where "MmioV2Device_new demo_env demo_dev demo_bare None (KvmIrqManager_new 0) = Some (Inr dev, ctx)"
    "driver_status dev = DEVICE_STATUS_INIT" "queues (state dev) = [demo_queue fd False]" "queue_select (state dev) = 0"
    "intr_mgr (state dev) = demo_mgr False" "\<not> device_activated (state dev)" "msi (state dev) = None"
proof -
  obtain ctx where "DeviceInterruptManager_new demo_irq [LegacyIrq 5] (KvmIrqManager_new 0) = Some (Inr (demo_mgr False), ctx)"
    using demo_manager_bare by blast
  from demo_new [OF demo_split(2) this] show thesis using that by (elim exE conjE) simp
qed

lemmas device_writes = mmio_device_write_def write_reg_def reg_consts MMIO_CFG_SPACE_OFF_def update_driver_status_def driver_transition_def
  exchange_driver_status_def update_queue_field_def check_driver_status_def change_state_def with_queue_mut_def status_consts

text \<open>The first steps of a driver: the features are agreed, and the queue is ready.\<close>

lemma demo_start_run:
  assumes "driver_status dev = DEVICE_STATUS_INIT" "queues (state dev) = [demo_queue fd False]" "queue_select (state dev) = 0"
  shows "\<exists>dev'. guest_run demo_env demo_start (dev, ctx) = Some (dev', ctx) \<and> driver_status dev' = DEVICE_STATUS_FEATURE_OK \<and>
    state dev' = (state dev)\<lparr>queues := [demo_queue fd True]\<rparr>"
proof -
  have w: "le_word [1, 0, 0, 0] = (1 :: u32)" "le_word [3, 0, 0, 0] = (3 :: u32)" "le_word [11, 0, 0, 0] = (11 :: u32)"
    by simp_all
  show ?thesis
    using assms unfolding status_of_phase(1)
    by (simp add: demo_start_def device_writes w demo_env_def demo_queues_def demo_queue_def del: status_of_phase le_word.simps)
qed

lemma demo_activates:
  assumes "intr_mgr st = demo_mgr True" "queues st = [demo_queue fd True]" "\<not> device_activated st" "doorbell st = None" "mmio_base st = 0xd0000000"
    "group_heap ctx = [LegacyGroup 5 0, MsiGroup 24 2 cs]" "\<not> has_ctrl_queue st" "device st = demo_dev"
  shows "\<exists>st' ctx'. activate demo_env (st, ctx) = Some (Inr (), st', ctx')"
  using assms
  by (simp add: activate_def check_queues_valid_def demo_machine demo_queue_def state_register_ioevent_def attempt_def pure_def register_or_def
      checked_add_def MMIO_NOTIFY_REG_OFFSET_def change_def on_intr_def dim_enable_def switch_mode_def set_working_mode_def demo_mgr_def ok_def Let_def
      vec_index_def get_configs_def on_irq_def group_enable_def on_group_def get_shared_def kvm_call_def set_self_def create_device_config_def
      create_queue_config_def active_group_def get_group_def queue_config_def VirtioQueueConfig_new_def VirtioDeviceConfig_new_def activate_device_def check_queue_sizes_def)

section \<open>Properties\<close>

text \<open>C34: For a device that has its registers in the address space, a legacy interrupt and message signaled interrupts, no
  sequence of accesses by the guest makes the transport panic, whatever KVM and the device answer, and it
  always keeps the status of the driver in one of the five phases of the initialization, failed or not. The device is active only
  when the initialization was completed, and after it was completed without failure the device is active.\<close>

theorem guest_cannot_panic:
  assumes "resources_ok env d res" "MmioV2Device_new env d res features ctx0 = Some (Inr dev0, ctx1)"
  shows "\<exists>dev ctx. guest_run env accs (dev0, ctx1) = Some (dev, ctx) \<and>
    driver_status dev AND NOT DEVICE_FAILED \<in> {DEVICE_STATUS_INIT, DEVICE_STATUS_ACKNOWLEDE, DEVICE_STATUS_DRIVER, DEVICE_STATUS_FEATURE_OK,
      DEVICE_STATUS_DRIVER_OK} \<and>
    (device_activated (state dev) \<longrightarrow> driver_status dev AND NOT DEVICE_FAILED = DEVICE_STATUS_DRIVER_OK) \<and>
    (driver_status dev = DEVICE_STATUS_DRIVER_OK \<longrightarrow> device_activated (state dev))"
proof -
  obtain dev ctx v where r: "guest_run env accs (dev0, ctx1) = Some (dev, ctx)" "device_ok dev ctx v"
    using run_simulates [OF device_new_ok [OF assms]] by blast
  obtain p f a where v: "v = (p, f, a)" by (cases v)
  have "status_word p f AND NOT DEVICE_FAILED = status_word p False"
    by (cases p; cases f) (simp_all add: status_word_def status_consts)
  then show ?thesis using r v by (cases p) (auto simp: device_ok_def)
qed

theorem guest_cannot_panic_witness:
  "\<exists>dev0 ctx1 dev ctx. MmioV2Device_new demo_env demo_dev demo_res None (KvmIrqManager_new 0) = Some (Inr dev0, ctx1) \<and>
    guest_run demo_env demo_start (dev0, ctx1) = Some (dev, ctx) \<and>
    (device_activated (state dev) \<longrightarrow> driver_status dev AND NOT DEVICE_FAILED = DEVICE_STATUS_DRIVER_OK)"
proof -
  obtain dev0 ctx1 where n: "MmioV2Device_new demo_env demo_dev demo_res None (KvmIrqManager_new 0) = Some (Inr dev0, ctx1)"
    using demo_created by metis
  show ?thesis using n guest_cannot_panic [OF demo_resources n, of demo_start] by blast
qed

text \<open>C35: The status register implements the abstract machine of the initialization: at any point of any run, an access of the guest is
  one of its steps, so phases are not skipped, the device is activated by the last step only, and a reset is accepted from the
  last phase only.\<close>

theorem status_refines_machine:
  assumes "resources_ok env d res" "MmioV2Device_new env d res features ctx0 = Some (Inr dev0, ctx1)"
    "guest_run env accs (dev0, ctx1) = Some (dev, ctx)" "guest_step env acc (dev, ctx) = Some (dev', ctx')"
  shows "\<exists>v v'. driver_step\<^sup>*\<^sup>* (Reset, False, False) v \<and> shows_view dev v \<and> driver_step v v' \<and> shows_view dev' v'"
proof -
  obtain v where v: "device_ok dev ctx v" "driver_step\<^sup>*\<^sup>* (Reset, False, False) v"
    using run_simulates [OF device_new_ok [OF assms(1,2)], of env accs] assms(3) by auto
  obtain v' where "device_ok dev' ctx' v'" "driver_step v v'"
    using step_simulates [OF v(1), of env acc] assms(4) by (auto simp: simulates_def)
  then show ?thesis using v unfolding device_ok_def by blast
qed

theorem status_refines_machine_witness:
  "\<exists>dev ctx dev' v v'. guest_step demo_env (GuestWrite REG_MMIO_QUEUE_SEL [1, 0, 0, 0]) (dev, ctx) = Some (dev', ctx) \<and>
    driver_step\<^sup>*\<^sup>* (Reset, False, False) v \<and> shows_view dev v \<and> driver_step v v' \<and> shows_view dev' v' \<and> driver_status dev = DEVICE_STATUS_FEATURE_OK"
proof -
  obtain dev0 ctx1 fd where n: "MmioV2Device_new demo_env demo_dev demo_res None (KvmIrqManager_new 0) = Some (Inr dev0, ctx1)"
      "driver_status dev0 = DEVICE_STATUS_INIT" "queues (state dev0) = [demo_queue fd False]" "queue_select (state dev0) = 0"
    using demo_created by metis
  obtain dev where r: "guest_run demo_env demo_start (dev0, ctx1) = Some (dev, ctx1)" "driver_status dev = DEVICE_STATUS_FEATURE_OK"
    using demo_start_run [OF n(2-4), of ctx1] by auto
  have "guest_step demo_env (GuestWrite REG_MMIO_QUEUE_SEL [1, 0, 0, 0]) (dev, ctx1) = Some (dev\<lparr>state := (state dev)\<lparr>queue_select := 1\<rparr>\<rparr>, ctx1)"
    by (simp add: mmio_device_write_def write_reg_def reg_consts MMIO_CFG_SPACE_OFF_def change_state_def)
  then show ?thesis using status_refines_machine [OF demo_resources n(1) r(1)] r(2) by blast
qed

text \<open>C40: A device that once failed stays failed, whatever the guest writes: the status register never loses the bit
  \<open>DEVICE_FAILED\<close>, not even by a reset.\<close>

theorem failed_is_final:
  assumes "resources_ok env d res" "MmioV2Device_new env d res features ctx0 = Some (Inr dev0, ctx1)"
    "guest_run env accs (dev0, ctx1) = Some (dev, ctx)" "driver_status dev AND DEVICE_FAILED \<noteq> 0"
    "guest_run env later (dev, ctx) = Some (dev', ctx')"
  shows "driver_status dev' AND DEVICE_FAILED \<noteq> 0"
proof -
  obtain v where v: "device_ok dev ctx v" using run_simulates [OF device_new_ok [OF assms(1,2)], of env accs] assms(3) by auto
  obtain v' where v': "device_ok dev' ctx' v'" "driver_step\<^sup>*\<^sup>* v v'" using run_simulates [OF v, of env later] assms(5) by auto
  have "fst (snd v)" using v assms(4) by (cases v) (auto simp: device_ok_def status_word_bits(2))
  then have "fst (snd v')" using failed_forever [OF v'(2)] by simp
  then show ?thesis using v'(1) by (cases v') (auto simp: device_ok_def status_word_bits(2))
qed

theorem failed_is_final_witness:
  "\<exists>dev ctx dev' ctx'. driver_status dev AND DEVICE_FAILED \<noteq> 0 \<and> guest_run demo_env [GuestWrite REG_MMIO_STATUS [0, 0, 0, 0]] (dev, ctx) = Some (dev', ctx') \<and>
    driver_status dev' AND DEVICE_FAILED \<noteq> 0"
proof -
  obtain dev0 ctx1 where n: "MmioV2Device_new demo_env demo_dev demo_res None (KvmIrqManager_new 0) = Some (Inr dev0, ctx1)"
      "driver_status dev0 = DEVICE_STATUS_INIT" "\<not> device_activated (state dev0)"
    using demo_created by metis
  let ?dev = "dev0\<lparr>driver_status := 0x80\<rparr>"
  have "guest_run demo_env [GuestWrite REG_MMIO_STATUS [0x80, 0, 0, 0]] (dev0, ctx1) = Some (?dev, ctx1)"
    using n(2) by (simp add: device_writes set_driver_failed_def del: status_of_phase)
  moreover have "guest_run demo_env [GuestWrite REG_MMIO_STATUS [0, 0, 0, 0]] (?dev, ctx1) = Some (?dev, ctx1)"
    using n(3) by (simp add: device_writes set_driver_failed_def del: status_of_phase)
  moreover have "driver_status ?dev AND DEVICE_FAILED \<noteq> 0" by (simp add: DEVICE_FAILED_def)
  ultimately show ?thesis using failed_is_final [OF demo_resources n(1)] by blast
qed



text \<open>C39: On a device without message signaled interrupts the guest makes the transport panic: it enables them while the device is
  not active, which is accepted, and completes the initialization with valid queues, which then selects a group of interrupts
  that does not exist.\<close>

theorem msi_without_group_panics:
  assumes "registers env" "driver_status dev = DEVICE_STATUS_FEATURE_OK" "\<not> device_activated (state dev)" "msi (state dev) = None"
    "check_queues_valid env (state dev)" "\<not> activated (intr_mgr (state dev))" "intr_mode (intr_mgr (state dev)) \<in> {ModeDisabled, ModeLegacyIrq}"
    "mode2idx (intr_mgr (state dev)) ModeGenericMsiIrq = u64_MAX" "length (intr_groups (intr_mgr (state dev))) \<le> 4"
  shows "guest_run env [GuestWrite REG_MMIO_MSI_CSR (le_bytes 2 MMIO_MSI_CSR_ENABLED), GuestWrite REG_MMIO_STATUS (le_bytes 4 DEVICE_STATUS_DRIVER_OK)]
    (dev, ctx) = None"
proof -
  let ?mgr = "(intr_mgr (state dev))\<lparr>current_idx := u64_MAX, intr_mode := ModeGenericMsiIrq\<rparr>"
  let ?dev = "dev\<lparr>state := (state dev)\<lparr>intr_mgr := ?mgr, msi := Some Msi_default\<rparr>\<rparr>"
  have "update_msi_enable env MMIO_MSI_CSR_ENABLED (dev, ctx) = Some (?dev, ctx)"
    using assms(2,4,6-8) status_word_bits(1) [of FeaturesAgreed False]
    by (auto simp: update_msi_enable_def set_working_mode_def MMIO_MSI_CSR_ENABLED_def Let_def)
  then have "mmio_device_write env REG_MMIO_MSI_CSR (le_bytes 2 MMIO_MSI_CSR_ENABLED) (dev, ctx) = Some (?dev, ctx)"
    by (simp add: mmio_device_write_def le_word_bytes REG_MMIO_MSI_CSR_def MMIO_CFG_SPACE_OFF_def)
  moreover have "activate env (state (?dev\<lparr>driver_status := DEVICE_STATUS_DRIVER_OK\<rparr>), ctx) = None"
    using assms by (intro activate_panics) (auto simp: check_queues_valid_def)
  then have "enter_driver_ok env (?dev, ctx) = None"
    using assms(2) by (simp add: enter_driver_ok_def exchange_driver_status_def on_state_def)
  then have "write_reg env REG_MMIO_STATUS DEVICE_STATUS_DRIVER_OK (?dev, ctx) = None"
    by (simp add: write_reg_def update_driver_status_def driver_transition_def reg_consts)
  then have "mmio_device_write env REG_MMIO_STATUS (le_bytes 4 DEVICE_STATUS_DRIVER_OK) (?dev, ctx) = None"
    by (simp add: mmio_device_write_def le_word_bytes REG_MMIO_STATUS_def MMIO_CFG_SPACE_OFF_def)
  ultimately show ?thesis by simp
qed

theorem msi_without_group_panics_witness:
  "\<exists>dev0 ctx1 dev ctx. MmioV2Device_new demo_env demo_dev demo_bare None (KvmIrqManager_new 0) = Some (Inr dev0, ctx1) \<and>
    guest_run demo_env demo_start (dev0, ctx1) = Some (dev, ctx) \<and>
    guest_run demo_env [GuestWrite REG_MMIO_MSI_CSR (le_bytes 2 MMIO_MSI_CSR_ENABLED), GuestWrite REG_MMIO_STATUS (le_bytes 4 DEVICE_STATUS_DRIVER_OK)]
      (dev, ctx) = None"
proof -
  obtain dev0 ctx1 fd where n: "MmioV2Device_new demo_env demo_dev demo_bare None (KvmIrqManager_new 0) = Some (Inr dev0, ctx1)"
      "driver_status dev0 = DEVICE_STATUS_INIT" "queues (state dev0) = [demo_queue fd False]" "queue_select (state dev0) = 0"
      "intr_mgr (state dev0) = demo_mgr False" "\<not> device_activated (state dev0)" "msi (state dev0) = None"
    using demo_created_bare by metis
  obtain dev where r: "guest_run demo_env demo_start (dev0, ctx1) = Some (dev, ctx1)" "driver_status dev = DEVICE_STATUS_FEATURE_OK"
      "state dev = (state dev0)\<lparr>queues := [demo_queue fd True]\<rparr>"
    using demo_start_run [OF n(2-4), of ctx1] by auto
  have "registers demo_env" "check_queues_valid demo_env (state dev)"
    using r(3) by (simp_all add: registers_def demo_env_def check_queues_valid_def demo_queues_def demo_queue_def)
  then have "guest_run demo_env [GuestWrite REG_MMIO_MSI_CSR (le_bytes 2 MMIO_MSI_CSR_ENABLED),
      GuestWrite REG_MMIO_STATUS (le_bytes 4 DEVICE_STATUS_DRIVER_OK)] (dev, ctx1) = None"
    using n(5-7) r(2,3) by (intro msi_without_group_panics) (simp_all add: demo_mgr_def)
  then show ?thesis using n(1) r(1) by blast
qed



end
