(* ===== verification/Spec2Isabelle.thy ===== *)
theory Spec2Isabelle
  imports IntervalTree_Props ResourceManager_Props Vsock_Muxer_Props Rate_Limiter_Props Io_Manager_Props Address_Space_Props Interrupt_Routes Virtio_Mmio_Props
begin

text \<open>
  \<^bold>\<open>Verified components of the Dragonball virtual machine monitor.\<close> Dragonball is the built-in
  hypervisor of Kata Containers, in \<open>src/dragonball\<close>. The theories below model the parts that own
  state shared between devices: who holds which address, interrupt or memory slot, where the guest's
  memory is, which device an access goes to, how sockets between host and guest are multiplexed,
  and how fast a device may do input and output.

  \<^bold>\<open>How the parts interact.\<close> An interval tree per kind of resource keeps the free and the allocated
  ranges. The resource manager owns six such pools and gives devices their ports, addresses and
  interrupts. The address space manager takes the guest's memory and its KVM slots from it and keeps
  the address space. The I/O manager is given the ranges that the resource manager granted and
  sends each trapped access to the owner of the address. The vsock device is one such device: its
  muxer routes packets between the guest and the host streams, one state machine per connection,
  with a ring buffer for what the host has not taken. The rate limiter is used by the block and
  network devices.

  \<^bold>\<open>Conventions\<close> (\<open>Rust_Prelude\<close>). Machine integers are words of their width. A function that may
  panic returns \<open>'a rust\<close>, which is \<open>'a option\<close> with \<open>panic = None\<close>; arithmetic that Rust checks in debug
  builds (\<open>uadd\<close>, \<open>usub\<close>, \<open>umul\<close>) panics on overflow, and the \<open>checked_\<close> functions give \<open>None\<close> as in Rust.
  \<open>Result\<close> is the sum type with \<open>Inl\<close> the error. A method on \<open>&mut self\<close> returns the new state. Code of
  other crates and of the operating system is an argument of the definitions, and what the properties
  need of it is a named hypothesis with a witness.

  \<^bold>\<open>Allocator\<close> (\<open>dbs_allocator\<close>). \<open>Alloc_Range\<close> has \<open>Constraint\<close>, \<open>Range\<close> and \<open>NodeState\<close>; \<open>IntervalTree\<close>
  has the AVL tree of \<open>interval_tree.rs\<close> with every rotation, \<open>insert\<close>, \<open>update\<close>, \<open>delete\<close>, \<open>allocate\<close>, \<open>free\<close> and
  the searches. \<open>IntervalTree_Inv\<close> proves that all operations keep the tree balanced, ordered and
  disjoint and that none panics on it; \<open>IntervalTree_Entries\<close> sees it as a map from addresses to
  states; \<open>IntervalTree_Alloc\<close> and \<open>IntervalTree_Free\<close> give \<open>allocate\<close> and \<open>free\<close> on that view, and
  \<open>Range_Pool\<close> states the result as the locale \<open>range_pool\<close>, interpreted on the tree. \<open>IntervalTree_Props\<close>
  holds the properties: the least suitable range is found if there is one, a freed range merges
  with its neighbours, ranges handed out never overlap, the height is at most 128.

  \<^bold>\<open>Resource manager\<close> (\<open>dbs_device/resources.rs\<close>, \<open>resource_manager.rs\<close>, constants of
  \<open>dbs_boot/x86_64/layout.rs\<close>). \<open>Resources\<close> and \<open>ResourceManager\<close> have the requests, the granted
  resources and all operations of the manager, for x86_64. \<open>ResourceManager_Lemmas\<close> proves them as a
  client of \<open>range_pool\<close>; \<open>ResourceManager_Props\<close> shows that a device gets all it asked for or nothing,
  that a release restores the manager, and that no two devices share anything in any run.

  \<^bold>\<open>Address space\<close> (\<open>dbs_address_space\<close>, \<open>address_space_manager.rs\<close>). \<open>Address_Space\<close> has regions, layout
  and the address space with its queries, \<open>Address_Space_Mgr\<close> the manager that creates the guest's
  memory. An operation that calls the system is a function from the state to a result and the new
  state; \<open>attempt\<close> is the operator \<open>?\<close>, and the lemmas use the total-correctness triple \<open>gives\<close> of
  \<open>Address_Space_Lemmas\<close>. \<open>Address_Space_Place\<close> and \<open>Address_Space_Map\<close> treat the two loops of the
  creation; \<open>Address_Space_Props\<close> holds the properties.

  \<^bold>\<open>I/O manager\<close> (\<open>dbs_device/device_manager.rs\<close>). \<open>Io_Manager\<close> has registration, removal and dispatch;
  \<open>Io_Manager_Lemmas\<close> has the locale \<open>range_index\<close>, the contract of a map of ranges, interpreted on the
  two buses; \<open>Io_Manager_Props\<close> composes it with the resource manager: in every machine an access
  reaches the device that was granted the address.

  \<^bold>\<open>Vsock\<close> (\<open>dbs_virtio_devices/vsock\<close>). \<open>Vsock_Packet\<close> has the packets and their checks, \<open>Vsock_TxBuf\<close> the
  ring buffer and its refinement to a queue of bytes, \<open>Vsock_Csm\<close> the connection, \<open>Vsock_Queues\<close> the
  receive and kill queues, \<open>Vsock_Muxer\<close> the muxer and \<open>Vsock_Events\<close> its events. The lemma theories
  \<open>Vsock_Csm_Lemmas\<close>, \<open>Vsock_Muxer_Lemmas\<close>, \<open>Vsock_Muxer_Ops\<close> and \<open>Vsock_Ports\<close> carry the invariants;
  \<open>Vsock_Conn_Props\<close> and \<open>Vsock_Muxer_Props\<close> hold the properties: bytes arrive in order and at most
  within the granted credit, nothing panics, receive loops end, queues in sync miss no connection.

  \<^bold>\<open>Rate limiter\<close> (\<open>dbs_utils/rate_limiter.rs\<close>). \<open>Rate_Limiter\<close> has the token bucket and the limiter with
  its timer, on explicit times; \<open>Rate_Limiter_Props\<close> bounds the tokens handed out over any run.

  \<^bold>\<open>Bounds.\<close> No property is about a bounded version of the code and no loop has fuel. Loops are structural
  recursion or have a termination proof. The search for a local port, the sweep of the kill queue, the
  receive loop and the flush of the ring buffer, whose end depends on their arguments, are
  \<open>partial_function (option)\<close>: not returning is \<open>None\<close> like a panic, and they are proved to return.

  \<^bold>\<open>Simplifications.\<close> Log messages have no effect except that their arguments are computed. The
  sorting of the kill queue and of address space regions is stable in the model and unspecified for equal
  keys in the source; no equal keys matter in the properties. The event set of a poll consists of the
  bits that the kernel defines. Locks are held for the whole operation, so operations are atomic.

  \<^bold>\<open>Not modelled.\<close> In the same crates: the virtqueue side of the vsock device and its host streams
  (code of other crates and sockets), the other virtio devices, KVM interrupts, boot tables, CPU
  setup, the vcpu threads and the API server (ioctls, threads and guest memory of other crates). Of
  the rest of the repository: the agent, \<open>rustjail\<close>, the runtimes, the libraries and the tools, which
  are mostly effects on the operating system, asynchronous services and generated code.
\<close>

end
